(* ===== verification/Pitgun_Prelude.thy ===== *)
theory Pitgun_Prelude
  imports Main "HOL-Library.Word" "HOL-Library.List_Lexorder" "HOL-Library.Char_ord" "HOL-Library.Sublist"
begin

text \<open>
  Shared vocabulary of the development.

  \<^item> the machine integers of the Rust sources as words of the same width;
  \<^item> \<open>Result<T, E>\<close> as the sum \<open>'e + 'a\<close>, with the operators that the \<open>?\<close> operator,
    \<open>map_err\<close> and early returns of a \<open>for\<close> loop stand for;
  \<^item> Rust strings as the list of their UTF-8 bytes, with the few functions of
    the standard library that the sources call on them;
  \<^item> decimal printing and parsing of unsigned integers;
  \<^item> little- and big-endian byte strings;
  \<^item> the locales that state the interfaces several components share: a
    canonical text codec, a prefix byte codec, and a guarded state machine.
\<close>

section \<open>Machine integers\<close>

type_synonym u8 = "8 word"
type_synonym u16 = "16 word"
type_synonym u32 = "32 word"
type_synonym u64 = "64 word"
type_synonym i64 = "64 word"
type_synonym bytes = "8 word list"

text \<open>\<open>u64::checked_add\<close> and \<open>u64::saturating_sub\<close> on words of any width.\<close>

definition checked_add :: "'a::len word \<Rightarrow> 'a word \<Rightarrow> 'a word option" where
  "checked_add a b = (if unat a + unat b < 2 ^ LENGTH('a) then Some (a + b) else None)"

definition saturating_add :: "'a::len word \<Rightarrow> 'a word \<Rightarrow> 'a word" where
  "saturating_add a b = (if unat a + unat b < 2 ^ LENGTH('a) then a + b else - 1)"

definition saturating_sub :: "'a::len word \<Rightarrow> 'a word \<Rightarrow> 'a word" where
  "saturating_sub a b = (if b \<le> a then a - b else 0)"

text \<open>\<open>i64::unsigned_abs\<close>: the magnitude of a two's complement integer.\<close>

definition unsigned_abs :: "i64 \<Rightarrow> u64" where
  "unsigned_abs v = (if sint v < 0 then - v else v)"

lemma unat_plus_no_overflow:
  fixes a b :: "'a::len word"
  assumes "unat a + unat b < 2 ^ LENGTH('a)"
  shows "unat (a + b) = unat a + unat b"
  using assms by (simp add: unat_word_ariths)

lemma checked_add_Some:
  "checked_add a b = Some c \<longleftrightarrow>
     unat a + unat b < 2 ^ LENGTH('a) \<and> c = a + b" for a b :: "'a::len word"
  by (auto simp: checked_add_def)

lemma checked_add_unat:
  "checked_add a b = Some c \<Longrightarrow> unat c = unat a + unat b" for a b :: "'a::len word"
  by (simp add: checked_add_Some unat_plus_no_overflow)

lemma unat_max_word: "unat (- 1 :: 'a::len word) = 2 ^ LENGTH('a) - 1"
  by (simp add: unsigned_minus_1_eq_mask mask_eq_exp_minus_1)

lemma unat_saturating_add:
  "unat (saturating_add a b) = min (unat a + unat b) (2 ^ LENGTH('a) - 1)" for a b :: "'a::len word"
  by (auto simp: saturating_add_def unat_plus_no_overflow unat_max_word)

lemma unat_saturating_sub:
  "unat (saturating_sub a b) = unat a - unat b" for a b :: "'a::len word"
  by (auto simp: saturating_sub_def unat_sub word_le_nat_alt)

lemma uint_lt_64: "uint (v :: 64 word) < 2 ^ 64"
  using uint_lt2p [of v] by simp

lemma sint_eq_uint:
  fixes v :: i64
  shows "sint v = uint v - 2 ^ 64 * of_bool (bit (uint v) 63)"
  by (simp add: sint_uint signed_take_bit_eq_take_bit_minus 
      take_bit_int_eq_self [OF uint_nonnegative uint_lt_64])

lemma sint_cases:
  fixes v :: i64
  shows "sint v = uint v \<or> sint v = uint v - 2 ^ 64"
  by (simp add: sint_eq_uint of_bool_def)

lemma uint_uminus: "v \<noteq> 0 \<Longrightarrow> uint (- v) = 2 ^ 64 - uint v" for v :: "64 word"
proof -
  assume "v \<noteq> 0"
  then have "0 < uint v" by (metis uint_0_iff uint_nonnegative order_le_less)
  moreover have "uint v < 2 ^ 64" by (rule uint_lt_64)
  ultimately have "(- uint v) mod 2 ^ 64 = 2 ^ 64 - uint v"
    by (simp add: zmod_zminus1_eq_if)
  then show ?thesis by (simp add: uint_word_ariths)
qed

lemma uint_unsigned_abs: "uint (unsigned_abs v) = \<bar>sint v\<bar>"
proof (cases "sint v < 0")
  case True
  then have "v \<noteq> 0" by auto
  moreover have "sint v = uint v - 2 ^ 64"
    using sint_cases [of v] True uint_nonnegative [of v] by linarith
  ultimately show ?thesis
    using True by (simp add: unsigned_abs_def uint_uminus)
next
  case False
  then have "sint v = uint v"
    using sint_cases [of v] uint_lt_64 [of v] by linarith
  then show ?thesis
    using False by (simp add: unsigned_abs_def)
qed

lemma unat_unsigned_abs: "unat (unsigned_abs v) = nat \<bar>sint v\<bar>"
  by (simp add: unat_eq_nat_uint uint_unsigned_abs)

lemma checked_add_one_iff:
  "checked_add a 1 = Some b \<longleftrightarrow> unat b = unat a + 1" for a b :: u64
proof
  assume "unat b = unat a + 1"
  moreover have "unat b < 2 ^ 64" using unsigned_less [of b, where 'a = nat] by simp
  ultimately have "unat a + unat (1 :: u64) < 2 ^ LENGTH(64)" "b = a + 1"
    by (simp_all add: word_unat_eq_iff unat_word_ariths)
  then show "checked_add a 1 = Some b" by (simp add: checked_add_Some)
qed (simp add: checked_add_unat)

section \<open>Results and early returns\<close>

type_synonym ('e, 'a) result = "'e + 'a"

abbreviation Err :: "'e \<Rightarrow> 'e + 'a" where "Err \<equiv> Inl"
abbreviation Ok :: "'a \<Rightarrow> 'e + 'a" where "Ok \<equiv> Inr"

text \<open>\<open>and_then r f\<close> is \<open>f(r?)\<close>; \<open>ensure b e\<close> is \<open>if !b { return Err(e) }\<close>;
  \<open>try_each\<close> and \<open>try_fold\<close> are \<open>for\<close> loops whose body may return an error.\<close>

definition and_then :: "'e + 'a \<Rightarrow> ('a \<Rightarrow> 'e + 'b) \<Rightarrow> 'e + 'b" where
  "and_then r f = (case r of Inl e \<Rightarrow> Inl e | Inr x \<Rightarrow> f x)"

definition and_also :: "'e + unit \<Rightarrow> 'e + 'b \<Rightarrow> 'e + 'b" where
  "and_also r s = and_then r (\<lambda>_. s)"

definition ensure :: "bool \<Rightarrow> 'e \<Rightarrow> 'e + unit" where
  "ensure b e = (if b then Inr () else Inl e)"

definition ok_or :: "'a option \<Rightarrow> 'e \<Rightarrow> 'e + 'a" where
  "ok_or v e = (case v of None \<Rightarrow> Inl e | Some x \<Rightarrow> Inr x)"

definition map_err :: "('e \<Rightarrow> 'f) \<Rightarrow> 'e + 'a \<Rightarrow> 'f + 'a" where
  "map_err f r = (case r of Inl e \<Rightarrow> Inl (f e) | Inr x \<Rightarrow> Inr x)"

definition map_ok :: "('a \<Rightarrow> 'b) \<Rightarrow> 'e + 'a \<Rightarrow> 'e + 'b" where
  "map_ok f r = (case r of Inl e \<Rightarrow> Inl e | Inr x \<Rightarrow> Inr (f x))"

fun try_each :: "('a \<Rightarrow> 'e + unit) \<Rightarrow> 'a list \<Rightarrow> 'e + unit" where
  "try_each f [] = Inr ()"
| "try_each f (x # xs) = and_also (f x) (try_each f xs)"

fun try_fold :: "('s \<Rightarrow> 'a \<Rightarrow> 'e + 's) \<Rightarrow> 's \<Rightarrow> 'a list \<Rightarrow> 'e + 's" where
  "try_fold f s [] = Inr s"
| "try_fold f s (x # xs) = and_then (f s x) (\<lambda>s'. try_fold f s' xs)"

fun try_map :: "('a \<Rightarrow> 'e + 'b) \<Rightarrow> 'a list \<Rightarrow> 'e + 'b list" where
  "try_map f [] = Inr []"
| "try_map f (x # xs) = and_then (f x) (\<lambda>y. map_ok ((#) y) (try_map f xs))"

definition is_ok :: "'e + 'a \<Rightarrow> bool" where
  "is_ok r = (case r of Inl _ \<Rightarrow> False | Inr _ \<Rightarrow> True)"

named_theorems result_simps \<open>what a successful or failed result says about its parts\<close>

lemma and_then_simps [simp]:
  "and_then (Inl e) f = Inl e" "and_then (Inr x) f = f x"
  by (simp_all add: and_then_def)

lemma and_also_simps [simp]:
  "and_also (Inl e) s = Inl e" "and_also (Inr u) s = s"
  by (simp_all add: and_also_def)

lemma map_err_simps [simp]:
  "map_err f (Inl e) = Inl (f e)" "map_err f (Inr x) = Inr x"
  by (simp_all add: map_err_def)

lemma map_ok_simps [simp]:
  "map_ok f (Inl e) = Inl e" "map_ok f (Inr x) = Inr (f x)"
  by (simp_all add: map_ok_def)

lemma ok_or_simps [simp]: "ok_or None e = Inl e" "ok_or (Some x) e = Inr x"
  by (simp_all add: ok_or_def)

lemma ensure_simps [simp]: "ensure True e = Inr ()" "ensure False e = Inl e"
  by (simp_all add: ensure_def)

lemma is_ok_simps [simp]: "is_ok (Inl e) = False" "is_ok (Inr x) = True"
  by (simp_all add: is_ok_def)

lemma is_ok_iff: "is_ok r \<longleftrightarrow> (\<exists>x. r = Inr x)"
  by (cases r) auto

lemma and_then_Ok [result_simps]: "and_then r f = Inr y \<longleftrightarrow> (\<exists>x. r = Inr x \<and> f x = Inr y)"
  by (cases r) auto

lemma and_then_Err [result_simps]:
  "and_then r f = Inl e \<longleftrightarrow> r = Inl e \<or> (\<exists>x. r = Inr x \<and> f x = Inl e)"
  by (cases r) auto

lemma and_also_Ok [result_simps]: "and_also r s = Inr y \<longleftrightarrow> r = Inr () \<and> s = Inr y"
  by (cases r) auto

lemma and_also_Err [result_simps]:
  "and_also r s = Inl e \<longleftrightarrow> r = Inl e \<or> r = Inr () \<and> s = Inl e"
  by (cases r) auto

lemma ensure_Ok [result_simps]: "ensure b e = Inr u \<longleftrightarrow> b"
  by (simp add: ensure_def)

lemma ensure_Err [result_simps]: "ensure b e = Inl e' \<longleftrightarrow> \<not> b \<and> e' = e"
  by (auto simp: ensure_def)

lemma ok_or_Ok [result_simps]: "ok_or v e = Inr x \<longleftrightarrow> v = Some x"
  by (cases v) auto

lemma ok_or_Err [result_simps]: "ok_or v e = Inl e' \<longleftrightarrow> v = None \<and> e' = e"
  by (cases v) auto

lemma map_err_Ok [result_simps]: "map_err f r = Inr x \<longleftrightarrow> r = Inr x"
  by (cases r) auto

lemma map_err_Err [result_simps]: "map_err f r = Inl e \<longleftrightarrow> (\<exists>d. r = Inl d \<and> e = f d)"
  by (cases r) auto

lemma map_ok_Ok [result_simps]: "map_ok f r = Inr y \<longleftrightarrow> (\<exists>x. r = Inr x \<and> y = f x)"
  by (cases r) auto

lemma map_ok_Err [result_simps]: "map_ok f r = Inl e \<longleftrightarrow> r = Inl e"
  by (cases r) auto

lemma try_each_Ok [result_simps]: "try_each f xs = Inr u \<longleftrightarrow> (\<forall>x\<in>set xs. f x = Inr ())"
  by (induction xs) (auto simp: and_also_Ok)

lemma try_each_find:
  "try_each f xs = (case List.find (\<lambda>x. f x \<noteq> Inr ()) xs of None \<Rightarrow> Inr () | Some x \<Rightarrow> f x)"
proof (induction xs)
  case (Cons x xs)
  then show ?case by (cases "f x") auto
qed simp

lemma try_fold_append:
  "try_fold f s (xs @ ys) = and_then (try_fold f s xs) (\<lambda>s'. try_fold f s' ys)"
proof (induction xs arbitrary: s)
  case (Cons x xs)
  then show ?case by (cases "f s x") auto
qed simp

lemma try_fold_invariant:
  assumes "try_fold f s xs = Inr s'" "I s"
    "\<And>s x s'. \<lbrakk> I s; x \<in> set xs; f s x = Inr s' \<rbrakk> \<Longrightarrow> I s'"
  shows "I s'"
  using assms
proof (induction xs arbitrary: s)
  case (Cons x xs)
  from Cons.prems(1) obtain t where t: "f s x = Inr t" "try_fold f t xs = Inr s'"
    by (auto simp: and_then_Ok)
  show ?case
    by (rule Cons.IH [OF t(2)]) (use Cons.prems t in auto)
qed simp

lemma try_map_Ok [result_simps]:
  "try_map f xs = Inr ys \<longleftrightarrow> list_all2 (\<lambda>x y. f x = Inr y) xs ys"
proof (induction xs arbitrary: ys)
  case (Cons x xs)
  then show ?case by (cases ys) (auto simp: and_then_Ok map_ok_Ok)
qed auto

lemma try_map_length: "try_map f xs = Inr ys \<Longrightarrow> length ys = length xs"
  by (auto simp: try_map_Ok dest: list_all2_lengthD)

section \<open>Rust strings as UTF-8 bytes\<close>

text \<open>A \<open>String\<close> is the list of its UTF-8 bytes, each a HOL character; \<open>len()\<close> is its
  length and its \<open>Ord\<close> instance is the lexicographic order of the bytes.\<close>

abbreviation ord_of :: "char \<Rightarrow> nat" where "ord_of c \<equiv> of_char c"

definition is_ascii_digit :: "char \<Rightarrow> bool" where
  "is_ascii_digit c \<longleftrightarrow> 48 \<le> ord_of c \<and> ord_of c \<le> 57"

definition is_ascii_lowercase :: "char \<Rightarrow> bool" where
  "is_ascii_lowercase c \<longleftrightarrow> 97 \<le> ord_of c \<and> ord_of c \<le> 122"

definition is_ascii_uppercase :: "char \<Rightarrow> bool" where
  "is_ascii_uppercase c \<longleftrightarrow> 65 \<le> ord_of c \<and> ord_of c \<le> 90"

definition is_ascii_alphabetic :: "char \<Rightarrow> bool" where
  "is_ascii_alphabetic c \<longleftrightarrow> is_ascii_lowercase c \<or> is_ascii_uppercase c"

definition is_ascii_alphanumeric :: "char \<Rightarrow> bool" where
  "is_ascii_alphanumeric c \<longleftrightarrow> is_ascii_alphabetic c \<or> is_ascii_digit c"

text \<open>\<open>s.chars().any(char::is_control)\<close>: the control characters are U+0000 to U+001F and
  U+007F to U+009F; the latter are encoded as the byte pairs C2 80 to C2 9F.\<close>

fun has_control :: "string \<Rightarrow> bool" where
  "has_control [] = False"
| "has_control (c # cs) \<longleftrightarrow>
     ord_of c < 32 \<or> ord_of c = 127 \<or>
     (ord_of c = 194 \<and> (case cs of [] \<Rightarrow> False | d # _ \<Rightarrow> 128 \<le> ord_of d \<and> ord_of d < 160)) \<or>
     has_control cs"

text \<open>\<open>as_bytes()\<close>: the bytes of a string.\<close>

definition as_bytes :: "string \<Rightarrow> bytes" where
  "as_bytes s = map (\<lambda>c. word_of_nat (ord_of c)) s"

definition from_utf8_bytes :: "bytes \<Rightarrow> string" where
  "from_utf8_bytes bs = map (\<lambda>b. char_of (unat b)) bs"

lemma ord_of_less_256: "ord_of c < 256"
  by simp

lemma from_utf8_as_bytes [simp]: "from_utf8_bytes (as_bytes s) = s"
proof -
  have "unat (word_of_nat (ord_of c) :: u8) = ord_of c" for c
    by (simp add: unsigned_of_nat take_bit_nat_eq_self ord_of_less_256)
  then show ?thesis
    by (simp add: from_utf8_bytes_def as_bytes_def o_def)
qed

lemma as_bytes_inject [simp]: "as_bytes s = as_bytes t \<longleftrightarrow> s = t"
  by (metis from_utf8_as_bytes)

lemma length_as_bytes [simp]: "length (as_bytes s) = length s"
  by (simp add: as_bytes_def)

lemma as_bytes_append [simp]: "as_bytes (s @ t) = as_bytes s @ as_bytes t"
  by (simp add: as_bytes_def)

lemma as_from_utf8_bytes [simp]: "as_bytes (from_utf8_bytes bs) = bs"
proof -
  have "word_of_nat (ord_of (char_of (unat b) :: char)) = b" for b :: u8
    using unsigned_less [of b, where 'a = nat] by simp
  then show ?thesis
    by (simp add: from_utf8_bytes_def as_bytes_def o_def)
qed

text \<open>\<open>strip_prefix\<close> of the standard library.\<close>

fun strip_prefix :: "'a list \<Rightarrow> 'a list \<Rightarrow> 'a list option" where
  "strip_prefix [] s = Some s"
| "strip_prefix (p # ps) [] = None"
| "strip_prefix (p # ps) (c # cs) = (if p = c then strip_prefix ps cs else None)"

lemma strip_prefix_Some: "strip_prefix p s = Some t \<longleftrightarrow> s = p @ t"
  by (induction p s rule: strip_prefix.induct) auto

lemma strip_prefix_append [simp]: "strip_prefix p (p @ t) = Some t"
  by (simp add: strip_prefix_Some)

section \<open>Decimal text of unsigned integers\<close>

definition digit_char :: "nat \<Rightarrow> char" where
  "digit_char d = char_of (48 + d)"

fun show_nat :: "nat \<Rightarrow> string" where
  "show_nat n = (if n < 10 then [digit_char n] else show_nat (n div 10) @ [digit_char (n mod 10)])"

declare show_nat.simps [simp del]

definition show_int :: "int \<Rightarrow> string" where
  "show_int i = (if i < 0 then CHR ''-'' # show_nat (nat (- i)) else show_nat (nat i))"

definition dec_value :: "string \<Rightarrow> nat" where
  "dec_value s = foldl (\<lambda>acc c. acc * 10 + (ord_of c - 48)) 0 s"

text \<open>One digit, or a digit string that does not start with 0.\<close>

fun canonical_digits :: "string \<Rightarrow> bool" where
  "canonical_digits [] = False"
| "canonical_digits (c # cs) \<longleftrightarrow>
     (ord_of c = 48 \<and> cs = []) \<or> (49 \<le> ord_of c \<and> ord_of c \<le> 57 \<and> list_all is_ascii_digit cs)"

text \<open>\<open>str::parse::<u64>\<close>: an optional \<open>+\<close>, at least one digit, and no overflow.\<close>

definition parse_u64 :: "string \<Rightarrow> u64 option" where
  "parse_u64 s =
     (let ds = (case s of c # cs \<Rightarrow> if c = CHR ''+'' then cs else s | [] \<Rightarrow> [])
      in if ds \<noteq> [] \<and> list_all is_ascii_digit ds \<and> dec_value ds < 2 ^ 64
         then Some (word_of_nat (dec_value ds)) else None)"

lemma ord_digit_char [simp]: "d < 10 \<Longrightarrow> ord_of (digit_char d) = 48 + d"
  by (simp add: digit_char_def)

lemma digit_char_literals [simp]:
  "digit_char 0 = CHR ''0''" "digit_char (Suc 0) = CHR ''1''" "digit_char 1 = CHR ''1''"
  "digit_char 2 = CHR ''2''" "digit_char 3 = CHR ''3''" "digit_char 4 = CHR ''4''"
  "digit_char 5 = CHR ''5''" "digit_char 6 = CHR ''6''" "digit_char 7 = CHR ''7''"
  "digit_char 8 = CHR ''8''" "digit_char 9 = CHR ''9''"
  by code_simp+

lemma dec_value_snoc [simp]: "dec_value (s @ [c]) = dec_value s * 10 + (ord_of c - 48)"
  by (simp add: dec_value_def)

lemma dec_value_Nil [simp]: "dec_value [] = 0"
  by (simp add: dec_value_def)

lemma dec_value_show_nat [simp]: "dec_value (show_nat n) = n"
proof (induction n rule: show_nat.induct)
  case (1 n)
  show ?case
  proof (cases "n < 10")
    case True
    then have "dec_value ([] @ [digit_char n]) = n"
      by (simp only: dec_value_snoc) simp
    then show ?thesis using True by (simp add: show_nat.simps [of n])
  next
    case False
    then show ?thesis using 1 by (simp add: show_nat.simps [of n])
  qed
qed

lemma show_nat_inject [simp]: "show_nat m = show_nat n \<longleftrightarrow> m = n"
  by (metis dec_value_show_nat)

lemma digits_show_nat: "list_all is_ascii_digit (show_nat n)"
proof (induction n rule: show_nat.induct)
  case (1 n)
  then show ?case
    by (cases "n < 10") (simp_all add: show_nat.simps [of n] is_ascii_digit_def)
qed

lemma canonical_digits_snoc:
  "canonical_digits (s @ [c]) \<longleftrightarrow>
     is_ascii_digit c \<and> (s = [] \<or> canonical_digits s \<and> dec_value s \<noteq> 0)"
proof (cases s)
  case Nil
  then show ?thesis by (auto simp: is_ascii_digit_def)
next
  case e: (Cons e es)
  have pos: "dec_value (e # es) \<noteq> 0" if "49 \<le> ord_of e" for e es
  proof (induction es rule: rev_induct)
    case Nil
    then show ?case using that by (simp add: dec_value_def)
  next
    case (snoc x xs)
    have "dec_value (e # xs @ [x]) = dec_value (e # xs) * 10 + (ord_of x - 48)"
      using dec_value_snoc [of "e # xs" x] by simp
    then show ?case using snoc by simp
  qed
  show ?thesis
  proof (cases "ord_of e = 48")
    case True
    then show ?thesis using e by (auto simp: is_ascii_digit_def dec_value_def)
  next
    case False
    then show ?thesis using e pos [of e es] by auto
  qed
qed

lemma show_nat_not_Nil [simp]: "show_nat n \<noteq> []"
  by (simp add: show_nat.simps [of n])

lemma canonical_digits_show_nat: "canonical_digits (show_nat n)"
proof (induction n rule: show_nat.induct)
  case (1 n)
  show ?case
  proof (cases "n < 10")
    case True
    then show ?thesis
      by (simp add: show_nat.simps [of n]) (cases n; simp)
  next
    case False
    then have "n mod 10 \<le> 9" "0 < n div 10" by simp_all
    with False show ?thesis
      using 1 by (simp add: show_nat.simps [of n] canonical_digits_snoc is_ascii_digit_def)
  qed
qed

lemma digit_char_of_digit: "is_ascii_digit c \<Longrightarrow> digit_char (ord_of c - 48) = c"
  by (simp add: digit_char_def is_ascii_digit_def)

lemma show_nat_dec_value: "canonical_digits s \<Longrightarrow> show_nat (dec_value s) = s"
proof (induction s rule: rev_induct)
  case (snoc c s)
  from snoc.prems have c: "is_ascii_digit c"
    and s: "s = [] \<or> canonical_digits s \<and> dec_value s \<noteq> 0"
    by (auto simp: canonical_digits_snoc)
  define d where "d = ord_of c - 48"
  have d: "d < 10" "digit_char d = c"
    using c digit_char_of_digit [OF c] by (auto simp: d_def is_ascii_digit_def)
  from s show ?case
  proof
    assume "s = []"
    then show ?thesis using d dec_value_snoc [of "[]" c] by (simp add: d_def show_nat.simps)
  next
    assume "canonical_digits s \<and> dec_value s \<noteq> 0"
    then show ?thesis
      using snoc.IH d by (simp add: show_nat.simps [of "dec_value s * 10 + d"] flip: d_def)
  qed
qed simp

lemma canonical_digits_digits: "canonical_digits s \<Longrightarrow> s \<noteq> [] \<and> list_all is_ascii_digit s"
  by (cases s) (auto simp: is_ascii_digit_def)

lemma canonical_digits_not_plus: "canonical_digits (c # cs) \<Longrightarrow> c \<noteq> CHR ''+''"
  by auto

lemma parse_u64_canonical:
  assumes "canonical_digits s"
  shows "parse_u64 s = (if dec_value s < 2 ^ 64 then Some (word_of_nat (dec_value s)) else None)"
proof (cases s)
  case (Cons c cs)
  then show ?thesis
    using assms canonical_digits_not_plus canonical_digits_digits [OF assms]
    by (auto simp: parse_u64_def Let_def)
qed (use assms in simp)

lemma unat_word_of_nat_64 [simp]: "n < 2 ^ 64 \<Longrightarrow> unat (word_of_nat n :: 64 word) = n"
  by (simp add: unsigned_of_nat take_bit_nat_eq_self)

section \<open>Little- and big-endian byte strings\<close>

text \<open>\<open>to_le_bytes\<close> and \<open>from_le_bytes\<close> of an unsigned integer of \<open>n\<close> bytes, on its value.\<close>

primrec nat_to_le :: "nat \<Rightarrow> nat \<Rightarrow> bytes" where
  "nat_to_le 0 x = []"
| "nat_to_le (Suc n) x = word_of_nat x # nat_to_le n (x div 256)"

primrec nat_from_le :: "bytes \<Rightarrow> nat" where
  "nat_from_le [] = 0"
| "nat_from_le (b # bs) = unat b + 256 * nat_from_le bs"

definition nat_to_be :: "nat \<Rightarrow> nat \<Rightarrow> bytes" where
  "nat_to_be n x = rev (nat_to_le n x)"

definition nat_from_be :: "bytes \<Rightarrow> nat" where
  "nat_from_be bs = nat_from_le (rev bs)"

lemma length_nat_to_le [simp]: "length (nat_to_le n x) = n"
  by (induction n arbitrary: x) simp_all

lemma nat_from_to_le: "nat_from_le (nat_to_le n x) = x mod 256 ^ n"
proof (induction n arbitrary: x)
  case (Suc n)
  have "x mod 256 + 256 * (x div 256 mod 256 ^ n) = x mod (256 * 256 ^ n)"
    by (simp add: mod_mult2_eq)
  then show ?case
    by (simp add: Suc.IH unsigned_of_nat take_bit_eq_mod)
qed simp

lemma nat_from_to_le_small [simp]: "x < 256 ^ n \<Longrightarrow> nat_from_le (nat_to_le n x) = x"
  by (simp add: nat_from_to_le)

lemma nat_from_le_less: "nat_from_le bs < 256 ^ length bs"
proof (induction bs)
  case (Cons b bs)
  have "unat b < 256" using unsigned_less [of b, where 'a = nat] by simp
  moreover have "256 * nat_from_le bs + 256 \<le> 256 * 256 ^ length bs"
    using Cons.IH by (simp add: Suc_le_eq flip: mult_Suc_right)
  ultimately show ?case by simp
qed simp

lemma nat_to_from_le: "length bs = n \<Longrightarrow> nat_to_le n (nat_from_le bs) = bs"
proof (induction bs arbitrary: n)
  case (Cons b bs)
  have b: "unat b < 256" using unsigned_less [of b, where 'a = nat] by simp
  have "word_of_nat (256 * nat_from_le bs) = (0 :: u8)"
    by (simp only: word_of_nat_eq_0_iff) simp
  then have "word_of_nat (unat b + 256 * nat_from_le bs) = b"
    by (simp only: of_nat_add) simp
  moreover have "(unat b + 256 * nat_from_le bs) div 256 = nat_from_le bs"
    using b by simp
  ultimately show ?case
    using Cons by auto
qed simp

lemma nat_from_be_less: "nat_from_be bs < 256 ^ length bs"
  using nat_from_le_less [of "rev bs"] by (simp add: nat_from_be_def)

lemma nat_from_be_inject:
  "length bs = length cs \<Longrightarrow> nat_from_be bs = nat_from_be cs \<longleftrightarrow> bs = cs"
  by (metis length_rev nat_from_be_def nat_to_from_le rev_rev_ident)

section \<open>Ordered maps\<close>

text \<open>A \<open>BTreeMap\<close> is the association list of its entries in key order.\<close>

fun btree_insert :: "'k::linorder \<Rightarrow> 'v \<Rightarrow> ('k \<times> 'v) list \<Rightarrow> ('k \<times> 'v) list" where
  "btree_insert k v [] = [(k, v)]"
| "btree_insert k v ((k', v') # m) =
     (if k < k' then (k, v) # (k', v') # m
      else if k = k' then (k, v) # m
      else (k', v') # btree_insert k v m)"

definition btree_map :: "('k::linorder \<times> 'v) list \<Rightarrow> bool" where
  "btree_map m \<longleftrightarrow> sorted_wrt (<) (map fst m)"

definition btree_of :: "('k::linorder \<times> 'v) list \<Rightarrow> ('k \<times> 'v) list" where
  "btree_of kvs = fold (\<lambda>(k, v). btree_insert k v) kvs []"

lemma map_of_btree_insert [simp]: "map_of (btree_insert k v m) = (map_of m)(k \<mapsto> v)"
  by (induction m) (auto simp: fun_eq_iff)

lemma fst_btree_insert: "fst ` set (btree_insert k v m) = insert k (fst ` set m)"
  by (simp flip: dom_map_of_conv_image_fst)

lemma btree_map_insert [simp]: "btree_map m \<Longrightarrow> btree_map (btree_insert k v m)"
proof (induction m)
  case (Cons kv m)
  then show ?case
    using fst_btree_insert [of k v m]
    by (cases kv) (force simp: btree_map_def)
qed (simp add: btree_map_def)

lemma btree_map_Nil [simp]: "btree_map []"
  by (simp add: btree_map_def)

lemma btree_map_distinct: "btree_map m \<Longrightarrow> distinct (map fst m)"
  unfolding btree_map_def by (induction m) force+

lemma same_keys_set_eq:
  assumes "map fst kvs = map fst kws" "distinct (map fst kvs)" "set kvs = set kws"
  shows "kvs = kws"
proof (rule nth_equalityI)
  show len: "length kvs = length kws" using assms(1) by (metis length_map)
  fix i assume i: "i < length kvs"
  have "kvs ! i \<in> set kws" using i assms(3) nth_mem by blast
  moreover have "kws ! i \<in> set kws" using i len by simp
  moreover have "fst (kvs ! i) = fst (kws ! i)" using i len assms(1) by (metis nth_map)
  moreover have "distinct (map fst kws)" using assms by simp
  ultimately show "kvs ! i = kws ! i"
    by (metis eq_key_imp_eq_value prod.collapse)
qed

lemma btree_map_ext:
  assumes "btree_map m" "btree_map n" "map_of m = map_of n"
  shows "m = n"
proof -
  have d: "distinct (map fst m)" "distinct (map fst n)"
    using assms by (simp_all add: btree_map_distinct)
  then have "set m = set n"
    using assms(3) by (simp add: map_of_inject_set)
  moreover from this have "map fst m = map fst n"
    using assms unfolding btree_map_def by (intro strict_sorted_equal) auto
  ultimately show ?thesis
    using d by (intro same_keys_set_eq)
qed

lemma btree_fold_insert:
  "btree_map m \<Longrightarrow> btree_map (fold (\<lambda>(k, v). btree_insert k v) kvs m)"
  "map_of (fold (\<lambda>(k, v). btree_insert k v) kvs m) = map_of m ++ map_of (rev kvs)"
  by (induction kvs arbitrary: m) (auto simp: map_add_upd_left split: prod.splits)

lemma btree_map_of [simp]: "btree_map (btree_of kvs)"
  by (simp add: btree_of_def btree_fold_insert(1))

lemma map_of_btree_of: "distinct (map fst kvs) \<Longrightarrow> map_of (btree_of kvs) = map_of kvs"
  using map_of_inject_set [of "rev kvs" kvs]
  by (simp add: btree_of_def btree_fold_insert(2) flip: rev_map)

lemma btree_of_perm:
  assumes "distinct (map fst kvs)" "distinct (map fst kws)" "set kvs = set kws"
  shows "btree_of kvs = btree_of kws"
  using assms by (intro btree_map_ext) (simp_all add: map_of_btree_of map_of_inject_set)

lemma btree_of_inject:
  assumes "distinct (map fst kvs)" "distinct (map fst kws)"
  shows "btree_of kvs = btree_of kws \<longleftrightarrow> set kvs = set kws"
  using assms by (metis btree_of_perm map_of_btree_of map_of_inject_set)

lemma set_btree_of: "distinct (map fst kvs) \<Longrightarrow> set (btree_of kvs) = set kvs"
  by (metis btree_map_distinct btree_map_of map_of_btree_of map_of_inject_set)

section \<open>Counting lists\<close>

lemma successively_Suc_iff:
  "ns \<noteq> [] \<Longrightarrow> successively (\<lambda>a b. b = Suc a) ns \<longleftrightarrow> ns = [hd ns..<hd ns + length ns]"
proof (induction ns)
  case (Cons a ns)
  show ?case
  proof (cases ns)
    case Nil
    then show ?thesis by (simp add: upt_conv_Cons)
  next
    case (Cons b ms)
    have "[a..<a + length (a # ns)] = a # [Suc a..<Suc a + length ns]"
      by (simp add: upt_conv_Cons del: upt_Suc)
    then have "a # ns = [a..<a + length (a # ns)] \<longleftrightarrow> ns = [Suc a..<Suc a + length ns]"
      by (simp del: upt_Suc)
    also have "\<dots> \<longleftrightarrow> b = Suc a \<and> ns = [b..<b + length ns]"
    proof
      assume ns: "ns = [Suc a..<Suc a + length ns]"
      have "0 < length ns" using Cons by simp
      then have "hd [Suc a..<Suc a + length ns] = Suc a" by (simp del: upt_Suc)
      then have "b = Suc a" using ns Cons by (metis list.sel(1))
      then show "b = Suc a \<and> ns = [b..<b + length ns]" using ns by simp
    qed auto
    finally show ?thesis using Cons.IH Cons by auto
  qed
qed simp

section \<open>Interfaces\<close>

text \<open>A canonical text codec: printing a valid value and parsing it back gives the value,
  and the parser accepts nothing but printed forms.\<close>

locale text_codec =
  fixes to_text :: "'a \<Rightarrow> string"
    and of_text :: "string \<Rightarrow> 'e + 'a"
    and valid :: "'a \<Rightarrow> bool"
  assumes of_to_text: "valid x \<Longrightarrow> of_text (to_text x) = Inr x"
    and to_of_text: "of_text s = Inr x \<Longrightarrow> to_text x = s \<and> valid x"
begin

lemma accepted_iff: "of_text s = Inr x \<longleftrightarrow> valid x \<and> s = to_text x"
  using of_to_text to_of_text by blast

lemma to_text_inject: "valid x \<Longrightarrow> valid y \<Longrightarrow> to_text x = to_text y \<longleftrightarrow> x = y"
  by (metis of_to_text sum.inject(2))

lemma one_text_per_value: "of_text s = Inr x \<Longrightarrow> of_text t = Inr x \<Longrightarrow> s = t"
  using to_of_text by blast

lemma rejected_iff: "(\<exists>e. of_text s = Inl e) \<longleftrightarrow> (\<forall>x. valid x \<longrightarrow> to_text x \<noteq> s)"
  by (metis accepted_iff sumE sum.distinct(1))

end

text \<open>A prefix byte codec: an encoded value is read back from the front of any input and
  the rest of the input is handed on.\<close>

locale byte_codec =
  fixes enc :: "'a \<Rightarrow> bytes"
    and dec :: "bytes \<Rightarrow> ('a \<times> bytes) option"
    and fits :: "'a \<Rightarrow> bool"
  assumes dec_enc: "fits x \<Longrightarrow> dec (enc x @ rest) = Some (x, rest)"
begin

lemma enc_prefix_free:
  assumes "fits x" "fits y" "enc x @ r = enc y @ s"
  shows "x = y \<and> r = s"
proof -
  have "Some (x, r) = dec (enc x @ r)" by (rule dec_enc [OF assms(1), symmetric])
  also have "\<dots> = dec (enc y @ s)" by (simp only: assms(3))
  also have "\<dots> = Some (y, s)" by (rule dec_enc [OF assms(2)])
  finally show ?thesis by simp
qed

lemma enc_inject: "fits x \<Longrightarrow> fits y \<Longrightarrow> enc x = enc y \<Longrightarrow> x = y"
  using enc_prefix_free [of x y "[]" "[]"] by simp

lemma concat_enc_inject:
  assumes "list_all fits xs" "list_all fits ys" "length xs = length ys"
    "concat (map enc xs) @ r = concat (map enc ys) @ s"
  shows "xs = ys \<and> r = s"
  using assms(3,1,2,4)
proof (induction xs ys rule: list_induct2)
  case (Cons x xs y ys)
  then have fits: "fits x" "fits y" by simp_all
  from Cons have "enc x @ (concat (map enc xs) @ r) = enc y @ (concat (map enc ys) @ s)" by simp
  then have "x = y \<and> concat (map enc xs) @ r = concat (map enc ys) @ s"
    using fits by (intro enc_prefix_free)
  with Cons show ?case by simp
qed simp

end

text \<open>A guarded state machine: every operation keeps the invariant, and an operation
  that reports an error leaves the state as it was.\<close>

locale guarded_machine =
  fixes step :: "'s \<Rightarrow> 'a \<Rightarrow> 's \<times> ('e + 'r)"
    and inv :: "'s \<Rightarrow> bool"
  assumes step_inv: "inv s \<Longrightarrow> inv (fst (step s a))"
    and step_error: "snd (step s a) = Inl e \<Longrightarrow> fst (step s a) = s"
begin

lemma fold_inv: "inv s \<Longrightarrow> inv (foldl (\<lambda>t a. fst (step t a)) s xs)"
  by (induction xs arbitrary: s) (simp_all add: step_inv)

lemma fold_only_successes:
  "\<exists>ys. subseq ys xs \<and> foldl (\<lambda>t a. fst (step t a)) s xs = foldl (\<lambda>t a. fst (step t a)) s ys
      \<and> (\<forall>i<length ys. is_ok (snd (step (foldl (\<lambda>t a. fst (step t a)) s (take i ys)) (ys ! i))))"
proof (induction xs arbitrary: s)
  case Nil
  show ?case by (rule exI [of _ "[]"]) simp
next
  case (Cons x xs)
  define s' where "s' = fst (step s x)"
  obtain ys where ys: "subseq ys xs"
    "foldl (\<lambda>t a. fst (step t a)) s' xs = foldl (\<lambda>t a. fst (step t a)) s' ys"
    "\<forall>i<length ys. is_ok (snd (step (foldl (\<lambda>t a. fst (step t a)) s' (take i ys)) (ys ! i)))"
    using Cons.IH by blast
  show ?case
  proof (cases "snd (step s x)")
    case (Inl e)
    then have "s' = s" by (simp add: s'_def step_error)
    then show ?thesis using ys by (intro exI [of _ ys]) (auto simp: s'_def)
  next
    case (Inr r)
    have "is_ok (snd (step (foldl (\<lambda>t a. fst (step t a)) s (take i (x # ys))) ((x # ys) ! i)))"
      if "i < length (x # ys)" for i
      using that Inr ys(3) by (cases i) (auto simp: s'_def)
    then show ?thesis using ys by (intro exI [of _ "x # ys"]) (auto simp: s'_def)
  qed
qed

end

end
