(* ===== verification/Determinism.thy ===== *)
theory Determinism
  imports Pitgun_Prelude "HOL-Library.Multiset"
begin

text \<open>
  \<open>crates/pitgun-contract/src/determinism.rs\<close>: SHA-256 digests and their canonical text,
  the strict JSON reader, the two validators of the I-JSON and NFC profile, and canonical
  JSON bytes and digests.

  SHA-256, Unicode normalization, the RFC 8785 serializer and the serde_json tokenizer are
  third-party crates. The first three are the fields of \<open>externals\<close>, a parameter of every
  definition that calls them. The tokenizer is the parameter \<open>json_stream\<close> of the strict
  reader: the tree of visitor calls it makes, in document order, with the point at which it
  reports an error.
\<close>

section \<open>Serde values and JSON values\<close>

text \<open>\<open>serde_value::Value\<close>: what \<open>serde_value::to_value\<close> shows of a serializable value.
  Floats are their bit patterns, a \<open>char\<close> is its UTF-8 encoding.\<close>

datatype serde_value =
    SBool bool
  | SU8 u8 | SU16 u16 | SU32 u32 | SU64 u64
  | SI8 "8 word" | SI16 "16 word" | SI32 "32 word" | SI64 i64
  | SF32 "32 word" | SF64 "64 word"
  | SChar string | SString string
  | SUnit
  | SOption "serde_value option"
  | SNewtype serde_value
  | SSeq "serde_value list"
  | SMap "(serde_value \<times> serde_value) list"
  | SBytes bytes

text \<open>\<open>serde_json::Value\<close>; an object is a \<open>BTreeMap\<close>.\<close>

datatype json_number = PosInt u64 | NegInt i64 | Float "64 word"

datatype json =
    JNull | JBool bool | JNumber json_number | JString string
  | JArray "json list" | JObject "(string \<times> json) list"

text \<open>\<open>Number::as_u64\<close>, \<open>Number::as_i64\<close>, \<open>Number::from(i64)\<close> of serde_json.\<close>

fun as_u64 :: "json_number \<Rightarrow> u64 option" where
  "as_u64 (PosInt n) = Some n"
| "as_u64 (NegInt _) = None"
| "as_u64 (Float _) = None"

fun as_i64 :: "json_number \<Rightarrow> i64 option" where
  "as_i64 (PosInt n) = (if n < 2 ^ 63 then Some n else None)"
| "as_i64 (NegInt n) = Some n"
| "as_i64 (Float _) = None"

definition number_from_i64 :: "i64 \<Rightarrow> json_number" where
  "number_from_i64 v = (if sint v < 0 then NegInt v else PosInt v)"

text \<open>\<open>is_finite\<close>: the exponent field is not all ones.\<close>

definition is_finite64 :: "64 word \<Rightarrow> bool" where
  "is_finite64 b \<longleftrightarrow> take_bit 11 (drop_bit 52 b) \<noteq> 2047"

definition is_finite32 :: "32 word \<Rightarrow> bool" where
  "is_finite32 b \<longleftrightarrow> take_bit 8 (drop_bit 23 b) \<noteq> 255"

text \<open>What \<open>Serialize for serde_json::Value\<close> shows to a serializer.\<close>

fun serialize_Number :: "json_number \<Rightarrow> serde_value" where
  "serialize_Number (PosInt n) = SU64 n"
| "serialize_Number (NegInt n) = SI64 n"
| "serialize_Number (Float b) = SF64 b"

fun serialize_Value :: "json \<Rightarrow> serde_value" where
  "serialize_Value JNull = SUnit"
| "serialize_Value (JBool b) = SBool b"
| "serialize_Value (JNumber n) = serialize_Number n"
| "serialize_Value (JString s) = SString s"
| "serialize_Value (JArray vs) = SSeq (map serialize_Value vs)"
| "serialize_Value (JObject kvs) = SMap (map (\<lambda>(k, v). (SString k, serialize_Value v)) kvs)"

section \<open>External functions and errors\<close>

text \<open>\<open>ext_sha256\<close> is \<open>Sha256::digest\<close>, \<open>ext_nfc\<close> is \<open>UnicodeNormalization::nfc\<close> and
  \<open>ext_jcs\<close> is \<open>serde_json_canonicalizer::to_vec\<close>, whose error is its message.
  \<open>ext_semver\<close> is the text of the version that \<open>semver::Version::parse\<close> returns, and \<open>ext_uuid\<close>
  is what \<open>Uuid::parse_str\<close> returns: the version number, whether the variant is RFC 4122, and
  the hyphenated text.\<close>

record externals =
  ext_sha256 :: "bytes \<Rightarrow> bytes"
  ext_nfc :: "string \<Rightarrow> string"
  ext_jcs :: "serde_value \<Rightarrow> string + bytes"
  ext_semver :: "string \<Rightarrow> string option"
  ext_uuid :: "string \<Rightarrow> (nat \<times> bool \<times> string) option"

definition MAX_SAFE_JSON_INTEGER :: u64 where
  "MAX_SAFE_JSON_INTEGER = 9007199254740991"

datatype CanonicalJsonError =
    InvalidJson string
  | DuplicateKey string
  | NonNormalizedUnicode string
  | UnsafeInteger string string
  | NonFiniteNumber string
  | InvalidMapKey string
  | ValueSerialization string
  | Serialization string

section \<open>Digests\<close>

datatype Digest = Digest (digest_bytes: bytes)

datatype DigestParseError = InvalidAlgorithm | InvalidLength | InvalidHex nat char

definition SHA256_PREFIX :: string where
  "SHA256_PREFIX = ''sha256:''"

definition SHA256_HEX_LENGTH :: nat where
  "SHA256_HEX_LENGTH = 64"

definition from_bytes :: "externals \<Rightarrow> bytes \<Rightarrow> Digest" where
  "from_bytes ext bs = Digest (ext_sha256 ext bs)"

text \<open>One digit of the \<open>{:02x}\<close> format.\<close>

definition hex_digit :: "nat \<Rightarrow> char" where
  "hex_digit d = (if d < 10 then char_of (48 + d) else char_of (87 + d))"

definition hex_byte :: "u8 \<Rightarrow> string" where
  "hex_byte b = [hex_digit (unat b div 16), hex_digit (unat b mod 16)]"

definition digest_to_string :: "Digest \<Rightarrow> string" where
  "digest_to_string d = SHA256_PREFIX @ concat (map hex_byte (digest_bytes d))"

definition decode_lower_hex :: "u8 \<Rightarrow> nat \<Rightarrow> DigestParseError + u8" where
  "decode_lower_hex b index =
     (if 48 \<le> b \<and> b \<le> 57 then Ok (b - 48)
      else if 97 \<le> b \<and> b \<le> 102 then Ok (b - 97 + 10)
      else Err (InvalidHex index (char_of (unat b))))"

text \<open>The loop over \<open>as_chunks::<2>()\<close>; a remainder of one byte is not visited.\<close>

fun decode_pairs :: "nat \<Rightarrow> bytes \<Rightarrow> DigestParseError + bytes" where
  "decode_pairs index (a # b # rest) =
     and_then (decode_lower_hex a (index * 2)) (\<lambda>high.
     and_then (decode_lower_hex b (index * 2 + 1)) (\<lambda>low.
     map_ok ((#) (or (push_bit 4 high) low)) (decode_pairs (Suc index) rest)))"
| "decode_pairs index _ = Ok []"

definition digest_from_str :: "string \<Rightarrow> DigestParseError + Digest" where
  "digest_from_str encoded =
     and_then (ok_or (strip_prefix SHA256_PREFIX encoded) InvalidAlgorithm) (\<lambda>hexadecimal.
     and_also (ensure (length hexadecimal = SHA256_HEX_LENGTH) InvalidLength)
       (map_ok Digest (decode_pairs 0 (as_bytes hexadecimal))))"

section \<open>Validators\<close>

definition validate_nfc :: "externals \<Rightarrow> string \<Rightarrow> string \<Rightarrow> CanonicalJsonError + unit" where
  "validate_nfc ext value path =
     (if ext_nfc ext value = value then Ok () else Err (NonNormalizedUnicode path))"

definition validate_unsigned_integer :: "u64 \<Rightarrow> string \<Rightarrow> CanonicalJsonError + unit" where
  "validate_unsigned_integer value path =
     (if value > MAX_SAFE_JSON_INTEGER
      then Err (UnsafeInteger path (show_nat (unat value))) else Ok ())"

definition validate_signed_integer :: "i64 \<Rightarrow> string \<Rightarrow> CanonicalJsonError + unit" where
  "validate_signed_integer value path =
     (if unsigned_abs value > MAX_SAFE_JSON_INTEGER
      then Err (UnsafeInteger path (show_int (sint value))) else Ok ())"

definition index_path :: "string \<Rightarrow> nat \<Rightarrow> string" where
  "index_path path i = path @ ''['' @ show_nat i @ '']''"

definition member_path :: "string \<Rightarrow> string \<Rightarrow> string" where
  "member_path path key = path @ ''.'' @ key"

definition key_path :: "string \<Rightarrow> string" where
  "key_path path = path @ ''.<key>''"

definition validate_number :: "json_number \<Rightarrow> string \<Rightarrow> CanonicalJsonError + unit" where
  "validate_number number path =
     (case as_u64 number of
        Some value \<Rightarrow>
          (if value > MAX_SAFE_JSON_INTEGER
           then Err (UnsafeInteger path (show_nat (unat value))) else Ok ())
      | None \<Rightarrow>
          (case as_i64 number of
             Some value \<Rightarrow>
               (if unsigned_abs value > MAX_SAFE_JSON_INTEGER
                then Err (UnsafeInteger path (show_int (sint value))) else Ok ())
           | None \<Rightarrow> Ok ()))"

fun validate_value :: "externals \<Rightarrow> json \<Rightarrow> string \<Rightarrow> CanonicalJsonError + unit"
  and validate_values :: "externals \<Rightarrow> nat \<Rightarrow> json list \<Rightarrow> string \<Rightarrow> CanonicalJsonError + unit"
  and validate_members :: "externals \<Rightarrow> (string \<times> json) list \<Rightarrow> string \<Rightarrow> CanonicalJsonError + unit"
where
  "validate_value ext JNull path = Ok ()"
| "validate_value ext (JBool b) path = Ok ()"
| "validate_value ext (JNumber n) path = validate_number n path"
| "validate_value ext (JString s) path = validate_nfc ext s path"
| "validate_value ext (JArray vs) path = validate_values ext 0 vs path"
| "validate_value ext (JObject kvs) path = validate_members ext kvs path"
| "validate_values ext i [] path = Ok ()"
| "validate_values ext i (v # vs) path =
     and_also (validate_value ext v (index_path path i)) (validate_values ext (Suc i) vs path)"
| "validate_members ext [] path = Ok ()"
| "validate_members ext ((k, v) # kvs) path =
     and_also (validate_nfc ext k (key_path path))
    (and_also (validate_value ext v (member_path path k)) (validate_members ext kvs path))"

fun map_key :: "serde_value \<Rightarrow> string option" where
  "map_key (SString key) = Some key"
| "map_key (SChar key) = Some key"
| "map_key _ = None"

fun validate_bytes :: "nat \<Rightarrow> bytes \<Rightarrow> string \<Rightarrow> CanonicalJsonError + unit" where
  "validate_bytes i [] path = Ok ()"
| "validate_bytes i (b # bs) path =
     and_also (validate_unsigned_integer (ucast b) (index_path path i)) (validate_bytes (Suc i) bs path)"

fun validate_serializable_value :: "externals \<Rightarrow> serde_value \<Rightarrow> string \<Rightarrow> CanonicalJsonError + unit"
  and validate_serializable_seq ::
    "externals \<Rightarrow> nat \<Rightarrow> serde_value list \<Rightarrow> string \<Rightarrow> CanonicalJsonError + unit"
  and validate_serializable_map ::
    "externals \<Rightarrow> (serde_value \<times> serde_value) list \<Rightarrow> string \<Rightarrow> CanonicalJsonError + unit"
where
  "validate_serializable_value ext (SBool b) path = Ok ()"
| "validate_serializable_value ext SUnit path = Ok ()"
| "validate_serializable_value ext (SU8 v) path = validate_unsigned_integer (ucast v) path"
| "validate_serializable_value ext (SU16 v) path = validate_unsigned_integer (ucast v) path"
| "validate_serializable_value ext (SU32 v) path = validate_unsigned_integer (ucast v) path"
| "validate_serializable_value ext (SU64 v) path = validate_unsigned_integer v path"
| "validate_serializable_value ext (SI8 v) path = validate_signed_integer (scast v) path"
| "validate_serializable_value ext (SI16 v) path = validate_signed_integer (scast v) path"
| "validate_serializable_value ext (SI32 v) path = validate_signed_integer (scast v) path"
| "validate_serializable_value ext (SI64 v) path = validate_signed_integer v path"
| "validate_serializable_value ext (SF32 v) path =
     (if \<not> is_finite32 v then Err (NonFiniteNumber path) else Ok ())"
| "validate_serializable_value ext (SF64 v) path =
     (if \<not> is_finite64 v then Err (NonFiniteNumber path) else Ok ())"
| "validate_serializable_value ext (SChar c) path = validate_nfc ext c path"
| "validate_serializable_value ext (SString s) path = validate_nfc ext s path"
| "validate_serializable_value ext (SOption None) path = Ok ()"
| "validate_serializable_value ext (SOption (Some v)) path = validate_serializable_value ext v path"
| "validate_serializable_value ext (SNewtype v) path = validate_serializable_value ext v path"
| "validate_serializable_value ext (SSeq vs) path = validate_serializable_seq ext 0 vs path"
| "validate_serializable_value ext (SMap kvs) path = validate_serializable_map ext kvs path"
| "validate_serializable_value ext (SBytes bs) path = validate_bytes 0 bs path"
| "validate_serializable_seq ext i [] path = Ok ()"
| "validate_serializable_seq ext i (v # vs) path =
     and_also (validate_serializable_value ext v (index_path path i))
       (validate_serializable_seq ext (Suc i) vs path)"
| "validate_serializable_map ext [] path = Ok ()"
| "validate_serializable_map ext ((k, v) # kvs) path =
     (case map_key k of
        None \<Rightarrow> Err (InvalidMapKey path)
      | Some key \<Rightarrow>
          and_also (validate_nfc ext key (key_path path))
         (and_also (validate_serializable_value ext v (member_path path key))
            (validate_serializable_map ext kvs path)))"

section \<open>Canonical bytes and digests\<close>

text \<open>A serializable argument is what \<open>serde_value::to_value\<close> returns for it: its tree, or the
  message of a failing \<open>Serialize\<close> implementation.\<close>

definition canonical_json_bytes ::
    "externals \<Rightarrow> string + serde_value \<Rightarrow> CanonicalJsonError + bytes" where
  "canonical_json_bytes ext serialized =
     and_then (map_err ValueSerialization serialized) (\<lambda>value.
     and_also (validate_serializable_value ext value ''$'')
       (map_err Serialization (ext_jcs ext value)))"

definition canonical_json_digest ::
    "externals \<Rightarrow> string + serde_value \<Rightarrow> CanonicalJsonError + Digest" where
  "canonical_json_digest ext serialized =
     map_ok (from_bytes ext) (canonical_json_bytes ext serialized)"

definition canonicalize_value :: "externals \<Rightarrow> json \<Rightarrow> CanonicalJsonError + bytes" where
  "canonicalize_value ext value =
     and_also (validate_value ext value ''$'')
       (map_err Serialization (ext_jcs ext (serialize_Value value)))"

section \<open>The strict reader\<close>

text \<open>The calls the tokenizer makes on a visitor: one per scalar, and a sequence or a map of
  nested calls that ends normally (\<open>None\<close>) or with the tokenizer's error.\<close>

datatype raw_json =
    RBool bool | RI64 i64 | RU64 u64 | RF64 "64 word" | RStr string | RUnit
  | RSeq "raw_json list" "string option"
  | RMap "(string \<times> raw_json) list" "string option"
  | RFail string

text \<open>An error on its way out of the visitor, and the shared \<open>duplicate\<close> cell.\<close>

datatype strict_error = Duplicate string | Tokenizer string

fun strict_visit :: "raw_json \<Rightarrow> strict_error + json"
  and strict_visit_seq :: "raw_json list \<Rightarrow> string option \<Rightarrow> json list \<Rightarrow> strict_error + json"
  and strict_visit_map ::
    "(string \<times> raw_json) list \<Rightarrow> string option \<Rightarrow> (string \<times> json) list \<Rightarrow> strict_error + json"
where
  "strict_visit (RBool b) = Ok (JBool b)"
| "strict_visit (RI64 v) = Ok (JNumber (number_from_i64 v))"
| "strict_visit (RU64 v) = Ok (JNumber (PosInt v))"
| "strict_visit (RF64 v) =
     (if is_finite64 v then Ok (JNumber (Float v)) else Err (Tokenizer ''non-finite JSON number''))"
| "strict_visit (RStr s) = Ok (JString s)"
| "strict_visit RUnit = Ok JNull"
| "strict_visit (RSeq vs e) = strict_visit_seq vs e []"
| "strict_visit (RMap kvs e) = strict_visit_map kvs e []"
| "strict_visit (RFail e) = Err (Tokenizer e)"
| "strict_visit_seq [] e values =
     (case e of None \<Rightarrow> Ok (JArray values) | Some msg \<Rightarrow> Err (Tokenizer msg))"
| "strict_visit_seq (v # vs) e values =
     and_then (strict_visit v) (\<lambda>value. strict_visit_seq vs e (values @ [value]))"
| "strict_visit_map [] e values =
     (case e of None \<Rightarrow> Ok (JObject values) | Some msg \<Rightarrow> Err (Tokenizer msg))"
| "strict_visit_map ((key, v) # kvs) e values =
     (if key \<in> fst ` set values then Err (Duplicate key)
      else and_then (strict_visit v) (\<lambda>value. strict_visit_map kvs e (btree_insert key value values)))"

text \<open>\<open>json_stream input\<close> is what the tokenizer does on the input, and the result of
  \<open>Deserializer::end\<close> after the value.\<close>

type_synonym json_tokenizer = "string \<Rightarrow> raw_json \<times> string option"

definition parse_strict_json :: "json_tokenizer \<Rightarrow> string \<Rightarrow> CanonicalJsonError + json" where
  "parse_strict_json json_stream input =
     (case strict_visit (fst (json_stream input)) of
        Inr value \<Rightarrow>
          (case snd (json_stream input) of None \<Rightarrow> Ok value | Some msg \<Rightarrow> Err (InvalidJson msg))
      | Inl (Duplicate key) \<Rightarrow> Err (DuplicateKey key)
      | Inl (Tokenizer msg) \<Rightarrow> Err (InvalidJson msg))"

definition canonicalize_json_str ::
    "externals \<Rightarrow> json_tokenizer \<Rightarrow> string \<Rightarrow> CanonicalJsonError + bytes" where
  "canonicalize_json_str ext json_stream input =
     and_then (parse_strict_json json_stream input) (canonicalize_value ext)"

section \<open>Digest text is canonical\<close>

definition digest_ok :: "Digest \<Rightarrow> bool" where
  "digest_ok d \<longleftrightarrow> length (digest_bytes d) = 32"

lemma u8_less_256: "unat (b :: u8) < 256"
  using unsigned_less [of b, where 'a = nat] by simp

lemma decode_hex_digit:
  "d < 16 \<Longrightarrow> decode_lower_hex (word_of_nat (ord_of (hex_digit d))) i = Ok (word_of_nat d)"
proof -
  assume "d < 16"
  then have "d \<in> set [0..<16]" by simp
  then show ?thesis
    by (simp add: upt_rec) (elim disjE; simp add: hex_digit_def decode_lower_hex_def)
qed

lemma hex_digit_of_decoded:
  assumes "decode_lower_hex b i = Ok d"
  shows "unat d < 16" "char_of (unat b) = hex_digit (unat d)"
proof -
  have "48 \<le> unat b \<and> unat b \<le> 57 \<and> unat d = unat b - 48 \<or>
        97 \<le> unat b \<and> unat b \<le> 102 \<and> unat d = unat b - 97 + 10"
    using assms
    by (auto simp: decode_lower_hex_def word_le_nat_alt unat_word_ariths unat_sub split: if_splits)
  then show "unat d < 16" "char_of (unat b) = hex_digit (unat d)"
    by (auto simp: hex_digit_def)
qed

lemma unat_nibbles:
  assumes "unat h < 16" "unat l < 16"
  shows "unat (or (push_bit 4 h) l :: u8) = 16 * unat h + unat l"
proof -
  have "take_bit 4 l = l"
    using assms(2) by (simp add: word_eq_iff_unsigned [where 'a = nat] unsigned_take_bit_eq take_bit_nat_eq_self)
  then have "\<not> bit l n" if "4 \<le> n" for n
    using that by (metis bit_take_bit_iff linorder_not_less)
  then have "push_bit 4 h + l = or (push_bit 4 h) l"
    by (intro disjunctive_add) (auto simp: bit_simps)
  moreover have "unat (push_bit 4 h) = 16 * unat h"
    using assms(1) by (simp add: push_bit_eq_mult unat_word_ariths)
  ultimately show ?thesis
    using assms unat_plus_no_overflow [of "push_bit 4 h" l] by simp
qed

lemma decode_pairs_hex:
  "decode_pairs i (as_bytes (concat (map hex_byte bs))) = Ok bs"
proof (induction bs arbitrary: i)
  case (Cons b bs)
  have b: "unat b < 256" by (rule u8_less_256)
  have "or (push_bit 4 (word_of_nat (unat b div 16))) (word_of_nat (unat b mod 16)) = b"
    using b by (intro word_unat_eq_iff [THEN iffD2])
      (simp add: unat_nibbles unsigned_of_nat take_bit_nat_eq_self)
  then show ?case
    using b decode_hex_digit [of "unat b div 16"] decode_hex_digit [of "unat b mod 16"] Cons.IH
    by (simp add: as_bytes_def hex_byte_def)
qed (simp add: as_bytes_def)

lemma hex_of_decoded_pairs:
  assumes "decode_pairs i (as_bytes s) = Ok bs" "even (length s)"
  shows "concat (map hex_byte bs) = s"
  using assms
proof (induction i "as_bytes s" arbitrary: s bs rule: decode_pairs.induct)
  case (1 i a b rest)
  obtain c d t where s: "s = c # d # t" "a = word_of_nat (ord_of c)" "b = word_of_nat (ord_of d)"
      "rest = as_bytes t"
    using 1(2) by (auto simp: as_bytes_def map_eq_Cons_conv)
  obtain h l bs' where dec: "decode_lower_hex a (i * 2) = Ok h" "decode_lower_hex b (i * 2 + 1) = Ok l"
      "decode_pairs (Suc i) rest = Ok bs'" "bs = or (push_bit 4 h) l # bs'"
    using 1(3) s by (auto simp: as_bytes_def result_simps)
  have "concat (map hex_byte bs') = t"
    using 1(1) [OF s(4)] dec(3) s 1(4) by simp
  moreover have "hex_byte (or (push_bit 4 h) l) = [c, d]"
    using hex_digit_of_decoded [OF dec(1)] hex_digit_of_decoded [OF dec(2)]
    by (simp add: hex_byte_def unat_nibbles s unsigned_of_nat take_bit_nat_eq_self)
  ultimately show ?case using s dec by simp
qed (auto simp: as_bytes_def map_eq_Cons_conv)

lemma decode_pairs_length: "decode_pairs i bs = Ok ds \<Longrightarrow> length ds = length bs div 2"
  by (induction i bs arbitrary: ds rule: decode_pairs.induct) (auto simp: result_simps)

lemma length_concat_hex: "length (concat (map hex_byte bs)) = 2 * length bs"
  by (induction bs) (simp_all add: hex_byte_def)

interpretation digest_text: text_codec digest_to_string digest_from_str digest_ok
proof
  fix d assume "digest_ok d"
  then show "digest_from_str (digest_to_string d) = Ok d"
    by (simp add: digest_from_str_def digest_to_string_def digest_ok_def length_concat_hex
        SHA256_HEX_LENGTH_def decode_pairs_hex)
next
  fix s d assume "digest_from_str s = Ok d"
  then obtain h where s: "s = SHA256_PREFIX @ h" "length h = 64" "decode_pairs 0 (as_bytes h) = Ok (digest_bytes d)"
    by (cases d) (auto simp: digest_from_str_def result_simps strip_prefix_Some SHA256_HEX_LENGTH_def)
  then show "digest_to_string d = s \<and> digest_ok d"
    using hex_of_decoded_pairs [OF s(3)] decode_pairs_length [OF s(3)]
    by (simp add: digest_to_string_def digest_ok_def)
qed

text \<open>A string parses as a digest exactly when it is the printed form of a 32-byte digest,
  so every digest has one text and no other text is accepted.\<close>

theorem digest_text_canonical:
  "digest_from_str s = Ok d \<longleftrightarrow> length (digest_bytes d) = 32 \<and> s = digest_to_string d"
  using digest_text.accepted_iff by (simp add: digest_ok_def)

definition is_lower_hex :: "char \<Rightarrow> bool" where
  "is_lower_hex c \<longleftrightarrow> is_ascii_digit c \<or> 97 \<le> ord_of c \<and> ord_of c \<le> 102"

lemma decode_lower_hex_Err:
  "decode_lower_hex (word_of_nat (ord_of c)) i = Err e \<longleftrightarrow> \<not> is_lower_hex c \<and> e = InvalidHex i c"
  by (auto simp: decode_lower_hex_def is_lower_hex_def is_ascii_digit_def word_le_nat_alt
      unsigned_of_nat take_bit_nat_eq_self)

lemma decode_lower_hex_Ok:
  "(\<exists>d. decode_lower_hex (word_of_nat (ord_of c)) i = Ok d) \<longleftrightarrow> is_lower_hex c"
  using decode_lower_hex_Err [of c i]
  by (metis sum.exhaust sum.distinct(1))

lemma decode_pairs_Err:
  assumes "even (length s)"
  shows "decode_pairs i (as_bytes s) = Err e \<longleftrightarrow>
    (\<exists>j<length s. \<not> is_lower_hex (s ! j) \<and> list_all is_lower_hex (take j s) \<and> e = InvalidHex (2 * i + j) (s ! j))"
  using assms
proof (induction "length s" arbitrary: i s rule: less_induct)
  case less
  show ?case
  proof (cases "length s < 2")
    case True
    then have "s = []" using less.prems by (cases s) auto
    then show ?thesis by (simp add: as_bytes_def)
  next
    case False
    then obtain c d t where s: "s = c # d # t" by (cases s; cases "tl s") auto
    have IH: "decode_pairs (Suc i) (as_bytes t) = Err e \<longleftrightarrow>
        (\<exists>j<length t. \<not> is_lower_hex (t ! j) \<and> list_all is_lower_hex (take j t) \<and> e = InvalidHex (2 * Suc i + j) (t ! j))"
      using less s by simp
    have ex: "(\<exists>j<length s. P j) \<longleftrightarrow> P 0 \<or> P 1 \<or> (\<exists>j<length t. P (Suc (Suc j)))" for P
      using s by (auto simp: less_Suc_eq_0_disj)
    have "decode_pairs i (as_bytes s) = Err e \<longleftrightarrow>
        \<not> is_lower_hex c \<and> e = InvalidHex (i * 2) c \<or>
        is_lower_hex c \<and> \<not> is_lower_hex d \<and> e = InvalidHex (i * 2 + 1) d \<or>
        is_lower_hex c \<and> is_lower_hex d \<and> decode_pairs (Suc i) (as_bytes t) = Err e"
      using decode_lower_hex_Ok [of c "i * 2"] decode_lower_hex_Ok [of d "i * 2 + 1"]
      by (auto simp: s as_bytes_def result_simps decode_lower_hex_Err)
    then show ?thesis
      unfolding IH ex by (simp add: s mult.commute conj_ac)
  qed
qed

text \<open>The error of a rejected digest text names what is wrong: the algorithm prefix, else
  the length, else the first character that is not a lowercase hexadecimal digit, with its index.\<close>

theorem digest_from_str_errors:
  "digest_from_str s = Err e \<longleftrightarrow>
     e = InvalidAlgorithm \<and> (\<nexists>h. s = ''sha256:'' @ h) \<or>
     (\<exists>h. s = ''sha256:'' @ h \<and>
        (e = InvalidLength \<and> length h \<noteq> 64 \<or>
         (\<exists>j<64. length h = 64 \<and> \<not> is_lower_hex (h ! j) \<and> list_all is_lower_hex (take j h) \<and>
            e = InvalidHex j (h ! j))))"
proof (cases "strip_prefix SHA256_PREFIX s")
  case None
  then have "\<nexists>h. s = ''sha256:'' @ h"
    by (metis SHA256_PREFIX_def option.distinct(1) strip_prefix_Some)
  then show ?thesis using None by (auto simp: digest_from_str_def)
next
  case (Some h)
  then have s: "s = ''sha256:'' @ h" by (simp add: strip_prefix_Some SHA256_PREFIX_def)
  then show ?thesis
    using Some decode_pairs_Err [of h 0 e]
    by (cases "length h = 64") (auto simp: digest_from_str_def SHA256_HEX_LENGTH_def result_simps)
qed

section \<open>The two validators agree\<close>

fun json_finite :: "json \<Rightarrow> bool" where
  "json_finite (JNumber (Float b)) = is_finite64 b"
| "json_finite (JArray vs) = list_all json_finite vs"
| "json_finite (JObject kvs) = list_all (\<lambda>(k, v). json_finite v) kvs"
| "json_finite _ = True"

lemma validate_number_agrees:
  "json_finite (JNumber n) \<Longrightarrow>
     validate_serializable_value ext (serialize_Number n) path = validate_number n path"
  by (cases n) (simp_all add: validate_number_def validate_unsigned_integer_def validate_signed_integer_def)

lemma validators_agree_aux:
  "json_finite v \<Longrightarrow> validate_serializable_value ext (serialize_Value v) path = validate_value ext v path"
  "list_all json_finite vs \<Longrightarrow>
     validate_serializable_seq ext i (map serialize_Value vs) path = validate_values ext i vs path"
  "list_all (\<lambda>(k, v). json_finite v) kvs \<Longrightarrow>
     validate_serializable_map ext (map (\<lambda>(k, v). (SString k, serialize_Value v)) kvs) path
       = validate_members ext kvs path"
  by (induction ext v path and ext i vs path and ext kvs path
      rule: validate_value_validate_values_validate_members.induct)
    (simp_all add: validate_number_agrees del: json_finite.simps(1))

text \<open>On a JSON value, the validator of typed serde values and the validator of parsed
  values return the same result, the same error at the same path included.\<close>

theorem validators_agree:
  assumes "json_finite v"
  shows "validate_serializable_value ext (serialize_Value v) path = validate_value ext v path"
  using assms by (rule validators_agree_aux)

theorem validators_agree_witness:
  "validate_serializable_value \<lparr>ext_sha256 = id, ext_nfc = id, ext_jcs = \<lambda>_. Inr [],
      ext_semver = Some, ext_uuid = \<lambda>_. None\<rparr>
     (serialize_Value (JObject [(''a'', JArray [JNumber (PosInt 1), JNumber (Float 0)]),
        (''b'', JNumber (PosInt 9007199254740992))])) ''$''
   = Err (UnsafeInteger ''$.b'' ''9007199254740992'')"
proof -
  have fin: "json_finite (JObject [(''a'', JArray [JNumber (PosInt 1), JNumber (Float 0)]),
        (''b'', JNumber (PosInt 9007199254740992))])"
    by code_simp
  show ?thesis
    unfolding validators_agree [OF fin]
    by (simp add: validate_number_def MAX_SAFE_JSON_INTEGER_def validate_nfc_def member_path_def
        show_nat.simps)
qed

section \<open>The accepted profile\<close>

definition safe_unsigned :: "u64 \<Rightarrow> bool" where
  "safe_unsigned v \<longleftrightarrow> unat v \<le> 9007199254740991"

definition safe_signed :: "i64 \<Rightarrow> bool" where
  "safe_signed v \<longleftrightarrow> \<bar>sint v\<bar> \<le> 9007199254740991"

text \<open>The values that canonical JSON accepts: integers that a double represents exactly,
  finite floats, NFC text, string keys.\<close>

fun profile :: "externals \<Rightarrow> serde_value \<Rightarrow> bool" where
  "profile ext (SU64 v) = safe_unsigned v"
| "profile ext (SI64 v) = safe_signed v"
| "profile ext (SF32 v) = is_finite32 v"
| "profile ext (SF64 v) = is_finite64 v"
| "profile ext (SChar s) = (ext_nfc ext s = s)"
| "profile ext (SString s) = (ext_nfc ext s = s)"
| "profile ext (SOption (Some v)) = profile ext v"
| "profile ext (SNewtype v) = profile ext v"
| "profile ext (SSeq vs) = list_all (profile ext) vs"
| "profile ext (SMap kvs) =
     list_all (\<lambda>(k, v). (\<exists>s. map_key k = Some s \<and> ext_nfc ext s = s) \<and> profile ext v) kvs"
| "profile ext _ = True"

lemma unat_MAX_SAFE: "unat MAX_SAFE_JSON_INTEGER = 9007199254740991"
  by (simp add: MAX_SAFE_JSON_INTEGER_def)

lemma validate_unsigned_Ok: "validate_unsigned_integer v path = Ok () \<longleftrightarrow> safe_unsigned v"
  by (auto simp: validate_unsigned_integer_def safe_unsigned_def word_less_nat_alt unat_MAX_SAFE)

lemma validate_signed_Ok: "validate_signed_integer v path = Ok () \<longleftrightarrow> safe_signed v"
  by (auto simp: validate_signed_integer_def safe_signed_def word_less_nat_alt unat_MAX_SAFE
      unat_unsigned_abs)

lemma safe_unsigned_small:
  "LENGTH('a) \<le> 32 \<Longrightarrow> safe_unsigned (ucast (v :: 'a::len word))"
proof -
  assume len: "LENGTH('a) \<le> 32"
  have "unat v < 2 ^ LENGTH('a)" by (rule unsigned_less)
  also have "(2::nat) ^ LENGTH('a) \<le> 2 ^ 32" using len by (intro power_increasing) auto
  finally show ?thesis
    by (simp add: safe_unsigned_def unsigned_ucast_eq take_bit_nat_eq_self)
qed

lemma safe_signed_small:
  "LENGTH('a) \<le> 32 \<Longrightarrow> safe_signed (scast (v :: 'a::len word))"
proof -
  assume len: "LENGTH('a) \<le> 32"
  have le: "(2::int) ^ (LENGTH('a) - 1) \<le> 2 ^ 31" using len by (intro power_increasing) auto
  have "- (2 ^ (LENGTH('a) - 1)) \<le> sint v" "sint v < 2 ^ (LENGTH('a) - 1)"
    using sint_ge [of v] sint_lt [of v] by auto
  then have b: "- (2 ^ 31) \<le> sint v" "sint v < 2 ^ 31" using le by linarith+
  then have "sint (scast v :: i64) = sint v"
    by (simp add: signed_scast_eq signed_take_bit_int_eq_self)
  then show ?thesis using b by (simp add: safe_signed_def)
qed

lemma validate_bytes_Ok: "validate_bytes i bs path = Ok ()"
  by (induction i bs path rule: validate_bytes.induct)
    (simp_all add: result_simps validate_unsigned_Ok safe_unsigned_small)

lemma validate_nfc_Ok: "validate_nfc ext s path = Ok () \<longleftrightarrow> ext_nfc ext s = s"
  by (simp add: validate_nfc_def)

lemma validate_serializable_Ok:
  "validate_serializable_value ext v path = Ok () \<longleftrightarrow> profile ext v"
  "validate_serializable_seq ext i vs path = Ok () \<longleftrightarrow> list_all (profile ext) vs"
  "validate_serializable_map ext kvs path = Ok () \<longleftrightarrow>
     list_all (\<lambda>(k, v). (\<exists>s. map_key k = Some s \<and> ext_nfc ext s = s) \<and> profile ext v) kvs"
  by (induction ext v path and ext i vs path and ext kvs path
      rule: validate_serializable_value_validate_serializable_seq_validate_serializable_map.induct)
    (auto simp: result_simps validate_unsigned_Ok validate_signed_Ok safe_unsigned_small
      safe_signed_small validate_bytes_Ok validate_nfc_Ok split: option.splits)

text \<open>Canonical bytes exist exactly for the values of the profile that the RFC 8785
  serializer accepts, and they are the serializer's bytes.\<close>

theorem canonical_json_bytes_Ok:
  "canonical_json_bytes ext (Inr v) = Ok bs \<longleftrightarrow> profile ext v \<and> ext_jcs ext v = Inr bs"
  by (auto simp: canonical_json_bytes_def result_simps validate_serializable_Ok)

section \<open>What the strict reader accepts\<close>

fun raw_clean :: "raw_json \<Rightarrow> bool" where
  "raw_clean (RF64 v) = is_finite64 v"
| "raw_clean (RSeq vs e) \<longleftrightarrow> e = None \<and> list_all raw_clean vs"
| "raw_clean (RMap kvs e) \<longleftrightarrow>
     e = None \<and> distinct (map fst kvs) \<and> list_all (\<lambda>(k, v). raw_clean v) kvs"
| "raw_clean (RFail _) = False"
| "raw_clean _ = True"

fun raw_value :: "raw_json \<Rightarrow> json" where
  "raw_value (RBool b) = JBool b"
| "raw_value (RI64 v) = JNumber (number_from_i64 v)"
| "raw_value (RU64 v) = JNumber (PosInt v)"
| "raw_value (RF64 v) = JNumber (Float v)"
| "raw_value (RStr s) = JString s"
| "raw_value RUnit = JNull"
| "raw_value (RSeq vs e) = JArray (map raw_value vs)"
| "raw_value (RMap kvs e) = JObject (btree_of (map (\<lambda>(k, v). (k, raw_value v)) kvs))"
| "raw_value (RFail e) = JNull"

lemma strict_visit_Ok:
  "strict_visit r = Ok j \<longleftrightarrow> raw_clean r \<and> j = raw_value r"
  "strict_visit_seq vs e vals = Ok j \<longleftrightarrow>
     e = None \<and> list_all raw_clean vs \<and> j = JArray (vals @ map raw_value vs)"
  "strict_visit_map kvs e members = Ok j \<longleftrightarrow>
     e = None \<and> distinct (map fst kvs) \<and> fst ` set kvs \<inter> fst ` set members = {} \<and>
     list_all (\<lambda>(k, v). raw_clean v) kvs \<and>
     j = JObject (fold (\<lambda>(k, v). btree_insert k v) (map (\<lambda>(k, v). (k, raw_value v)) kvs) members)"
proof (induction r and vs e vals and kvs e members arbitrary: j and j and j
    rule: strict_visit_strict_visit_seq_strict_visit_map.induct)
  case (13 key v kvs e members)
  show ?case
  proof (cases "key \<in> fst ` set members")
    case False
    then show ?thesis
      by (auto simp: 13 result_simps fst_btree_insert)
  qed simp
qed (auto simp: result_simps btree_of_def split: option.splits)

lemma parse_strict_json_Ok:
  "parse_strict_json js input = Ok v \<longleftrightarrow>
     snd (js input) = None \<and> raw_clean (fst (js input)) \<and> v = raw_value (fst (js input))"
proof (cases "strict_visit (fst (js input))")
  case (Inl e)
  then show ?thesis
    using strict_visit_Ok(1) [of "fst (js input)" "raw_value (fst (js input))"]
    by (auto simp: parse_strict_json_def split: strict_error.splits)
next
  case (Inr w)
  then show ?thesis
    using strict_visit_Ok(1) [of "fst (js input)" w]
    by (auto simp: parse_strict_json_def split: option.splits)
qed

text \<open>Two documents that differ only in the order of the members of their objects.\<close>

inductive same_document :: "raw_json \<Rightarrow> raw_json \<Rightarrow> bool" where
  same_refl: "same_document r r"
| same_seq: "list_all2 same_document vs ws \<Longrightarrow> same_document (RSeq vs e) (RSeq ws e)"
| same_map: "\<lbrakk> map fst kvs = map fst lws; list_all2 same_document (map snd kvs) (map snd lws);
    mset lws = mset mws \<rbrakk> \<Longrightarrow> same_document (RMap kvs e) (RMap mws e)"

lemma list_all2_snd_mset:
  assumes "map fst kvs = map fst lws" "list_all2 P (map snd kvs) (map snd lws)"
    "\<And>v w. P v w \<Longrightarrow> f v = f w"
  shows "map (\<lambda>(k, v). (k, f v)) kvs = map (\<lambda>(k, v). (k, f v)) lws"
  using assms(2,1)
proof (induction "map snd kvs" "map snd lws" arbitrary: kvs lws rule: list_all2_induct)
  case (Cons v vs w ws)
  then show ?case using assms(3) by (cases kvs; cases lws) (auto split: prod.splits)
qed simp

lemma list_all_snd:
  assumes "list_all2 P (map snd kvs) (map snd lws)" "\<And>v w. P v w \<Longrightarrow> Q v = Q w"
  shows "list_all (\<lambda>(k, v). Q v) kvs = list_all (\<lambda>(k, v). Q v) lws"
  using assms(1)
proof (induction "map snd kvs" "map snd lws" arbitrary: kvs lws rule: list_all2_induct)
  case (Cons v vs w ws)
  then show ?case using assms(2) by (cases kvs; cases lws) (auto split: prod.splits)
qed simp

lemma same_document_clean: "same_document r r' \<Longrightarrow> raw_clean r' = raw_clean r"
proof (induction rule: same_document.induct)
  case (same_seq vs ws e)
  then have "list_all raw_clean ws = list_all raw_clean vs"
    by (induction rule: list_all2_induct) auto
  then show ?case by simp
next
  case (same_map kvs lws mws e)
  have "list_all (\<lambda>(k, v). raw_clean v) mws = list_all (\<lambda>(k, v). raw_clean v) kvs"
    using list_all_snd [OF same_map.IH, of raw_clean] mset_eq_setD [OF same_map.hyps(2)]
    by (auto simp: list_all_iff)
  moreover have "distinct (map fst mws) = distinct (map fst kvs)"
    using same_map.hyps by (metis mset_eq_imp_distinct_iff mset_map)
  ultimately show ?case by simp
qed simp

lemma same_document_value:
  "same_document r r' \<Longrightarrow> raw_clean r \<Longrightarrow> raw_value r' = raw_value r"
proof (induction rule: same_document.induct)
  case (same_seq vs ws e)
  from same_seq(1,2) have "map raw_value ws = map raw_value vs"
    by (induction rule: list_all2_induct) auto
  then show ?case by simp
next
  case (same_map kvs lws mws e)
  let ?f = "map (\<lambda>(k, v). (k, raw_value v))"
  have clean: "list_all raw_clean (map snd kvs)"
    using same_map.prems by (auto simp: list_all_iff)
  have "list_all2 (\<lambda>v w. raw_value v = raw_value w) (map snd kvs) (map snd lws)"
    using same_map.IH clean by (auto simp: list_all2_conv_all_nth list_all_length)
  then have eq: "?f kvs = ?f lws"
    by (rule list_all2_snd_mset [OF same_map.hyps(1)])
  have keys: "map fst (?f xs) = map fst xs" for xs :: "(string \<times> raw_json) list"
    by (induction xs) auto
  have "distinct (map fst (?f kvs))" using same_map.prems by (simp only: keys raw_clean.simps)
  moreover have "distinct (map fst (?f mws))"
    using same_map.hyps same_map.prems by (metis keys mset_eq_imp_distinct_iff mset_map raw_clean.simps(3))
  moreover have "set (?f mws) = set (?f kvs)"
    using eq mset_eq_setD [OF same_map.hyps(2)] by (metis set_map)
  ultimately show ?case
    by (simp add: btree_of_perm)
qed simp

text \<open>The strict reader accepts a document exactly when the tokenizer reports no error,
  no object at any depth repeats a key and every float is finite; the result is the document's
  value with its object members in key order.\<close>

theorem parse_strict_json_accepts:
  "parse_strict_json js input = Ok v \<longleftrightarrow>
     snd (js input) = None \<and> raw_clean (fst (js input)) \<and> v = raw_value (fst (js input))"
  by (rule parse_strict_json_Ok)

text \<open>Canonical bytes do not depend on the order in which an accepted document writes the
  members of its objects, at any depth.\<close>

theorem canonicalize_ignores_member_order:
  assumes "same_document (fst (js input)) (fst (js input'))" "snd (js input') = snd (js input)"
    and "parse_strict_json js input = Ok v"
  shows "canonicalize_json_str ext js input' = canonicalize_json_str ext js input"
proof -
  have "parse_strict_json js input' = Ok v"
    using assms by (auto simp: parse_strict_json_Ok same_document_clean same_document_value)
  then show ?thesis using assms(3) by (simp add: canonicalize_json_str_def)
qed

theorem canonicalize_ignores_member_order_witness:
  "canonicalize_json_str \<lparr>ext_sha256 = id, ext_nfc = id, ext_jcs = \<lambda>v. case v of SMap kvs \<Rightarrow> Inr [of_nat (length kvs)] | _ \<Rightarrow> Inl [],
      ext_semver = Some, ext_uuid = \<lambda>_. None\<rparr>
     (\<lambda>s. (RMap (if s = ''x'' then [(''b'', RUnit), (''a'', RU64 7)] else [(''a'', RU64 7), (''b'', RUnit)]) None, None)) ''x''
   = canonicalize_json_str \<lparr>ext_sha256 = id, ext_nfc = id, ext_jcs = \<lambda>v. case v of SMap kvs \<Rightarrow> Inr [of_nat (length kvs)] | _ \<Rightarrow> Inl [],
      ext_semver = Some, ext_uuid = \<lambda>_. None\<rparr>
     (\<lambda>s. (RMap (if s = ''x'' then [(''b'', RUnit), (''a'', RU64 7)] else [(''a'', RU64 7), (''b'', RUnit)]) None, None)) ''y''"
proof (rule canonicalize_ignores_member_order)
  let ?js = "\<lambda>s. (RMap (if s = ''x'' then [(''b'', RUnit), (''a'', RU64 7)] else [(''a'', RU64 7), (''b'', RUnit)]) None, None :: string option)"
  show "same_document (fst (?js ''y'')) (fst (?js ''x''))"
    by (simp, rule same_map [of _ "[(''a'', RU64 7), (''b'', RUnit)]"]) (auto intro: same_refl)
  show "parse_strict_json ?js ''y'' = Ok (raw_value (RMap [(''a'', RU64 7), (''b'', RUnit)] None))"
    by (simp add: parse_strict_json_Ok)
qed simp

end
