(* ===== verification/Serde_Model.thy ===== *)
theory Serde_Model
  imports Determinism
begin

text \<open>
  What \<open>#[derive(Serialize)]\<close> shows to a serializer, and what RFC 8785 canonical JSON keeps of
  it. A struct is a map from its field names; an enum without data is the string of its variant;
  a newtype and a present option are transparent in JSON.

  \<open>jcs_faithful\<close> states the documented behaviour of the RFC 8785 serializer that content
  identities rely on: two accepted values without floats that have the same canonical bytes are the same
  JSON document.
\<close>

section \<open>JSON documents\<close>

datatype jdoc =
    DNull | DBool bool | DInt int | DFloat "64 word" | DFloat32 "32 word" | DString string
  | DArr "jdoc list" | DObj "(string \<times> jdoc) list"

fun jdoc_of :: "serde_value \<Rightarrow> jdoc" where
  "jdoc_of (SBool b) = DBool b"
| "jdoc_of (SU8 v) = DInt (uint v)"
| "jdoc_of (SU16 v) = DInt (uint v)"
| "jdoc_of (SU32 v) = DInt (uint v)"
| "jdoc_of (SU64 v) = DInt (uint v)"
| "jdoc_of (SI8 v) = DInt (sint v)"
| "jdoc_of (SI16 v) = DInt (sint v)"
| "jdoc_of (SI32 v) = DInt (sint v)"
| "jdoc_of (SI64 v) = DInt (sint v)"
| "jdoc_of (SF32 v) = DFloat32 v"
| "jdoc_of (SF64 v) = DFloat v"
| "jdoc_of (SChar s) = DString s"
| "jdoc_of (SString s) = DString s"
| "jdoc_of SUnit = DNull"
| "jdoc_of (SOption None) = DNull"
| "jdoc_of (SOption (Some v)) = jdoc_of v"
| "jdoc_of (SNewtype v) = jdoc_of v"
| "jdoc_of (SSeq vs) = DArr (map jdoc_of vs)"
| "jdoc_of (SMap kvs) = DObj (map (\<lambda>(k, v). (case map_key k of Some s \<Rightarrow> s | None \<Rightarrow> [], jdoc_of v)) kvs)"
| "jdoc_of (SBytes bs) = DArr (map (\<lambda>b. DInt (uint b)) bs)"

text \<open>Values without floats whose maps are ordered maps from strings.\<close>

fun plain :: "serde_value \<Rightarrow> bool" where
  "plain (SF32 _) = False"
| "plain (SF64 _) = False"
| "plain (SOption (Some v)) = plain v"
| "plain (SNewtype v) = plain v"
| "plain (SSeq vs) = list_all plain vs"
| "plain (SMap kvs) \<longleftrightarrow>
     list_all (\<lambda>(k, v). (\<exists>s. k = SString s) \<and> plain v) kvs \<and>
     sorted_wrt (<) (map (\<lambda>(k, v). case map_key k of Some s \<Rightarrow> s | None \<Rightarrow> []) kvs)"
| "plain _ = True"

definition jcs_faithful :: "externals \<Rightarrow> bool" where
  "jcs_faithful ext \<longleftrightarrow> (\<forall>v w b.
     plain v \<longrightarrow> plain w \<longrightarrow> profile ext v \<longrightarrow> profile ext w \<longrightarrow>
     ext_jcs ext v = Inr b \<longrightarrow> ext_jcs ext w = Inr b \<longrightarrow> jdoc_of v = jdoc_of w)"

section \<open>Derived serialization of structs\<close>

definition serde_struct :: "(string \<times> serde_value) list \<Rightarrow> serde_value" where
  "serde_struct kvs = SMap (map (\<lambda>(k, v). (SString k, v)) (btree_of kvs))"

text \<open>A field with \<open>skip_serializing_if = "Option::is_none"\<close>.\<close>

definition skip_none :: "string \<Rightarrow> ('a \<Rightarrow> serde_value) \<Rightarrow> 'a option \<Rightarrow> (string \<times> serde_value) list" where
  "skip_none k f v = (case v of None \<Rightarrow> [] | Some x \<Rightarrow> [(k, SOption (Some (f x)))])"

lemma btree_of_map_snd:
  assumes "distinct (map fst kvs)"
  shows "map (\<lambda>(k, v). (k, f v)) (btree_of kvs) = btree_of (map (\<lambda>(k, v). (k, f v)) kvs)"
proof (rule btree_map_ext)
  have keys: "map fst (map (\<lambda>(k, v). (k, f v)) xs) = map fst xs" for xs :: "('a \<times> 'b) list"
    by (induction xs) auto
  show "btree_map (map (\<lambda>(k, v). (k, f v)) (btree_of kvs))"
    using btree_map_of [of kvs] by (simp only: btree_map_def keys)
  have "distinct (map fst (map (\<lambda>(k, v). (k, f v)) kvs))" using assms by (simp only: keys)
  moreover have "distinct (map fst (map (\<lambda>(k, v). (k, f v)) (btree_of kvs)))"
    using btree_map_distinct [OF btree_map_of [of kvs]] by (simp only: keys)
  ultimately show "map_of (map (\<lambda>(k, v). (k, f v)) (btree_of kvs)) = map_of (btree_of (map (\<lambda>(k, v). (k, f v)) kvs))"
    using assms by (simp add: map_of_btree_of map_of_inject_set set_btree_of)
qed simp

lemma jdoc_of_struct:
  assumes "distinct (map fst kvs)"
  shows "jdoc_of (serde_struct kvs) = DObj (btree_of (map (\<lambda>(k, v). (k, jdoc_of v)) kvs))"
proof -
  have "(\<lambda>(k, v). (case map_key k of Some s \<Rightarrow> s | None \<Rightarrow> [], jdoc_of v)) \<circ> (\<lambda>(k, v). (SString k, v))
      = (\<lambda>(k, v). (k, jdoc_of v))"
    by auto
  then show ?thesis
    using btree_of_map_snd [OF assms, of jdoc_of] by (simp add: serde_struct_def)
qed

lemma pair_map_snd_iff:
  assumes "map fst kvs = map fst kws"
  shows "map (\<lambda>(k, v). (k, f v)) kvs = map (\<lambda>(k, v). (k, f v)) kws \<longleftrightarrow>
    map (f \<circ> snd) kvs = map (f \<circ> snd) kws"
proof -
  have "length kvs = length kws" using assms by (metis length_map)
  then show ?thesis using assms by (induction kvs kws rule: list_induct2) auto
qed

lemma jdoc_of_struct_inject:
  assumes "map fst kvs = map fst kws" "distinct (map fst kvs)"
  shows "jdoc_of (serde_struct kvs) = jdoc_of (serde_struct kws) \<longleftrightarrow>
    map (jdoc_of \<circ> snd) kvs = map (jdoc_of \<circ> snd) kws"
proof -
  let ?f = "map (\<lambda>(k, v). (k, jdoc_of v)) :: (string \<times> serde_value) list \<Rightarrow> _"
  have keys: "map fst (?f xs) = map fst xs" for xs
    by (induction xs) auto
  have "jdoc_of (serde_struct kvs) = jdoc_of (serde_struct kws) \<longleftrightarrow> btree_of (?f kvs) = btree_of (?f kws)"
    using assms by (simp add: jdoc_of_struct)
  also have "\<dots> \<longleftrightarrow> set (?f kvs) = set (?f kws)"
    using assms keys by (intro btree_of_inject) metis+
  also have "\<dots> \<longleftrightarrow> ?f kvs = ?f kws"
    using assms keys same_keys_set_eq [of "?f kvs" "?f kws"] by metis
  also have "\<dots> \<longleftrightarrow> map (jdoc_of \<circ> snd) kvs = map (jdoc_of \<circ> snd) kws"
    using assms(1) by (rule pair_map_snd_iff)
  finally show ?thesis .
qed

lemma plain_struct:
  assumes "distinct (map fst kvs)" "list_all (\<lambda>(k, v). plain v) kvs"
  shows "plain (serde_struct kvs)"
proof -
  have "(\<lambda>(k, v). case map_key k of None \<Rightarrow> [] | Some s \<Rightarrow> s) \<circ> (\<lambda>(k, y :: serde_value). (SString k, y)) = fst"
    by auto
  then show ?thesis
    using assms btree_map_of [of kvs]
    by (auto simp: serde_struct_def list_all_iff set_btree_of btree_map_def)
qed

lemma profile_struct:
  assumes "distinct (map fst kvs)"
  shows "profile ext (serde_struct kvs) \<longleftrightarrow>
    list_all (\<lambda>(k, v). ext_nfc ext k = k \<and> profile ext v) kvs"
  using assms by (auto simp: serde_struct_def list_all_iff set_btree_of)

text \<open>Faithfulness of canonical bytes, as the identities use it.\<close>

lemma canonical_bytes_identify:
  assumes "jcs_faithful ext" "plain v" "plain w"
    "canonical_json_bytes ext (Inr v) = Ok b" "canonical_json_bytes ext (Inr w) = Ok b"
  shows "jdoc_of v = jdoc_of w"
proof -
  have "profile ext v" "ext_jcs ext v = Inr b" "profile ext w" "ext_jcs ext w = Inr b"
    using assms(4,5) by (auto simp: canonical_json_bytes_def result_simps validate_serializable_Ok)
  then show ?thesis
    using assms(1-3) unfolding jcs_faithful_def by blast
qed

section \<open>Content-addressed types\<close>

text \<open>The interface of a type whose values are identified by the digest of their canonical
  JSON: its serialization holds no float and tells different values apart.\<close>

locale content_addressed =
  fixes serialize :: "'a \<Rightarrow> serde_value"
  assumes plain_serialize: "plain (serialize x)"
    and serialize_inject: "jdoc_of (serialize x) = jdoc_of (serialize y) \<Longrightarrow> x = y"
begin

lemma bytes_identify:
  assumes "jcs_faithful ext" "canonical_json_bytes ext (Inr (serialize x)) = Ok b"
    "canonical_json_bytes ext (Inr (serialize y)) = Ok b"
  shows "x = y"
  using assms canonical_bytes_identify plain_serialize serialize_inject by blast

lemma digest_identify:
  assumes "jcs_faithful ext" "canonical_json_digest ext (Inr (serialize x)) = Ok d"
    "canonical_json_digest ext (Inr (serialize y)) = Ok d" "x \<noteq> y"
  shows "\<exists>b c. canonical_json_bytes ext (Inr (serialize x)) = Ok b
     \<and> canonical_json_bytes ext (Inr (serialize y)) = Ok c
     \<and> b \<noteq> c \<and> ext_sha256 ext b = ext_sha256 ext c"
proof -
  obtain b c where bc: "canonical_json_bytes ext (Inr (serialize x)) = Ok b"
      "canonical_json_bytes ext (Inr (serialize y)) = Ok c" "ext_sha256 ext b = ext_sha256 ext c"
    using assms(2,3) by (auto simp: canonical_json_digest_def result_simps from_bytes_def)
  moreover have "b \<noteq> c"
    using assms(1,4) bc(1,2) bytes_identify by blast
  ultimately show ?thesis by blast
qed

end

section \<open>A serializer that meets the hypothesis\<close>

text \<open>A self-delimiting code of JSON documents: it instantiates the serializer parameter in
  the witnesses of the theorems that assume \<open>jcs_faithful\<close>.\<close>

definition nat_code :: "nat \<Rightarrow> bytes" where
  "nat_code n = replicate n 1 @ [0]"

fun doc_code :: "jdoc \<Rightarrow> bytes" where
  "doc_code DNull = [0]"
| "doc_code (DBool b) = [1, of_bool b]"
| "doc_code (DInt i) = [2, of_bool (i < 0)] @ nat_code (nat \<bar>i\<bar>)"
| "doc_code (DFloat w) = 3 # nat_to_le 8 (unat w)"
| "doc_code (DFloat32 w) = 4 # nat_to_le 4 (unat w)"
| "doc_code (DString s) = 5 # nat_code (length s) @ as_bytes s"
| "doc_code (DArr ds) = 6 # concat (map (\<lambda>d. 1 # doc_code d) ds) @ [0]"
| "doc_code (DObj kds) =
     7 # concat (map (\<lambda>(k, d). 1 # nat_code (length k) @ as_bytes k @ doc_code d) kds) @ [0]"

lemma nat_code_prefix_free: "nat_code m @ r = nat_code n @ s \<longleftrightarrow> m = n \<and> r = s"
proof (induction m arbitrary: n)
  case 0
  then show ?case by (cases n) (auto simp: nat_code_def)
next
  case (Suc m)
  show ?case
  proof (cases n)
    case (Suc k)
    then show ?thesis using Suc.IH [of k] by (simp add: nat_code_def)
  qed (simp add: nat_code_def)
qed

lemma text_code_prefix_free:
  "nat_code (length s) @ as_bytes s @ r = nat_code (length t) @ as_bytes t @ q \<longleftrightarrow> s = t \<and> r = q"
  by (auto simp: nat_code_prefix_free)

definition prefix_free :: "('a \<Rightarrow> bytes) \<Rightarrow> 'a \<Rightarrow> bool" where
  "prefix_free code x \<longleftrightarrow> (\<forall>y r s. code x @ r = code y @ s \<longrightarrow> x = y \<and> r = s)"

lemma seq_code_prefix_free:
  assumes "\<And>x. x \<in> set xs \<Longrightarrow> prefix_free code x"
    "concat (map (\<lambda>x. 1 # code x) xs) @ 0 # r = concat (map (\<lambda>x. 1 # code x) ys) @ 0 # s"
  shows "xs = ys \<and> r = s"
  using assms
proof (induction xs arbitrary: ys)
  case Nil
  then show ?case by (cases ys) auto
next
  case (Cons x xs)
  show ?case
  proof (cases ys)
    case Nil
    then show ?thesis using Cons.prems(2) by simp
  next
    case (Cons y zs)
    have "code x @ (concat (map (\<lambda>x. 1 # code x) xs) @ 0 # r) = code y @ (concat (map (\<lambda>x. 1 # code x) zs) @ 0 # s)"
      using Cons.prems(2) Cons by simp
    moreover have "prefix_free code x" using Cons.prems(1) by simp
    ultimately have "x = y \<and> concat (map (\<lambda>x. 1 # code x) xs) @ 0 # r = concat (map (\<lambda>x. 1 # code x) zs) @ 0 # s"
      unfolding prefix_free_def by blast
    then show ?thesis using Cons Cons.IH [of zs] Cons.prems(1) by auto
  qed
qed

lemma member_code_prefix_free:
  assumes "prefix_free doc_code d"
  shows "prefix_free (\<lambda>(k, d). nat_code (length k) @ as_bytes k @ doc_code d) (k, d)"
  using assms by (auto simp: prefix_free_def text_code_prefix_free)

lemma append_same_length: "length a = length b \<Longrightarrow> a @ r = b @ s \<longleftrightarrow> a = b \<and> r = s"
  by auto

lemma nat_to_le_word_inject:
  "nat_to_le 8 (unat (v :: 64 word)) = nat_to_le 8 (unat w) \<longleftrightarrow> v = w"
  "nat_to_le 4 (unat (v' :: 32 word)) = nat_to_le 4 (unat w') \<longleftrightarrow> v' = w'"
proof -
  have "unat v < 256 ^ 8" "unat w < 256 ^ 8" "unat v' < 256 ^ 4" "unat w' < 256 ^ 4"
    using unsigned_less [of v, where 'a = nat] unsigned_less [of w, where 'a = nat]
      unsigned_less [of v', where 'a = nat] unsigned_less [of w', where 'a = nat] by simp_all
  then show "nat_to_le 8 (unat v) = nat_to_le 8 (unat w) \<longleftrightarrow> v = w"
    "nat_to_le 4 (unat v') = nat_to_le 4 (unat w') \<longleftrightarrow> v' = w'"
    by (metis nat_from_to_le_small word_unat_eq_iff)+
qed

lemma int_sign_abs: "(i < 0) = (j < 0) \<Longrightarrow> nat \<bar>i\<bar> = nat \<bar>j\<bar> \<Longrightarrow> i = (j :: int)"
  by auto

lemma prefix_freeI:
  "(\<And>y r s. code x @ r = code y @ s \<Longrightarrow> x = y \<and> r = s) \<Longrightarrow> prefix_free code x"
  by (auto simp: prefix_free_def)

lemma doc_code_prefix_free: "prefix_free doc_code d"
proof (induction d)
  case DNull
  show ?case
  proof (rule prefix_freeI)
    fix e r s assume "doc_code DNull @ r = doc_code e @ s"
    then show "DNull = e \<and> r = s" by (cases e) auto
  qed
next
  case (DBool b)
  show ?case
  proof (rule prefix_freeI)
    fix e r s assume "doc_code (DBool b) @ r = doc_code e @ s"
    then show "DBool b = e \<and> r = s" by (cases e) auto
  qed
next
  case (DInt i)
  show ?case
  proof (rule prefix_freeI)
    fix e r s assume "doc_code (DInt i) @ r = doc_code e @ s"
    then show "DInt i = e \<and> r = s"
      by (cases e) (auto simp: nat_code_prefix_free of_bool_eq_iff intro: int_sign_abs)
  qed
next
  case (DFloat w)
  show ?case
  proof (rule prefix_freeI)
    fix e r s assume "doc_code (DFloat w) @ r = doc_code e @ s"
    then show "DFloat w = e \<and> r = s"
      by (cases e) (auto simp: append_same_length nat_to_le_word_inject)
  qed
next
  case (DFloat32 w)
  show ?case
  proof (rule prefix_freeI)
    fix e r s assume "doc_code (DFloat32 w) @ r = doc_code e @ s"
    then show "DFloat32 w = e \<and> r = s"
      by (cases e) (auto simp: append_same_length nat_to_le_word_inject)
  qed
next
  case (DString t)
  show ?case
  proof (rule prefix_freeI)
    fix e r s assume "doc_code (DString t) @ r = doc_code e @ s"
    then show "DString t = e \<and> r = s"
      by (cases e) (auto simp: text_code_prefix_free)
  qed
next
  case (DArr ds)
  show ?case
  proof (rule prefix_freeI)
    fix e r s assume eq: "doc_code (DArr ds) @ r = doc_code e @ s"
    show "DArr ds = e \<and> r = s"
    proof (cases e)
      case (DArr es)
      then show ?thesis
        using seq_code_prefix_free [of ds doc_code r es s] DArr.IH eq by simp
    qed (use eq in auto)
  qed
next
  case (DObj kds)
  let ?code = "\<lambda>(k, d). nat_code (length k) @ as_bytes k @ doc_code d"
  have code: "(\<lambda>(k, d). 1 # nat_code (length k) @ as_bytes k @ doc_code d) = (\<lambda>x. 1 # ?code x)"
    by auto
  have free: "prefix_free ?code x" if "x \<in> set kds" for x
    using DObj.IH [of x "snd x"] that member_code_prefix_free [of "snd x" "fst x"]
    by (cases x) (auto simp: snds.simps)
  show ?case
  proof (rule prefix_freeI)
    fix e r s assume eq: "doc_code (DObj kds) @ r = doc_code e @ s"
    show "DObj kds = e \<and> r = s"
    proof (cases e)
      case (DObj les)
      then show ?thesis
        using seq_code_prefix_free [of kds ?code r les s] free eq by (simp add: code)
    qed (use eq in auto)
  qed
qed

text \<open>Sample instances of the third-party functions: a checksum-like digest of 32 bytes, the
  identity normalization, the self-delimiting code, and parsers that accept canonical text.\<close>

definition sample_ext :: externals where
  "sample_ext = \<lparr>ext_sha256 = \<lambda>bs. take 32 (bs @ replicate 32 0), ext_nfc = id,
     ext_jcs = \<lambda>v. Inr (doc_code (jdoc_of v)), ext_semver = Some,
     ext_uuid = \<lambda>s. Some (7, True, s)\<rparr>"

lemma sample_ext_simps [simp]:
  "ext_sha256 sample_ext = (\<lambda>bs. take 32 (bs @ replicate 32 0))" "ext_nfc sample_ext = id"
  "ext_jcs sample_ext = (\<lambda>v. Inr (doc_code (jdoc_of v)))" "ext_semver sample_ext = Some"
  "ext_uuid sample_ext = (\<lambda>s. Some (7, True, s))"
  by (simp_all add: sample_ext_def)

lemma jcs_faithful_sample: "jcs_faithful sample_ext"
proof -
  have "d = e" if "doc_code d = doc_code e" for d e
    using doc_code_prefix_free [of d] that unfolding prefix_free_def by (metis append_Nil2)
  then show ?thesis by (auto simp: jcs_faithful_def)
qed

end
