(* ===== verification/Frame.thy ===== *)
theory Frame
  imports Pitgun_Prelude
begin

text \<open>
  \<open>crates/pitgun-contract/src/frame.rs\<close>: telemetry frames, samples, events and the frame
  builder. Floats are bit patterns; the wall clock \<open>now_us\<close> is an argument; a builder that
  panics returns \<open>None\<close>. The numeric readings \<open>as_f64\<close> and \<open>as_i64\<close> of a value are in \<open>Registry\<close>.
\<close>

datatype SampleValue =
    VBool bool
  | VU8 u8 | VU16 u16 | VU32 u32 | VU64 u64
  | VI8 "8 word" | VI16 "16 word" | VI32 "32 word" | VI64 "64 word"
  | VF32 "32 word" | VF64 "64 word"
  | VBytes bytes | VString string

datatype SignalQuality = Good | Degraded | Bad | NoSignal | Unknown

datatype EventSeverity = Trace | Debug | Info | Warning | Error | Critical

text \<open>The derived order of a field-less enum is the order of its variants.\<close>

primrec severity_rank :: "EventSeverity \<Rightarrow> nat" where
  "severity_rank Trace = 0"
| "severity_rank Debug = 1"
| "severity_rank Info = 2"
| "severity_rank Warning = 3"
| "severity_rank Error = 4"
| "severity_rank Critical = 5"

lemma severity_rank_inject [simp]: "severity_rank a = severity_rank b \<longleftrightarrow> a = b"
  by (cases a; cases b) simp_all

instantiation EventSeverity :: linorder
begin
definition less_eq_EventSeverity :: "EventSeverity \<Rightarrow> EventSeverity \<Rightarrow> bool" where
  "less_eq_EventSeverity a b \<longleftrightarrow> severity_rank a \<le> severity_rank b"
definition less_EventSeverity :: "EventSeverity \<Rightarrow> EventSeverity \<Rightarrow> bool" where
  "less_EventSeverity a b \<longleftrightarrow> severity_rank a < severity_rank b"
instance
  by standard (auto simp: less_eq_EventSeverity_def less_EventSeverity_def)
end

datatype EventData =
    Number "64 word" | Text string | Flag bool | EMap "string \<rightharpoonup> string" | EBytes bytes

record Sample =
  parameter_id :: u16
  sample_value :: SampleValue
  quality :: SignalQuality
  sample_offset_us :: "32 word option"

record Event =
  event_id :: u16
  event_name :: string
  severity :: EventSeverity
  event_data :: "EventData option"
  event_offset_us :: "32 word option"

record TelemetryFrame =
  session_id :: u64
  frame_sequence :: u64
  timestamp_us :: i64
  received_at_us :: i64
  frame_source_id :: string
  samples :: "Sample list"
  events :: "Event list"
  cycle_index :: "u16 option"
  segment_index :: "u8 option"
  progress_m :: "32 word option"
  metadata :: "string \<rightharpoonup> string"

section \<open>Frame operations\<close>

definition frame_new :: "i64 \<Rightarrow> u64 \<Rightarrow> i64 \<Rightarrow> string \<Rightarrow> TelemetryFrame" where
  "frame_new now session timestamp source =
     \<lparr>session_id = session, frame_sequence = 0, timestamp_us = timestamp, received_at_us = now,
      frame_source_id = source, samples = [], events = [], cycle_index = None,
      segment_index = None, progress_m = None, metadata = Map.empty\<rparr>"

definition sample_count :: "TelemetryFrame \<Rightarrow> nat" where
  "sample_count f = length (samples f)"

definition event_count :: "TelemetryFrame \<Rightarrow> nat" where
  "event_count f = length (events f)"

definition frame_is_empty :: "TelemetryFrame \<Rightarrow> bool" where
  "frame_is_empty f \<longleftrightarrow> samples f = [] \<and> events f = []"

definition get_sample :: "TelemetryFrame \<Rightarrow> u16 \<Rightarrow> Sample option" where
  "get_sample f pid = List.find (\<lambda>s. parameter_id s = pid) (samples f)"

definition good_samples :: "TelemetryFrame \<Rightarrow> Sample list" where
  "good_samples f = filter (\<lambda>s. quality s = Good) (samples f)"

text \<open>The difference of two \<open>i64\<close> is taken with wrap-around and read as \<open>u64\<close>, as compiled
  without overflow checks.\<close>

definition micros_between :: "i64 \<Rightarrow> i64 \<Rightarrow> u64" where
  "micros_between later earlier = (if earlier <s later then later - earlier else 0)"

definition age :: "i64 \<Rightarrow> TelemetryFrame \<Rightarrow> u64" where
  "age now f = micros_between now (timestamp_us f)"

definition latency :: "TelemetryFrame \<Rightarrow> u64" where
  "latency f = micros_between (received_at_us f) (timestamp_us f)"

definition sample_new :: "u16 \<Rightarrow> SampleValue \<Rightarrow> SignalQuality \<Rightarrow> Sample" where
  "sample_new pid v q = \<lparr>parameter_id = pid, sample_value = v, quality = q, sample_offset_us = None\<rparr>"

definition sample_good :: "u16 \<Rightarrow> SampleValue \<Rightarrow> Sample" where
  "sample_good pid v = sample_new pid v Good"

definition sample_with_offset :: "Sample \<Rightarrow> 32 word \<Rightarrow> Sample" where
  "sample_with_offset s off = s\<lparr>sample_offset_us := Some off\<rparr>"

definition is_good :: "Sample \<Rightarrow> bool" where
  "is_good s \<longleftrightarrow> quality s = Good"

fun type_name :: "SampleValue \<Rightarrow> string" where
  "type_name (VBool _) = ''bool''"
| "type_name (VU8 _) = ''u8''"
| "type_name (VU16 _) = ''u16''"
| "type_name (VU32 _) = ''u32''"
| "type_name (VU64 _) = ''u64''"
| "type_name (VI8 _) = ''i8''"
| "type_name (VI16 _) = ''i16''"
| "type_name (VI32 _) = ''i32''"
| "type_name (VI64 _) = ''i64''"
| "type_name (VF32 _) = ''f32''"
| "type_name (VF64 _) = ''f64''"
| "type_name (VBytes _) = ''bytes''"
| "type_name (VString _) = ''string''"

fun size_bytes :: "SampleValue \<Rightarrow> nat" where
  "size_bytes (VBool _) = 1"
| "size_bytes (VU8 _) = 1"
| "size_bytes (VI8 _) = 1"
| "size_bytes (VU16 _) = 2"
| "size_bytes (VI16 _) = 2"
| "size_bytes (VU32 _) = 4"
| "size_bytes (VI32 _) = 4"
| "size_bytes (VF32 _) = 4"
| "size_bytes (VU64 _) = 8"
| "size_bytes (VI64 _) = 8"
| "size_bytes (VF64 _) = 8"
| "size_bytes (VBytes b) = length b"
| "size_bytes (VString s) = length s"

definition is_usable :: "SignalQuality \<Rightarrow> bool" where
  "is_usable q \<longleftrightarrow> q = Good \<or> q = Degraded"

fun score :: "SignalQuality \<Rightarrow> u8" where
  "score Good = 100"
| "score Degraded = 50"
| "score Bad = 10"
| "score NoSignal = 0"
| "score Unknown = 0"

definition event_new :: "u16 \<Rightarrow> string \<Rightarrow> EventSeverity \<Rightarrow> Event" where
  "event_new i n s =
     \<lparr>event_id = i, event_name = n, severity = s, event_data = None, event_offset_us = None\<rparr>"

definition event_with_data :: "Event \<Rightarrow> EventData \<Rightarrow> Event" where
  "event_with_data e d = e\<lparr>event_data := Some d\<rparr>"

definition event_with_offset :: "Event \<Rightarrow> 32 word \<Rightarrow> Event" where
  "event_with_offset e off = e\<lparr>event_offset_us := Some off\<rparr>"

definition is_warning_or_higher :: "EventSeverity \<Rightarrow> bool" where
  "is_warning_or_higher s \<longleftrightarrow> Warning \<le> s"

definition is_error_or_higher :: "EventSeverity \<Rightarrow> bool" where
  "is_error_or_higher s \<longleftrightarrow> Error \<le> s"

section \<open>The frame builder\<close>

record TelemetryFrameBuilder =
  b_session_id :: "u64 option"
  b_sequence :: u64
  b_timestamp_us :: "i64 option"
  b_received_at_us :: "i64 option"
  b_source_id :: "string option"
  b_samples :: "Sample list"
  b_events :: "Event list"
  b_cycle_index :: "u16 option"
  b_segment_index :: "u8 option"
  b_progress_m :: "32 word option"
  b_metadata :: "string \<rightharpoonup> string"

definition builder_new :: TelemetryFrameBuilder where
  "builder_new = \<lparr>b_session_id = None, b_sequence = 0, b_timestamp_us = None,
     b_received_at_us = None, b_source_id = None, b_samples = [], b_events = [],
     b_cycle_index = None, b_segment_index = None, b_progress_m = None, b_metadata = Map.empty\<rparr>"

text \<open>The builder's setters, one constructor per method.\<close>

datatype builder_call =
    SetSessionId u64 | SetSequence u64 | SetTimestamp i64 | SetReceivedAt i64 | SetSourceId string
  | AddSample Sample | AddSamples "Sample list" | AddEvent Event | AddEvents "Event list"
  | SetCycle u16 | SetSegment u8 | SetProgress "32 word" | AddMeta string string

fun builder_set :: "builder_call \<Rightarrow> TelemetryFrameBuilder \<Rightarrow> TelemetryFrameBuilder" where
  "builder_set (SetSessionId v) b = b\<lparr>b_session_id := Some v\<rparr>"
| "builder_set (SetSequence v) b = b\<lparr>b_sequence := v\<rparr>"
| "builder_set (SetTimestamp v) b = b\<lparr>b_timestamp_us := Some v\<rparr>"
| "builder_set (SetReceivedAt v) b = b\<lparr>b_received_at_us := Some v\<rparr>"
| "builder_set (SetSourceId v) b = b\<lparr>b_source_id := Some v\<rparr>"
| "builder_set (AddSample s) b = b\<lparr>b_samples := b_samples b @ [s]\<rparr>"
| "builder_set (AddSamples ss) b = b\<lparr>b_samples := b_samples b @ ss\<rparr>"
| "builder_set (AddEvent e) b = b\<lparr>b_events := b_events b @ [e]\<rparr>"
| "builder_set (AddEvents es) b = b\<lparr>b_events := b_events b @ es\<rparr>"
| "builder_set (SetCycle v) b = b\<lparr>b_cycle_index := Some v\<rparr>"
| "builder_set (SetSegment v) b = b\<lparr>b_segment_index := Some v\<rparr>"
| "builder_set (SetProgress v) b = b\<lparr>b_progress_m := Some v\<rparr>"
| "builder_set (AddMeta k v) b = b\<lparr>b_metadata := (b_metadata b)(k \<mapsto> v)\<rparr>"

definition try_build :: "i64 \<Rightarrow> TelemetryFrameBuilder \<Rightarrow> TelemetryFrame option" where
  "try_build now b =
     (case b_session_id b of None \<Rightarrow> None | Some session \<Rightarrow>
      case b_timestamp_us b of None \<Rightarrow> None | Some timestamp \<Rightarrow>
      case b_source_id b of None \<Rightarrow> None | Some source \<Rightarrow>
        Some \<lparr>session_id = session, frame_sequence = b_sequence b, timestamp_us = timestamp,
          received_at_us = (case b_received_at_us b of None \<Rightarrow> now | Some r \<Rightarrow> r),
          frame_source_id = source, samples = b_samples b, events = b_events b,
          cycle_index = b_cycle_index b, segment_index = b_segment_index b,
          progress_m = b_progress_m b, metadata = b_metadata b\<rparr>)"

text \<open>\<open>build\<close> panics, here \<open>None\<close>, where one of its three \<open>expect\<close> calls fails.\<close>

definition build :: "i64 \<Rightarrow> TelemetryFrameBuilder \<Rightarrow> TelemetryFrame option" where
  "build now b =
     (if b_session_id b = None \<or> b_timestamp_us b = None \<or> b_source_id b = None then None
      else Some \<lparr>session_id = the (b_session_id b), frame_sequence = b_sequence b,
          timestamp_us = the (b_timestamp_us b),
          received_at_us = (case b_received_at_us b of None \<Rightarrow> now | Some r \<Rightarrow> r),
          frame_source_id = the (b_source_id b), samples = b_samples b, events = b_events b,
          cycle_index = b_cycle_index b, segment_index = b_segment_index b,
          progress_m = b_progress_m b, metadata = b_metadata b\<rparr>)"

lemma build_eq_try_build: "build now b = try_build now b"
  by (auto simp: build_def try_build_def split: option.splits)

lemma builder_samples_in_order:
  "b_samples (fold builder_set calls b) =
     b_samples b @ concat (map (\<lambda>c. case c of AddSample s \<Rightarrow> [s] | AddSamples ss \<Rightarrow> ss | _ \<Rightarrow> []) calls)"
proof (induction calls arbitrary: b)
  case (Cons c cs)
  then show ?case by (cases c) simp_all
qed simp

lemma micros_between_exact:
  "unat (micros_between l e) = nat (sint l - sint e)"
proof (cases "sint e < sint l")
  case True
  have "uint (l - e) = (uint l - uint e) mod 2 ^ 64" by (simp add: uint_word_ariths)
  also have "\<dots> = (sint l - sint e) mod 2 ^ 64"
  proof -
    have "\<exists>k. sint l - sint e = uint l - uint e + k * 2 ^ 64"
      using sint_cases [of l] sint_cases [of e]
      by (elim disjE) (force intro: exI [of _ 0] exI [of _ 1] exI [of _ "- 1"])+
    then show ?thesis by (metis mod_mult_self1)
  qed
  also have "\<dots> = sint l - sint e"
    using True sint_ge [of e] sint_lt [of l] by (intro mod_pos_pos_trivial) auto
  finally show ?thesis
    using True by (simp add: micros_between_def word_sless_alt unat_eq_nat_uint)
next
  case False
  then show ?thesis by (simp add: micros_between_def word_sless_alt)
qed

text \<open>The latency of a frame is the exact number of microseconds by which reception follows
  capture, and 0 when it does not, even where the difference does not fit an \<open>i64\<close>.\<close>

theorem latency_exact:
  "unat (latency f) = nat (sint (received_at_us f) - sint (timestamp_us f))"
  by (simp add: latency_def micros_between_exact)

end
