(* ===== verification/Run_Contract.thy ===== *)
theory Run_Contract
  imports Serde_Model Frame
begin

text \<open>
  \<open>crates/pitgun-contract/src/run.rs\<close>: identifiers, seeds, versions and execution ids, the
  logical clock, the telemetry summary, the deterministic run contract with its content
  identity, and execution receipts.

  A \<open>SemanticVersion\<close> and an \<open>ExecutionId\<close> are kept as their canonical text, which their
  constructors check against the semver and uuid crates.
\<close>

section \<open>Scalars\<close>

definition MAX_IDENTIFIER_LENGTH :: nat where
  "MAX_IDENTIFIER_LENGTH = 128"

datatype RunContractError =
    InvalidIdentifier string
  | InvalidSemanticVersion string
  | InvalidSeed string
  | InvalidClock string
  | InvalidEventOrdering
  | InvalidExecutionId string
  | RunIdMismatch Digest Digest
  | RunCanonicalJson CanonicalJsonError

datatype Identifier = Identifier (ident_text: string)

text \<open>The derived \<open>Ord\<close> of \<open>Identifier\<close> is the order of its string.\<close>

instantiation Identifier :: linorder
begin
definition less_eq_Identifier :: "Identifier \<Rightarrow> Identifier \<Rightarrow> bool" where
  "less_eq_Identifier a b \<longleftrightarrow> ident_text a \<le> ident_text b"
definition less_Identifier :: "Identifier \<Rightarrow> Identifier \<Rightarrow> bool" where
  "less_Identifier a b \<longleftrightarrow> ident_text a < ident_text b"
instance
  by standard (auto simp: less_eq_Identifier_def less_Identifier_def Identifier.expand)
end

definition identifier_tail_char :: "char \<Rightarrow> bool" where
  "identifier_tail_char c \<longleftrightarrow>
     is_ascii_lowercase c \<or> is_ascii_digit c \<or> c \<in> {CHR ''.'', CHR ''_'', CHR ''-''}"

definition validate_identifier :: "string \<Rightarrow> RunContractError + unit" where
  "validate_identifier value =
     (let valid = length value \<le> MAX_IDENTIFIER_LENGTH \<and>
          (case value of [] \<Rightarrow> False | c # rest \<Rightarrow>
             (is_ascii_lowercase c \<or> is_ascii_digit c) \<and> list_all identifier_tail_char rest)
      in if valid then Ok () else Err (InvalidIdentifier value))"

definition identifier_new :: "string \<Rightarrow> RunContractError + Identifier" where
  "identifier_new value = and_also (validate_identifier value) (Ok (Identifier value))"

datatype SemanticVersion = SemanticVersion (version_text: string)

definition semantic_version_new :: "externals \<Rightarrow> string \<Rightarrow> RunContractError + SemanticVersion" where
  "semantic_version_new ext value =
     and_then (ok_or (ext_semver ext value) (InvalidSemanticVersion value)) (\<lambda>parsed.
     if parsed \<noteq> value then Err (InvalidSemanticVersion value) else Ok (SemanticVersion parsed))"

datatype Seed = Seed (seed_get: u64)

definition seed_to_string :: "Seed \<Rightarrow> string" where
  "seed_to_string s = show_nat (unat (seed_get s))"

definition seed_from_str :: "string \<Rightarrow> RunContractError + Seed" where
  "seed_from_str value =
     (if \<not> canonical_digits value then Err (InvalidSeed value)
      else map_ok Seed (ok_or (parse_u64 value) (InvalidSeed value)))"

datatype ExecutionId = ExecutionId (execution_text: string)

definition execution_id_from_str :: "externals \<Rightarrow> string \<Rightarrow> RunContractError + ExecutionId" where
  "execution_id_from_str ext value =
     and_then (ok_or (ext_uuid ext value) (InvalidExecutionId value)) (\<lambda>(version, rfc4122, hyphenated).
     if version \<noteq> 7 \<or> \<not> rfc4122 \<or> hyphenated \<noteq> value
     then Err (InvalidExecutionId value) else Ok (ExecutionId value))"

section \<open>Vocabulary of the contract\<close>

datatype ContractVersion = ContractV1
datatype TelemetrySummaryVersion = TelemetrySummaryVersionV1
datatype RuntimeProfile = PortableExactV1
datatype RandomAlgorithm = PitgunSplitMix64V1
datatype StreamDerivation = Sha256LabelV1
datatype LogicalClockKind = LogicalFixedStep
datatype EventOrderingKey = LogicalTick | SourceId | SourceSequence | InsertionOrdinal
datatype StringOrder = UnicodeCodePoint
datatype InputMediaType = ApplicationJson
datatype InputCanonicalization = JcsRfc8785

record ScenarioIdentity =
  scenario_id :: Identifier
  scenario_version :: SemanticVersion

record ArtifactIdentity =
  artifact_id :: Identifier
  artifact_version :: SemanticVersion
  artifact_content_digest :: Digest

record RandomContractV1 =
  random_seed :: Seed
  random_algorithm :: RandomAlgorithm
  stream_derivation :: StreamDerivation

record LogicalClockV1 =
  clock_kind :: LogicalClockKind
  clock_epoch :: i64
  tick_numerator_us :: u64
  tick_denominator :: u64

record EventOrderingV1 =
  ordering_keys :: "EventOrderingKey list"
  string_order :: StringOrder

record InputIdentity =
  media_type :: InputMediaType
  canonicalization :: InputCanonicalization
  input_digest :: Digest

record DeterministicRunContractV1 =
  contract_version :: ContractVersion
  contract_scenario :: ScenarioIdentity
  contract_model :: ArtifactIdentity
  contract_data_pack :: ArtifactIdentity
  contract_runtime_profile :: RuntimeProfile
  contract_random :: RandomContractV1
  contract_clock :: LogicalClockV1
  contract_event_ordering :: EventOrderingV1
  contract_input :: InputIdentity

record RuntimeIdentity =
  runtime_engine :: Identifier
  runtime_engine_version :: SemanticVersion
  runtime_target :: Identifier
  runtime_artifact_digest :: Digest

record ExecutionReceiptV1 =
  receipt_run_id :: Digest
  receipt_execution_id :: ExecutionId
  receipt_runtime :: RuntimeIdentity
  receipt_output_digest :: Digest
  receipt_telemetry_summary_digest :: Digest

section \<open>Clock and event ordering\<close>

function greatest_common_divisor :: "u64 \<Rightarrow> u64 \<Rightarrow> u64" where
  "greatest_common_divisor left right =
     (if right = 0 then left else greatest_common_divisor right (left mod right))"
  by pat_completeness auto
termination
  by (relation "measure (\<lambda>(l, r). unat r)")
    (auto simp: unat_mod_distrib unat_gt_0 intro!: mod_less_divisor)

declare greatest_common_divisor.simps [simp del]

definition clock_new :: "i64 \<Rightarrow> u64 \<Rightarrow> u64 \<Rightarrow> RunContractError + LogicalClockV1" where
  "clock_new epoch numerator denominator =
     (if unsigned_abs epoch > MAX_SAFE_JSON_INTEGER
      then Err (InvalidClock ''epoch is outside the exact I-JSON integer range'')
      else if numerator = 0 \<or> denominator = 0
      then Err (InvalidClock ''tick numerator and denominator must be positive'')
      else if numerator > MAX_SAFE_JSON_INTEGER \<or> denominator > MAX_SAFE_JSON_INTEGER
      then Err (InvalidClock ''tick fraction is outside the exact I-JSON integer range'')
      else if greatest_common_divisor numerator denominator \<noteq> 1
      then Err (InvalidClock ''tick fraction must be reduced to lowest terms'')
      else Ok \<lparr>clock_kind = LogicalFixedStep, clock_epoch = epoch,
                tick_numerator_us = numerator, tick_denominator = denominator\<rparr>)"

text \<open>\<open>Deserialize for LogicalClockV1\<close>, from the fields of the wire struct.\<close>

definition clock_from_wire ::
    "LogicalClockKind \<Rightarrow> i64 \<Rightarrow> u64 \<Rightarrow> u64 \<Rightarrow> RunContractError + LogicalClockV1" where
  "clock_from_wire kind epoch numerator denominator =
     (if kind \<noteq> LogicalFixedStep then Err (InvalidClock ''unsupported logical clock kind'')
      else clock_new epoch numerator denominator)"

definition required_event_keys :: "EventOrderingKey list" where
  "required_event_keys = [LogicalTick, SourceId, SourceSequence, InsertionOrdinal]"

definition event_ordering_v1 :: EventOrderingV1 where
  "event_ordering_v1 = \<lparr>ordering_keys = required_event_keys, string_order = UnicodeCodePoint\<rparr>"

definition event_ordering_from_wire ::
    "EventOrderingKey list \<Rightarrow> StringOrder \<Rightarrow> RunContractError + EventOrderingV1" where
  "event_ordering_from_wire wire_keys order =
     (if wire_keys \<noteq> required_event_keys \<or> order \<noteq> UnicodeCodePoint then Err InvalidEventOrdering
      else Ok \<lparr>ordering_keys = wire_keys, string_order = order\<rparr>)"

section \<open>Telemetry summary\<close>

datatype TelemetrySummaryError =
    CountOverflow string
  | SummaryUnsafeInteger string string
  | InvalidBoundaries
  | InvalidBatchCount
  | InvalidParameterOrder

record TelemetrySummaryV1 =
  summary_schema_version :: TelemetrySummaryVersion
  batch_count :: u64
  frame_count :: u64
  first_timestamp_us :: "i64 option"
  last_timestamp_us :: "i64 option"
  first_sequence :: "u64 option"
  last_sequence :: "u64 option"
  parameter_ids :: "u16 list"
  summary_event_count :: u64
  dropped_frame_count :: u64

definition validate_summary_u64 :: "string \<Rightarrow> u64 \<Rightarrow> TelemetrySummaryError + unit" where
  "validate_summary_u64 field value =
     (if value \<le> MAX_SAFE_JSON_INTEGER then Ok ()
      else Err (SummaryUnsafeInteger field (show_nat (unat value))))"

definition validate_summary_i64 :: "string \<Rightarrow> i64 \<Rightarrow> TelemetrySummaryError + unit" where
  "validate_summary_i64 field value =
     (if unsigned_abs value \<le> MAX_SAFE_JSON_INTEGER then Ok ()
      else Err (SummaryUnsafeInteger field (show_int (sint value))))"

definition flatten :: "'a option list \<Rightarrow> 'a list" where
  "flatten xs = List.map_filter id xs"

definition summary_validate :: "TelemetrySummaryV1 \<Rightarrow> TelemetrySummaryError + unit" where
  "summary_validate s =
     and_also (validate_summary_u64 ''batch_count'' (batch_count s))
    (and_also (validate_summary_u64 ''frame_count'' (frame_count s))
    (and_also (validate_summary_u64 ''event_count'' (summary_event_count s))
    (and_also (validate_summary_u64 ''dropped_frame_count'' (dropped_frame_count s))
    (and_also (try_each (validate_summary_i64 ''timestamp_us'')
       (flatten [first_timestamp_us s, last_timestamp_us s]))
    (and_also (try_each (validate_summary_u64 ''sequence'')
       (flatten [first_sequence s, last_sequence s]))
    (let boundaries_present =
           [first_timestamp_us s \<noteq> None, last_timestamp_us s \<noteq> None,
            first_sequence s \<noteq> None, last_sequence s \<noteq> None];
         valid_boundaries =
           (if frame_count s = 0 then list_all Not boundaries_present
            else list_all id boundaries_present)
     in if \<not> valid_boundaries then Err InvalidBoundaries
        else if frame_count s > 0 \<and> batch_count s = 0 then Err InvalidBatchCount
        else if \<not> successively (<) (parameter_ids s) then Err InvalidParameterOrder
        else Ok ()))))))"

text \<open>The mutable locals of the aggregation loop.\<close>

record summary_acc =
  acc_frames :: u64
  acc_events :: u64
  acc_first_ts :: "i64 option"
  acc_last_ts :: "i64 option"
  acc_first_seq :: "u64 option"
  acc_last_seq :: "u64 option"
  acc_ids :: "u16 set"

definition get_or_insert :: "'a option \<Rightarrow> 'a \<Rightarrow> 'a option" where
  "get_or_insert v x = (case v of None \<Rightarrow> Some x | Some y \<Rightarrow> Some y)"

definition u64_try_from :: "nat \<Rightarrow> u64 option" where
  "u64_try_from n = (if n < 2 ^ 64 then Some (word_of_nat n) else None)"

definition summary_step :: "summary_acc \<Rightarrow> TelemetryFrame \<Rightarrow> TelemetrySummaryError + summary_acc" where
  "summary_step a frame =
     and_also (validate_summary_i64 ''timestamp_us'' (timestamp_us frame))
    (and_also (validate_summary_u64 ''sequence'' (frame_sequence frame))
    (and_then (ok_or (checked_add (acc_frames a) 1) (CountOverflow ''frame_count'')) (\<lambda>frames.
     and_then (ok_or (u64_try_from (length (events frame))) (CountOverflow ''event_count'')) (\<lambda>n.
     and_then (ok_or (checked_add (acc_events a) n) (CountOverflow ''event_count'')) (\<lambda>evs.
     Ok \<lparr>acc_frames = frames, acc_events = evs,
          acc_first_ts = get_or_insert (acc_first_ts a) (timestamp_us frame),
          acc_last_ts = Some (timestamp_us frame),
          acc_first_seq = get_or_insert (acc_first_seq a) (frame_sequence frame),
          acc_last_seq = Some (frame_sequence frame),
          acc_ids = acc_ids a \<union> set (map parameter_id (samples frame))\<rparr>)))))"

definition summary_start :: summary_acc where
  "summary_start = \<lparr>acc_frames = 0, acc_events = 0, acc_first_ts = None, acc_last_ts = None,
     acc_first_seq = None, acc_last_seq = None, acc_ids = {}\<rparr>"

definition from_ordered_frames ::
    "u64 \<Rightarrow> TelemetryFrame list \<Rightarrow> u64 \<Rightarrow> TelemetrySummaryError + TelemetrySummaryV1" where
  "from_ordered_frames batches frames dropped =
     and_also (validate_summary_u64 ''batch_count'' batches)
    (and_also (validate_summary_u64 ''dropped_frame_count'' dropped)
    (and_then (try_fold summary_step summary_start frames) (\<lambda>a.
     and_also (validate_summary_u64 ''frame_count'' (acc_frames a))
    (and_also (validate_summary_u64 ''event_count'' (acc_events a))
    (let summary = \<lparr>summary_schema_version = TelemetrySummaryVersionV1, batch_count = batches,
           frame_count = acc_frames a, first_timestamp_us = acc_first_ts a,
           last_timestamp_us = acc_last_ts a, first_sequence = acc_first_seq a,
           last_sequence = acc_last_seq a, parameter_ids = sorted_list_of_set (acc_ids a),
           summary_event_count = acc_events a, dropped_frame_count = dropped\<rparr>
     in and_also (summary_validate summary) (Ok summary))))))"

section \<open>Serialization and identity\<close>

definition serialize_Digest :: "Digest \<Rightarrow> serde_value" where
  "serialize_Digest d = SString (digest_to_string d)"

definition serialize_Identifier :: "Identifier \<Rightarrow> serde_value" where
  "serialize_Identifier i = SString (ident_text i)"

definition serialize_SemanticVersion :: "SemanticVersion \<Rightarrow> serde_value" where
  "serialize_SemanticVersion v = SString (version_text v)"

definition serialize_Seed :: "Seed \<Rightarrow> serde_value" where
  "serialize_Seed s = SString (seed_to_string s)"

definition serialize_ExecutionId :: "ExecutionId \<Rightarrow> serde_value" where
  "serialize_ExecutionId i = SString (execution_text i)"

definition serialize_option :: "('a \<Rightarrow> serde_value) \<Rightarrow> 'a option \<Rightarrow> serde_value" where
  "serialize_option f v = SOption (map_option f v)"

fun serialize_EventOrderingKey :: "EventOrderingKey \<Rightarrow> serde_value" where
  "serialize_EventOrderingKey LogicalTick = SString ''logical_tick''"
| "serialize_EventOrderingKey SourceId = SString ''source_id''"
| "serialize_EventOrderingKey SourceSequence = SString ''source_sequence''"
| "serialize_EventOrderingKey InsertionOrdinal = SString ''insertion_ordinal''"

definition serialize_ScenarioIdentity :: "ScenarioIdentity \<Rightarrow> serde_value" where
  "serialize_ScenarioIdentity s = serde_struct
     [(''id'', serialize_Identifier (scenario_id s)),
      (''version'', serialize_SemanticVersion (scenario_version s))]"

definition serialize_ArtifactIdentity :: "ArtifactIdentity \<Rightarrow> serde_value" where
  "serialize_ArtifactIdentity a = serde_struct
     [(''id'', serialize_Identifier (artifact_id a)),
      (''version'', serialize_SemanticVersion (artifact_version a)),
      (''digest'', serialize_Digest (artifact_content_digest a))]"

definition serialize_RandomContractV1 :: "RandomContractV1 \<Rightarrow> serde_value" where
  "serialize_RandomContractV1 r = serde_struct
     [(''seed'', serialize_Seed (random_seed r)),
      (''algorithm'', SString ''pitgun-splitmix64-v1''),
      (''stream_derivation'', SString ''sha256-label-v1'')]"

definition serialize_LogicalClockV1 :: "LogicalClockV1 \<Rightarrow> serde_value" where
  "serialize_LogicalClockV1 c = serde_struct
     [(''kind'', SString ''logical-fixed-step''),
      (''epoch'', SI64 (clock_epoch c)),
      (''tick_numerator_us'', SU64 (tick_numerator_us c)),
      (''tick_denominator'', SU64 (tick_denominator c))]"

definition serialize_EventOrderingV1 :: "EventOrderingV1 \<Rightarrow> serde_value" where
  "serialize_EventOrderingV1 e = serde_struct
     [(''keys'', SSeq (map serialize_EventOrderingKey (ordering_keys e))),
      (''string_order'', SString ''unicode-code-point'')]"

definition serialize_InputIdentity :: "InputIdentity \<Rightarrow> serde_value" where
  "serialize_InputIdentity i = serde_struct
     [(''media_type'', SString ''application/json''),
      (''canonicalization'', SString ''jcs-rfc8785''),
      (''digest'', serialize_Digest (input_digest i))]"

definition serialize_run_contract :: "DeterministicRunContractV1 \<Rightarrow> serde_value" where
  "serialize_run_contract c = serde_struct
     [(''contract_version'', SString ''pitgun.deterministic-run/v1''),
      (''scenario'', serialize_ScenarioIdentity (contract_scenario c)),
      (''model'', serialize_ArtifactIdentity (contract_model c)),
      (''data_pack'', serialize_ArtifactIdentity (contract_data_pack c)),
      (''runtime_profile'', SString ''portable-exact-v1''),
      (''random'', serialize_RandomContractV1 (contract_random c)),
      (''clock'', serialize_LogicalClockV1 (contract_clock c)),
      (''event_ordering'', serialize_EventOrderingV1 (contract_event_ordering c)),
      (''input'', serialize_InputIdentity (contract_input c))]"

definition serialize_RuntimeIdentity :: "RuntimeIdentity \<Rightarrow> serde_value" where
  "serialize_RuntimeIdentity r = serde_struct
     [(''engine'', serialize_Identifier (runtime_engine r)),
      (''engine_version'', serialize_SemanticVersion (runtime_engine_version r)),
      (''target'', serialize_Identifier (runtime_target r)),
      (''artifact_digest'', serialize_Digest (runtime_artifact_digest r))]"

definition serialize_receipt :: "ExecutionReceiptV1 \<Rightarrow> serde_value" where
  "serialize_receipt r = serde_struct
     [(''run_id'', serialize_Digest (receipt_run_id r)),
      (''execution_id'', serialize_ExecutionId (receipt_execution_id r)),
      (''runtime'', serialize_RuntimeIdentity (receipt_runtime r)),
      (''output_digest'', serialize_Digest (receipt_output_digest r)),
      (''telemetry_summary_digest'', serialize_Digest (receipt_telemetry_summary_digest r))]"

definition serialize_summary :: "TelemetrySummaryV1 \<Rightarrow> serde_value" where
  "serialize_summary s = serde_struct
     [(''schema_version'', SString ''pitgun.telemetry-summary/v1''),
      (''batch_count'', SU64 (batch_count s)),
      (''frame_count'', SU64 (frame_count s)),
      (''first_timestamp_us'', serialize_option SI64 (first_timestamp_us s)),
      (''last_timestamp_us'', serialize_option SI64 (last_timestamp_us s)),
      (''first_sequence'', serialize_option SU64 (first_sequence s)),
      (''last_sequence'', serialize_option SU64 (last_sequence s)),
      (''parameter_ids'', SSeq (map SU16 (parameter_ids s))),
      (''event_count'', SU64 (summary_event_count s)),
      (''dropped_frame_count'', SU64 (dropped_frame_count s))]"

definition run_id :: "externals \<Rightarrow> DeterministicRunContractV1 \<Rightarrow> CanonicalJsonError + Digest" where
  "run_id ext c = canonical_json_digest ext (Inr (serialize_run_contract c))"

definition verify_receipt ::
    "externals \<Rightarrow> DeterministicRunContractV1 \<Rightarrow> ExecutionReceiptV1 \<Rightarrow> RunContractError + unit" where
  "verify_receipt ext c receipt =
     and_then (map_err RunCanonicalJson (run_id ext c)) (\<lambda>expected.
     if receipt_run_id receipt = expected then Ok ()
     else Err (RunIdMismatch expected (receipt_run_id receipt)))"

definition receipt_for_contract ::
    "externals \<Rightarrow> DeterministicRunContractV1 \<Rightarrow> ExecutionId \<Rightarrow> RuntimeIdentity \<Rightarrow> Digest \<Rightarrow> Digest
       \<Rightarrow> CanonicalJsonError + ExecutionReceiptV1" where
  "receipt_for_contract ext c execution runtime_identity output summary =
     and_then (run_id ext c) (\<lambda>run.
     Ok \<lparr>receipt_run_id = run, receipt_execution_id = execution, receipt_runtime = runtime_identity,
          receipt_output_digest = output, receipt_telemetry_summary_digest = summary\<rparr>)"

section \<open>Serialization tells contracts apart\<close>

lemma digest_to_string_inject [simp]: "digest_to_string d = digest_to_string e \<longleftrightarrow> d = e"
proof
  assume "digest_to_string d = digest_to_string e"
  then have "concat (map hex_byte (digest_bytes d)) = concat (map hex_byte (digest_bytes e))"
    by (simp add: digest_to_string_def)
  then have "(Ok (digest_bytes d) :: DigestParseError + bytes) = Ok (digest_bytes e)"
    by (metis decode_pairs_hex)
  then show "d = e" by (simp add: Digest.expand)
qed simp

named_theorems serialize_defs \<open>definitions of the derived serializations\<close>

lemmas [serialize_defs] = serialize_Digest_def serialize_Identifier_def serialize_SemanticVersion_def
  serialize_Seed_def serialize_ExecutionId_def

lemma jdoc_scalars_inject [simp]:
  "jdoc_of (serialize_Digest d) = jdoc_of (serialize_Digest e) \<longleftrightarrow> d = e"
  "jdoc_of (serialize_Identifier i) = jdoc_of (serialize_Identifier j) \<longleftrightarrow> i = j"
  "jdoc_of (serialize_SemanticVersion v) = jdoc_of (serialize_SemanticVersion w) \<longleftrightarrow> v = w"
  "jdoc_of (serialize_Seed s) = jdoc_of (serialize_Seed t) \<longleftrightarrow> s = t"
  "jdoc_of (serialize_ExecutionId x) = jdoc_of (serialize_ExecutionId y) \<longleftrightarrow> x = y"
  by (auto simp: serialize_defs seed_to_string_def Identifier.expand SemanticVersion.expand
      Seed.expand ExecutionId.expand word_unat_eq_iff [symmetric])

lemma jdoc_u64_inject [simp]: "uint v = uint w \<longleftrightarrow> v = w" for v w :: "'a::len word"
  by (simp add: word_uint_eq_iff)

lemma jdoc_i64_inject [simp]: "sint v = sint w \<longleftrightarrow> v = w" for v w :: "'a::len word"
  using word_eq_iff_signed [of v w, where 'a = int] by simp

lemma jdoc_option_inject:
  assumes "\<And>a b. jdoc_of (f a) = jdoc_of (f b) \<longleftrightarrow> a = b" "\<And>a. jdoc_of (f a) \<noteq> DNull"
  shows "jdoc_of (serialize_option f v) = jdoc_of (serialize_option f w) \<longleftrightarrow> v = w"
  using assms(2) [symmetric] by (cases v; cases w) (auto simp: serialize_option_def assms)

lemma jdoc_option_word [simp]:
  "jdoc_of (serialize_option SI64 a) = jdoc_of (serialize_option SI64 b) \<longleftrightarrow> a = b"
  "jdoc_of (serialize_option SU64 c) = jdoc_of (serialize_option SU64 d) \<longleftrightarrow> c = d"
  by (rule jdoc_option_inject; simp)+

lemma jdoc_seq_inject:
  assumes "\<And>a b. jdoc_of (f a) = jdoc_of (f b) \<longleftrightarrow> a = b"
  shows "jdoc_of (SSeq (map f xs)) = jdoc_of (SSeq (map f ys)) \<longleftrightarrow> xs = ys"
proof -
  have "inj (jdoc_of \<circ> f)" using assms by (auto intro: injI)
  then have "map (jdoc_of \<circ> f) xs = map (jdoc_of \<circ> f) ys \<longleftrightarrow> xs = ys"
    by (rule inj_map_eq_map)
  then show ?thesis by simp
qed

lemma jdoc_key_inject [simp]:
  "jdoc_of (serialize_EventOrderingKey a) = jdoc_of (serialize_EventOrderingKey b) \<longleftrightarrow> a = b"
  by (cases a; cases b) auto

lemma single_variant [simp]:
  "(a :: ContractVersion) = b" "(c :: RuntimeProfile) = d" "(e :: RandomAlgorithm) = f"
  "(g :: StreamDerivation) = h" "(i :: LogicalClockKind) = j" "(k :: StringOrder) = l"
  "(m :: InputMediaType) = n" "(p :: InputCanonicalization) = q" "(r :: TelemetrySummaryVersion) = t"
  by (metis ContractVersion.exhaust, metis RuntimeProfile.exhaust, metis RandomAlgorithm.exhaust,
      metis StreamDerivation.exhaust, metis LogicalClockKind.exhaust, metis StringOrder.exhaust,
      metis InputMediaType.exhaust, metis InputCanonicalization.exhaust,
      metis TelemetrySummaryVersion.exhaust)

lemma jdoc_structs_inject [simp]:
  "jdoc_of (serialize_ScenarioIdentity s) = jdoc_of (serialize_ScenarioIdentity s') \<longleftrightarrow> s = s'"
  "jdoc_of (serialize_ArtifactIdentity a) = jdoc_of (serialize_ArtifactIdentity a') \<longleftrightarrow> a = a'"
  "jdoc_of (serialize_RandomContractV1 r) = jdoc_of (serialize_RandomContractV1 r') \<longleftrightarrow> r = r'"
  "jdoc_of (serialize_LogicalClockV1 c) = jdoc_of (serialize_LogicalClockV1 c') \<longleftrightarrow> c = c'"
  "jdoc_of (serialize_EventOrderingV1 e) = jdoc_of (serialize_EventOrderingV1 e') \<longleftrightarrow> e = e'"
  "jdoc_of (serialize_InputIdentity i) = jdoc_of (serialize_InputIdentity i') \<longleftrightarrow> i = i'"
  "jdoc_of (serialize_RuntimeIdentity q) = jdoc_of (serialize_RuntimeIdentity q') \<longleftrightarrow> q = q'"
  by (auto simp: serialize_ScenarioIdentity_def serialize_ArtifactIdentity_def
      serialize_RandomContractV1_def serialize_LogicalClockV1_def serialize_EventOrderingV1_def
      serialize_InputIdentity_def serialize_RuntimeIdentity_def jdoc_of_struct_inject
      jdoc_seq_inject [simplified])

lemma plain_scalars [simp]:
  "plain (serialize_Digest d)" "plain (serialize_Identifier i)" "plain (serialize_SemanticVersion v)"
  "plain (serialize_Seed s)" "plain (serialize_ExecutionId x)"
  "plain (serialize_option SI64 a)" "plain (serialize_option SU64 c)"
  "plain (serialize_EventOrderingKey k)"
  by (simp_all add: serialize_defs, cases a, simp_all add: serialize_option_def, cases c, simp_all,
      cases k, simp_all)

lemma plain_structs [simp]:
  "plain (serialize_ScenarioIdentity s)" "plain (serialize_ArtifactIdentity a)"
  "plain (serialize_RandomContractV1 r)" "plain (serialize_LogicalClockV1 c)"
  "plain (serialize_EventOrderingV1 e)" "plain (serialize_InputIdentity i)"
  "plain (serialize_RuntimeIdentity q)"
  by (auto simp: serialize_ScenarioIdentity_def serialize_ArtifactIdentity_def
      serialize_RandomContractV1_def serialize_LogicalClockV1_def serialize_EventOrderingV1_def
      serialize_InputIdentity_def serialize_RuntimeIdentity_def list_all_iff intro!: plain_struct)

lemma serialize_run_contract_inject:
  "jdoc_of (serialize_run_contract c) = jdoc_of (serialize_run_contract c') \<longleftrightarrow> c = c'"
  by (auto simp: serialize_run_contract_def jdoc_of_struct_inject)

lemma serialize_receipt_inject:
  "jdoc_of (serialize_receipt r) = jdoc_of (serialize_receipt r') \<longleftrightarrow> r = r'"
  by (auto simp: serialize_receipt_def jdoc_of_struct_inject)

lemma serialize_summary_inject:
  "jdoc_of (serialize_summary s) = jdoc_of (serialize_summary s') \<longleftrightarrow> s = s'"
  using jdoc_seq_inject [of SU16 "parameter_ids s" "parameter_ids s'"]
  by (auto simp: serialize_summary_def jdoc_of_struct_inject)

lemma plain_documents [simp]:
  "plain (serialize_run_contract c)" "plain (serialize_receipt r)" "plain (serialize_summary s)"
  unfolding serialize_run_contract_def serialize_receipt_def serialize_summary_def
  by (rule plain_struct; simp add: list_all_iff)+

interpretation run_contract_content: content_addressed serialize_run_contract
  by unfold_locales (simp_all add: serialize_run_contract_inject)

interpretation receipt_content: content_addressed serialize_receipt
  by unfold_locales (simp_all add: serialize_receipt_inject)

interpretation summary_content: content_addressed serialize_summary
  by unfold_locales (simp_all add: serialize_summary_inject)

text \<open>C11: two different run contracts that share a run id have different canonical bytes with
  the same SHA-256 value, so a run id identifies its contract up to a collision of these very bytes.\<close>

theorem run_id_binds_contract:
  assumes "jcs_faithful ext" "run_id ext c = Ok d" "run_id ext c' = Ok d" "c \<noteq> c'"
  shows "\<exists>b b'. canonical_json_bytes ext (Inr (serialize_run_contract c)) = Ok b
     \<and> canonical_json_bytes ext (Inr (serialize_run_contract c')) = Ok b'
     \<and> b \<noteq> b' \<and> ext_sha256 ext b = ext_sha256 ext b'"
  using assms run_contract_content.digest_identify unfolding run_id_def by blast

text \<open>Sample values for witnesses.\<close>

definition sample_digest :: "u8 \<Rightarrow> Digest" where
  "sample_digest b = Digest (replicate 32 b)"

definition sample_artifact :: "string \<Rightarrow> u8 \<Rightarrow> ArtifactIdentity" where
  "sample_artifact name b =
     \<lparr>artifact_id = Identifier name, artifact_version = SemanticVersion ''1.0.0'',
      artifact_content_digest = sample_digest b\<rparr>"

definition sample_contract :: "u64 \<Rightarrow> u8 \<Rightarrow> DeterministicRunContractV1" where
  "sample_contract seed b =
     \<lparr>contract_version = ContractV1,
      contract_scenario = \<lparr>scenario_id = Identifier ''qualifying'', scenario_version = SemanticVersion ''1.0.0''\<rparr>,
      contract_model = sample_artifact ''model'' 1, contract_data_pack = sample_artifact ''pack'' 2,
      contract_runtime_profile = PortableExactV1,
      contract_random = \<lparr>random_seed = Seed seed, random_algorithm = PitgunSplitMix64V1,
        stream_derivation = Sha256LabelV1\<rparr>,
      contract_clock = \<lparr>clock_kind = LogicalFixedStep, clock_epoch = 10, tick_numerator_us = 1000,
        tick_denominator = 1\<rparr>,
      contract_event_ordering = event_ordering_v1,
      contract_input = \<lparr>media_type = ApplicationJson, canonicalization = JcsRfc8785,
        input_digest = sample_digest b\<rparr>\<rparr>"

definition weak_ext :: externals where
  "weak_ext = sample_ext\<lparr>ext_sha256 := \<lambda>_. replicate 32 0\<rparr>"

lemma weak_ext_simps [simp]:
  "ext_sha256 weak_ext = (\<lambda>_. replicate 32 0)" "ext_nfc weak_ext = id"
  "ext_jcs weak_ext = (\<lambda>v. Inr (doc_code (jdoc_of v)))"
  by (simp_all add: weak_ext_def)

lemma profile_cong: "ext_nfc ext = ext_nfc ext' \<Longrightarrow> profile ext v = profile ext' v"
  by (induction ext v rule: profile.induct) (force simp: list_all_iff)+

lemma jcs_faithful_cong:
  assumes "ext_jcs ext = ext_jcs ext'" "ext_nfc ext = ext_nfc ext'"
  shows "jcs_faithful ext = jcs_faithful ext'"
  using assms profile_cong [OF assms(2)] by (simp add: jcs_faithful_def)

lemma jcs_faithful_weak: "jcs_faithful weak_ext"
  using jcs_faithful_sample jcs_faithful_cong [of weak_ext sample_ext] by simp

lemmas serialize_contract_defs = serialize_run_contract_def serialize_ScenarioIdentity_def
  serialize_ArtifactIdentity_def serialize_RandomContractV1_def serialize_LogicalClockV1_def
  serialize_EventOrderingV1_def serialize_InputIdentity_def serialize_defs

lemma profile_contract:
  assumes "ext_nfc ext = id" "safe_signed (clock_epoch (contract_clock c))"
    "safe_unsigned (tick_numerator_us (contract_clock c))"
    "safe_unsigned (tick_denominator (contract_clock c))"
  shows "profile ext (serialize_run_contract c)"
proof -
  have "profile ext (serialize_EventOrderingKey k)" for k
    using assms(1) by (cases k) simp_all
  then show ?thesis
    using assms by (simp add: serialize_contract_defs profile_struct list_all_iff)
qed

lemma profile_sample_contract:
  "ext_nfc ext = id \<Longrightarrow> profile ext (serialize_run_contract (sample_contract s b))"
  by (rule profile_contract) (simp_all add: sample_contract_def safe_signed_def safe_unsigned_def)

lemma sample_run_id:
  "run_id weak_ext (sample_contract s b) = Ok (sample_digest 0)"
  using profile_sample_contract [of weak_ext]
  by (simp add: run_id_def canonical_json_digest_def canonical_json_bytes_def from_bytes_def
      sample_digest_def validate_serializable_Ok [THEN iffD2])

theorem run_id_binds_contract_witness:
  "\<exists>b b'. canonical_json_bytes weak_ext (Inr (serialize_run_contract (sample_contract 0 3))) = Ok b
     \<and> canonical_json_bytes weak_ext (Inr (serialize_run_contract (sample_contract 1 3))) = Ok b'
     \<and> b \<noteq> b' \<and> ext_sha256 weak_ext b = ext_sha256 weak_ext b'"
  by (rule run_id_binds_contract [OF jcs_faithful_weak sample_run_id sample_run_id])
    (simp add: sample_contract_def)

section \<open>Scalar grammars\<close>

interpretation seed_text: text_codec seed_to_string seed_from_str "\<lambda>_. True"
proof
  fix x :: Seed
  have "unat (seed_get x) < 2 ^ 64" using unsigned_less [of "seed_get x", where 'a = nat] by simp
  then show "seed_from_str (seed_to_string x) = Ok x"
    by (simp add: seed_from_str_def seed_to_string_def canonical_digits_show_nat parse_u64_canonical)
next
  fix s x assume "seed_from_str s = Ok x"
  then show "seed_to_string x = s \<and> True"
    by (auto simp: seed_from_str_def seed_to_string_def parse_u64_canonical show_nat_dec_value
        result_simps split: if_splits)
qed

text \<open>A string is accepted as a seed exactly when it is the canonical decimal text of a
  64-bit value, so no other text denotes the same seed.\<close>

theorem seed_text_canonical: "seed_from_str s = Ok x \<longleftrightarrow> s = seed_to_string x"
  using seed_text.accepted_iff by simp

definition identifier_grammar :: "string \<Rightarrow> bool" where
  "identifier_grammar s \<longleftrightarrow>
     1 \<le> length s \<and> length s \<le> 128 \<and> (is_ascii_lowercase (hd s) \<or> is_ascii_digit (hd s)) \<and>
     set s \<subseteq> {c. is_ascii_lowercase c \<or> is_ascii_digit c \<or> c = CHR ''.'' \<or> c = CHR ''_'' \<or> c = CHR ''-''}"

lemma validate_identifier_Ok: "validate_identifier s = Ok () \<longleftrightarrow> identifier_grammar s"
  by (cases s) (auto simp: validate_identifier_def identifier_grammar_def MAX_IDENTIFIER_LENGTH_def
      identifier_tail_char_def list_all_iff Let_def)

interpretation identifier_text: text_codec ident_text identifier_new "\<lambda>i. identifier_grammar (ident_text i)"
proof
  fix x assume "identifier_grammar (ident_text x)"
  then show "identifier_new (ident_text x) = Ok x"
    using validate_identifier_Ok [of "ident_text x"] by (simp add: identifier_new_def)
next
  fix s x assume "identifier_new s = Ok x"
  then show "ident_text x = s \<and> identifier_grammar (ident_text x)"
    using validate_identifier_Ok [of s] by (auto simp: identifier_new_def result_simps)
qed

section \<open>The logical clock\<close>

lemma gcd_loop: "unat (greatest_common_divisor l r) = gcd (unat l) (unat r)"
proof (induction l r rule: greatest_common_divisor.induct)
  case (1 l r)
  show ?case
  proof (cases "r = 0")
    case True
    then show ?thesis by (simp add: greatest_common_divisor.simps [of l])
  next
    case False
    then have "unat (greatest_common_divisor l r) = gcd (unat r) (unat (l mod r))"
      using 1 by (simp add: greatest_common_divisor.simps [of l])
    also have "\<dots> = gcd (unat l) (unat r)"
      by (metis gcd.commute gcd_red_nat unat_mod_distrib)
    finally show ?thesis .
  qed
qed

lemma clock_new_iff:
  "clock_new epoch n d = Ok c \<longleftrightarrow>
     \<bar>sint epoch\<bar> \<le> 2 ^ 53 - 1 \<and> 0 < unat n \<and> unat n \<le> 2 ^ 53 - 1 \<and>
     0 < unat d \<and> unat d \<le> 2 ^ 53 - 1 \<and> coprime (unat n) (unat d) \<and>
     c = \<lparr>clock_kind = LogicalFixedStep, clock_epoch = epoch, tick_numerator_us = n, tick_denominator = d\<rparr>"
proof -
  have "greatest_common_divisor n d = 1 \<longleftrightarrow> coprime (unat n) (unat d)"
    using gcd_loop [of n d] by (simp add: word_unat_eq_iff coprime_iff_gcd_eq_1)
  moreover have "unsigned_abs epoch > MAX_SAFE_JSON_INTEGER \<longleftrightarrow> \<not> \<bar>sint epoch\<bar> \<le> 2 ^ 53 - 1"
    by (auto simp: word_less_nat_alt unat_MAX_SAFE unat_unsigned_abs)
  ultimately show ?thesis
    by (auto simp: clock_new_def word_less_nat_alt unat_MAX_SAFE unat_gt_0)
qed

text \<open>A logical clock exists exactly for a safe epoch and a positive, safe tick fraction in
  lowest terms; the loop that decides this computes the greatest common divisor.\<close>

theorem clock_new_Ok:
  "clock_new epoch n d = Ok c \<longleftrightarrow>
     \<bar>sint epoch\<bar> \<le> 2 ^ 53 - 1 \<and> 0 < unat n \<and> unat n \<le> 2 ^ 53 - 1 \<and>
     0 < unat d \<and> unat d \<le> 2 ^ 53 - 1 \<and> coprime (unat n) (unat d) \<and>
     c = \<lparr>clock_kind = LogicalFixedStep, clock_epoch = epoch, tick_numerator_us = n, tick_denominator = d\<rparr>"
  by (rule clock_new_iff)

section \<open>What a telemetry summary says\<close>

definition frame_safe :: "TelemetryFrame \<Rightarrow> bool" where
  "frame_safe f \<longleftrightarrow> safe_signed (timestamp_us f) \<and> safe_unsigned (frame_sequence f)"

definition total_events :: "TelemetryFrame list \<Rightarrow> nat" where
  "total_events frames = sum_list (map (\<lambda>f. length (events f)) frames)"

definition observed_ids :: "TelemetryFrame list \<Rightarrow> u16 set" where
  "observed_ids frames = (\<Union>f\<in>set frames. parameter_id ` set (samples f))"

lemma summary_u64_Ok: "validate_summary_u64 field v = Ok () \<longleftrightarrow> safe_unsigned v"
  by (auto simp: validate_summary_u64_def safe_unsigned_def word_le_nat_alt unat_MAX_SAFE)

lemma summary_i64_Ok: "validate_summary_i64 field v = Ok () \<longleftrightarrow> safe_signed v"
  by (auto simp: validate_summary_i64_def safe_signed_def word_le_nat_alt unat_MAX_SAFE
      unat_unsigned_abs)

lemma u64_try_from_Some: "u64_try_from n = Some w \<longleftrightarrow> n < 2 ^ 64 \<and> w = word_of_nat n"
  by (auto simp: u64_try_from_def)

definition acc_after :: "summary_acc \<Rightarrow> TelemetryFrame list \<Rightarrow> summary_acc" where
  "acc_after a frames = \<lparr>acc_frames = word_of_nat (unat (acc_frames a) + length frames),
     acc_events = word_of_nat (unat (acc_events a) + total_events frames),
     acc_first_ts = (case frames of [] \<Rightarrow> acc_first_ts a | f # _ \<Rightarrow> get_or_insert (acc_first_ts a) (timestamp_us f)),
     acc_last_ts = (if frames = [] then acc_last_ts a else Some (timestamp_us (last frames))),
     acc_first_seq = (case frames of [] \<Rightarrow> acc_first_seq a | f # _ \<Rightarrow> get_or_insert (acc_first_seq a) (frame_sequence f)),
     acc_last_seq = (if frames = [] then acc_last_seq a else Some (frame_sequence (last frames))),
     acc_ids = acc_ids a \<union> observed_ids frames\<rparr>"

lemma summary_step_Ok:
  "summary_step a f = Ok a' \<longleftrightarrow> frame_safe f \<and> unat (acc_frames a) + 1 < 2 ^ 64 \<and>
     unat (acc_events a) + length (events f) < 2 ^ 64 \<and> a' = acc_after a [f]"
proof -
  have "acc_after a [f] = \<lparr>acc_frames = acc_frames a + 1, acc_events = acc_events a + word_of_nat (length (events f)),
          acc_first_ts = get_or_insert (acc_first_ts a) (timestamp_us f),
          acc_last_ts = Some (timestamp_us f),
          acc_first_seq = get_or_insert (acc_first_seq a) (frame_sequence f),
          acc_last_seq = Some (frame_sequence f),
          acc_ids = acc_ids a \<union> set (map parameter_id (samples f))\<rparr>"
    by (simp add: acc_after_def total_events_def observed_ids_def)
  then show ?thesis
    by (auto simp: summary_step_def result_simps summary_u64_Ok summary_i64_Ok frame_safe_def
        u64_try_from_Some checked_add_Some)
qed

lemma acc_after_Cons:
  assumes "unat (acc_frames a) + 1 < 2 ^ 64" "unat (acc_events a) + length (events f) < 2 ^ 64"
  shows "acc_after (acc_after a [f]) fs = acc_after a (f # fs)"
proof -
  have "unat (word_of_nat (unat (acc_frames a) + 1) :: u64) = unat (acc_frames a) + 1"
    "unat (word_of_nat (unat (acc_events a) + length (events f)) :: u64) = unat (acc_events a) + length (events f)"
    using assms by (simp_all only: unat_word_of_nat_64)
  then show ?thesis
    unfolding acc_after_def
    by (simp add: total_events_def observed_ids_def get_or_insert_def add.assoc Un_assoc del: of_nat_add
        split: list.splits option.splits)
qed

lemma acc_after_counts:
  assumes "unat (acc_frames a) + 1 < 2 ^ 64" "unat (acc_events a) + length (events f) < 2 ^ 64"
  shows "unat (acc_frames (acc_after a [f])) = unat (acc_frames a) + 1"
    "unat (acc_events (acc_after a [f])) = unat (acc_events a) + length (events f)"
  using assms by (simp_all add: acc_after_def total_events_def del: of_nat_add of_nat_Suc)

lemma summary_fold_Ok:
  assumes "unat (acc_frames a) < 2 ^ 64" "unat (acc_events a) < 2 ^ 64"
  shows "try_fold summary_step a frames = Ok a' \<longleftrightarrow> list_all frame_safe frames \<and>
    unat (acc_frames a) + length frames < 2 ^ 64 \<and> unat (acc_events a) + total_events frames < 2 ^ 64 \<and>
    a' = acc_after a frames"
  using assms
proof (induction frames arbitrary: a)
  case Nil
  have "acc_after a [] = a" by (simp add: acc_after_def observed_ids_def total_events_def)
  with Nil show ?case by (auto simp: total_events_def)
next
  case (Cons f fs)
  have "try_fold summary_step a (f # fs) = Ok a' \<longleftrightarrow>
      frame_safe f \<and> unat (acc_frames a) + 1 < 2 ^ 64 \<and>
      unat (acc_events a) + length (events f) < 2 ^ 64 \<and>
      try_fold summary_step (acc_after a [f]) fs = Ok a'"
    by (auto simp: and_then_Ok summary_step_Ok)
  also have "\<dots> \<longleftrightarrow> frame_safe f \<and> unat (acc_frames a) + 1 < 2 ^ 64 \<and>
      unat (acc_events a) + length (events f) < 2 ^ 64 \<and>
      list_all frame_safe fs \<and> unat (acc_frames a) + 1 + length fs < 2 ^ 64 \<and>
      unat (acc_events a) + length (events f) + total_events fs < 2 ^ 64 \<and> a' = acc_after a (f # fs)"
    using Cons.IH [of "acc_after a [f]"] acc_after_counts [of a f] acc_after_Cons [of a f fs]
    by (auto simp del: unat_word_of_nat_64)
  also have "\<dots> \<longleftrightarrow> list_all frame_safe (f # fs) \<and>
    unat (acc_frames a) + length (f # fs) < 2 ^ 64 \<and> unat (acc_events a) + total_events (f # fs) < 2 ^ 64 \<and>
    a' = acc_after a (f # fs)"
    by (auto simp: total_events_def)
  finally show ?case .
qed

definition summary_of :: "u64 \<Rightarrow> TelemetryFrame list \<Rightarrow> u64 \<Rightarrow> TelemetrySummaryV1" where
  "summary_of batches frames dropped = \<lparr>summary_schema_version = TelemetrySummaryVersionV1,
     batch_count = batches, frame_count = word_of_nat (length frames),
     first_timestamp_us = (if frames = [] then None else Some (timestamp_us (hd frames))),
     last_timestamp_us = (if frames = [] then None else Some (timestamp_us (last frames))),
     first_sequence = (if frames = [] then None else Some (frame_sequence (hd frames))),
     last_sequence = (if frames = [] then None else Some (frame_sequence (last frames))),
     parameter_ids = sorted_list_of_set (observed_ids frames),
     summary_event_count = word_of_nat (total_events frames), dropped_frame_count = dropped\<rparr>"

definition summarizable :: "u64 \<Rightarrow> TelemetryFrame list \<Rightarrow> u64 \<Rightarrow> bool" where
  "summarizable batches frames dropped \<longleftrightarrow>
     safe_unsigned batches \<and> safe_unsigned dropped \<and> list_all frame_safe frames \<and>
     length frames \<le> 2 ^ 53 - 1 \<and> total_events frames \<le> 2 ^ 53 - 1 \<and> (frames = [] \<or> batches \<noteq> 0)"

lemma summary_validate_summary_of:
  assumes "list_all frame_safe frames" "length frames < 2 ^ 64"
  shows "summary_validate (summary_of batches frames dropped) = Ok () \<longleftrightarrow>
    safe_unsigned batches \<and> safe_unsigned dropped \<and> safe_unsigned (word_of_nat (length frames)) \<and>
    safe_unsigned (word_of_nat (total_events frames)) \<and> (frames = [] \<or> batches \<noteq> 0)"
proof -
  have count: "(word_of_nat (length frames) :: u64) = 0 \<longleftrightarrow> frames = []"
    using assms(2) by (auto simp: word_of_nat_eq_0_iff dest!: dvd_imp_le)
  have ends: "frames \<noteq> [] \<Longrightarrow> frame_safe (hd frames) \<and> frame_safe (last frames)"
    using assms(1) by (auto simp: list_all_iff)
  have order: "successively (<) (sorted_list_of_set (observed_ids frames))"
    by (simp add: successively_conv_sorted_wrt transp_on_less)
  show ?thesis
  proof (cases "frames = []")
    case True
    then show ?thesis
      using count order
      by (auto simp: summary_validate_def summary_of_def result_simps summary_u64_Ok flatten_def
          map_filter_simps)
  next
    case False
    then show ?thesis
      using count order ends
      by (auto simp: summary_validate_def summary_of_def result_simps summary_u64_Ok summary_i64_Ok
          flatten_def map_filter_simps frame_safe_def word_gt_0)
  qed
qed

lemma from_ordered_frames_Ok:
  "from_ordered_frames batches frames dropped = Ok s \<longleftrightarrow>
     summarizable batches frames dropped \<and> s = summary_of batches frames dropped"
proof -
  have start: "unat (acc_frames summary_start) = 0" "unat (acc_events summary_start) = 0"
    by (simp_all add: summary_start_def)
  have safe: "safe_unsigned (word_of_nat n) \<longleftrightarrow> n \<le> 2 ^ 53 - 1" if "n < 2 ^ 64" for n
    using that by (simp add: safe_unsigned_def)
  have acc: "\<lparr>summary_schema_version = TelemetrySummaryVersionV1, batch_count = batches,
           frame_count = acc_frames a, first_timestamp_us = acc_first_ts a,
           last_timestamp_us = acc_last_ts a, first_sequence = acc_first_seq a,
           last_sequence = acc_last_seq a, parameter_ids = sorted_list_of_set (acc_ids a),
           summary_event_count = acc_events a, dropped_frame_count = dropped\<rparr> = summary_of batches frames dropped"
    if "a = acc_after summary_start frames" for a
    unfolding that by (cases frames)
      (simp_all add: acc_after_def summary_start_def summary_of_def get_or_insert_def del: of_nat_Suc)
  have counts: "acc_frames (acc_after summary_start frames) = word_of_nat (length frames)"
    "acc_events (acc_after summary_start frames) = word_of_nat (total_events frames)"
    using start by (simp_all add: acc_after_def)
  have "from_ordered_frames batches frames dropped = Ok s \<longleftrightarrow>
      safe_unsigned batches \<and> safe_unsigned dropped \<and> list_all frame_safe frames \<and>
      length frames < 2 ^ 64 \<and> total_events frames < 2 ^ 64 \<and>
      safe_unsigned (word_of_nat (length frames)) \<and> safe_unsigned (word_of_nat (total_events frames)) \<and>
      s = summary_of batches frames dropped \<and> summary_validate s = Ok ()"
    using start acc counts
    by (auto simp: from_ordered_frames_def result_simps summary_u64_Ok summary_fold_Ok Let_def)
  also have "\<dots> \<longleftrightarrow> summarizable batches frames dropped \<and> s = summary_of batches frames dropped"
    using safe [of "length frames"] safe [of "total_events frames"]
      summary_validate_summary_of [of frames batches dropped]
    by (auto simp: summarizable_def)
  finally show ?thesis .
qed

text \<open>C20: aggregation succeeds exactly on streams whose timestamps, sequences and counts are exact
  JSON integers and which name a batch when they hold a frame; the summary then states the counts, the
  first and last boundaries, and the sorted set of observed parameters. In particular the validation that closes the
  aggregation rejects no summary of such a stream.\<close>

theorem from_ordered_frames_exact:
  "from_ordered_frames batches frames dropped = Ok s \<longleftrightarrow>
     summarizable batches frames dropped \<and> s = summary_of batches frames dropped"
  by (rule from_ordered_frames_Ok)

section \<open>Receipts\<close>

text \<open>The receipt built for a contract is accepted by that contract, and a contract accepts a
  receipt exactly when the receipt states its run id.\<close>

theorem receipt_verification:
  "(receipt_for_contract ext c execution rt out summary = Ok r \<longrightarrow> verify_receipt ext c r = Ok ())
   \<and> (verify_receipt ext c r' = Ok () \<longleftrightarrow> run_id ext c = Ok (receipt_run_id r'))"
  by (auto simp: receipt_for_contract_def verify_receipt_def result_simps)

definition sample_runtime :: RuntimeIdentity where
  "sample_runtime = \<lparr>runtime_engine = Identifier ''e'', runtime_engine_version = SemanticVersion ''1.0.0'',
     runtime_target = Identifier ''wasm32'', runtime_artifact_digest = sample_digest 4\<rparr>"

definition sample_receipt :: ExecutionReceiptV1 where
  "sample_receipt = \<lparr>receipt_run_id = sample_digest 0, receipt_execution_id = ExecutionId ''x'',
      receipt_runtime = sample_runtime,
      receipt_output_digest = sample_digest 5, receipt_telemetry_summary_digest = sample_digest 6\<rparr>"

theorem receipt_verification_witness:
  "receipt_for_contract weak_ext (sample_contract 0 3) (ExecutionId ''x'') sample_runtime (sample_digest 5)
     (sample_digest 6) = Ok sample_receipt \<and> verify_receipt weak_ext (sample_contract 0 3) sample_receipt = Ok ()"
proof -
  have "receipt_for_contract weak_ext (sample_contract 0 3) (ExecutionId ''x'') sample_runtime
      (sample_digest 5) (sample_digest 6) = Ok sample_receipt"
    by (simp add: receipt_for_contract_def sample_run_id sample_receipt_def)
  then show ?thesis
    using receipt_verification [THEN conjunct1] by blast
qed

end
