(* ===== verification/Runtime_Rng.thy ===== *)
theory Runtime_Rng
  imports Run_Contract
begin

text \<open>
  \<open>crates/pitgun-runtime/src/rng.rs\<close>: the SplitMix64 generator and the derivation of independent
  stream seeds. The generator is modelled on 64-bit words, the derivation on the external SHA-256
  and canonical JSON functions.
\<close>

unbundle bit_operations_syntax

section \<open>SplitMix64\<close>

definition SPLITMIX_GAMMA :: u64 where
  "SPLITMIX_GAMMA = 0x9E3779B97F4A7C15"

definition SPLITMIX_MIX_1 :: u64 where
  "SPLITMIX_MIX_1 = 0xBF58476D1CE4E5B9"

definition SPLITMIX_MIX_2 :: u64 where
  "SPLITMIX_MIX_2 = 0x94D049BB133111EB"

record SplitMix64V1 =
  rng_state :: u64

definition rng_from_seed :: "Seed \<Rightarrow> SplitMix64V1" where
  "rng_from_seed seed = \<lparr>rng_state = seed_get seed\<rparr>"

definition rng_from_u64 :: "u64 \<Rightarrow> SplitMix64V1" where
  "rng_from_u64 seed = \<lparr>rng_state = seed\<rparr>"

definition next_u64 :: "SplitMix64V1 \<Rightarrow> SplitMix64V1 \<times> u64" where
  "next_u64 g =
     (let g' = g\<lparr>rng_state := rng_state g + SPLITMIX_GAMMA\<rparr>;
          value0 = rng_state g';
          value1 = (value0 XOR drop_bit 30 value0) * SPLITMIX_MIX_1;
          value2 = (value1 XOR drop_bit 27 value1) * SPLITMIX_MIX_2
      in (g', value2 XOR drop_bit 31 value2))"

text \<open>The first \<open>n\<close> outputs.\<close>

fun outputs :: "nat \<Rightarrow> SplitMix64V1 \<Rightarrow> u64 list" where
  "outputs 0 g = []"
| "outputs (Suc n) g = (case next_u64 g of (g', v) \<Rightarrow> v # outputs n g')"

section \<open>Stream derivation\<close>

definition STREAM_DOMAIN :: bytes where
  "STREAM_DOMAIN = as_bytes (''pitgun.sha256-label-v1'' @ [CHR 0x00])"

definition MAX_LABEL_BYTES :: nat where
  "MAX_LABEL_BYTES = 256"

datatype StreamDerivationError =
    EmptyLabel string
  | LabelTooLong string
  | ControlCharacter string
  | StreamCanonicalJson CanonicalJsonError

definition validate_label :: "string \<Rightarrow> string \<Rightarrow> StreamDerivationError + unit" where
  "validate_label field value =
     (if value = [] then Err (EmptyLabel field)
      else if length value > MAX_LABEL_BYTES then Err (LabelTooLong field)
      else if has_control value then Err (ControlCharacter field)
      else Ok ())"

text \<open>The tuple struct \<open>Labels\<close>.\<close>

definition serialize_Labels :: "string \<Rightarrow> string \<Rightarrow> string \<Rightarrow> string \<Rightarrow> serde_value" where
  "serialize_Labels root component entity index =
     SSeq [SString root, SString component, SString entity, SString index]"

definition derive_stream_seed_v1 ::
    "externals \<Rightarrow> Seed \<Rightarrow> string \<Rightarrow> string \<Rightarrow> u64 \<Rightarrow> StreamDerivationError + Seed" where
  "derive_stream_seed_v1 ext root_seed component_id entity_id logical_index =
     and_also (validate_label ''component_id'' component_id)
    (and_also (validate_label ''entity_id'' entity_id)
    (and_then (map_err StreamCanonicalJson (canonical_json_bytes ext
       (Inr (serialize_Labels (seed_to_string root_seed) component_id entity_id
          (show_nat (unat logical_index)))))) (\<lambda>canonical_labels.
     let digest = ext_sha256 ext (STREAM_DOMAIN @ canonical_labels) in
     Ok (Seed (word_of_nat (nat_from_be (take 8 digest)))))))"

section \<open>The generator\<close>

definition mix :: "u64 \<Rightarrow> u64" where
  "mix v0 = (let v1 = (v0 XOR drop_bit 30 v0) * SPLITMIX_MIX_1;
                 v2 = (v1 XOR drop_bit 27 v1) * SPLITMIX_MIX_2 in v2 XOR drop_bit 31 v2)"

lemma next_u64_mix: "next_u64 g = (g\<lparr>rng_state := rng_state g + SPLITMIX_GAMMA\<rparr>, mix (rng_state g + SPLITMIX_GAMMA))"
  by (simp add: next_u64_def mix_def Let_def)

lemma length_outputs [simp]: "length (outputs n g) = n"
  by (induction n arbitrary: g) (simp_all add: next_u64_mix)

lemma outputs_nth:
  "i < n \<Longrightarrow> outputs n g ! i = mix (rng_state g + of_nat (Suc i) * SPLITMIX_GAMMA)"
proof (induction n arbitrary: i g)
  case (Suc n)
  then show ?case
    by (cases i) (simp_all add: next_u64_mix algebra_simps)
qed simp

lemma xor_drop_bit_inject:
  fixes x y :: "'a::len word"
  assumes "x XOR drop_bit k x = y XOR drop_bit k y" "0 < k"
  shows "x = y"
proof -
  define z where "z = x XOR y"
  have "z XOR drop_bit k z = (x XOR drop_bit k x) XOR (y XOR drop_bit k y)"
    by (simp add: z_def drop_bit_xor ac_simps)
  then have fixp: "drop_bit k z = z"
    using assms(1) by (metis xor_self_eq xor.assoc xor.left_neutral xor.right_neutral)
  have "drop_bit (n * k) z = z" for n
    by (induction n) (simp_all add: fixp flip: drop_bit_drop_bit)
  then have "z = drop_bit (LENGTH('a) * k) z" by simp
  also have "\<dots> = 0"
    using assms(2) by (intro bit_word_eqI) (auto simp: bit_simps dest: bit_imp_le_length)
  finally show ?thesis by (metis z_def xor_self_eq xor.assoc xor.left_neutral)
qed

lemma odd_multiplier_inject:
  fixes a b c :: "'a::len word"
  assumes "a * c = b * c" "c * c' = 1"
  shows "a = b"
  by (metis assms mult.assoc mult_1_right)

lemma multipliers_invertible:
  "SPLITMIX_MIX_1 * 0x96DE1B173F119089 = 1"
  "SPLITMIX_MIX_2 * 0x319642B2D24D8EC3 = 1"
  "SPLITMIX_GAMMA * 0xF1DE83E19937733D = 1"
  by (simp_all add: SPLITMIX_MIX_1_def SPLITMIX_MIX_2_def SPLITMIX_GAMMA_def)

lemma mix_inject: "mix x = mix y \<longleftrightarrow> x = y"
proof
  assume "mix x = mix y"
  then have "((x XOR drop_bit 30 x) * SPLITMIX_MIX_1 XOR drop_bit 27 ((x XOR drop_bit 30 x) * SPLITMIX_MIX_1)) * SPLITMIX_MIX_2
    = ((y XOR drop_bit 30 y) * SPLITMIX_MIX_1 XOR drop_bit 27 ((y XOR drop_bit 30 y) * SPLITMIX_MIX_1)) * SPLITMIX_MIX_2"
    unfolding mix_def Let_def by (rule xor_drop_bit_inject) simp
  then have "(x XOR drop_bit 30 x) * SPLITMIX_MIX_1 XOR drop_bit 27 ((x XOR drop_bit 30 x) * SPLITMIX_MIX_1)
    = (y XOR drop_bit 30 y) * SPLITMIX_MIX_1 XOR drop_bit 27 ((y XOR drop_bit 30 y) * SPLITMIX_MIX_1)"
    using multipliers_invertible(2) by (rule odd_multiplier_inject)
  then have "(x XOR drop_bit 30 x) * SPLITMIX_MIX_1 = (y XOR drop_bit 30 y) * SPLITMIX_MIX_1"
    by (rule xor_drop_bit_inject) simp
  then have "x XOR drop_bit 30 x = y XOR drop_bit 30 y"
    using multipliers_invertible(1) by (rule odd_multiplier_inject)
  then show "x = y" by (rule xor_drop_bit_inject) simp
qed simp

text \<open>C24: a generator does not repeat an output within 2 to the 64 steps, so over a full period it
  returns every 64-bit value exactly once, whatever the seed.\<close>

theorem outputs_full_period:
  "distinct (outputs (2 ^ 64) g) \<and> set (outputs (2 ^ 64) g) = UNIV"
proof -
  have inj: "i = j" if "i < 2 ^ 64" "j < 2 ^ 64" "outputs (2 ^ 64) g ! i = outputs (2 ^ 64) g ! j" for i j
  proof -
    have "of_nat (Suc i) * SPLITMIX_GAMMA = of_nat (Suc j) * SPLITMIX_GAMMA"
      using that(3) unfolding outputs_nth [OF that(1)] outputs_nth [OF that(2)] mix_inject
      by (simp only: add_left_cancel)
    then have "(of_nat (Suc i) :: u64) = of_nat (Suc j)"
      using multipliers_invertible(3) by (rule odd_multiplier_inject)
    then have "(of_nat i :: u64) = of_nat j" by simp
    then show "i = j" using that(1,2) by (metis unat_word_of_nat_64)
  qed
  then have d: "distinct (outputs (2 ^ 64) g)"
    by (simp only: distinct_conv_nth length_outputs) blast
  then have "card (set (outputs (2 ^ 64) g)) = card (UNIV :: u64 set)"
    by (simp only: distinct_card length_outputs card_word) simp
  then have "set (outputs (2 ^ 64) g) = UNIV"
    by (intro card_subset_eq) (simp_all only: finite_class.finite_UNIV subset_UNIV)
  then show ?thesis using d by blast
qed

text \<open>The generator reproduces the published SplitMix64 vectors for seed 0 and wraps for the
  largest seed.\<close>

theorem splitmix_vectors:
  "outputs 5 (rng_from_u64 0) = [0xE220A8397B1DCDAF, 0x6E789E6AA1B965F4, 0x06C45D188009454F,
     0xF88BB8A8724C81EC, 0x1B39896A51A8749B]
   \<and> outputs 2 (rng_from_u64 (- 1)) = [0xE4D971771B652C20, 0xE99FF867DBF682C9]"
proof -
  have n: "outputs 5 g = outputs (Suc (Suc (Suc (Suc (Suc 0))))) g" "outputs 2 g = outputs (Suc (Suc 0)) g" for g
    by (simp_all add: numeral_eq_Suc)
  show ?thesis
    unfolding n
    by (simp add: next_u64_def Let_def rng_from_u64_def SPLITMIX_GAMMA_def SPLITMIX_MIX_1_def SPLITMIX_MIX_2_def)
qed

section \<open>Independent streams\<close>

definition stream_preimage :: "externals \<Rightarrow> Seed \<Rightarrow> string \<Rightarrow> string \<Rightarrow> u64 \<Rightarrow> CanonicalJsonError + bytes" where
  "stream_preimage ext r c e i = map_ok ((@) STREAM_DOMAIN)
     (canonical_json_bytes ext (Inr (serialize_Labels (seed_to_string r) c e (show_nat (unat i)))))"

lemma label_Ok:
  "validate_label field v = Ok () \<longleftrightarrow> v \<noteq> [] \<and> length v \<le> 256 \<and> \<not> has_control v"
  by (auto simp: validate_label_def MAX_LABEL_BYTES_def)

lemma derive_stream_seed_Ok:
  "derive_stream_seed_v1 ext r c e i = Ok s \<longleftrightarrow>
     c \<noteq> [] \<and> length c \<le> 256 \<and> \<not> has_control c \<and> e \<noteq> [] \<and> length e \<le> 256 \<and> \<not> has_control e \<and>
     (\<exists>p. stream_preimage ext r c e i = Ok p \<and> s = Seed (word_of_nat (nat_from_be (take 8 (ext_sha256 ext p)))))"
  by (auto simp: derive_stream_seed_v1_def stream_preimage_def result_simps label_Ok Let_def)

lemma stream_preimage_inject:
  assumes "jcs_faithful ext" "stream_preimage ext r c e i = Ok p" "stream_preimage ext r' c' e' i' = Ok p"
  shows "r = r' \<and> c = c' \<and> e = e' \<and> i = i'"
proof -
  obtain b where
    b: "canonical_json_bytes ext (Inr (serialize_Labels (seed_to_string r) c e (show_nat (unat i)))) = Ok b"
    and b': "canonical_json_bytes ext (Inr (serialize_Labels (seed_to_string r') c' e' (show_nat (unat i')))) = Ok b"
    using assms(2,3) by (auto simp: stream_preimage_def result_simps)
  have "jdoc_of (serialize_Labels (seed_to_string r) c e (show_nat (unat i))) =
      jdoc_of (serialize_Labels (seed_to_string r') c' e' (show_nat (unat i')))"
    by (rule canonical_bytes_identify [OF assms(1) _ _ b b']) (simp_all add: serialize_Labels_def)
  then show ?thesis
    using seed_text.to_text_inject [of r r'] by (simp add: serialize_Labels_def word_unat_eq_iff)
qed

text \<open>C25: a derived stream seed is the big-endian value of the first eight bytes of SHA-256 over the
  domain and the canonical labels, and these inputs differ whenever the root seed, the component, the
  entity or the index differs: every dimension of the derivation is separated from the others.\<close>

theorem stream_seeds_separated:
  assumes "jcs_faithful ext" "(r, c, e, i) \<noteq> (r', c', e', i')"
    and "derive_stream_seed_v1 ext r c e i = Ok s" "derive_stream_seed_v1 ext r' c' e' i' = Ok s'"
  shows "\<exists>p p'. p \<noteq> p' \<and> stream_preimage ext r c e i = Ok p \<and> stream_preimage ext r' c' e' i' = Ok p' \<and>
    unat (seed_get s) = nat_from_be (take 8 (ext_sha256 ext p)) \<and>
    unat (seed_get s') = nat_from_be (take 8 (ext_sha256 ext p'))"
proof -
  have small: "unat (word_of_nat (nat_from_be (take 8 bs)) :: u64) = nat_from_be (take 8 bs)" for bs
  proof -
    have "nat_from_be (take 8 bs) < 256 ^ length (take 8 bs)" by (rule nat_from_be_less)
    also have "\<dots> \<le> 256 ^ 8" by (intro power_increasing) auto
    finally show ?thesis by (intro unat_word_of_nat_64) simp
  qed
  obtain p p' where p: "stream_preimage ext r c e i = Ok p" "s = Seed (word_of_nat (nat_from_be (take 8 (ext_sha256 ext p))))"
    and p': "stream_preimage ext r' c' e' i' = Ok p'" "s' = Seed (word_of_nat (nat_from_be (take 8 (ext_sha256 ext p'))))"
    using assms(3,4) unfolding derive_stream_seed_Ok by blast
  moreover have "p \<noteq> p'"
    using stream_preimage_inject [OF assms(1) p(1)] p'(1) assms(2) by blast
  ultimately show ?thesis using small by auto
qed

lemma sample_stream_seed:
  "derive_stream_seed_v1 sample_ext (Seed r) ''solver'' ''entity'' i =
     Ok (Seed (word_of_nat (nat_from_be (take 8 (ext_sha256 sample_ext
       (STREAM_DOMAIN @ doc_code (jdoc_of (serialize_Labels (show_nat (unat r)) ''solver'' ''entity'' (show_nat (unat i))))))))))"
proof -
  have "profile sample_ext (serialize_Labels (show_nat (unat r)) ''solver'' ''entity'' (show_nat (unat i)))"
    by (simp add: serialize_Labels_def)
  then show ?thesis
    unfolding derive_stream_seed_Ok stream_preimage_def canonical_json_bytes_def
    by (simp add: validate_serializable_Ok(1) [THEN iffD2] seed_to_string_def del: sample_ext_simps(1))
qed

theorem stream_seeds_separated_witness:
  "\<exists>p p'. p \<noteq> p' \<and> stream_preimage sample_ext (Seed 7) ''solver'' ''entity'' 0 = Ok p \<and>
    stream_preimage sample_ext (Seed 7) ''solver'' ''entity'' 1 = Ok p'"
  using stream_seeds_separated [OF jcs_faithful_sample _ sample_stream_seed [of 7 0] sample_stream_seed [of 7 1]]
  by auto

end
