(* ===== verification/Access.thy ===== *)
theory Access
  imports Frame
begin

text \<open>
  \<open>crates/pitgun-policy/src/access.rs\<close>: access levels, claims, the access controller with its audit log, and the rate
  limiter.

  The controller's methods take \<open>&self\<close> and write the audit log through it, so that they return the controller with its
  log. \<open>None\<close> stands for a panic. The clock is an argument: \<open>now\<close> is its reading in seconds, and the readings of one call are
  taken to agree. Differences of times wrap around, as compiled without overflow checks.
\<close>

section \<open>Levels and claims\<close>

datatype AccessLevel = LevelPublic | LevelProtected | LevelPrivate | LevelConfidential

primrec level_rank :: "AccessLevel \<Rightarrow> nat" where
  "level_rank LevelPublic = 0"
| "level_rank LevelProtected = 1"
| "level_rank LevelPrivate = 2"
| "level_rank LevelConfidential = 3"

lemma level_rank_inject [simp]: "level_rank a = level_rank b \<longleftrightarrow> a = b"
  by (cases a; cases b) simp_all

instantiation AccessLevel :: linorder
begin
definition less_eq_AccessLevel :: "AccessLevel \<Rightarrow> AccessLevel \<Rightarrow> bool" where
  "less_eq_AccessLevel a b \<longleftrightarrow> level_rank a \<le> level_rank b"
definition less_AccessLevel :: "AccessLevel \<Rightarrow> AccessLevel \<Rightarrow> bool" where
  "less_AccessLevel a b \<longleftrightarrow> level_rank a < level_rank b"
instance
  by standard (auto simp: less_eq_AccessLevel_def less_AccessLevel_def)
end

fun level_debug :: "AccessLevel \<Rightarrow> string" where
  "level_debug LevelPublic = ''Public''"
| "level_debug LevelProtected = ''Protected''"
| "level_debug LevelPrivate = ''Private''"
| "level_debug LevelConfidential = ''Confidential''"

definition is_accessible_by :: "AccessLevel \<Rightarrow> AccessLevel \<Rightarrow> bool" where
  "is_accessible_by level user_level \<longleftrightarrow> level \<le> user_level"

record Claims =
  claims_subject :: string
  claims_roles :: "string set"
  claims_teams :: "string set"
  granted_parameters :: "u32 set"
  max_level :: AccessLevel
  claims_expires_at :: "u64 option"
  claims_issued_at :: "u64 option"
  claims_issuer :: "string option"

definition claims_default :: Claims where
  "claims_default = \<lparr>claims_subject = [], claims_roles = {}, claims_teams = {}, granted_parameters = {},
     max_level = LevelProtected, claims_expires_at = None, claims_issued_at = None, claims_issuer = None\<rparr>"

definition claims_new :: "string \<Rightarrow> Claims" where
  "claims_new subject = claims_default\<lparr>claims_subject := subject, max_level := LevelProtected\<rparr>"

definition claims_anonymous :: Claims where
  "claims_anonymous = claims_default\<lparr>claims_subject := ''anonymous'', max_level := LevelPublic\<rparr>"

definition claims_admin :: "string \<Rightarrow> Claims" where
  "claims_admin subject =
     claims_default\<lparr>claims_subject := subject, max_level := LevelConfidential, claims_roles := {''admin''}\<rparr>"

definition with_role :: "Claims \<Rightarrow> string \<Rightarrow> Claims" where
  "with_role c role = c\<lparr>claims_roles := insert role (claims_roles c)\<rparr>"

definition with_team :: "Claims \<Rightarrow> string \<Rightarrow> Claims" where
  "with_team c team = c\<lparr>claims_teams := insert team (claims_teams c)\<rparr>"

definition with_granted_parameter :: "Claims \<Rightarrow> u32 \<Rightarrow> Claims" where
  "with_granted_parameter c pid = c\<lparr>granted_parameters := insert pid (granted_parameters c)\<rparr>"

definition with_max_level :: "Claims \<Rightarrow> AccessLevel \<Rightarrow> Claims" where
  "with_max_level c level = c\<lparr>max_level := level\<rparr>"

definition with_expiry :: "Claims \<Rightarrow> u64 \<Rightarrow> Claims" where
  "with_expiry c expires_at = c\<lparr>claims_expires_at := Some expires_at\<rparr>"

definition is_expired :: "u64 \<Rightarrow> Claims \<Rightarrow> bool" where
  "is_expired now c = (case claims_expires_at c of None \<Rightarrow> False | Some exp \<Rightarrow> exp < now)"

definition has_role :: "Claims \<Rightarrow> string \<Rightarrow> bool" where
  "has_role c role \<longleftrightarrow> role \<in> claims_roles c"

definition in_team :: "Claims \<Rightarrow> string \<Rightarrow> bool" where
  "in_team c team \<longleftrightarrow> team \<in> claims_teams c"

definition is_admin :: "Claims \<Rightarrow> bool" where
  "is_admin c \<longleftrightarrow> ''admin'' \<in> claims_roles c"

section \<open>The audit log\<close>

record ParameterAccess =
  access_level :: AccessLevel
  required_team :: "string option"
  required_role :: "string option"

record AccessDenied =
  denied_parameter_id :: u32
  denied_reason :: string

record AuditLogEntry =
  entry_timestamp :: u64
  entry_subject :: string
  entry_action :: string
  entry_parameter_id :: u32
  entry_granted :: bool
  entry_reason :: "string option"

record InMemoryAuditLog =
  log_entries :: "AuditLogEntry list"
  log_max_entries :: nat

definition audit_log_new :: "nat \<Rightarrow> InMemoryAuditLog" where
  "audit_log_new n = \<lparr>log_entries = [], log_max_entries = n\<rparr>"

definition violations :: "InMemoryAuditLog \<Rightarrow> AuditLogEntry list" where
  "violations l = filter (\<lambda>e. \<not> entry_granted e) (log_entries l)"

text \<open>\<open>Vec::remove(0)\<close> panics on an empty vector.\<close>

definition audit_log :: "InMemoryAuditLog \<Rightarrow> AuditLogEntry \<Rightarrow> InMemoryAuditLog option" where
  "audit_log l e =
     (if log_max_entries l \<le> length (log_entries l)
      then (case log_entries l of
          [] \<Rightarrow> None
        | _ # kept \<Rightarrow> Some (l\<lparr>log_entries := kept @ [e]\<rparr>))
      else Some (l\<lparr>log_entries := log_entries l @ [e]\<rparr>))"

section \<open>The controller\<close>

record 'reg AccessController =
  default_level :: AccessLevel
  parameter_access :: "u32 \<rightharpoonup> ParameterAccess"
  controller_registry :: "'reg option"
  audit_logger :: "InMemoryAuditLog option"
  audit_enabled :: bool

definition controller_new :: "'reg AccessController" where
  "controller_new = \<lparr>default_level = LevelProtected, parameter_access = Map.empty, controller_registry = None,
     audit_logger = None, audit_enabled = False\<rparr>"

definition controller_with_registry :: "'reg \<Rightarrow> 'reg AccessController" where
  "controller_with_registry registry = controller_new\<lparr>controller_registry := Some registry\<rparr>"

definition set_default_level :: "'reg AccessController \<Rightarrow> AccessLevel \<Rightarrow> 'reg AccessController" where
  "set_default_level c level = c\<lparr>default_level := level\<rparr>"

definition enable_audit :: "'reg AccessController \<Rightarrow> InMemoryAuditLog \<Rightarrow> 'reg AccessController" where
  "enable_audit c logger = c\<lparr>audit_logger := Some logger, audit_enabled := True\<rparr>"

definition disable_audit :: "'reg AccessController \<Rightarrow> 'reg AccessController" where
  "disable_audit c = c\<lparr>audit_enabled := False\<rparr>"

definition set_access :: "'reg AccessController \<Rightarrow> u32 \<Rightarrow> AccessLevel \<Rightarrow> string option \<Rightarrow> 'reg AccessController" where
  "set_access c pid level team = c\<lparr>parameter_access := (parameter_access c)(pid \<mapsto>
     \<lparr>access_level = level, required_team = team, required_role = None\<rparr>)\<rparr>"

definition set_access_with_role :: "'reg AccessController \<Rightarrow> u32 \<Rightarrow> AccessLevel \<Rightarrow> string \<Rightarrow> 'reg AccessController" where
  "set_access_with_role c pid level role = c\<lparr>parameter_access := (parameter_access c)(pid \<mapsto>
     \<lparr>access_level = level, required_team = None, required_role = Some role\<rparr>)\<rparr>"

definition set_bulk_access :: "'reg AccessController \<Rightarrow> u32 list \<Rightarrow> AccessLevel \<Rightarrow> 'reg AccessController" where
  "set_bulk_access c pids level = foldl (\<lambda>c pid. set_access c pid level None) c pids"

definition get_access :: "'reg AccessController \<Rightarrow> u32 \<Rightarrow> ParameterAccess" where
  "get_access c pid = (case parameter_access c pid of
     None \<Rightarrow> \<lparr>access_level = default_level c, required_team = None, required_role = None\<rparr> | Some a \<Rightarrow> a)"

definition log_access :: "u64 \<Rightarrow> 'reg AccessController \<Rightarrow> Claims \<Rightarrow> u32 \<Rightarrow> bool \<Rightarrow> string option \<Rightarrow> 'reg AccessController option" where
  "log_access now c claims pid granted reason =
     (if \<not> audit_enabled c then Some c
      else case audit_logger c of
          None \<Rightarrow> Some c
        | Some logger \<Rightarrow>
            map_option (\<lambda>logger'. c\<lparr>audit_logger := Some logger'\<rparr>)
              (audit_log logger \<lparr>entry_timestamp = now, entry_subject = claims_subject claims, entry_action = ''access'',
                 entry_parameter_id = pid, entry_granted = granted, entry_reason = reason\<rparr>))"

text \<open>The decision of \<open>check\<close>: \<open>None\<close> grants, \<open>Some\<close> carries the reason that is logged and the one that is returned.\<close>

definition denial :: "u64 \<Rightarrow> 'reg AccessController \<Rightarrow> Claims \<Rightarrow> u32 \<Rightarrow> (string \<times> string) option" where
  "denial now c claims pid =
     (if is_expired now claims then Some (''token expired'', ''token expired'')
      else if is_admin claims then None
      else if pid \<in> granted_parameters claims then None
      else let access = get_access c pid in
        if max_level claims < access_level access
        then Some (''insufficient level: user='' @ level_debug (max_level claims) @ '', required='' @ level_debug (access_level access),
                   ''insufficient access level: '' @ level_debug (max_level claims) @ '' < '' @ level_debug (access_level access))
        else case required_team access of
            Some team \<Rightarrow>
              if \<not> in_team claims team then Some (''not in required team: '' @ team, ''not in required team: '' @ team)
              else (case required_role access of
                  Some role \<Rightarrow> if \<not> has_role claims role
                    then Some (''missing required role: '' @ role, ''missing required role: '' @ role) else None
                | None \<Rightarrow> None)
          | None \<Rightarrow>
              (case required_role access of
                 Some role \<Rightarrow> if \<not> has_role claims role
                   then Some (''missing required role: '' @ role, ''missing required role: '' @ role) else None
               | None \<Rightarrow> None))"

definition check :: "u64 \<Rightarrow> 'reg AccessController \<Rightarrow> Claims \<Rightarrow> u32 \<Rightarrow> ('reg AccessController \<times> (AccessDenied + unit)) option" where
  "check now c claims pid =
     (case denial now c claims pid of
        None \<Rightarrow> map_option (\<lambda>c'. (c', Ok ())) (log_access now c claims pid True None)
      | Some (logged, reason) \<Rightarrow>
          map_option (\<lambda>c'. (c', Err \<lparr>denied_parameter_id = pid, denied_reason = reason\<rparr>))
            (log_access now c claims pid False (Some logged)))"

text \<open>A loop of checks that keeps the elements whose check has the wanted outcome.\<close>

fun check_filter ::
    "u64 \<Rightarrow> 'reg AccessController \<Rightarrow> Claims \<Rightarrow> ('a \<Rightarrow> u32) \<Rightarrow> bool \<Rightarrow> 'a list \<Rightarrow> ('reg AccessController \<times> 'a list) option" where
  "check_filter now c claims key keep_granted [] = Some (c, [])"
| "check_filter now c claims key keep_granted (x # xs) =
     (case check now c claims (key x) of
        None \<Rightarrow> None
      | Some (c', r) \<Rightarrow>
          map_option (\<lambda>(c'', ys). (c'', if is_ok r = keep_granted then x # ys else ys))
            (check_filter now c' claims key keep_granted xs))"

definition check_batch :: "u64 \<Rightarrow> 'reg AccessController \<Rightarrow> Claims \<Rightarrow> u32 list \<Rightarrow> ('reg AccessController \<times> u32 list) option" where
  "check_batch now c claims pids = check_filter now c claims (\<lambda>pid. pid) False pids"

definition filter_frame :: "u64 \<Rightarrow> 'reg AccessController \<Rightarrow> Claims \<Rightarrow> TelemetryFrame \<Rightarrow> ('reg AccessController \<times> TelemetryFrame) option" where
  "filter_frame now c claims frame =
     map_option (\<lambda>(c', accessible). (c', frame\<lparr>samples := accessible\<rparr>))
       (check_filter now c claims (\<lambda>s. ucast (parameter_id s)) True (samples frame))"

definition controller_len :: "'reg AccessController \<Rightarrow> nat" where
  "controller_len c = card (dom (parameter_access c))"

definition controller_is_empty :: "'reg AccessController \<Rightarrow> bool" where
  "controller_is_empty c \<longleftrightarrow> dom (parameter_access c) = {}"

section \<open>The rate limiter\<close>

record RateLimiter =
  max_requests :: u64
  window_secs :: u64
  counts :: "string \<rightharpoonup> u64 \<times> u64"

definition limiter_new :: "u64 \<Rightarrow> u64 \<Rightarrow> RateLimiter" where
  "limiter_new n window = \<lparr>max_requests = n, window_secs = window, counts = Map.empty\<rparr>"

definition limiter_check :: "u64 \<Rightarrow> RateLimiter \<Rightarrow> string \<Rightarrow> RateLimiter \<times> bool" where
  "limiter_check now l key =
     (let (n, start) = (case counts l key of None \<Rightarrow> (0, now) | Some entry \<Rightarrow> entry) in
      if window_secs l < now - start then (l\<lparr>counts := (counts l)(key \<mapsto> (1, now))\<rparr>, True)
      else if max_requests l \<le> n then (l\<lparr>counts := (counts l)(key \<mapsto> (n, start))\<rparr>, False)
      else (l\<lparr>counts := (counts l)(key \<mapsto> (n + 1, start))\<rparr>, True))"

definition cleanup :: "u64 \<Rightarrow> RateLimiter \<Rightarrow> RateLimiter" where
  "cleanup now l = l\<lparr>counts := (\<lambda>key. case counts l key of
     None \<Rightarrow> None | Some (n, ts) \<Rightarrow> if now - ts \<le> window_secs l then Some (n, ts) else None)\<rparr>"

section \<open>Decisions\<close>

text \<open>Who may read a parameter: nobody with an expired token; otherwise an administrator, the holder of an explicit grant,
  or a user of a sufficient level in the required team and with the required role.\<close>

definition may_read :: "u64 \<Rightarrow> 'reg AccessController \<Rightarrow> Claims \<Rightarrow> u32 \<Rightarrow> bool" where
  "may_read now c claims pid \<longleftrightarrow> (case claims_expires_at claims of None \<Rightarrow> True | Some exp \<Rightarrow> now \<le> exp) \<and>
     (''admin'' \<in> claims_roles claims \<or> pid \<in> granted_parameters claims \<or>
      access_level (get_access c pid) \<le> max_level claims \<and>
      set_option (required_team (get_access c pid)) \<subseteq> claims_teams claims \<and>
      set_option (required_role (get_access c pid)) \<subseteq> claims_roles claims)"

lemma denial_None: "denial now c claims pid = None \<longleftrightarrow> may_read now c claims pid"
  by (auto simp: denial_def may_read_def is_expired_def is_admin_def in_team_def has_role_def Let_def not_less split: option.splits)

lemma log_access_None:
  "log_access now c claims pid granted reason = None \<longleftrightarrow>
     audit_enabled c \<and> (\<exists>l. audit_logger c = Some l \<and> log_max_entries l = 0 \<and> log_entries l = [])"
  by (auto simp: log_access_def audit_log_def split: option.splits list.splits)

text \<open>A full log drops its oldest entry for a new one.\<close>

definition logged_with :: "InMemoryAuditLog \<Rightarrow> AuditLogEntry \<Rightarrow> InMemoryAuditLog" where
  "logged_with l e = l\<lparr>log_entries :=
     (if log_max_entries l \<le> length (log_entries l) then tl (log_entries l) else log_entries l) @ [e]\<rparr>"

lemma audit_log_with: "audit_log l e = Some l' \<Longrightarrow> l' = logged_with l e"
  by (auto simp: audit_log_def logged_with_def split: if_splits list.splits)

lemma log_access_with:
  assumes "log_access now c claims pid granted reason = Some c'"
  shows "c' = (if audit_enabled c
     then c\<lparr>audit_logger := map_option (\<lambda>l. logged_with l \<lparr>entry_timestamp = now, entry_subject = claims_subject claims,
        entry_action = ''access'', entry_parameter_id = pid, entry_granted = granted, entry_reason = reason\<rparr>) (audit_logger c)\<rparr>
     else c)"
proof (cases "audit_logger c")
  case None
  then have "c\<lparr>audit_logger := None\<rparr> = c" by simp
  then show ?thesis using assms None by (simp add: log_access_def split: if_splits)
next
  case (Some l)
  then show ?thesis using assms by (auto simp: log_access_def dest: audit_log_with split: if_splits)
qed

text \<open>C28: A check grants access exactly to those who may read the parameter, and its only effect is one entry in the audit
  log, with the decision, when auditing is on: a log that is full drops its oldest entry for it. It fails to return exactly when
  a log without capacity is in use. The level of the user decides also for private and confidential parameters, unlike the
  documentation of the module has it: see \<open>doc_example_denied\<close>, \<open>confidential_without_grant\<close> and \<open>public_expired_denied\<close> below.\<close>

theorem access_check_exact:
  "(case check now c claims pid of
      None \<Rightarrow> audit_enabled c \<and> (\<exists>l. audit_logger c = Some l \<and> log_max_entries l = 0 \<and> log_entries l = [])
    | Some (c', r) \<Rightarrow>
        (r = Ok () \<longleftrightarrow> may_read now c claims pid) \<and>
        (if audit_enabled c
         then \<exists>reason. c' = c\<lparr>audit_logger := map_option (\<lambda>l. logged_with l \<lparr>entry_timestamp = now,
             entry_subject = claims_subject claims, entry_action = ''access'', entry_parameter_id = pid,
             entry_granted = may_read now c claims pid, entry_reason = reason\<rparr>) (audit_logger c)\<rparr>
         else c' = c))"
proof (cases "denial now c claims pid")
  case None
  then have may: "may_read now c claims pid" by (simp add: denial_None)
  show ?thesis
  proof (cases "log_access now c claims pid True None")
    case (Some c')
    then show ?thesis using log_access_with [OF Some] may by (auto simp: check_def None)
  next
    case panic: None
    then show ?thesis using log_access_None [of now c claims pid True None] by (simp add: check_def None)
  qed
next
  case (Some why)
  obtain logged reason where why: "why = (logged, reason)" by fastforce
  have may: "\<not> may_read now c claims pid" using Some denial_None [of now c claims pid] by simp
  show ?thesis
  proof (cases "log_access now c claims pid False (Some logged)")
    case c': (Some c')
    then show ?thesis using log_access_with [OF c'] may by (auto simp: check_def Some why)
  next
    case panic: None
    then show ?thesis using log_access_None [of now c claims pid False "Some logged"] by (simp add: check_def Some why)
  qed
qed

text \<open>The example of the module documentation asserts that this check succeeds: an engineer of the required team reads a private
  parameter. The claims of the example have the level \<open>Protected\<close>, and the check is refused.\<close>

definition doc_example_controller :: "unit AccessController" where
  "doc_example_controller = set_access (set_access controller_new 42 LevelPrivate (Some ''team_ferrari'')) 100 LevelPublic None"

definition doc_example_claims :: Claims where
  "doc_example_claims = with_team (with_role (claims_new ''user123'') ''engineer'') ''team_ferrari''"

lemma doc_example_denied:
  "check now doc_example_controller doc_example_claims 42 =
     Some (doc_example_controller, Err \<lparr>denied_parameter_id = 42, denied_reason = ''insufficient access level: Protected < Private''\<rparr>)"
  by (simp add: check_def denial_def log_access_def doc_example_controller_def doc_example_claims_def set_access_def get_access_def
      controller_new_def with_team_def with_role_def claims_new_def claims_default_def is_expired_def is_admin_def Let_def
      less_AccessLevel_def)

text \<open>A confidential parameter is documented to require an explicit grant; a user of the level \<open>Confidential\<close> reads it without.\<close>

lemma confidential_without_grant:
  "check now (set_access controller_new pid LevelConfidential None) (with_max_level (claims_new user) LevelConfidential) pid =
     Some (set_access controller_new pid LevelConfidential None, Ok ())"
  by (simp add: check_def denial_def log_access_def set_access_def get_access_def controller_new_def with_max_level_def
      claims_new_def claims_default_def is_expired_def is_admin_def Let_def)

text \<open>A public parameter is documented to need no authentication; an expired token is refused it.\<close>

lemma public_expired_denied:
  "exp < now \<Longrightarrow> check now (set_access controller_new pid LevelPublic None) (with_expiry claims_anonymous exp) pid =
     Some (set_access controller_new pid LevelPublic None, Err \<lparr>denied_parameter_id = pid, denied_reason = ''token expired''\<rparr>)"
  by (simp add: check_def denial_def log_access_def set_access_def controller_new_def with_expiry_def claims_anonymous_def
      claims_default_def is_expired_def)

lemma same_controller: "\<exists>l. c = c\<lparr>audit_logger := l\<rparr>"
  by (rule exI [of _ "audit_logger c"]) simp

lemma check_unaudited: "\<not> audit_enabled c \<Longrightarrow> \<exists>r. check now c claims pid = Some (c, r)"
  by (auto simp: check_def log_access_def split: option.splits)

lemma check_filter_unaudited: "\<not> audit_enabled c \<Longrightarrow> \<exists>ys. check_filter now c claims key keep xs = Some (c, ys)"
proof (induction xs)
  case (Cons x xs)
  then show ?case using check_unaudited [of c now claims "key x"] by auto
qed simp

lemma check_Some:
  assumes "check now c claims pid = Some (c', r)"
  shows "is_ok r \<longleftrightarrow> may_read now c claims pid" "\<exists>x. c' = c\<lparr>audit_logger := x\<rparr>"
  using assms denial_None [of now c claims pid] same_controller [of c]
  by (auto simp: check_def log_access_def split: option.splits if_splits)

lemma may_read_log [simp]: "may_read now (c\<lparr>audit_logger := x\<rparr>) claims pid = may_read now c claims pid"
  by (simp add: may_read_def get_access_def split: option.split)

lemma check_filter_exact:
  "check_filter now c claims key keep xs = Some (c', ys) \<Longrightarrow>
     ys = filter (\<lambda>x. may_read now c claims (key x) = keep) xs \<and> (\<exists>l. c' = c\<lparr>audit_logger := l\<rparr>)"
proof (induction xs arbitrary: c c' ys)
  case (Cons x xs)
  then obtain c1 r zs where one: "check now c claims (key x) = Some (c1, r)"
      and rest: "check_filter now c1 claims key keep xs = Some (c', zs)" and ys: "ys = (if is_ok r = keep then x # zs else zs)"
    by (auto split: option.splits)
  obtain l where c1: "c1 = c\<lparr>audit_logger := l\<rparr>" using check_Some(2) [OF one] by blast
  show ?case using Cons.IH [OF rest] check_Some(1) [OF one] by (auto simp: ys c1)
qed (auto intro: same_controller)

text \<open>A frame filtered for a user keeps exactly the samples the user may read, in order, and everything else.\<close>

theorem filter_frame_exact:
  assumes "filter_frame now c claims frame = Some (c', filtered)"
  shows "filtered = frame\<lparr>samples := filter (\<lambda>s. may_read now c claims (ucast (parameter_id s))) (samples frame)\<rparr>"
  using assms check_filter_exact [of now c claims "\<lambda>s. ucast (parameter_id s)" True "samples frame"]
  by (auto simp: filter_frame_def)

theorem filter_frame_exact_witness:
  "samples (snd (the (filter_frame 5 (controller_new :: unit AccessController) claims_anonymous
     ((frame_new 0 1 2 ''s'')\<lparr>samples := [sample_good 7 (VBool True)]\<rparr>)))) = []"
proof -
  let ?frame = "(frame_new 0 1 2 ''s'')\<lparr>samples := [sample_good 7 (VBool True)]\<rparr>"
  let ?c = "controller_new :: unit AccessController"
  obtain c' f where f: "filter_frame 5 ?c claims_anonymous ?frame = Some (c', f)"
    using check_filter_unaudited [of ?c 5 claims_anonymous "\<lambda>s. ucast (parameter_id s)" True "samples ?frame"]
    by (auto simp: filter_frame_def controller_new_def)
  have "\<not> may_read 5 ?c claims_anonymous 7"
    by (simp add: may_read_def claims_anonymous_def claims_default_def is_expired_def get_access_def controller_new_def
        less_eq_AccessLevel_def)
  then have "samples f = []" using filter_frame_exact [OF f] by (simp add: sample_good_def sample_new_def)
  then show ?thesis by (simp only: f option.sel snd_conv)
qed

text \<open>The log never grows past its capacity and keeps the newest entries.\<close>

lemma audit_log_bounded:
  assumes "0 < log_max_entries l" "length (log_entries l) \<le> log_max_entries l"
  shows "\<exists>l'. audit_log l e = Some l' \<and> length (log_entries l') \<le> log_max_entries l' \<and> log_max_entries l' = log_max_entries l \<and>
    last (log_entries l') = e \<and> suffix (butlast (log_entries l')) (log_entries l)"
  using assms by (auto simp: audit_log_def suffix_def split: list.splits)

section \<open>Rate limits\<close>

text \<open>The answers to a sequence of requests, each with its time and key.\<close>

fun limiter_run :: "RateLimiter \<Rightarrow> (u64 \<times> string) list \<Rightarrow> (string \<times> bool) list" where
  "limiter_run l [] = []"
| "limiter_run l ((now, key) # rest) = (key, snd (limiter_check now l key)) # limiter_run (fst (limiter_check now l key)) rest"

definition answers_for :: "string \<Rightarrow> (string \<times> bool) list \<Rightarrow> bool list" where
  "answers_for key answers = map snd (filter (\<lambda>(k, _). k = key) answers)"

lemma limiter_settings [simp]:
  "max_requests (fst (limiter_check now l key)) = max_requests l" "window_secs (fst (limiter_check now l key)) = window_secs l"
  by (simp_all add: limiter_check_def split: prod.splits)

lemma limiter_other: "k \<noteq> key \<Longrightarrow> counts (fst (limiter_check now l k)) key = counts l key"
  by (simp add: limiter_check_def split: prod.splits)

text \<open>The times at which a key makes its requests, and the windows they fall into: a window starts with the first request that no
  earlier window covers and lasts \<open>window_secs\<close> seconds.\<close>

definition times_for :: "string \<Rightarrow> (u64 \<times> string) list \<Rightarrow> u64 list" where
  "times_for key requests = map fst (filter (\<lambda>(_, k). k = key) requests)"

function windows :: "u64 \<Rightarrow> u64 list \<Rightarrow> u64 list list" where
  "windows w [] = []"
| "windows w (t # ts) = (t # takeWhile (\<lambda>u. u - t \<le> w) ts) # windows w (dropWhile (\<lambda>u. u - t \<le> w) ts)"
  by pat_completeness auto
termination by (relation "measure (\<lambda>(_, ts). length ts)") (simp_all add: length_dropWhile_le less_Suc_eq_le)

text \<open>In a window of \<open>k\<close> requests exactly the first \<open>n\<close> are allowed.\<close>

definition first_allowed :: "nat \<Rightarrow> 'a list \<Rightarrow> bool list" where
  "first_allowed n win = map (\<lambda>i. i < n) [0..<length win]"

text \<open>The limiter as one key sees it.\<close>

fun key_answers :: "u64 \<Rightarrow> u64 \<Rightarrow> (u64 \<times> u64) option \<Rightarrow> u64 list \<Rightarrow> bool list" where
  "key_answers n w entry [] = []"
| "key_answers n w entry (t # ts) =
     (let (m, start) = (case entry of None \<Rightarrow> (0, t) | Some e \<Rightarrow> e) in
      if w < t - start then True # key_answers n w (Some (1, t)) ts
      else if n \<le> m then False # key_answers n w (Some (m, start)) ts
      else True # key_answers n w (Some (m + 1, start)) ts)"

lemma limiter_key:
  "answers_for key (limiter_run l xs) = key_answers (max_requests l) (window_secs l) (counts l key) (times_for key xs)"
proof (induction xs arbitrary: l)
  case (Cons x xs)
  obtain now k where x: "x = (now, k)" by fastforce
  show ?case
  proof (cases "k = key")
    case True
    then show ?thesis using Cons.IH [of "fst (limiter_check now l key)"]
      by (auto simp: x answers_for_def times_for_def limiter_check_def split: prod.splits if_splits)
  next
    case False
    then show ?thesis using Cons.IH [of "fst (limiter_check now l k)"]
      by (simp add: x answers_for_def times_for_def limiter_other)
  qed
qed (simp add: answers_for_def times_for_def)

lemma key_answers_window:
  "key_answers n w (Some (m, start)) ts =
     map (\<lambda>i. unat m + i < unat n) [0..<length (takeWhile (\<lambda>u. u - start \<le> w) ts)] @
     concat (map (first_allowed (max 1 (unat n))) (windows w (dropWhile (\<lambda>u. u - start \<le> w) ts)))"
proof (induction ts arbitrary: m start)
  case (Cons t ts)
  have shift: "map f [0..<Suc k] = f 0 # map (\<lambda>i. f (Suc i)) [0..<k]" for f :: "nat \<Rightarrow> bool" and k
    by (simp only: map_upt_Suc)
  consider (expired) "w < t - start" | (full) "t - start \<le> w" "n \<le> m" | (allowed) "t - start \<le> w" "m < n" by fastforce
  then show ?case
  proof cases
    case expired
    then show ?thesis by (simp add: Cons.IH first_allowed_def shift less_max_iff_disj not_le del: upt_Suc)
  next
    case full
    then have "unat n \<le> unat m" by (simp add: word_le_nat_alt)
    then show ?thesis using full by (simp add: Cons.IH shift not_less del: upt_Suc)
  next
    case allowed
    then have less: "unat m < unat n" by (simp add: word_less_nat_alt)
    moreover have "unat n < 2 ^ 64" using unsigned_less [of n] by simp
    ultimately have "unat (m + 1) = Suc (unat m)" by (simp add: unat_word_ariths)
    moreover have "\<not> w < t - start" "\<not> n \<le> m" using allowed by simp_all
    ultimately show ?thesis using allowed(1) less by (simp add: Cons.IH shift del: upt_Suc)
  qed
qed simp

text \<open>C29: The answers a key gets, for every sequence of requests of all keys, at any times: its requests fall into windows, each
  started by its first request and \<open>window_secs\<close> long, and in every window exactly the first \<open>max_requests\<close> requests are allowed,
  whatever other keys do. A limit of zero allows one request in every window but the first, as the request that opens it is
  never counted against the limit.\<close>

theorem rate_limit_exact:
  "answers_for key (limiter_run (limiter_new n w) requests) =
     (case windows w (times_for key requests) of
        [] \<Rightarrow> []
      | first # later \<Rightarrow> first_allowed (unat n) first @ concat (map (first_allowed (max 1 (unat n))) later))"
proof (cases "times_for key requests")
  case (Cons t ts)
  have "key_answers n w None (t # ts) = key_answers n w (Some (0, t)) (t # ts)" by simp
  also have "\<dots> = first_allowed (unat n) (t # takeWhile (\<lambda>u. u - t \<le> w) ts) @
      concat (map (first_allowed (max 1 (unat n))) (windows w (dropWhile (\<lambda>u. u - t \<le> w) ts)))"
    by (simp add: key_answers_window first_allowed_def del: upt_Suc key_answers.simps)
  finally show ?thesis by (simp add: limiter_key Cons limiter_new_def)
qed (simp add: limiter_key limiter_new_def)

text \<open>Cleaning up forgets no window that still counts: with a limit of at least one and a clock that does not go back, the next
  request of a key gets the answer it would have got.\<close>

lemma cleanup_keeps_answers:
  assumes "0 < max_requests l" "case counts l key of None \<Rightarrow> True | Some (_, start) \<Rightarrow> start \<le> now" "now \<le> now'"
  shows "snd (limiter_check now' (cleanup now l) key) = snd (limiter_check now' l key)"
proof (cases "counts l key")
  case (Some entry)
  obtain m start where entry: "entry = (m, start)" by fastforce
  have "now - start \<le> now' - start" using assms(2,3) Some entry
    by (simp add: word_le_nat_alt unat_sub_if' split: if_splits)
  then show ?thesis using assms(1) Some entry by (auto simp: limiter_check_def cleanup_def)
qed (simp add: limiter_check_def cleanup_def)

text \<open>A limit of zero still lets one request per expired window pass.\<close>

lemma zero_limit_resets:
  assumes "counts l key = Some (n, start)" "window_secs l < now - start"
  shows "snd (limiter_check now l key)"
  using assms by (simp add: limiter_check_def)

end
