(* ===== verification/Codec_Udp.thy ===== *)
theory Codec_Udp
  imports Frame
begin

unbundle bit_operations_syntax

text \<open>
  \<open>crates/pitgun-codec-udp/src/lib.rs\<close> and \<open>ecubridge.rs\<close>: the legacy event datagram and the ECUBridge packet, as functions
  on bytes.

  A cursor is the list of bytes it has left. A read past the end consumes all of them and fails, as \<open>Read::read_exact\<close> of a
  \<open>Cursor\<close> does. The loops of the decoder go on with the events after a bad sample, so that a failed read still returns what
  is left. The clock of the frame builder is an argument. Floats are their bit patterns; error messages are kept.
\<close>

section \<open>Integers on the wire\<close>

definition to_le_bytes :: "'a::len word \<Rightarrow> bytes" where
  "to_le_bytes w = nat_to_le (LENGTH('a) div 8) (unat w)"

definition from_le_bytes :: "bytes \<Rightarrow> 'a::len word" where
  "from_le_bytes bs = word_of_nat (nat_from_le bs)"

definition read_exact :: "nat \<Rightarrow> bytes \<Rightarrow> bytes option \<times> bytes" where
  "read_exact n bs = (if n \<le> length bs then (Some (take n bs), drop n bs) else (None, []))"

text \<open>Reading an integer off the front of the input, as the fixed arrays of the sources do.\<close>

definition read_le :: "bytes \<Rightarrow> ('a::len word \<times> bytes) option" where
  "read_le bs = (case read_exact (LENGTH('a) div 8) bs of (None, _) \<Rightarrow> None | (Some buf, rest) \<Rightarrow> Some (from_le_bytes buf, rest))"

section \<open>UTF-8\<close>

text \<open>\<open>std::str::from_utf8\<close>: the number of continuation bytes after a first byte, and the range of the second byte.\<close>

definition continuation_count :: "u8 \<Rightarrow> nat" where
  "continuation_count b =
     (if 0xC2 \<le> b \<and> b \<le> 0xDF then 1 else if 0xE0 \<le> b \<and> b \<le> 0xEF then 2 else if 0xF0 \<le> b \<and> b \<le> 0xF4 then 3 else 0)"

definition second_byte_ok :: "u8 \<Rightarrow> u8 \<Rightarrow> bool" where
  "second_byte_ok b c \<longleftrightarrow>
     (b = 0xE0 \<longrightarrow> 0xA0 \<le> c) \<and> (b = 0xED \<longrightarrow> c \<le> 0x9F) \<and> (b = 0xF0 \<longrightarrow> 0x90 \<le> c) \<and> (b = 0xF4 \<longrightarrow> c \<le> 0x8F)"

definition is_continuation :: "u8 \<Rightarrow> bool" where
  "is_continuation c \<longleftrightarrow> 0x80 \<le> c \<and> c \<le> 0xBF"

fun valid_utf8 :: "bytes \<Rightarrow> bool" where
  "valid_utf8 [] = True"
| "valid_utf8 (b # bs) =
     (if b < 0x80 then valid_utf8 bs
      else let n = continuation_count b in
        0 < n \<and> n \<le> length bs \<and> second_byte_ok b (hd bs) \<and> list_all is_continuation (take n bs) \<and> valid_utf8 (drop n bs))"

section \<open>The legacy event datagram\<close>

record CoreEvent =
  channel :: string
  ts_ns :: u64
  event_value :: "64 word"

datatype UdpWireFormat = PitgunV1

record SegmentTargetMetrics =
  metrics_channel :: string
  metrics_count :: "u64 option"
  metrics_min :: "64 word option"
  metrics_max :: "64 word option"
  metrics_sum :: "64 word option"
  metrics_mean :: "64 word option"
  metrics_stddev :: "64 word option"

record SegmentAggregateRecord =
  segment_key_channel :: string
  segment_value :: "64 word"
  start_ts_ns :: "u64 option"
  end_ts_ns :: "u64 option"
  segment_targets :: "SegmentTargetMetrics list"

record EventBatch =
  batch_events :: "CoreEvent list"
  aggregates :: "SegmentAggregateRecord list"
  end_of_stream :: bool

datatype UdpDecoded = UdpEvents "CoreEvent list" | UdpBatches "EventBatch list"

definition pitgun_v1_min_len :: nat where
  "pitgun_v1_min_len = 2 + 16 + 8"

fun min_datagram_len :: "UdpWireFormat \<Rightarrow> nat" where
  "min_datagram_len PitgunV1 = pitgun_v1_min_len"

definition encode_pitgun_v1 :: "string \<Rightarrow> 128 word \<Rightarrow> 64 word \<Rightarrow> bytes" where
  "encode_pitgun_v1 name ts v =
     (let len = (if length (as_bytes name) < 2 ^ 16 then word_of_nat (length (as_bytes name)) else - 1 :: u16) in
      to_le_bytes len @ as_bytes name @ to_le_bytes ts @ to_le_bytes v)"

definition decode_pitgun_v1 :: "bytes \<Rightarrow> string + CoreEvent" where
  "decode_pitgun_v1 bytes =
     (if length bytes < 2 then Err ''short frame (len)''
      else let len = unat (from_le_bytes (take 2 bytes) :: u16); bytes = drop 2 bytes in
      if length bytes < len then Err ''short frame (channel)''
      else if \<not> valid_utf8 (take len bytes) then Err ''invalid channel utf8''
      else let name = from_utf8_bytes (take len bytes); bytes = drop len bytes in
      if length bytes < 16 then Err ''short frame (ts)''
      else let ts_raw = from_le_bytes (take 16 bytes) :: 128 word; bytes = drop 16 bytes in
      if length bytes < 8 then Err ''short frame (value)''
      else let v = from_le_bytes (take 8 bytes) in
        Ok \<lparr>channel = name, ts_ns = (if ucast (- 1 :: u64) < ts_raw then - 1 else ucast ts_raw), event_value = v\<rparr>)"

fun udp_decode :: "UdpWireFormat \<Rightarrow> bytes \<Rightarrow> string + UdpDecoded" where
  "udp_decode PitgunV1 datagram = map_sum id (\<lambda>event. UdpEvents [event]) (decode_pitgun_v1 datagram)"

section \<open>ECUBridge: types, flags and checksum\<close>

datatype DataTypeCode =
    TBool | TU8 | TU16 | TU32 | TU64 | TI8 | TI16 | TI32 | TI64 | TF32 | TF64 | TBytes4 | TBytes8 | TBytes16

primrec type_code :: "DataTypeCode \<Rightarrow> u8" where
  "type_code TBool = 0" | "type_code TU8 = 1" | "type_code TU16 = 2" | "type_code TU32 = 3" | "type_code TU64 = 4"
| "type_code TI8 = 5" | "type_code TI16 = 6" | "type_code TI32 = 7" | "type_code TI64 = 8"
| "type_code TF32 = 9" | "type_code TF64 = 10" | "type_code TBytes4 = 11" | "type_code TBytes8 = 12"
| "type_code TBytes16 = 13"

primrec type_size :: "DataTypeCode \<Rightarrow> nat" where
  "type_size TBool = 1" | "type_size TU8 = 1" | "type_size TI8 = 1"
| "type_size TU16 = 2" | "type_size TI16 = 2"
| "type_size TU32 = 4" | "type_size TI32 = 4" | "type_size TF32 = 4" | "type_size TBytes4 = 4"
| "type_size TU64 = 8" | "type_size TI64 = 8" | "type_size TF64 = 8" | "type_size TBytes8 = 8"
| "type_size TBytes16 = 16"

definition type_from_u8 :: "u8 \<Rightarrow> DataTypeCode option" where
  "type_from_u8 v =
     (let n = unat (v AND 0x3F);
          codes = [TBool, TU8, TU16, TU32, TU64, TI8, TI16, TI32, TI64, TF32, TF64, TBytes4, TBytes8, TBytes16] in
      if n < length codes then Some (codes ! n) else None)"

record PacketFlags =
  compressed :: bool
  heartbeat :: bool
  has_events :: bool
  encrypted :: bool

definition flags_default :: PacketFlags where
  "flags_default = \<lparr>compressed = False, heartbeat = False, has_events = False, encrypted = False\<rparr>"

definition flags_from_u16 :: "u16 \<Rightarrow> PacketFlags" where
  "flags_from_u16 v = \<lparr>compressed = (v AND 0x0001 \<noteq> 0), heartbeat = (v AND 0x0002 \<noteq> 0), has_events = (v AND 0x0004 \<noteq> 0),
     encrypted = (v AND 0x0008 \<noteq> 0)\<rparr>"

definition flags_to_u16 :: "PacketFlags \<Rightarrow> u16" where
  "flags_to_u16 f =
     (let v = 0;
          v = (if compressed f then v OR 0x0001 else v);
          v = (if heartbeat f then v OR 0x0002 else v);
          v = (if has_events f then v OR 0x0004 else v) in
      if encrypted f then v OR 0x0008 else v)"

text \<open>One bit and one byte of the CRC-32 with the reflected polynomial.\<close>

definition crc_bit :: "u32 \<Rightarrow> u32" where
  "crc_bit crc = (if crc AND 1 \<noteq> 0 then drop_bit 1 crc XOR 0xEDB88320 else drop_bit 1 crc)"

definition crc_byte :: "u32 \<Rightarrow> u8 \<Rightarrow> u32" where
  "crc_byte crc byte = (crc_bit ^^ 8) (crc XOR ucast byte)"

definition calculate_crc :: "bytes \<Rightarrow> u32" where
  "calculate_crc data = NOT (foldl crc_byte 0xFFFFFFFF data)"

section \<open>ECUBridge: the codec\<close>

datatype CodecError =
    InsufficientData nat nat
  | InvalidHeader bytes bytes
  | UnsupportedVersion u32 "u32 list"
  | InvalidPacketType u8
  | ChecksumMismatch u32 u32
  | MalformedData string
  | MissingField string
  | ValueOutOfRange string string string
  | UnknownParameter u16
  | EncodeNotSupported
  | DecodeNotSupported
  | BufferTooSmall nat nat
  | IoError string
  | SerializationError string
  | Internal string

datatype DecodeOutput =
    OutFrame TelemetryFrame | OutFrames "TelemetryFrame list" | NeedMoreData nat | NoOutput | Skipped nat

fun into_frames :: "DecodeOutput \<Rightarrow> TelemetryFrame list" where
  "into_frames (OutFrame f) = [f]"
| "into_frames (OutFrames fs) = fs"
| "into_frames _ = []"

fun has_frames :: "DecodeOutput \<Rightarrow> bool" where
  "has_frames (OutFrame _) = True"
| "has_frames (OutFrames _) = True"
| "has_frames _ = False"

fun frame_count :: "DecodeOutput \<Rightarrow> nat" where
  "frame_count (OutFrame _) = 1"
| "frame_count (OutFrames fs) = length fs"
| "frame_count _ = 0"

record 'reg CodecContext =
  ctx_session_id :: u64
  ctx_source_id :: string
  ctx_registry :: "'reg option"
  apply_conversions :: bool
  validate_ranges :: bool
  include_unknown :: bool
  ctx_sequence :: u64
  ctx_options :: "string \<rightharpoonup> string"

definition context_new :: "u64 \<Rightarrow> string \<Rightarrow> 'reg CodecContext" where
  "context_new session source = \<lparr>ctx_session_id = session, ctx_source_id = source, ctx_registry = None,
     apply_conversions = False, validate_ranges = False, include_unknown = False, ctx_sequence = 0, ctx_options = Map.empty\<rparr>"

definition ecubridge_magic :: u32 where "ecubridge_magic = 0x45435542"
definition ecubridge_version :: u16 where "ecubridge_version = 1"
definition ecubridge_packet_size :: nat where "ecubridge_packet_size = 8193"
definition header_size :: nat where "header_size = 24"
definition sample_header_size :: nat where "sample_header_size = 4"

record PacketHeader =
  packet_version :: u16
  packet_flags :: PacketFlags
  packet_session_id :: u64
  packet_timestamp_us :: i64
  packet_sample_count :: u16
  packet_event_count :: u16

record EcuBridgeCodec =
  verify_crc :: bool
  use_standard_size :: bool

definition ecu_new :: EcuBridgeCodec where
  "ecu_new = \<lparr>verify_crc = True, use_standard_size = True\<rparr>"

definition ecu_without_crc :: EcuBridgeCodec where
  "ecu_without_crc = \<lparr>verify_crc = False, use_standard_size = True\<rparr>"

text \<open>The bytes \<open>data[i], \<dots>, data[i + n - 1]\<close>.\<close>

definition slice :: "bytes \<Rightarrow> nat \<Rightarrow> nat \<Rightarrow> bytes" where
  "slice data i n = take n (drop i data)"

definition decode_header :: "bytes \<Rightarrow> CodecError + PacketHeader" where
  "decode_header data =
     (if length data < header_size + sample_header_size
      then Err (InsufficientData (header_size + sample_header_size) (length data))
      else if from_le_bytes (slice data 0 4) \<noteq> ecubridge_magic
      then Err (InvalidHeader (to_le_bytes ecubridge_magic) (slice data 0 4))
      else Ok \<lparr>packet_version = from_le_bytes (slice data 4 2), packet_flags = flags_from_u16 (from_le_bytes (slice data 6 2)),
        packet_session_id = from_le_bytes (slice data 8 8), packet_timestamp_us = from_le_bytes (slice data 16 8),
        packet_sample_count = from_le_bytes (slice data 24 2), packet_event_count = from_le_bytes (slice data 26 2)\<rparr>)"

fun value_from_bytes :: "DataTypeCode \<Rightarrow> bytes \<Rightarrow> SampleValue" where
  "value_from_bytes TBool buf = VBool (hd buf \<noteq> 0)"
| "value_from_bytes TU8 buf = VU8 (hd buf)"
| "value_from_bytes TU16 buf = VU16 (from_le_bytes buf)"
| "value_from_bytes TU32 buf = VU32 (from_le_bytes buf)"
| "value_from_bytes TU64 buf = VU64 (from_le_bytes buf)"
| "value_from_bytes TI8 buf = VI8 (hd buf)"
| "value_from_bytes TI16 buf = VI16 (from_le_bytes buf)"
| "value_from_bytes TI32 buf = VI32 (from_le_bytes buf)"
| "value_from_bytes TI64 buf = VI64 (from_le_bytes buf)"
| "value_from_bytes TF32 buf = VF32 (from_le_bytes buf)"
| "value_from_bytes TF64 buf = VF64 (from_le_bytes buf)"
| "value_from_bytes TBytes4 buf = VBytes buf"
| "value_from_bytes TBytes8 buf = VBytes buf"
| "value_from_bytes TBytes16 buf = VBytes buf"

definition read_value :: "bytes \<Rightarrow> DataTypeCode \<Rightarrow> (CodecError + SampleValue) \<times> bytes" where
  "read_value cursor data_type =
     (case read_exact (type_size data_type) cursor of
        (None, rest) \<Rightarrow> (Err (MalformedData ''failed to read value''), rest)
      | (Some buf, rest) \<Rightarrow> (Ok (value_from_bytes data_type buf), rest))"

definition quality_from_bits :: "u8 \<Rightarrow> SignalQuality" where
  "quality_from_bits q = (if q = 0 then Good else if q = 1 then Degraded else if q = 2 then Bad else if q = 3 then NoSignal else Unknown)"

definition decode_sample :: "bytes \<Rightarrow> (CodecError + Sample) \<times> bytes" where
  "decode_sample cursor =
     (case read_exact 2 cursor of
        (None, rest) \<Rightarrow> (Err (MalformedData ''failed to read parameter ID''), rest)
      | (Some pid, cursor) \<Rightarrow>
     (case read_exact 1 cursor of
        (None, rest) \<Rightarrow> (Err (MalformedData ''failed to read type byte''), rest)
      | (Some type_byte, cursor) \<Rightarrow>
          let q = quality_from_bits (drop_bit 6 (hd type_byte) AND 0x03) in
          (case type_from_u8 (hd type_byte) of
             None \<Rightarrow> (Err (MalformedData (''invalid data type: '' @ show_nat (unat (hd type_byte AND 0x3F)))), cursor)
           | Some data_type \<Rightarrow>
               (case read_value cursor data_type of
                  (Inl e, rest) \<Rightarrow> (Err e, rest)
                | (Inr v, rest) \<Rightarrow> (Ok (sample_new (from_le_bytes pid) v q), rest)))))"

definition severity_from_u8 :: "u8 \<Rightarrow> EventSeverity" where
  "severity_from_u8 b =
     (if b = 0 then Trace else if b = 1 then Debug else if b = 2 then Info else if b = 3 then Warning
      else if b = 4 then Error else if b = 5 then Critical else Info)"

definition decode_event :: "bytes \<Rightarrow> (CodecError + Event) \<times> bytes" where
  "decode_event cursor =
     (case read_exact 2 cursor of
        (None, rest) \<Rightarrow> (Err (MalformedData ''failed to read event ID''), rest)
      | (Some eid, cursor) \<Rightarrow>
     (case read_exact 1 cursor of
        (None, rest) \<Rightarrow> (Err (MalformedData ''failed to read severity''), rest)
      | (Some sev, cursor) \<Rightarrow>
     (case read_exact 1 cursor of
        (None, rest) \<Rightarrow> (Err (MalformedData ''failed to read data length''), rest)
      | (Some len, cursor) \<Rightarrow>
     (case (if 0 < unat (hd len) then read_exact (unat (hd len)) cursor else (Some [], cursor)) of
        (None, rest) \<Rightarrow> (Err (MalformedData ''failed to read event data''), rest)
      | (Some _, rest) \<Rightarrow>
          let i = from_le_bytes eid :: u16 in
          (Ok (event_new i (''event_'' @ show_nat (unat i)) (severity_from_u8 (hd sev))), rest)))))"

text \<open>A counted loop of reads that stops at the first error.\<close>

primrec read_many :: "(bytes \<Rightarrow> ('e + 'a) \<times> bytes) \<Rightarrow> nat \<Rightarrow> bytes \<Rightarrow> 'a list \<times> bytes" where
  "read_many read 0 cursor = ([], cursor)"
| "read_many read (Suc n) cursor =
     (case read cursor of
        (Inl _, rest) \<Rightarrow> ([], rest)
      | (Inr x, rest) \<Rightarrow> map_prod (\<lambda>xs. x # xs) id (read_many read n rest))"

definition can_decode :: "bytes \<Rightarrow> bool" where
  "can_decode data \<longleftrightarrow> 4 \<le> length data \<and> from_le_bytes (slice data 0 4) = ecubridge_magic"

definition crc_failure :: "bytes \<Rightarrow> CodecError option" where
  "crc_failure data =
     (let crc_offset = length data - 4;
          stored = from_le_bytes (slice data crc_offset 4);
          calculated = calculate_crc (take crc_offset data) in
      if stored \<noteq> calculated then Some (ChecksumMismatch stored calculated) else None)"

text \<open>\<open>None\<close> stands for a panic of the frame builder.\<close>

definition ecu_decode :: "i64 \<Rightarrow> EcuBridgeCodec \<Rightarrow> bytes \<Rightarrow> 'reg CodecContext \<Rightarrow> (CodecError + DecodeOutput) option" where
  "ecu_decode now codec data ctx =
     (case decode_header data of
        Inl e \<Rightarrow> Some (Err e)
      | Inr header \<Rightarrow>
          (case (if verify_crc codec \<and> 4 \<le> length data then crc_failure data else None) of
             Some e \<Rightarrow> Some (Err e)
           | None \<Rightarrow>
               if heartbeat (packet_flags header) then Some (Ok NoOutput)
               else let (ss, cursor) = read_many decode_sample (unat (packet_sample_count header))
                          (drop (header_size + sample_header_size) data);
                        (es, cursor) = (if has_events (packet_flags header)
                          then read_many decode_event (unat (packet_event_count header)) cursor else ([], cursor)) in
                 map_option (\<lambda>frame. Ok (OutFrame frame))
                   (build now (fold builder_set [SetSessionId (packet_session_id header), SetTimestamp (packet_timestamp_us header),
                      SetSourceId (ctx_source_id ctx), AddSamples ss, AddEvents es] builder_new))))"

primrec quality_bits :: "SignalQuality \<Rightarrow> u8" where
  "quality_bits Good = 0" | "quality_bits Degraded = 1" | "quality_bits Bad = 2" | "quality_bits NoSignal = 3"
| "quality_bits Unknown = 0"

text \<open>\<open>Vec::resize(n, 0)\<close>.\<close>

definition resize_zero :: "nat \<Rightarrow> bytes \<Rightarrow> bytes" where
  "resize_zero n bs = take n bs @ replicate (n - length bs) 0"

fun value_bytes :: "SampleValue \<Rightarrow> DataTypeCode \<times> bytes" where
  "value_bytes (VBool v) = (TBool, [if v then 1 else 0])"
| "value_bytes (VU8 v) = (TU8, [v])"
| "value_bytes (VU16 v) = (TU16, to_le_bytes v)"
| "value_bytes (VU32 v) = (TU32, to_le_bytes v)"
| "value_bytes (VU64 v) = (TU64, to_le_bytes v)"
| "value_bytes (VI8 v) = (TI8, [v])"
| "value_bytes (VI16 v) = (TI16, to_le_bytes v)"
| "value_bytes (VI32 v) = (TI32, to_le_bytes v)"
| "value_bytes (VI64 v) = (TI64, to_le_bytes v)"
| "value_bytes (VF32 v) = (TF32, to_le_bytes v)"
| "value_bytes (VF64 v) = (TF64, to_le_bytes v)"
| "value_bytes (VBytes v) =
     (if length v \<le> 4 then (TBytes4, resize_zero 4 v) else if length v \<le> 8 then (TBytes8, resize_zero 8 v)
      else (TBytes16, resize_zero 16 v))"
| "value_bytes (VString s) = (TBytes16, resize_zero 16 (as_bytes s))"

definition encode_sample :: "Sample \<Rightarrow> bytes" where
  "encode_sample s =
     (let (code, bs) = value_bytes (sample_value s) in
      to_le_bytes (parameter_id s) @ [push_bit 6 (quality_bits (quality s)) OR type_code code] @ bs)"

definition encode_event :: "Event \<Rightarrow> bytes" where
  "encode_event e = to_le_bytes (event_id e) @ [word_of_nat (severity_rank (severity e)), 0]"

definition clamp_u16 :: "nat \<Rightarrow> u16" where
  "clamp_u16 n = word_of_nat (min n 65535)"

text \<open>The packet before padding and checksum.\<close>

definition encode_body :: "TelemetryFrame \<Rightarrow> bytes" where
  "encode_body frame =
     (let flags = flags_default\<lparr>has_events := events frame \<noteq> []\<rparr>;
          scount = clamp_u16 (length (samples frame)); ecount = clamp_u16 (length (events frame)) in
      to_le_bytes ecubridge_magic @ to_le_bytes ecubridge_version @ to_le_bytes (flags_to_u16 flags) @
      to_le_bytes (session_id frame) @ to_le_bytes (timestamp_us frame) @ to_le_bytes scount @ to_le_bytes ecount @
      concat (map encode_sample (take (unat scount) (samples frame))) @
      concat (map encode_event (take (unat ecount) (events frame))))"

definition ecu_encode :: "EcuBridgeCodec \<Rightarrow> TelemetryFrame \<Rightarrow> 'reg CodecContext \<Rightarrow> CodecError + bytes" where
  "ecu_encode codec frame ctx =
     (let buf = encode_body frame;
          target_size = ecubridge_packet_size - 4;
          buf = (if use_standard_size codec \<and> length buf < target_size then resize_zero target_size buf else buf) in
      Ok (buf @ to_le_bytes (calculate_crc buf)))"

definition estimate_encoded_size :: "EcuBridgeCodec \<Rightarrow> TelemetryFrame \<Rightarrow> nat" where
  "estimate_encoded_size codec frame =
     (if use_standard_size codec then ecubridge_packet_size
      else header_size + sample_header_size + length (samples frame) * 12 + length (events frame) * 8 + 4)"

section \<open>The packet builder\<close>

record EcuBridgePacketBuilder =
  pb_session_id :: u64
  pb_timestamp_us :: i64
  pb_samples :: "Sample list"
  pb_events :: "Event list"
  pb_flags :: PacketFlags

definition packet_builder_new :: EcuBridgePacketBuilder where
  "packet_builder_new = \<lparr>pb_session_id = 0, pb_timestamp_us = 0, pb_samples = [], pb_events = [], pb_flags = flags_default\<rparr>"

definition packet_builder_sample :: "EcuBridgePacketBuilder \<Rightarrow> u16 \<Rightarrow> SampleValue \<Rightarrow> SignalQuality \<Rightarrow> EcuBridgePacketBuilder" where
  "packet_builder_sample b pid v q = b\<lparr>pb_samples := pb_samples b @ [sample_new pid v q]\<rparr>"

definition packet_builder_event :: "EcuBridgePacketBuilder \<Rightarrow> Event \<Rightarrow> EcuBridgePacketBuilder" where
  "packet_builder_event b e = b\<lparr>pb_events := pb_events b @ [e]\<rparr>"

definition packet_builder_heartbeat :: "EcuBridgePacketBuilder \<Rightarrow> EcuBridgePacketBuilder" where
  "packet_builder_heartbeat b = b\<lparr>pb_flags := (pb_flags b)\<lparr>heartbeat := True\<rparr>\<rparr>"

definition packet_builder_build :: "i64 \<Rightarrow> EcuBridgePacketBuilder \<Rightarrow> bytes option" where
  "packet_builder_build now b =
     (case build now (fold builder_set [SetSessionId (pb_session_id b), SetTimestamp (pb_timestamp_us b),
        SetSourceId ''builder'', AddSamples (pb_samples b), AddEvents (pb_events b)] builder_new) of
        None \<Rightarrow> None
      | Some frame \<Rightarrow>
          (case ecu_encode ecu_new frame (context_new 0 [] :: unit CodecContext) of Inl _ \<Rightarrow> None | Inr bs \<Rightarrow> Some bs))"

section \<open>Integers on the wire, proved\<close>

lemma length_to_le_bytes [simp]: "length (to_le_bytes (w :: 'a::len word)) = LENGTH('a) div 8"
  by (simp add: to_le_bytes_def)

lemma bytes_power: "LENGTH('a) mod 8 = 0 \<Longrightarrow> (256 :: nat) ^ (LENGTH('a::len) div 8) = 2 ^ LENGTH('a)"
proof -
  assume "LENGTH('a) mod 8 = 0"
  then have "LENGTH('a) = 8 * (LENGTH('a) div 8)" by presburger
  then have "(2 :: nat) ^ LENGTH('a) = (2 ^ 8) ^ (LENGTH('a) div 8)" by (metis power_mult)
  then show ?thesis by simp
qed

lemma from_to_le_bytes: "LENGTH('a) mod 8 = 0 \<Longrightarrow> from_le_bytes (to_le_bytes w) = (w :: 'a::len word)"
proof -
  assume "LENGTH('a) mod 8 = 0"
  then have "unat w < 256 ^ (LENGTH('a) div 8)" using unsigned_less [of w] by (simp add: bytes_power)
  then show ?thesis by (simp add: from_le_bytes_def to_le_bytes_def)
qed

lemma to_from_le_bytes:
  assumes "LENGTH('a) mod 8 = 0" "length bs = LENGTH('a::len) div 8"
  shows "to_le_bytes (from_le_bytes bs :: 'a word) = bs"
proof -
  have "nat_from_le bs < 2 ^ LENGTH('a)" using nat_from_le_less [of bs] assms by (simp add: bytes_power)
  then have "unat (word_of_nat (nat_from_le bs) :: 'a word) = nat_from_le bs"
    by (simp add: unsigned_of_nat take_bit_nat_eq_self)
  then show ?thesis using assms(2) by (simp add: from_le_bytes_def to_le_bytes_def nat_to_from_le)
qed

lemma from_to_le_fixed [simp]:
  "from_le_bytes (to_le_bytes (w16 :: 16 word)) = w16" "from_le_bytes (to_le_bytes (w32 :: 32 word)) = w32"
  "from_le_bytes (to_le_bytes (w64 :: 64 word)) = w64" "from_le_bytes (to_le_bytes (w128 :: 128 word)) = w128"
  by (simp_all add: from_to_le_bytes)

lemma read_exact_append [simp]: "length xs = n \<Longrightarrow> read_exact n (xs @ rest) = (Some xs, rest)"
  by (auto simp: read_exact_def)

lemma read_exact_one [simp]: "read_exact (Suc 0) (x # rest) = (Some [x], rest)"
  by (simp add: read_exact_def)

lemma read_le_append: "LENGTH('a) mod 8 = 0 \<Longrightarrow> read_le (to_le_bytes w @ rest) = Some (w :: 'a::len word, rest)"
  by (simp add: read_le_def from_to_le_bytes)

interpretation u16_wire: byte_codec to_le_bytes "read_le :: bytes \<Rightarrow> (16 word \<times> bytes) option" "\<lambda>_. True"
  by unfold_locales (simp add: read_le_append)

interpretation u64_wire: byte_codec to_le_bytes "read_le :: bytes \<Rightarrow> (64 word \<times> bytes) option" "\<lambda>_. True"
  by unfold_locales (simp add: read_le_append)

interpretation u128_wire: byte_codec to_le_bytes "read_le :: bytes \<Rightarrow> (128 word \<times> bytes) option" "\<lambda>_. True"
  by unfold_locales (simp add: read_le_append)

section \<open>The legacy datagram\<close>

lemma encode_pitgun_v1_parts:
  "length name < 2 ^ 16 \<Longrightarrow>
     encode_pitgun_v1 name ts v = to_le_bytes (word_of_nat (length name) :: u16) @ as_bytes name @ to_le_bytes ts @ to_le_bytes v"
  by (simp add: encode_pitgun_v1_def)

lemma unat_word_of_nat_16 [simp]: "n < 2 ^ 16 \<Longrightarrow> unat (word_of_nat n :: u16) = n"
  by (simp add: unsigned_of_nat take_bit_nat_eq_self)

text \<open>The time of a decoded event: nanoseconds past the range of \<open>u64\<close> read as its maximum.\<close>

definition clamp_ts :: "128 word \<Rightarrow> u64" where
  "clamp_ts ts = word_of_nat (min (unat ts) (2 ^ 64 - 1))"

lemma clamp_ts_branch: "(if ucast (- 1 :: u64) < ts then - 1 else ucast ts :: u64) = clamp_ts ts" for ts :: "128 word"
proof -
  have max: "unat (ucast (- 1 :: u64) :: 128 word) = 2 ^ 64 - 1" by (simp add: unsigned_ucast_eq unat_max_word take_bit_nat_eq_self)
  show ?thesis
  proof (cases "unat ts < 2 ^ 64")
    case True
    then have "\<not> ucast (- 1 :: u64) < ts" by (simp add: word_less_nat_alt max)
    moreover have "clamp_ts ts = ucast ts" using True by (simp add: clamp_ts_def)
    ultimately show ?thesis by simp
  next
    case False
    then have "ucast (- 1 :: u64) < ts" by (simp add: word_less_nat_alt max)
    moreover have "unat (clamp_ts ts) = unat (- 1 :: u64)" using False by (simp add: clamp_ts_def unat_max_word)
    ultimately show ?thesis by (metis unsigned_word_eqI)
  qed
qed

lemma decode_encode_pitgun_v1:
  assumes "length name < 2 ^ 16" "valid_utf8 (as_bytes name)"
  shows "decode_pitgun_v1 (encode_pitgun_v1 name ts v @ rest) = Ok \<lparr>channel = name, ts_ns = clamp_ts ts, event_value = v\<rparr>"
  using assms by (simp add: decode_pitgun_v1_def encode_pitgun_v1_parts clamp_ts_branch Let_def)

lemma decode_pitgun_v1_Ok:
  assumes "decode_pitgun_v1 bs = Ok e"
  shows "\<exists>ts rest. bs = encode_pitgun_v1 (channel e) ts (event_value e) @ rest \<and> length (channel e) < 2 ^ 16 \<and>
    valid_utf8 (as_bytes (channel e)) \<and> ts_ns e = clamp_ts ts"
proof -
  define len :: u16 where "len = from_le_bytes (take 2 bs)"
  define r0 r1 r2 where "r0 = drop 2 bs" and "r1 = drop (unat len) r0" and "r2 = drop 16 r1"
  define ts :: "128 word" where "ts = from_le_bytes (take 16 r1)"
  have parts: "2 \<le> length bs" "unat len \<le> length r0" "valid_utf8 (take (unat len) r0)" "16 \<le> length r1" "8 \<le> length r2"
      "e = \<lparr>channel = from_utf8_bytes (take (unat len) r0), ts_ns = clamp_ts ts, event_value = from_le_bytes (take 8 r2)\<rparr>"
    using assms unfolding decode_pitgun_v1_def Let_def clamp_ts_branch
    by (auto simp: len_def r0_def r1_def r2_def ts_def split: if_splits)
  have name: "as_bytes (channel e) = take (unat len) r0" by (simp add: parts(6))
  have small: "length (channel e) = unat len" using parts(2) name length_as_bytes [of "channel e"] by simp
  have "to_le_bytes len = take 2 bs" using parts(1) by (simp add: len_def to_from_le_bytes)
  moreover have "to_le_bytes ts = take 16 r1" using parts(4) by (simp add: ts_def to_from_le_bytes)
  moreover have "to_le_bytes (event_value e) = take 8 r2" using parts(5) by (simp add: parts(6) to_from_le_bytes)
  moreover have "unat len < 2 ^ 16" using unsigned_less [of len] by simp
  ultimately have "bs = encode_pitgun_v1 (channel e) ts (event_value e) @ drop 8 r2"
    using small by (simp add: encode_pitgun_v1_parts name r0_def r1_def r2_def del: drop_drop)
  then show ?thesis using small parts(3,6) name \<open>unat len < 2 ^ 16\<close> by auto
qed

text \<open>C32: A datagram decodes to an event exactly when it starts with the encoding of that event, for some time that clamps to the
  event's, with a channel name of at most 65535 bytes of UTF-8. Anything else is an error, and bytes after it are ignored.\<close>

theorem pitgun_v1_exact:
  "udp_decode PitgunV1 bs = Ok (UdpEvents [e]) \<longleftrightarrow>
     (\<exists>ts rest. bs = encode_pitgun_v1 (channel e) ts (event_value e) @ rest \<and> length (channel e) < 2 ^ 16 \<and>
        valid_utf8 (as_bytes (channel e)) \<and> ts_ns e = clamp_ts ts)"
proof -
  have "udp_decode PitgunV1 bs = Ok (UdpEvents [e]) \<longleftrightarrow> decode_pitgun_v1 bs = Ok e"
    by (cases "decode_pitgun_v1 bs") simp_all
  then show ?thesis using decode_pitgun_v1_Ok [of bs e] decode_encode_pitgun_v1 [of "channel e"] by auto
qed

text \<open>A name of 65536 bytes or more is sent whole under a length of 65535, and the datagram does not decode to it.\<close>

lemma long_name_lost:
  assumes "2 ^ 16 \<le> length name"
  shows "decode_pitgun_v1 (encode_pitgun_v1 name ts v) \<noteq> Ok \<lparr>channel = name, ts_ns = t, event_value = w\<rparr>"
  using decode_pitgun_v1_Ok [of "encode_pitgun_v1 name ts v"] assms by force

section \<open>Samples and events on the wire\<close>

text \<open>What survives of a value, a sample, an event and a frame: byte strings take one of three sizes, an unknown quality
  becomes good, offsets, names, data and metadata are lost.\<close>

fun wire_value :: "SampleValue \<Rightarrow> SampleValue" where
  "wire_value (VBytes v) = VBytes (resize_zero (if length v \<le> 4 then 4 else if length v \<le> 8 then 8 else 16) v)"
| "wire_value (VString s) = VBytes (resize_zero 16 (as_bytes s))"
| "wire_value v = v"

definition wire_sample :: "Sample \<Rightarrow> Sample" where
  "wire_sample s = sample_new (parameter_id s) (wire_value (sample_value s)) (if quality s = Unknown then Good else quality s)"

definition wire_event :: "Event \<Rightarrow> Event" where
  "wire_event e = event_new (event_id e) (''event_'' @ show_nat (unat (event_id e))) (severity e)"

definition wire_frame :: "i64 \<Rightarrow> string \<Rightarrow> TelemetryFrame \<Rightarrow> TelemetryFrame" where
  "wire_frame now source f = (frame_new now (session_id f) (timestamp_us f) source)
     \<lparr>samples := map wire_sample (take 65535 (samples f)), events := map wire_event (take 65535 (events f))\<rparr>"

lemma type_byte [simp]:
  "type_from_u8 (push_bit 6 (quality_bits q) OR type_code c) = Some c"
  "drop_bit 6 (push_bit 6 (quality_bits q) OR type_code c) AND 3 = quality_bits q"
  by (cases q; cases c; simp add: type_from_u8_def)+

lemma quality_from_bits [simp]: "quality_from_bits (quality_bits q) = (if q = Unknown then Good else q)"
  by (cases q) (simp_all add: quality_from_bits_def)

lemma severity_byte [simp]: "severity_from_u8 (word_of_nat (severity_rank s)) = s"
  by (cases s) (simp_all add: severity_from_u8_def)

lemma length_resize [simp]: "length (resize_zero n bs) = n"
  by (simp add: resize_zero_def)

lemma value_bytes_read:
  "value_bytes v = (c, bs) \<Longrightarrow> length bs = type_size c \<and> value_from_bytes c bs = wire_value v"
  by (cases v) (auto split: if_splits)

lemma decode_encode_sample: "decode_sample (encode_sample s @ rest) = (Ok (wire_sample s), rest)"
proof -
  obtain c bs where v: "value_bytes (sample_value s) = (c, bs)" by fastforce
  define b where "b = push_bit 6 (quality_bits (quality s)) OR type_code c"
  have b: "type_from_u8 b = Some c" "quality_from_bits (drop_bit 6 b AND 3) = (if quality s = Unknown then Good else quality s)"
    by (simp_all only: b_def type_byte quality_from_bits)
  have enc: "encode_sample s = to_le_bytes (parameter_id s) @ [b] @ bs" by (simp add: encode_sample_def v b_def)
  show ?thesis
    using value_bytes_read [OF v] by (simp add: enc b decode_sample_def read_value_def wire_sample_def Let_def)
qed

lemma decode_encode_event: "decode_event (encode_event e @ rest) = (Ok (wire_event e), rest)"
  by (simp add: encode_event_def decode_event_def wire_event_def Let_def)

lemma read_many_encoded:
  assumes "\<And>x rest. read (enc x @ rest) = (Inr (g x), rest)"
  shows "read_many read (length xs) (concat (map enc xs) @ rest) = (map g xs, rest)"
  by (induction xs) (simp_all add: assms)

text \<open>On samples and events the wire can carry, both are prefix codecs.\<close>

interpretation sample_wire: byte_codec encode_sample
    "\<lambda>bs. case decode_sample bs of (Inr s, rest) \<Rightarrow> Some (s, rest) | _ \<Rightarrow> None" "\<lambda>s. wire_sample s = s"
  by unfold_locales (simp add: decode_encode_sample)

interpretation event_wire: byte_codec encode_event
    "\<lambda>bs. case decode_event bs of (Inr e, rest) \<Rightarrow> Some (e, rest) | _ \<Rightarrow> None" "\<lambda>e. wire_event e = e"
  by unfold_locales (simp add: decode_encode_event)

section \<open>Packets\<close>

lemma flags_round_trip [simp]: "flags_from_u16 (flags_to_u16 f) = f"
  by (cases f; case_tac compressed; case_tac heartbeat; case_tac has_events; case_tac encrypted)
     (simp_all add: flags_from_u16_def flags_to_u16_def)

lemma unat_clamp_u16 [simp]: "unat (clamp_u16 n) = min n 65535"
  by (simp add: clamp_u16_def unat_word_of_nat_16 del: min_def)

lemma decode_encode_header:
  "decode_header (encode_body f @ tail) = Ok \<lparr>packet_version = ecubridge_version,
     packet_flags = flags_default\<lparr>has_events := events f \<noteq> []\<rparr>, packet_session_id = session_id f,
     packet_timestamp_us = timestamp_us f, packet_sample_count = clamp_u16 (length (samples f)),
     packet_event_count = clamp_u16 (length (events f))\<rparr>"
  by (simp add: decode_header_def encode_body_def header_size_def sample_header_size_def slice_def Let_def)

lemma drop_encode_body:
  "drop (header_size + sample_header_size) (encode_body f @ tail) =
     concat (map encode_sample (take 65535 (samples f))) @ concat (map encode_event (take 65535 (events f))) @ tail"
  by (simp add: encode_body_def header_size_def sample_header_size_def Let_def min_def)

lemma read_counted:
  assumes "\<And>x rest. read (enc x @ rest) = (Inr (g x), rest)"
  shows "read_many read (min (length xs) 65535) (concat (map enc (take 65535 xs)) @ rest) = (map g (take 65535 xs), rest)"
  using read_many_encoded [of read enc g "take 65535 xs" rest, OF assms] by (simp add: min.commute)

lemma crc_stored: "crc_failure (buf @ to_le_bytes (calculate_crc buf)) = None"
  by (simp add: crc_failure_def slice_def)

lemma ecu_encode_shape:
  "\<exists>pad. ecu_encode codec f ctx = Ok ((encode_body f @ pad) @ to_le_bytes (calculate_crc (encode_body f @ pad)))"
  by (rule exI [of _ "if use_standard_size codec \<and> length (encode_body f) < ecubridge_packet_size - 4
        then replicate (ecubridge_packet_size - 4 - length (encode_body f)) 0 else []"])
     (simp add: ecu_encode_def Let_def resize_zero_def)

lemma decode_encode_packet:
  "\<exists>packet. ecu_encode codec f ctx = Ok packet \<and>
     ecu_decode now codec' packet ctx' = Some (Ok (OutFrame (wire_frame now (ctx_source_id ctx') f)))"
proof -
  obtain pad where packet: "ecu_encode codec f ctx = Ok ((encode_body f @ pad) @ to_le_bytes (calculate_crc (encode_body f @ pad)))"
    using ecu_encode_shape by blast
  define tail where "tail = pad @ to_le_bytes (calculate_crc (encode_body f @ pad))"
  have crc: "crc_failure (encode_body f @ tail) = None" using crc_stored [of "encode_body f @ pad"] by (simp add: tail_def)
  have "ecu_decode now codec' (encode_body f @ tail) ctx' = Some (Ok (OutFrame (wire_frame now (ctx_source_id ctx') f)))"
    unfolding ecu_decode_def decode_encode_header drop_encode_body
    by (simp add: crc flags_default_def read_counted [OF decode_encode_sample] read_counted [OF decode_encode_event] build_def
        builder_new_def wire_frame_def frame_new_def)
  then show ?thesis using packet by (simp add: tail_def)
qed

text \<open>C30: Every frame encodes, and the packet decodes, with and without checking the checksum and with any padding, to the frame
  with its session and time, and its first 65535 samples and events as the wire carries them, in order.\<close>

theorem ecubridge_roundtrip:
  "\<exists>packet. ecu_encode codec f ctx = Ok packet \<and>
     ecu_decode now codec' packet ctx' = Some (Ok (OutFrame (wire_frame now (ctx_source_id ctx') f)))"
  by (rule decode_encode_packet)

section \<open>The checksum\<close>

lemma bit_crc_bit_top: "bit (crc_bit c) 31 \<longleftrightarrow> odd c"
  by (auto simp: crc_bit_def bit_drop_bit_eq bit_xor_iff and_one_eq odd_iff_mod_2_eq_one dest: bit_imp_le_length)

lemma xor_cancel: "a XOR x = b XOR x \<longleftrightarrow> a = b" "x XOR a = x XOR b \<longleftrightarrow> a = b" for a b x :: "'a::len word"
  by (metis xor.assoc xor.right_neutral xor_self_eq) (metis xor.assoc xor.left_neutral xor_self_eq)

lemma crc_bit_inject: "crc_bit a = crc_bit b \<longleftrightarrow> a = b"
proof
  assume eq: "crc_bit a = crc_bit b"
  then have low: "odd a \<longleftrightarrow> odd b" by (metis bit_crc_bit_top)
  then have "drop_bit 1 a = drop_bit 1 b"
    using eq by (cases "odd a") (simp_all add: crc_bit_def and_one_eq odd_iff_mod_2_eq_one xor_cancel)
  then have "bit a (Suc n) \<longleftrightarrow> bit b (Suc n)" for n
    by (metis bit_drop_bit_eq comp_apply plus_1_eq_Suc)
  moreover have "bit a 0 \<longleftrightarrow> bit b 0" using low by (simp add: bit_0)
  ultimately show "a = b" by (intro bit_word_eqI) (metis not0_implies_Suc)
qed simp

lemma crc_bits_inject: "(crc_bit ^^ n) a = (crc_bit ^^ n) b \<longleftrightarrow> a = b"
  by (induction n) (simp_all add: crc_bit_inject)

lemma crc_byte_inject: "crc_byte a x = crc_byte b x \<longleftrightarrow> a = b"
  by (simp add: crc_byte_def crc_bits_inject xor_cancel)

lemma crc_byte_inject_byte: "crc_byte a x = crc_byte a y \<longleftrightarrow> x = y"
proof -
  have "unat (ucast z :: u32) = unat z" for z :: u8
    using unsigned_less [of z, where 'a = nat] by (simp add: unsigned_ucast_eq take_bit_nat_eq_self)
  then have "(ucast x :: u32) = ucast y \<longleftrightarrow> x = y" by (metis unsigned_word_eqI)
  then show ?thesis by (simp add: crc_byte_def crc_bits_inject xor_cancel)
qed

lemma crc_fold_inject: "foldl crc_byte a xs = foldl crc_byte b xs \<longleftrightarrow> a = b"
  by (induction xs arbitrary: a b) (simp_all add: crc_byte_inject)

lemma crc_detects_byte:
  assumes "i < length xs" "b \<noteq> xs ! i"
  shows "calculate_crc (xs[i := b]) \<noteq> calculate_crc xs"
proof -
  have "foldl crc_byte c (take i xs @ b # drop (Suc i) xs) \<noteq> foldl crc_byte c (take i xs @ xs ! i # drop (Suc i) xs)" for c
    using assms(2) by (simp add: crc_fold_inject crc_byte_inject_byte)
  then show ?thesis
    using assms(1) by (simp add: calculate_crc_def upd_conv_take_nth_drop id_take_nth_drop [symmetric])
qed

lemma crc_failure_None:
  "crc_failure p = None \<longleftrightarrow> from_le_bytes (slice p (length p - 4) 4) = calculate_crc (take (length p - 4) p)"
  by (simp add: crc_failure_def Let_def)

lemma crc_failure_changed:
  assumes "4 \<le> length p" "crc_failure p = None" "i < length p" "b \<noteq> p ! i"
  shows "crc_failure (p[i := b]) \<noteq> None"
proof (cases "i < length p - 4")
  case True
  then have "take (length p - 4) (p[i := b]) = (take (length p - 4) p)[i := b]" "slice (p[i := b]) (length p - 4) 4 = slice p (length p - 4) 4"
    by (simp_all add: take_update_swap slice_def drop_update_cancel)
  moreover have "calculate_crc ((take (length p - 4) p)[i := b]) \<noteq> calculate_crc (take (length p - 4) p)"
    using True assms(4) by (intro crc_detects_byte) auto
  ultimately show ?thesis using assms(2) by (simp add: crc_failure_None)
next
  case False
  let ?old = "slice p (length p - 4) 4" and ?new = "slice (p[i := b]) (length p - 4) 4"
  have "?new ! (i - (length p - 4)) \<noteq> ?old ! (i - (length p - 4))"
    using False assms by (simp add: slice_def)
  moreover have "length ?old = 4" "length ?new = 4" using assms(1) by (simp_all add: slice_def)
  ultimately have "(from_le_bytes ?new :: u32) \<noteq> from_le_bytes ?old"
    using to_from_le_bytes [of ?old, where 'a = 32] to_from_le_bytes [of ?new, where 'a = 32] by auto
  then show ?thesis using False assms(2) by (simp add: crc_failure_None take_update_cancel)
qed

text \<open>C31: A packet that a checking decoder accepts is rejected after a change of any one of its bytes.\<close>

theorem ecubridge_detects_byte:
  assumes "verify_crc codec" "ecu_decode now codec p ctx = Some (Ok out)" "i < length p" "b \<noteq> p ! i"
  shows "\<exists>e. ecu_decode now codec (p[i := b]) ctx = Some (Err e)"
proof -
  have size: "4 \<le> length p" and crc: "crc_failure p = None"
    using assms(1,2) by (auto simp: ecu_decode_def decode_header_def header_size_def split: sum.splits option.splits if_splits)
  obtain e where "crc_failure (p[i := b]) = Some e" using crc_failure_changed [OF size crc assms(3,4)] by auto
  then show ?thesis using assms(1) size by (auto simp: ecu_decode_def split: sum.split)
qed

theorem ecubridge_detects_byte_witness:
  "\<exists>p e. ecu_encode ecu_new (frame_new 0 1 2 ''car'') (context_new 1 ''car'' :: unit CodecContext) = Ok p \<and>
     ecu_decode 5 ecu_new (p[4 := 7]) (context_new 1 ''car'' :: unit CodecContext) = Some (Err e)"
proof -
  let ?f = "frame_new 0 1 2 ''car''" and ?ctx = "context_new 1 ''car'' :: unit CodecContext"
  obtain pad where p: "ecu_encode ecu_new ?f ?ctx = Ok ((encode_body ?f @ pad) @ to_le_bytes (calculate_crc (encode_body ?f @ pad)))"
    using ecu_encode_shape by blast
  define p where "p = (encode_body ?f @ pad) @ to_le_bytes (calculate_crc (encode_body ?f @ pad))"
  obtain out where ok: "ecu_decode 5 ecu_new p ?ctx = Some (Ok out)"
    using decode_encode_packet [of ecu_new ?f ?ctx 5 ecu_new ?ctx] p by (auto simp: p_def)
  have low: "nat_to_le 2 (Suc 0) ! 0 = 1" by (simp only: numeral_2_eq_2 nat_to_le.simps) simp
  have at: "4 < length p" "7 \<noteq> p ! 4"
    by (simp_all add: p_def encode_body_def to_le_bytes_def ecubridge_magic_def ecubridge_version_def nth_append low Let_def)
  show ?thesis
    using ecubridge_detects_byte [OF _ ok at] p by (simp add: p_def ecu_new_def)
qed

text \<open>The flags of the packet builder are not written: a packet built as a heartbeat decodes to a frame.\<close>

lemma builder_drops_heartbeat: "packet_builder_build now (packet_builder_heartbeat b) = packet_builder_build now b"
  by (simp add: packet_builder_build_def packet_builder_heartbeat_def)

end
