(* ===== verification/Float64.thy ===== *)
theory Float64
  imports Determinism
begin

text \<open>
  The comparisons, the addition and the conversions of \<open>f64\<close> that the racing contracts and the
  verifier use, on IEEE 754 binary64 bit patterns.

  A binary64 value times \<open>2 ^ 1074\<close> is an integer, so that every comparison is a comparison of integers
  and the sum of two values is exact before its rounding to 53 significant bits. An infinity has the
  largest scaled magnitude; a NaN compares false.
\<close>

unbundle bit_operations_syntax

section \<open>Values\<close>

definition f64_exponent :: "64 word \<Rightarrow> nat" where
  "f64_exponent b = unat (take_bit 11 (drop_bit 52 b))"

definition f64_fraction :: "64 word \<Rightarrow> nat" where
  "f64_fraction b = unat (take_bit 52 b)"

definition f64_magnitude :: "64 word \<Rightarrow> nat" where
  "f64_magnitude b =
     (if f64_exponent b = 0 then f64_fraction b
      else (f64_fraction b + 2 ^ 52) * 2 ^ (f64_exponent b - 1))"

definition f64_scaled :: "64 word \<Rightarrow> int" where
  "f64_scaled b = (if bit b 63 then - int (f64_magnitude b) else int (f64_magnitude b))"

definition f64_nan :: "64 word \<Rightarrow> bool" where
  "f64_nan b \<longleftrightarrow> f64_exponent b = 2047 \<and> f64_fraction b \<noteq> 0"

definition f64_lt :: "64 word \<Rightarrow> 64 word \<Rightarrow> bool" where
  "f64_lt a b \<longleftrightarrow> \<not> f64_nan a \<and> \<not> f64_nan b \<and> f64_scaled a < f64_scaled b"

definition f64_le :: "64 word \<Rightarrow> 64 word \<Rightarrow> bool" where
  "f64_le a b \<longleftrightarrow> \<not> f64_nan a \<and> \<not> f64_nan b \<and> f64_scaled a \<le> f64_scaled b"

text \<open>\<open>(low..=high).contains(&value)\<close>.\<close>

definition f64_in_range :: "64 word \<Rightarrow> 64 word \<Rightarrow> 64 word \<Rightarrow> bool" where
  "f64_in_range low high v \<longleftrightarrow> f64_le low v \<and> f64_le v high"

text \<open>\<open>value.fract() != 0.0\<close> for a finite value, and \<open>value as u64\<close> for a finite value that is not
  negative: truncation, saturating at \<open>u64::MAX\<close>.\<close>

definition f64_has_fract :: "64 word \<Rightarrow> bool" where
  "f64_has_fract b \<longleftrightarrow> f64_magnitude b mod 2 ^ 1074 \<noteq> 0"

definition f64_to_u64 :: "64 word \<Rightarrow> u64" where
  "f64_to_u64 b = (if bit b 63 then 0 else of_nat (min (f64_magnitude b div 2 ^ 1074) (2 ^ 64 - 1)))"

definition F64_ZERO :: "64 word" where "F64_ZERO = 0"
definition F64_QUARTER :: "64 word" where "F64_QUARTER = 0x3FD0000000000000"
definition F64_HALF :: "64 word" where "F64_HALF = 0x3FE0000000000000"
definition F64_ONE :: "64 word" where "F64_ONE = 0x3FF0000000000000"
definition F64_FOUR :: "64 word" where "F64_FOUR = 0x4010000000000000"
definition F64_TEN :: "64 word" where "F64_TEN = 0x4024000000000000"
definition F64_MILLION :: "64 word" where "F64_MILLION = 0x412E848000000000"

section \<open>Rounding\<close>

fun bit_length :: "nat \<Rightarrow> nat" where
  "bit_length n = (if n = 0 then 0 else Suc (bit_length (n div 2)))"

declare bit_length.simps [simp del]

text \<open>Round to nearest, ties to even, to 53 significant bits.\<close>

definition round53 :: "nat \<Rightarrow> nat" where
  "round53 n =
     (let k = bit_length n - 53; q = n div 2 ^ k; r = n mod 2 ^ k
      in if k = 0 then n
         else (if 2 ^ (k - 1) < r \<or> (r = 2 ^ (k - 1) \<and> odd q) then q + 1 else q) * 2 ^ k)"

text \<open>\<open>a + b > c\<close> for finite \<open>a\<close> and \<open>b\<close> that are not negative and a finite \<open>c\<close> that is not
  negative.\<close>

definition f64_sum_exceeds :: "64 word \<Rightarrow> 64 word \<Rightarrow> 64 word \<Rightarrow> bool" where
  "f64_sum_exceeds a b c \<longleftrightarrow> f64_magnitude c < round53 (f64_magnitude a + f64_magnitude b)"

text \<open>\<open>(seconds * 1000.0).round().max(0.0) as u64\<close>: the rounded product, rounded to the nearest integer
  with ties away from zero, saturating at the ends of \<open>u64\<close>. A NaN is replaced by the other argument of
  \<open>max\<close>.\<close>

definition f64_millis :: "64 word \<Rightarrow> u64" where
  "f64_millis b =
     (if f64_nan b \<or> bit b 63 then 0
      else of_nat (min ((round53 (1000 * f64_magnitude b) + 2 ^ 1073) div 2 ^ 1074) (2 ^ 64 - 1)))"

text \<open>\<open>(seconds * 1000.0).round().max(1.0) as u64\<close>.\<close>

definition f64_lap_millis :: "64 word \<Rightarrow> u64" where
  "f64_lap_millis b = max 1 (f64_millis b)"

text \<open>The bit pattern of a magnitude of at most 53 significant bits; too large a magnitude overflows to
  the infinity.\<close>

definition f64_encode :: "nat \<Rightarrow> 64 word" where
  "f64_encode m =
     (if m < 2 ^ 52 then of_nat m
      else let e = bit_length m - 53
           in if 2046 \<le> e then 0x7FF0000000000000
              else of_nat (Suc e * 2 ^ 52 + (m div 2 ^ e - 2 ^ 52)))"

definition f64_infinite :: "64 word \<Rightarrow> bool" where
  "f64_infinite b \<longleftrightarrow> f64_exponent b = 2047 \<and> f64_fraction b = 0"

text \<open>\<open>a + b\<close> under round to nearest, ties to even. The bits of a NaN are left open by the language; the
  positive quiet NaN stands for them. An exact sum of zero is \<open>+0.0\<close> unless both operands are negative
  zeros.\<close>

definition f64_add :: "64 word \<Rightarrow> 64 word \<Rightarrow> 64 word" where
  "f64_add a b =
     (if f64_nan a \<or> f64_nan b \<or> (f64_infinite a \<and> f64_infinite b \<and> bit a 63 \<noteq> bit b 63)
      then 0x7FF8000000000000
      else if f64_infinite a then a
      else if f64_infinite b then b
      else let s = f64_scaled a + f64_scaled b
           in if s = 0 then (if bit a 63 \<and> bit b 63 then 0x8000000000000000 else 0)
              else (if s < 0 then 0x8000000000000000 else 0) OR f64_encode (round53 (nat \<bar>s\<bar>)))"

lemma bit_length_bounds: "n < 2 ^ bit_length n" "0 < n \<Longrightarrow> 2 ^ (bit_length n - 1) \<le> n"
proof (induction n rule: bit_length.induct)
  case (1 n)
  show "n < 2 ^ bit_length n"
    using "1.IH"(1) by (cases "n = 0") (auto simp: bit_length.simps [of n])
  assume "0 < n"
  show "2 ^ (bit_length n - 1) \<le> n"
  proof (cases "n = 1")
    case False
    with \<open>0 < n\<close> have half: "0 < n div 2" by (cases n) auto
    then have "0 < bit_length (n div 2)" by (auto simp: bit_length.simps [of "n div 2"])
    moreover have "2 ^ (bit_length (n div 2) - 1) \<le> n div 2"
      using "1.IH"(2) half \<open>0 < n\<close> by simp
    ultimately show ?thesis
      using \<open>0 < n\<close> by (cases "bit_length (n div 2)") (auto simp: bit_length.simps [of n])
  qed (simp add: bit_length.simps)
qed

lemma bit_length_unique:
  assumes "2 ^ L \<le> n" "n < 2 ^ Suc L"
  shows "bit_length n = Suc L"
proof -
  have pos: "0 < n" using assms(1) by (metis less_le_trans zero_less_numeral zero_less_power)
  have "2 ^ L < (2::nat) ^ bit_length n" using assms(1) bit_length_bounds(1) by (rule le_less_trans)
  moreover have "2 ^ (bit_length n - 1) < (2::nat) ^ Suc L"
    using bit_length_bounds(2) [OF pos] assms(2) by (rule le_less_trans)
  ultimately have "L < bit_length n" "bit_length n - 1 < Suc L"
    by (simp_all only: power_strict_increasing_iff one_less_numeral_iff semiring_norm(76))
  then show ?thesis by simp
qed

lemma bit_length_le: "n < 2 ^ m \<Longrightarrow> bit_length n \<le> m"
proof (cases "n = 0")
  case False
  assume "n < 2 ^ m"
  then have "2 ^ (bit_length n - 1) < (2::nat) ^ m"
    using bit_length_bounds(2) [OF False [unfolded neq0_conv]] by (rule le_less_trans [rotated])
  then have "bit_length n - 1 < m"
    by (simp only: power_strict_increasing_iff one_less_numeral_iff semiring_norm(76))
  then show ?thesis by simp
qed (simp add: bit_length.simps)

lemma round53_below: "n < 2 ^ m \<Longrightarrow> round53 n \<le> 2 ^ m"
proof -
  assume *: "n < 2 ^ m"
  define k where "k = bit_length n - 53"
  show ?thesis
  proof (cases "k = 0")
    case True then show ?thesis using * by (simp add: round53_def k_def [symmetric])
  next
    case False
    then have len: "bit_length n = 53 + k" by (simp add: k_def)
    have "n < 2 ^ 53 * 2 ^ k" using bit_length_bounds(1) [of n] by (simp add: len power_add)
    then have "n div 2 ^ k < 2 ^ 53" by (simp add: less_mult_imp_div_less)
    then have q: "n div 2 ^ k + 1 \<le> 2 ^ 53" by simp
    have "round53 n \<le> (n div 2 ^ k + 1) * 2 ^ k"
      using False by (simp add: round53_def k_def [symmetric] Let_def)
    also have "\<dots> \<le> 2 ^ 53 * 2 ^ k" using q by (rule mult_right_mono) simp
    also have "\<dots> = 2 ^ bit_length n" by (simp add: len power_add)
    also have "\<dots> \<le> 2 ^ m" using bit_length_le [OF *] by simp
    finally show ?thesis .
  qed
qed

lemma round53_at:
  assumes "2 ^ (r + 53) \<le> n" "n < 2 ^ Suc (r + 53)"
  shows "2 ^ (r + 53) < round53 n \<longleftrightarrow> 2 ^ (r + 53) + 2 ^ r < n"
proof -
  define d where "d = n - 2 ^ (r + 53)"
  have n: "n = 2 ^ 52 * 2 ^ Suc r + d" using assms(1) by (simp add: d_def power_add)
  have k: "bit_length n - 53 = Suc r" using bit_length_unique [OF assms] by simp
  have q: "n div 2 ^ Suc r = 2 ^ 52 + d div 2 ^ Suc r" unfolding n
    by (rule div_mult_self3) simp
  have md: "n mod 2 ^ Suc r = d mod 2 ^ Suc r" unfolding n by (simp only: mod_mult_self3)
  have even: "odd (n div 2 ^ Suc r) \<longleftrightarrow> odd (d div 2 ^ Suc r)"
    unfolding q by simp
  have round: "round53 n = (2 ^ 52 + d div 2 ^ Suc r +
      (if 2 ^ r < d mod 2 ^ Suc r \<or> (d mod 2 ^ Suc r = 2 ^ r \<and> odd (d div 2 ^ Suc r)) then 1 else 0)) * 2 ^ Suc r"
    unfolding round53_def k Let_def md even unfolding q by simp
  have p: "(2::nat) ^ (r + 53) = 2 ^ 52 * 2 ^ Suc r" by (simp add: power_add)
  have "2 ^ (r + 53) < round53 n \<longleftrightarrow>
      0 < d div 2 ^ Suc r \<or> 2 ^ r < d mod 2 ^ Suc r \<or> (d mod 2 ^ Suc r = 2 ^ r \<and> odd (d div 2 ^ Suc r))"
    unfolding round p by (simp only: mult_less_cancel2) auto
  also have "\<dots> \<longleftrightarrow> 2 ^ r < d"
  proof (cases "d < 2 ^ Suc r")
    case True then show ?thesis by auto
  next
    case False
    then have "0 < d div 2 ^ Suc r" by (simp add: div_greater_zero_iff)
    moreover have "2 ^ r < d"
      using False by (meson le_less_trans lessI not_less one_less_numeral_iff power_strict_increasing_iff
          semiring_norm(76) less_le_trans)
    ultimately show ?thesis by simp
  qed
  also have "\<dots> \<longleftrightarrow> 2 ^ (r + 53) + 2 ^ r < n" using assms(1) by (auto simp: d_def)
  finally show ?thesis .
qed

lemma round53_above:
  assumes "2 ^ (r + 54) \<le> n"
  shows "2 ^ (r + 53) < round53 n"
proof -
  have "2 ^ (r + 54) < (2::nat) ^ bit_length n" using assms bit_length_bounds(1) by (rule le_less_trans)
  then have L: "r + 54 < bit_length n" by simp
  define k where "k = bit_length n - 53"
  have k0: "k \<noteq> 0" and Lk: "bit_length n - 1 = 52 + k" using L by (auto simp: k_def)
  have "0 < n" using assms by (metis less_le_trans zero_less_numeral zero_less_power)
  from bit_length_bounds(2) [OF this] have "2 ^ 52 * 2 ^ k \<le> n" by (simp only: Lk power_add)
  then have "2 ^ 52 \<le> n div 2 ^ k" by (simp add: less_eq_div_iff_mult_less_eq)
  then have "2 ^ 52 * 2 ^ k \<le> n div 2 ^ k * 2 ^ k" by (rule mult_right_mono) simp
  also have "\<dots> \<le> round53 n" using k0 by (simp add: round53_def k_def [symmetric] Let_def)
  finally have "2 ^ (52 + k) \<le> round53 n" by (simp add: power_add)
  have "2 ^ (r + 53) < (2::nat) ^ (52 + k)" using L by (simp add: k_def)
  also note \<open>2 ^ (52 + k) \<le> round53 n\<close>
  finally show ?thesis .
qed

text \<open>A rounded sum exceeds a power of two exactly when the exact sum exceeds it by more than half a
  unit in the last place.\<close>

lemma round53_exceeds_power: "2 ^ (r + 53) < round53 n \<longleftrightarrow> 2 ^ (r + 53) + 2 ^ r < n"
proof (cases "n < 2 ^ (r + 53)")
  case True
  then show ?thesis using round53_below [OF True] by simp
next
  case False
  show ?thesis
  proof (cases "n < 2 ^ Suc (r + 53)")
    case True then show ?thesis using False by (intro round53_at) simp_all
  next
    case big: False
    then have "2 ^ (r + 54) \<le> n" by (simp add: power_add)
    moreover have "(2::nat) ^ r < 2 ^ (r + 53)" by simp
    moreover have "(2::nat) ^ (r + 54) = 2 * 2 ^ (r + 53)" by (simp add: power_add)
    ultimately show ?thesis using round53_above [of r n] by linarith
  qed
qed

section \<open>Constants and signs\<close>

lemma f64_constant_parts:
  "f64_exponent F64_ZERO = 0" "f64_fraction F64_ZERO = 0" "\<not> bit F64_ZERO 63"
  "f64_exponent F64_QUARTER = 1021" "f64_fraction F64_QUARTER = 0" "\<not> bit F64_QUARTER 63"
  "f64_exponent F64_HALF = 1022" "f64_fraction F64_HALF = 0" "\<not> bit F64_HALF 63"
  "f64_exponent F64_ONE = 1023" "f64_fraction F64_ONE = 0" "\<not> bit F64_ONE 63"
  "f64_exponent F64_FOUR = 1025" "f64_fraction F64_FOUR = 0" "\<not> bit F64_FOUR 63"
  "f64_exponent F64_TEN = 1026" "f64_fraction F64_TEN = 0x4000000000000" "\<not> bit F64_TEN 63"
  "f64_exponent F64_MILLION = 1042" "f64_fraction F64_MILLION = 0xE848000000000" "\<not> bit F64_MILLION 63"
  by (simp_all add: f64_exponent_def f64_fraction_def F64_ZERO_def F64_QUARTER_def F64_HALF_def F64_ONE_def
      F64_FOUR_def F64_TEN_def F64_MILLION_def)

lemma f64_constant_magnitudes:
  "f64_magnitude F64_ZERO = 0" "f64_magnitude F64_QUARTER = 2 ^ 1072" "f64_magnitude F64_HALF = 2 ^ 1073"
  "f64_magnitude F64_ONE = 2 ^ 1074" "f64_magnitude F64_FOUR = 4 * 2 ^ 1074" "f64_magnitude F64_TEN = 10 * 2 ^ 1074"
  "f64_magnitude F64_MILLION = 1000000 * 2 ^ 1074"
  by (simp_all add: f64_magnitude_def f64_constant_parts)

lemma f64_constant_values:
  "f64_scaled F64_ZERO = 0" "f64_scaled F64_HALF = 2 ^ 1073" "f64_scaled F64_ONE = 2 ^ 1074"
  "f64_scaled F64_FOUR = 4 * 2 ^ 1074" "f64_scaled F64_TEN = 10 * 2 ^ 1074"
  "f64_scaled F64_MILLION = 1000000 * 2 ^ 1074"
  by (simp_all add: f64_scaled_def f64_constant_magnitudes f64_constant_parts)

lemma f64_constants_not_nan:
  "\<not> f64_nan F64_ZERO" "\<not> f64_nan F64_HALF" "\<not> f64_nan F64_ONE" "\<not> f64_nan F64_FOUR"
  "\<not> f64_nan F64_TEN" "\<not> f64_nan F64_MILLION"
  by (simp_all add: f64_nan_def f64_constant_parts)

lemma is_finite64_exponent: "is_finite64 b \<longleftrightarrow> f64_exponent b \<noteq> 2047"
  by (simp add: is_finite64_def f64_exponent_def word_unat_eq_iff)

lemma finite_not_nan: "is_finite64 b \<Longrightarrow> \<not> f64_nan b"
  by (simp add: is_finite64_exponent f64_nan_def)

lemma small_finite:
  assumes "\<bar>f64_scaled b\<bar> < 2 ^ 2098"
  shows "is_finite64 b"
proof (rule ccontr)
  assume "\<not> is_finite64 b"
  then have "f64_magnitude b = (f64_fraction b + 2 ^ 52) * 2 ^ 2046"
    by (simp only: is_finite64_exponent f64_magnitude_def not_not) simp
  moreover have "(2::nat) ^ 2098 = 2 ^ 52 * 2 ^ 2046" by (simp add: power_add [symmetric])
  ultimately have "2 ^ 2098 \<le> f64_magnitude b" by (simp only: add_mult_distrib le_add2)
  moreover have "f64_magnitude b < 2 ^ 2098"
  proof -
    have "int (f64_magnitude b) < int (2 ^ 2098)" using assms by (simp add: f64_scaled_def split: if_splits)
    then show ?thesis by (simp only: of_nat_less_iff)
  qed
  ultimately show False using leD by blast
qed

lemma scaled_magnitude: "0 \<le> f64_scaled b \<Longrightarrow> int (f64_magnitude b) = f64_scaled b"
  by (simp add: f64_scaled_def split: if_splits)

lemma finite_lt: "is_finite64 a \<Longrightarrow> is_finite64 b \<Longrightarrow> f64_lt a b \<longleftrightarrow> f64_scaled a < f64_scaled b"
  by (simp add: f64_lt_def finite_not_nan)

end
