(* ===== verification/Float_Arith.thy ===== *)
theory Float_Arith
  imports Float64
begin

unbundle bit_operations_syntax

text \<open>
  The other operations of \<open>f64\<close> that the telemetry core uses, on bit patterns: product, quotient, square root, minimum and
  maximum, the conversions from integers and from \<open>f32\<close>, the truncation to integers, and the parser of decimal literals.

  Every operation computes its exact result and rounds it once, to nearest with ties to even. The bits of a NaN are left open
  by the language; the positive quiet NaN stands for them.
\<close>

section \<open>Arithmetic\<close>

text \<open>The nearest value of at most \<open>p\<close> significant bits to \<open>n / d\<close>, ties to even.\<close>

definition round_to :: "nat \<Rightarrow> nat \<Rightarrow> nat \<Rightarrow> nat" where
  "round_to p n d =
     (let k = bit_length (n div d) - p; u = d * 2 ^ k; q = n div u; r = n mod u in
      (if u < 2 * r \<or> (2 * r = u \<and> odd q) then q + 1 else q) * 2 ^ k)"

definition round_ratio :: "nat \<Rightarrow> nat \<Rightarrow> nat" where
  "round_ratio n d = round_to 53 n d"

definition f64_quiet_nan :: "64 word" where "f64_quiet_nan = 0x7FF8000000000000"

definition f64_signed :: "bool \<Rightarrow> 64 word \<Rightarrow> 64 word" where
  "f64_signed negative b = (if negative then 0x8000000000000000 OR b else b)"

definition f64_sub :: "64 word \<Rightarrow> 64 word \<Rightarrow> 64 word" where
  "f64_sub a b = f64_add a (b XOR 0x8000000000000000)"

definition f64_mul :: "64 word \<Rightarrow> 64 word \<Rightarrow> 64 word" where
  "f64_mul a b =
     (let negative = (bit a 63 \<noteq> bit b 63) in
      if f64_nan a \<or> f64_nan b then f64_quiet_nan
      else if f64_infinite a \<or> f64_infinite b
      then (if f64_magnitude a = 0 \<or> f64_magnitude b = 0 then f64_quiet_nan else f64_signed negative 0x7FF0000000000000)
      else f64_signed negative (f64_encode (round_ratio (f64_magnitude a * f64_magnitude b) (2 ^ 1074))))"

definition f64_div :: "64 word \<Rightarrow> 64 word \<Rightarrow> 64 word" where
  "f64_div a b =
     (let negative = (bit a 63 \<noteq> bit b 63) in
      if f64_nan a \<or> f64_nan b \<or> (f64_infinite a \<and> f64_infinite b) \<or> (f64_magnitude a = 0 \<and> f64_magnitude b = 0)
      then f64_quiet_nan
      else if f64_infinite a \<or> f64_magnitude b = 0 then f64_signed negative 0x7FF0000000000000
      else if f64_infinite b then f64_signed negative 0
      else f64_signed negative (f64_encode (round_ratio (f64_magnitude a * 2 ^ 1074) (f64_magnitude b))))"

fun isqrt :: "nat \<Rightarrow> nat" where
  "isqrt n = (if n = 0 then 0 else let s = 2 * isqrt (n div 4) in if (s + 1) ^ 2 \<le> n then s + 1 else s)"

declare isqrt.simps [simp del]

definition f64_sqrt :: "64 word \<Rightarrow> 64 word" where
  "f64_sqrt a =
     (if f64_nan a then f64_quiet_nan
      else if f64_magnitude a = 0 then a
      else if bit a 63 then f64_quiet_nan
      else if f64_infinite a then a
      else let n = f64_magnitude a * 2 ^ 1074; s = isqrt n; k = bit_length s - 53; q = s div 2 ^ k; r = s mod 2 ^ k in
        f64_encode ((if 2 ^ (k - 1) < r \<or> (r = 2 ^ (k - 1) \<and> (s * s \<noteq> n \<or> odd q)) then q + 1 else q) * 2 ^ k))"

text \<open>\<open>count as f64\<close>, \<open>f64::min\<close> and \<open>f64::max\<close>; of two equal zeros the first is kept.\<close>

definition f64_from_u64 :: "u64 \<Rightarrow> 64 word" where
  "f64_from_u64 n = f64_encode (round53 (unat n * 2 ^ 1074))"

definition f64_min_of :: "64 word \<Rightarrow> 64 word \<Rightarrow> 64 word" where
  "f64_min_of a b = (if f64_nan a then b else if f64_lt b a then b else a)"

definition f64_max_of :: "64 word \<Rightarrow> 64 word \<Rightarrow> 64 word" where
  "f64_max_of a b = (if f64_nan a then b else if f64_lt a b then b else a)"

definition f64_eq :: "64 word \<Rightarrow> 64 word \<Rightarrow> bool" where
  "f64_eq a b \<longleftrightarrow> \<not> f64_nan a \<and> \<not> f64_nan b \<and> f64_scaled a = f64_scaled b"

definition f64_abs :: "64 word \<Rightarrow> 64 word" where
  "f64_abs a = take_bit 63 a"

text \<open>\<open>value.clamp(min, max)\<close>; \<open>None\<close> is the panic on a range that is empty or not a number.\<close>

definition f64_clamp :: "64 word \<Rightarrow> 64 word \<Rightarrow> 64 word \<Rightarrow> 64 word option" where
  "f64_clamp a low high =
     (if \<not> f64_le low high then None else Some (if f64_lt a low then low else if f64_lt high a then high else a))"

section \<open>Conversions\<close>

definition f64_from_int :: "int \<Rightarrow> 64 word" where
  "f64_from_int i = f64_signed (i < 0) (f64_encode (round53 (nat \<bar>i\<bar> * 2 ^ 1074)))"

text \<open>An \<open>f32\<close> times \<open>2 ^ 149\<close> is an integer of at most 24 significant bits times a power of two, so that the conversion is
  exact.\<close>

definition f64_from_f32 :: "32 word \<Rightarrow> 64 word" where
  "f64_from_f32 b =
     (let e = unat (take_bit 8 (drop_bit 23 b)); f = unat (take_bit 23 b) in
      if e = 255 then (if f = 0 then f64_signed (bit b 31) 0x7FF0000000000000 else f64_quiet_nan)
      else f64_signed (bit b 31) (f64_encode ((if e = 0 then f else (f + 2 ^ 23) * 2 ^ (e - 1)) * 2 ^ 925)))"

text \<open>\<open>value as i64\<close> and \<open>value as u64\<close>: truncation, saturating at the ends, 0 for a NaN.\<close>

definition f64_as_i64 :: "64 word \<Rightarrow> i64" where
  "f64_as_i64 b =
     (if f64_nan b then 0
      else let n = int (f64_magnitude b div 2 ^ 1074) in
        if bit b 63 then word_of_int (max (- n) (- (2 ^ 63))) else word_of_int (min n (2 ^ 63 - 1)))"

definition f64_as_u64 :: "64 word \<Rightarrow> u64" where
  "f64_as_u64 b = (if f64_nan b \<or> bit b 63 then 0 else word_of_nat (min (f64_magnitude b div 2 ^ 1074) (2 ^ 64 - 1)))"

section \<open>The product of \<open>f32\<close>\<close>

definition f32_magnitude :: "32 word \<Rightarrow> nat" where
  "f32_magnitude b =
     (let e = unat (take_bit 8 (drop_bit 23 b)); f = unat (take_bit 23 b) in if e = 0 then f else (f + 2 ^ 23) * 2 ^ (e - 1))"

definition f32_nan :: "32 word \<Rightarrow> bool" where
  "f32_nan b \<longleftrightarrow> take_bit 8 (drop_bit 23 b) = 255 \<and> take_bit 23 b \<noteq> 0"

definition f32_infinite :: "32 word \<Rightarrow> bool" where
  "f32_infinite b \<longleftrightarrow> take_bit 8 (drop_bit 23 b) = 255 \<and> take_bit 23 b = 0"

definition f32_encode :: "nat \<Rightarrow> 32 word" where
  "f32_encode m =
     (if m < 2 ^ 23 then of_nat m
      else let e = bit_length m - 24 in
        if 254 \<le> e then 0x7F800000 else of_nat (Suc e * 2 ^ 23 + (m div 2 ^ e - 2 ^ 23)))"

definition f32_signed :: "bool \<Rightarrow> 32 word \<Rightarrow> 32 word" where
  "f32_signed negative b = (if negative then 0x80000000 OR b else b)"

definition f32_mul :: "32 word \<Rightarrow> 32 word \<Rightarrow> 32 word" where
  "f32_mul a b =
     (let negative = (bit a 31 \<noteq> bit b 31) in
      if f32_nan a \<or> f32_nan b then 0x7FC00000
      else if f32_infinite a \<or> f32_infinite b
      then (if f32_magnitude a = 0 \<or> f32_magnitude b = 0 then 0x7FC00000 else f32_signed negative 0x7F800000)
      else f32_signed negative (f32_encode (round_to 24 (f32_magnitude a * f32_magnitude b) (2 ^ 149))))"

section \<open>Decimal literals\<close>

text \<open>\<open>str::parse::<f64>\<close>: an optional sign, then \<open>inf\<close>, \<open>infinity\<close> or \<open>nan\<close> in any case, or digits with an optional point
  and an optional exponent, with at least one digit before or after the point. The value is rounded once.\<close>

definition ascii_lower :: "string \<Rightarrow> string" where
  "ascii_lower s = map (\<lambda>c. if 65 \<le> ord_of c \<and> ord_of c \<le> 90 then char_of (ord_of c + 32) else c) s"

definition take_sign :: "string \<Rightarrow> bool \<times> string" where
  "take_sign s = (case s of [] \<Rightarrow> (False, []) | c # cs \<Rightarrow>
     if c = CHR ''-'' then (True, cs) else if c = CHR ''+'' then (False, cs) else (False, c # cs))"

definition parse_exponent :: "string \<Rightarrow> int option" where
  "parse_exponent s =
     (case s of [] \<Rightarrow> Some 0
      | c # cs \<Rightarrow>
          if c \<noteq> CHR ''e'' \<and> c \<noteq> CHR ''E'' then None
          else let (negative, ds) = take_sign cs in
            if ds = [] \<or> \<not> list_all is_ascii_digit ds then None
            else Some (if negative then - int (dec_value ds) else int (dec_value ds)))"

definition f64_of_decimal :: "nat \<Rightarrow> int \<Rightarrow> 64 word" where
  "f64_of_decimal n e =
     f64_encode (if 0 \<le> e then round_ratio (n * 10 ^ nat e * 2 ^ 1074) 1 else round_ratio (n * 2 ^ 1074) (10 ^ nat (- e)))"

definition parse_f64 :: "string \<Rightarrow> 64 word option" where
  "parse_f64 s =
     (let (negative, body) = take_sign s;
          whole = takeWhile is_ascii_digit body; rest = dropWhile is_ascii_digit body;
          (fraction, tail) = (case rest of [] \<Rightarrow> ([], []) | c # cs \<Rightarrow>
            if c = CHR ''.'' then (takeWhile is_ascii_digit cs, dropWhile is_ascii_digit cs) else ([], c # cs)) in
      if ascii_lower body = ''inf'' \<or> ascii_lower body = ''infinity'' then Some (f64_signed negative 0x7FF0000000000000)
      else if ascii_lower body = ''nan'' then Some f64_quiet_nan
      else if whole = [] \<and> fraction = [] then None
      else map_option (\<lambda>e. f64_signed negative (f64_of_decimal (dec_value (whole @ fraction)) (e - int (length fraction))))
        (parse_exponent tail))"

section \<open>Facts\<close>

lemma f64_order:
  "f64_le a b \<Longrightarrow> f64_le b c \<Longrightarrow> f64_le a c" "\<not> f64_nan a \<Longrightarrow> f64_le a a"
  "\<not> f64_nan a \<Longrightarrow> \<not> f64_nan b \<Longrightarrow> \<not> f64_lt a b \<longleftrightarrow> f64_le b a" "f64_lt a b \<Longrightarrow> f64_le a b"
  by (auto simp: f64_le_def f64_lt_def)

lemma isqrt_exact: "isqrt n ^ 2 \<le> n \<and> n < (isqrt n + 1) ^ 2"
proof (induction n rule: isqrt.induct)
  case (1 n)
  show ?case
  proof (cases "n = 0")
    case False
    define s where "s = isqrt (n div 4)"
    have s: "s ^ 2 \<le> n div 4" "n div 4 < (s + 1) ^ 2" using 1 [OF False] by (simp_all add: s_def)
    have "(2 * s) ^ 2 \<le> n" using s(1) by (simp add: power2_eq_square)
    moreover have "n < (2 * s + 2) ^ 2" using s(2) by (simp add: power2_eq_square algebra_simps)
    moreover have "isqrt n = (if (2 * s + 1) ^ 2 \<le> n then 2 * s + 1 else 2 * s)"
      using False by (simp add: isqrt.simps [of n] s_def Let_def)
    ultimately show ?thesis by (simp add: add.assoc)
  qed (simp add: isqrt.simps)
qed

end
