(* ===== verification/Segment.thy ===== *)
theory Segment
  imports Codec_Udp Float_Arith
begin

text \<open>
  \<open>crates/pitgun-core/src/segment.rs\<close>: the aggregation of a stream of events by segment, as a state passing function on
  batches.

  A hash map or hash set is a function of its keys. Messages on the console are left out; the flags that silence them are
  kept. \<open>reference_segments\<close> cuts a finished list of events directly, without state, and the processor is proved to emit
  the summaries of its pieces, whatever batches the events arrive in.
\<close>

section \<open>Metrics\<close>

datatype SegmentMetric = MCount | MMin | MMax | MMean | MSum | MStddev

definition metric_parse :: "string \<Rightarrow> SegmentMetric option" where
  "metric_parse name =
     (if name = ''count'' then Some MCount else if name = ''min'' then Some MMin else if name = ''max'' then Some MMax
      else if name = ''mean'' then Some MMean else if name = ''sum'' then Some MSum
      else if name = ''stddev'' then Some MStddev else None)"

record SegmentTarget =
  target_channel :: string
  target_metrics :: "SegmentMetric list"

record RunningStats =
  stats_count :: u64
  stats_mean :: "64 word"
  stats_m2 :: "64 word"
  stats_min :: "64 word option"
  stats_max :: "64 word option"
  stats_sum :: "64 word"

definition stats_default :: RunningStats where
  "stats_default = \<lparr>stats_count = 0, stats_mean = 0, stats_m2 = 0, stats_min = None, stats_max = None, stats_sum = 0\<rparr>"

definition stats_update :: "RunningStats \<Rightarrow> 64 word \<Rightarrow> RunningStats" where
  "stats_update s v =
     (let n = stats_count s + 1;
          delta = f64_sub v (stats_mean s);
          mean' = f64_add (stats_mean s) (f64_div delta (f64_from_u64 n));
          delta2 = f64_sub v mean' in
      \<lparr>stats_count = n, stats_mean = mean', stats_m2 = f64_add (stats_m2 s) (f64_mul delta delta2),
       stats_min = Some (case stats_min s of None \<Rightarrow> v | Some m \<Rightarrow> f64_min_of m v),
       stats_max = Some (case stats_max s of None \<Rightarrow> v | Some m \<Rightarrow> f64_max_of m v),
       stats_sum = f64_add (stats_sum s) v\<rparr>)"

definition stddev_population :: "RunningStats \<Rightarrow> 64 word option" where
  "stddev_population s =
     (if stats_count s = 0 then None else Some (f64_sqrt (f64_div (stats_m2 s) (f64_from_u64 (stats_count s)))))"

section \<open>The processor\<close>

record SegmentState =
  key_value :: "64 word"
  start_ts :: "u64 option"
  end_ts :: "u64 option"
  per_channel :: "string \<rightharpoonup> RunningStats"

definition segment_state_new :: "64 word \<Rightarrow> u64 \<Rightarrow> SegmentState" where
  "segment_state_new v ts = \<lparr>key_value = v, start_ts = Some ts, end_ts = Some ts, per_channel = Map.empty\<rparr>"

definition touch_ts :: "SegmentState \<Rightarrow> u64 \<Rightarrow> SegmentState" where
  "touch_ts s ts = s\<lparr>start_ts := Some (case start_ts s of None \<Rightarrow> ts | Some v \<Rightarrow> min v ts),
     end_ts := Some (case end_ts s of None \<Rightarrow> ts | Some v \<Rightarrow> max v ts)\<rparr>"

record SegmentAggregateProcessor =
  segment_key :: string
  processor_targets :: "SegmentTarget list"
  target_lookup :: "string \<rightharpoonup> SegmentMetric set"
  emit_on_change :: bool
  emit_last_segment_on_eof :: bool
  current :: "SegmentState option"
  warned_missing_key :: bool
  warned_non_numeric :: "string set"

definition processor_new :: "string \<Rightarrow> SegmentTarget list \<Rightarrow> bool \<Rightarrow> bool \<Rightarrow> SegmentAggregateProcessor" where
  "processor_new key targets on_change on_eof =
     \<lparr>segment_key = key, processor_targets = targets,
      target_lookup = foldl (\<lambda>m t. m(target_channel t \<mapsto> set (target_metrics t))) Map.empty targets,
      emit_on_change = on_change, emit_last_segment_on_eof = on_eof, current = None, warned_missing_key = False,
      warned_non_numeric = {}\<rparr>"

text \<open>The metrics of one target, and the record of a finished segment.\<close>

definition target_output :: "SegmentAggregateProcessor \<Rightarrow> SegmentState \<Rightarrow> SegmentTarget \<Rightarrow> SegmentTargetMetrics" where
  "target_output p state t =
     (let requested = (case target_lookup p (target_channel t) of None \<Rightarrow> {} | Some ms \<Rightarrow> ms);
          stats = (case per_channel state (target_channel t) of None \<Rightarrow> stats_default | Some s \<Rightarrow> s) in
      \<lparr>metrics_channel = target_channel t,
       metrics_count = (if MCount \<in> requested then Some (stats_count stats) else None),
       metrics_min = (if MMin \<in> requested then stats_min stats else None),
       metrics_max = (if MMax \<in> requested then stats_max stats else None),
       metrics_sum = (if MSum \<in> requested then Some (stats_sum stats) else None),
       metrics_mean = (if MMean \<in> requested then (if 0 < stats_count stats then Some (stats_mean stats) else None) else None),
       metrics_stddev = (if MStddev \<in> requested then stddev_population stats else None)\<rparr>)"

definition segment_record :: "SegmentAggregateProcessor \<Rightarrow> SegmentState \<Rightarrow> SegmentAggregateRecord" where
  "segment_record p state =
     \<lparr>segment_key_channel = segment_key p, segment_value = key_value state, start_ts_ns = start_ts state,
      end_ts_ns = end_ts state, segment_targets = map (target_output p state) (processor_targets p)\<rparr>"

definition flush_current :: "SegmentAggregateProcessor \<Rightarrow> EventBatch \<Rightarrow> SegmentAggregateProcessor \<times> EventBatch" where
  "flush_current p batch =
     (case current p of
        None \<Rightarrow> (p, batch)
      | Some state \<Rightarrow> (p\<lparr>current := None\<rparr>, batch\<lparr>aggregates := aggregates batch @ [segment_record p state]\<rparr>))"

definition start_new_segment ::
    "SegmentAggregateProcessor \<Rightarrow> 64 word \<Rightarrow> u64 \<Rightarrow> EventBatch \<Rightarrow> SegmentAggregateProcessor \<times> EventBatch" where
  "start_new_segment p v ts batch =
     (let (p, batch) = (if emit_on_change p then flush_current p batch else (p\<lparr>current := None\<rparr>, batch)) in
      (p\<lparr>current := Some (segment_state_new v ts)\<rparr>, batch))"

definition handle_segment_key ::
    "SegmentAggregateProcessor \<Rightarrow> 64 word \<Rightarrow> u64 \<Rightarrow> EventBatch \<Rightarrow> SegmentAggregateProcessor \<times> EventBatch" where
  "handle_segment_key p v ts batch =
     (if \<not> is_finite64 v
      then (p\<lparr>warned_non_numeric := insert (''segment_key:'' @ segment_key p) (warned_non_numeric p)\<rparr>, batch)
      else case current p of
          Some state \<Rightarrow>
            if \<not> f64_eq v (key_value state) then start_new_segment p v ts batch
            else (p\<lparr>current := Some (touch_ts state ts)\<rparr>, batch)
        | None \<Rightarrow> (p\<lparr>current := Some (segment_state_new v ts)\<rparr>, batch))"

definition handle_value :: "SegmentAggregateProcessor \<Rightarrow> string \<Rightarrow> 64 word \<Rightarrow> u64 \<Rightarrow> SegmentAggregateProcessor" where
  "handle_value p ch v ts =
     (case current p of
        None \<Rightarrow> p\<lparr>warned_missing_key := True\<rparr>
      | Some state \<Rightarrow>
          let state = touch_ts state ts; p = p\<lparr>current := Some state\<rparr> in
          case target_lookup p ch of
            None \<Rightarrow> p
          | Some _ \<Rightarrow>
              if \<not> is_finite64 v then p\<lparr>warned_non_numeric := insert ch (warned_non_numeric p)\<rparr>
              else let stats = (case per_channel state ch of None \<Rightarrow> stats_default | Some s \<Rightarrow> s) in
                p\<lparr>current := Some (state\<lparr>per_channel := (per_channel state)(ch \<mapsto> stats_update stats v)\<rparr>)\<rparr>)"

definition process_event ::
    "SegmentAggregateProcessor \<times> EventBatch \<Rightarrow> CoreEvent \<Rightarrow> SegmentAggregateProcessor \<times> EventBatch" where
  "process_event pb e =
     (if channel e = segment_key (fst pb) then handle_segment_key (fst pb) (event_value e) (ts_ns e) (snd pb)
      else (handle_value (fst pb) (channel e) (event_value e) (ts_ns e), snd pb))"

definition process :: "SegmentAggregateProcessor \<Rightarrow> EventBatch \<Rightarrow> SegmentAggregateProcessor \<times> EventBatch" where
  "process p batch =
     (if batch_events batch = [] \<and> \<not> end_of_stream batch then (p, batch)
      else let (p, batch) = foldl process_event (p, batch) (batch_events batch) in
        if end_of_stream batch \<and> emit_last_segment_on_eof p then flush_current p batch else (p, batch))"

section \<open>Reference segmentation\<close>

definition is_key :: "string \<Rightarrow> CoreEvent \<Rightarrow> bool" where
  "is_key key e \<longleftrightarrow> channel e = key \<and> is_finite64 (event_value e)"

definition same_segment :: "string \<Rightarrow> 64 word \<Rightarrow> CoreEvent \<Rightarrow> bool" where
  "same_segment key v e \<longleftrightarrow> (is_key key e \<longrightarrow> f64_eq (event_value e) v)"

text \<open>A segment starts at a finite key event and reaches up to the next finite key event of another value; events before
  the first key belong to none.\<close>

function reference_segments :: "string \<Rightarrow> CoreEvent list \<Rightarrow> (64 word \<times> CoreEvent list) list" where
  "reference_segments key [] = []"
| "reference_segments key (e # es) =
     (if is_key key e
      then (event_value e, e # takeWhile (same_segment key (event_value e)) es) #
        reference_segments key (dropWhile (same_segment key (event_value e)) es)
      else reference_segments key es)"
  by pat_completeness auto
termination
  by (relation "measure (\<lambda>(key, es). length es)") (auto simp: le_imp_less_Suc length_dropWhile_le)

text \<open>Everything that counts for the time span of a segment: all its events but key events that are not finite.\<close>

definition segment_times :: "string \<Rightarrow> CoreEvent list \<Rightarrow> u64 list" where
  "segment_times key es = map ts_ns (filter (\<lambda>e. channel e = key \<longrightarrow> is_finite64 (event_value e)) es)"

definition channel_values :: "string \<Rightarrow> CoreEvent list \<Rightarrow> 64 word list" where
  "channel_values ch es = map event_value (filter (\<lambda>e. channel e = ch \<and> is_finite64 (event_value e)) es)"

definition segment_summary :: "string \<Rightarrow> (string \<rightharpoonup> SegmentMetric set) \<Rightarrow> 64 word \<times> CoreEvent list \<Rightarrow> SegmentState" where
  "segment_summary key lookup = (\<lambda>(v, es).
     \<lparr>key_value = v, start_ts = Some (Min (set (segment_times key es))), end_ts = Some (Max (set (segment_times key es))),
      per_channel = (\<lambda>ch. if ch = key \<or> lookup ch = None \<or> channel_values ch es = [] then None
        else Some (foldl stats_update stats_default (channel_values ch es)))\<rparr>)"

text \<open>The segments while events arrive, the last one still open.\<close>

fun open_segments :: "string \<Rightarrow> 64 word \<Rightarrow> CoreEvent list \<Rightarrow> CoreEvent list \<Rightarrow> (64 word \<times> CoreEvent list) list" where
  "open_segments key v seg [] = [(v, seg)]"
| "open_segments key v seg (e # es) =
     (if same_segment key v e then open_segments key v (seg @ [e]) es
      else (v, seg) # open_segments key (event_value e) [e] es)"

lemma open_segments_not_Nil [simp]: "open_segments key v seg es \<noteq> []"
  by (induction es arbitrary: v seg) auto

lemma open_segments_split:
  "open_segments key v seg es =
     (v, seg @ takeWhile (same_segment key v) es) # reference_segments key (dropWhile (same_segment key v) es)"
proof (induction es arbitrary: v seg)
  case (Cons e es)
  have "\<not> same_segment key v e \<Longrightarrow> is_key key e" by (simp add: same_segment_def)
  with Cons show ?case by auto
qed simp

lemma reference_open: "is_key key e \<Longrightarrow> reference_segments key (e # es) = open_segments key (event_value e) [e] es"
  by (simp add: open_segments_split)

section \<open>The processor follows the reference\<close>

lemma segment_times_snoc:
  "segment_times key (es @ [e]) =
     segment_times key es @ (if channel e = key \<longrightarrow> is_finite64 (event_value e) then [ts_ns e] else [])"
  by (simp add: segment_times_def)

lemma channel_values_snoc:
  "channel_values ch (es @ [e]) = channel_values ch es @ (if channel e = ch \<and> is_finite64 (event_value e) then [event_value e] else [])"
  by (simp add: channel_values_def)

text \<open>One event that stays in the segment changes the open state like the summary; it never emits.\<close>

lemma same_segment_step:
  assumes current: "current p = Some (segment_summary (segment_key p) (target_lookup p) (v, seg))"
    and times: "segment_times (segment_key p) seg \<noteq> []" and same: "same_segment (segment_key p) v e"
  shows "\<exists>p'. process_event (p, b) e = (p', b) \<and>
    current p' = Some (segment_summary (segment_key p) (target_lookup p) (v, seg @ [e])) \<and> segment_key p' = segment_key p \<and>
    target_lookup p' = target_lookup p \<and> processor_targets p' = processor_targets p \<and> emit_on_change p' = emit_on_change p \<and>
    emit_last_segment_on_eof p' = emit_last_segment_on_eof p"
proof (cases "channel e = segment_key p")
  case True
  show ?thesis
  proof (cases "is_finite64 (event_value e)")
    case finite: True
    then have "f64_eq (event_value e) v" using same True by (simp add: same_segment_def is_key_def)
    then show ?thesis
      using True finite times
      by (auto simp: process_event_def handle_segment_key_def current touch_ts_def segment_summary_def segment_times_snoc
          channel_values_snoc min.commute max.commute fun_eq_iff)
  next
    case False
    then show ?thesis
      using True by (auto simp: process_event_def handle_segment_key_def current segment_summary_def segment_times_snoc
          channel_values_snoc)
  qed
next
  case False
  show ?thesis
  proof (cases "target_lookup p (channel e) = None \<or> \<not> is_finite64 (event_value e)")
    case True
    then show ?thesis
      using False times
      by (auto simp: process_event_def handle_value_def current touch_ts_def segment_summary_def segment_times_snoc
          channel_values_snoc min.commute max.commute fun_eq_iff Let_def split: option.split)
  next
    case counted: False
    then show ?thesis
      using False times
      by (auto simp: process_event_def handle_value_def current touch_ts_def segment_summary_def segment_times_snoc
          channel_values_snoc min.commute max.commute fun_eq_iff Let_def split: option.split)
  qed
qed

lemma summary_single:
  assumes "is_key key e"
  shows "segment_summary key lookup (event_value e, [e]) = segment_state_new (event_value e) (ts_ns e)"
proof -
  have "segment_times key [e] = [ts_ns e]" using assms by (simp add: segment_times_def is_key_def)
  moreover have "ch = key \<or> channel_values ch [e] = []" for ch using assms by (simp add: channel_values_def is_key_def)
  ultimately show ?thesis by (auto simp: segment_summary_def segment_state_new_def fun_eq_iff)
qed

lemma other_segment_step:
  assumes "current p = Some state" "key_value state = v" "\<not> same_segment (segment_key p) v e"
  shows "process_event (p, b) e =
    (p\<lparr>current := Some (segment_summary (segment_key p) (target_lookup p) (event_value e, [e]))\<rparr>,
     if emit_on_change p then b\<lparr>aggregates := aggregates b @ [segment_record p state]\<rparr> else b)"
proof -
  have key: "is_key (segment_key p) e" using assms(3) by (simp add: same_segment_def)
  then show ?thesis
    using assms
    by (simp add: summary_single [OF key] same_segment_def is_key_def process_event_def handle_segment_key_def
        start_new_segment_def flush_current_def)
qed

lemma first_key_step:
  assumes "current p = None" "is_key (segment_key p) e"
  shows "process_event (p, b) e =
    (p\<lparr>current := Some (segment_summary (segment_key p) (target_lookup p) (event_value e, [e]))\<rparr>, b)"
  using assms by (simp add: summary_single [OF assms(2)] is_key_def process_event_def handle_segment_key_def)

text \<open>Two processors with the same settings.\<close>

definition same_settings :: "SegmentAggregateProcessor \<Rightarrow> SegmentAggregateProcessor \<Rightarrow> bool" where
  "same_settings p q \<longleftrightarrow> segment_key q = segment_key p \<and> target_lookup q = target_lookup p \<and>
     processor_targets q = processor_targets p \<and> emit_on_change q = emit_on_change p \<and>
     emit_last_segment_on_eof q = emit_last_segment_on_eof p"

lemma same_settings_record: "same_settings p q \<Longrightarrow> segment_record q state = segment_record p state"
  by (simp add: same_settings_def segment_record_def target_output_def)

lemma same_settings_trans: "same_settings p q \<Longrightarrow> same_settings q r \<Longrightarrow> same_settings p r"
  by (simp add: same_settings_def)

definition summary_record :: "SegmentAggregateProcessor \<Rightarrow> 64 word \<times> CoreEvent list \<Rightarrow> SegmentAggregateRecord" where
  "summary_record p seg = segment_record p (segment_summary (segment_key p) (target_lookup p) seg)"

lemma same_settings_summary: "same_settings p q \<Longrightarrow> summary_record q = summary_record p"
  by (rule ext) (simp add: summary_record_def same_settings_def segment_record_def target_output_def)

lemma process_open:
  assumes "current p = Some (segment_summary (segment_key p) (target_lookup p) (v, seg))" "segment_times (segment_key p) seg \<noteq> []"
  shows "\<exists>q. foldl process_event (p, b) es =
      (q, b\<lparr>aggregates := aggregates b @
         (if emit_on_change p then map (summary_record p) (butlast (open_segments (segment_key p) v seg es)) else [])\<rparr>) \<and>
    current q = Some (segment_summary (segment_key p) (target_lookup p) (last (open_segments (segment_key p) v seg es))) \<and>
    same_settings p q"
  using assms
proof (induction es arbitrary: p b v seg)
  case (Cons e es)
  let ?key = "segment_key p" and ?lookup = "target_lookup p"
  show ?case
  proof (cases "same_segment ?key v e")
    case True
    then obtain p' where p': "process_event (p, b) e = (p', b)" "current p' = Some (segment_summary ?key ?lookup (v, seg @ [e]))"
        "same_settings p p'"
      using same_segment_step [OF Cons.prems True] by (auto simp: same_settings_def)
    have keys: "segment_key p' = ?key" "target_lookup p' = ?lookup" "emit_on_change p' = emit_on_change p"
      using p'(3) by (simp_all add: same_settings_def)
    have "segment_times ?key (seg @ [e]) \<noteq> []" using Cons.prems(2) by (simp add: segment_times_snoc)
    from Cons.IH [of p' v "seg @ [e]" b, unfolded keys, OF p'(2) this]
    show ?thesis using True p' same_settings_trans [OF p'(3)] by (auto simp: same_settings_summary [OF p'(3)])
  next
    case False
    then have key: "is_key ?key e" by (simp add: same_segment_def)
    define p' where "p' = p\<lparr>current := Some (segment_summary ?key ?lookup (event_value e, [e]))\<rparr>"
    define b' where "b' = (if emit_on_change p then b\<lparr>aggregates := aggregates b @ [summary_record p (v, seg)]\<rparr> else b)"
    have step: "process_event (p, b) e = (p', b')"
      using other_segment_step [OF Cons.prems(1) _ False] by (simp add: p'_def b'_def summary_record_def segment_summary_def)
    have same: "same_settings p p'" by (simp add: same_settings_def p'_def)
    have keys: "segment_key p' = ?key" "target_lookup p' = ?lookup" "emit_on_change p' = emit_on_change p"
        "current p' = Some (segment_summary ?key ?lookup (event_value e, [e]))"
      by (simp_all add: p'_def)
    have "segment_times ?key [e] \<noteq> []" using key by (simp add: segment_times_def is_key_def)
    then have "\<exists>q. foldl process_event (p', b') es =
        (q, b'\<lparr>aggregates := aggregates b' @
          (if emit_on_change p then map (summary_record p) (butlast (open_segments ?key (event_value e) [e] es)) else [])\<rparr>) \<and>
        current q = Some (segment_summary ?key ?lookup (last (open_segments ?key (event_value e) [e] es))) \<and> same_settings p' q"
      using Cons.IH [of p' "event_value e" "[e]" b'] by (simp add: keys same_settings_summary [OF same] cong: if_cong)
    then show ?thesis using False step same_settings_trans [OF same] by (auto simp: b'_def)
  qed
qed (auto simp: same_settings_def)

lemma before_key_step:
  assumes "current p = None" "\<not> is_key (segment_key p) e"
  shows "\<exists>q. process_event (p, b) e = (q, b) \<and> current q = None \<and> same_settings p q"
  using assms by (auto simp: process_event_def is_key_def handle_segment_key_def handle_value_def same_settings_def)

lemma process_fresh:
  assumes "current p = None"
  shows "\<exists>q. foldl process_event (p, b) es =
      (q, b\<lparr>aggregates := aggregates b @
         (if emit_on_change p then map (summary_record p) (butlast (reference_segments (segment_key p) es)) else [])\<rparr>) \<and>
    current q = (if reference_segments (segment_key p) es = [] then None
      else Some (segment_summary (segment_key p) (target_lookup p) (last (reference_segments (segment_key p) es)))) \<and>
    same_settings p q"
  using assms
proof (induction es arbitrary: p)
  case (Cons e es)
  let ?key = "segment_key p" and ?lookup = "target_lookup p"
  show ?case
  proof (cases "is_key ?key e")
    case True
    define p' where "p' = p\<lparr>current := Some (segment_summary ?key ?lookup (event_value e, [e]))\<rparr>"
    have same: "same_settings p p'" by (simp add: same_settings_def p'_def)
    have keys: "segment_key p' = ?key" "target_lookup p' = ?lookup" "emit_on_change p' = emit_on_change p"
        "current p' = Some (segment_summary ?key ?lookup (event_value e, [e]))"
      by (simp_all add: p'_def)
    have "segment_times ?key [e] \<noteq> []" using True by (simp add: segment_times_def is_key_def)
    then have "\<exists>q. foldl process_event (p', b) es =
        (q, b\<lparr>aggregates := aggregates b @
          (if emit_on_change p then map (summary_record p) (butlast (open_segments ?key (event_value e) [e] es)) else [])\<rparr>) \<and>
        current q = Some (segment_summary ?key ?lookup (last (open_segments ?key (event_value e) [e] es))) \<and> same_settings p' q"
      using process_open [of p' "event_value e" "[e]" b es] by (simp add: keys same_settings_summary [OF same] cong: if_cong)
    then show ?thesis
      unfolding reference_open [OF True]
      using first_key_step [OF Cons.prems True] same_settings_trans [OF same] by (auto simp: p'_def)
  next
    case False
    then obtain p' where p': "process_event (p, b) e = (p', b)" "current p' = None" "same_settings p p'"
      using before_key_step [OF Cons.prems] by blast
    then show ?thesis
      using Cons.IH [OF p'(2)] False same_settings_trans [OF p'(3)] same_settings_summary [OF p'(3)]
      by (auto simp: same_settings_def)
  qed
qed (auto simp: same_settings_def)

section \<open>Batches\<close>

text \<open>A sequence of batches, and the records it emits.\<close>

fun process_batches :: "SegmentAggregateProcessor \<Rightarrow> EventBatch list \<Rightarrow> SegmentAggregateProcessor \<times> SegmentAggregateRecord list" where
  "process_batches p [] = (p, [])"
| "process_batches p (b # bs) =
     (let (p1, b1) = process p b; (p2, rs) = process_batches p1 bs in (p2, aggregates b1 @ rs))"

definition batch_of :: "bool \<Rightarrow> CoreEvent list \<Rightarrow> EventBatch" where
  "batch_of eos es = \<lparr>batch_events = es, aggregates = [], end_of_stream = eos\<rparr>"

lemma batch_of_simps [simp]:
  "batch_events (batch_of eos es) = es" "aggregates (batch_of eos es) = []" "end_of_stream (batch_of eos es) = eos"
  by (simp_all add: batch_of_def)

definition emit :: "SegmentAggregateRecord list \<Rightarrow> EventBatch \<Rightarrow> EventBatch" where
  "emit rs b = b\<lparr>aggregates := aggregates b @ rs\<rparr>"

lemma emit_simps [simp]:
  "aggregates (emit rs b) = aggregates b @ rs" "end_of_stream (emit rs b) = end_of_stream b" "batch_events (emit rs b) = batch_events b"
  "emit [] b = b" "emit rs (emit qs b) = emit (qs @ rs) b"
  by (simp_all add: emit_def)

lemma process_event_emits: "\<exists>q rs. \<forall>b. process_event (p, b) e = (q, emit rs b)"
proof -
  have "process_event (p, b) e =
      (fst (process_event (p, batch_of False []) e), emit (aggregates (snd (process_event (p, batch_of False []) e))) b)" for b
    by (simp add: process_event_def handle_segment_key_def start_new_segment_def flush_current_def emit_def batch_of_def
        split: option.split)
  then show ?thesis by blast
qed

lemma process_events_emit: "\<exists>q rs. \<forall>b. foldl process_event (p, b) es = (q, emit rs b)"
proof (induction es arbitrary: p)
  case Nil
  show ?case by (auto intro: exI [of _ "[]"])
next
  case (Cons e es)
  obtain q rs where one: "process_event (p, b) e = (q, emit rs b)" for b using process_event_emits [of p e] by blast
  obtain q' rs' where rest: "foldl process_event (q, b) es = (q', emit rs' b)" for b using Cons.IH [of q] by blast
  show ?case by (auto simp: one rest)
qed

lemma process_all:
  "process p b = (let (p, b) = foldl process_event (p, b) (batch_events b) in
     if end_of_stream b \<and> emit_last_segment_on_eof p then flush_current p b else (p, b))"
  by (simp add: process_def)

lemma flush_emit: "flush_current q (emit rs b) = (fst (flush_current q b), emit rs b\<lparr>aggregates := rs @ aggregates (snd (flush_current q b))\<rparr>)"
    if "aggregates b = []"
  using that by (simp add: flush_current_def emit_def split: option.split)

lemma process_split:
  "aggregates (snd (process p (batch_of eos (es @ fs)))) =
     aggregates (snd (process p (batch_of False es))) @ aggregates (snd (process (fst (process p (batch_of False es))) (batch_of eos fs)))"
proof -
  obtain q rs where q: "foldl process_event (p, b) es = (q, emit rs b)" for b using process_events_emit [of p es] by blast
  obtain r ss where r: "foldl process_event (q, b) fs = (r, emit ss b)" for b using process_events_emit [of q fs] by blast
  have first: "process p (batch_of False es) = (q, emit rs (batch_of False es))"
    unfolding process_all by (simp add: q)
  have "process p (batch_of eos (es @ fs)) =
      (if eos \<and> emit_last_segment_on_eof r then flush_current r (emit (rs @ ss) (batch_of eos (es @ fs)))
       else (r, emit (rs @ ss) (batch_of eos (es @ fs))))"
    unfolding process_all by (simp add: q r)
  moreover have "process q (batch_of eos fs) =
      (if eos \<and> emit_last_segment_on_eof r then flush_current r (emit ss (batch_of eos fs)) else (r, emit ss (batch_of eos fs)))"
    unfolding process_all by (simp add: r)
  ultimately show ?thesis by (simp add: first flush_current_def split: option.split)
qed

lemma process_batches_joined:
  "snd (process_batches p (map (batch_of False) ess @ [batch_of eos es])) =
     aggregates (snd (process p (batch_of eos (concat ess @ es))))"
proof (induction ess arbitrary: p)
  case (Cons es0 ess)
  then show ?case by (auto simp: process_split [of p eos es0] split: prod.split) (metis snd_conv)
qed (simp split: prod.split)

lemma process_reference:
  assumes "current p = None"
  shows "aggregates (snd (process p (batch_of eos es))) =
    (let ss = reference_segments (segment_key p) es in
     map (summary_record p) ((if emit_on_change p then butlast ss else []) @
       (if eos \<and> emit_last_segment_on_eof p \<and> ss \<noteq> [] then [last ss] else [])))"
proof -
  let ?ss = "reference_segments (segment_key p) es"
  obtain q where q: "foldl process_event (p, batch_of eos es) es =
      (q, emit (if emit_on_change p then map (summary_record p) (butlast ?ss) else []) (batch_of eos es))"
      and current: "current q = (if ?ss = [] then None else Some (segment_summary (segment_key p) (target_lookup p) (last ?ss)))"
      and same: "same_settings p q"
    using process_fresh [OF assms, of "batch_of eos es" es] by (auto simp: emit_def)
  have "emit_last_segment_on_eof q = emit_last_segment_on_eof p" using same by (simp add: same_settings_def)
  then show ?thesis
    unfolding process_all using current same_settings_record [OF same]
    by (simp add: q flush_current_def summary_record_def Let_def)
qed

text \<open>C33: However a stream of events is cut into batches, the records that the batches emit are the summaries of the segments of
  the whole stream: all but the last where segments are emitted on change, and the last one at the end of the stream where it
  is asked for.\<close>

theorem segment_records_exact:
  "snd (process_batches (processor_new key targets on_change on_eof) (map (batch_of False) ess @ [batch_of eos es])) =
     (let ss = reference_segments key (concat ess @ es) in
      map (summary_record (processor_new key targets on_change on_eof))
        ((if on_change then butlast ss else []) @ (if eos \<and> on_eof \<and> ss \<noteq> [] then [last ss] else [])))"
proof -
  have new: "current (processor_new key targets on_change on_eof) = None"
      "segment_key (processor_new key targets on_change on_eof) = key"
      "emit_on_change (processor_new key targets on_change on_eof) = on_change"
      "emit_last_segment_on_eof (processor_new key targets on_change on_eof) = on_eof"
    by (simp_all add: processor_new_def)
  show ?thesis by (simp only: process_batches_joined process_reference [OF new(1)] new(2-4))
qed

text \<open>The statistics of a summary: how many values, and the least and the greatest of them.\<close>

lemma stats_count_exact: "stats_count (foldl stats_update s vs) = stats_count s + of_nat (length vs)"
  by (induction vs arbitrary: s) (simp_all add: stats_update_def Let_def)

lemma stats_min_exact:
  assumes "list_all is_finite64 (v # vs)"
  shows "\<exists>m. stats_min (foldl stats_update (stats_update stats_default v) vs) = Some m \<and> m \<in> set (v # vs) \<and> (\<forall>x \<in> set (v # vs). f64_le m x)"
  using assms
proof (induction vs rule: rev_induct)
  case Nil
  then show ?case by (simp add: stats_update_def stats_default_def Let_def f64_order(2) finite_not_nan)
next
  case (snoc x vs)
  then obtain m where m: "stats_min (foldl stats_update (stats_update stats_default v) vs) = Some m" "m \<in> set (v # vs)"
      "\<forall>y \<in> set (v # vs). f64_le m y" by auto
  have nan: "\<not> f64_nan m" "\<not> f64_nan x" using snoc.prems m(2) by (auto simp: list_all_iff finite_not_nan)
  define n where "n = f64_min_of m x"
  have "stats_min (foldl stats_update (stats_update stats_default v) (vs @ [x])) = Some n"
    by (simp add: stats_update_def [of "foldl _ _ _"] m(1) n_def Let_def)
  moreover have "f64_le n m" "f64_le n x" "n \<in> {m, x}"
    using nan by (auto simp: n_def f64_min_of_def f64_le_def f64_lt_def)
  ultimately show ?case using m(2,3) f64_order(1) [of n m] by auto
qed

end
