(* ===== verification/Codec_F1.thy ===== *)
theory Codec_F1
  imports Codec_Udp Float_Arith "HOL-Library.Monad_Syntax"
begin

text \<open>
  \<open>crates/pitgun-codec-udp/src/f1.rs\<close>: the decoder of F1 telemetry packets. A packet carries a slot per car; the decoder
  reads the slot of one car. The four parts of a packet it knows are functions of the bytes of that slot. Every index and range
  expression of the code is a partial read (\<open>byte_at\<close>, \<open>le_at\<close>, \<open>range_at\<close>): the value \<open>None\<close> of an operation is the panic of
  an index out of range, and it propagates to the decoder.
\<close>

section \<open>Reads that panic out of range\<close>

definition byte_at :: "bytes \<Rightarrow> nat \<Rightarrow> u8 option" where
  "byte_at d i = (if i < length d then Some (d ! i) else None)"

definition range_at :: "bytes \<Rightarrow> nat \<Rightarrow> nat \<Rightarrow> bytes option" where
  "range_at d i n = (if i + n \<le> length d then Some (slice d i n) else None)"

text \<open>\<open>from_le_bytes([d[i], ..., d[i + n - 1]])\<close>\<close>

definition le_at :: "bytes \<Rightarrow> nat \<Rightarrow> nat \<Rightarrow> 'w::len word option" where
  "le_at d i n = map_option from_le_bytes (those (map (byte_at d) [i ..< i + n]))"

section \<open>Packet types and the header\<close>

datatype F1PacketType =
    Motion | Session | LapData | F1Event | Participants | CarSetups | CarTelemetry | CarStatus | FinalClassification
  | LobbyInfo | CarDamage | SessionHistory | TyreSets | MotionEx

definition f1_packet_types :: "F1PacketType list" where
  "f1_packet_types = [Motion, Session, LapData, F1Event, Participants, CarSetups, CarTelemetry, CarStatus, FinalClassification,
     LobbyInfo, CarDamage, SessionHistory, TyreSets, MotionEx]"

definition f1_packet_type_from_u8 :: "u8 \<Rightarrow> F1PacketType option" where
  "f1_packet_type_from_u8 v = (if unat v < length f1_packet_types then Some (f1_packet_types ! unat v) else None)"

definition is_telemetry :: "F1PacketType \<Rightarrow> bool" where
  "is_telemetry t \<longleftrightarrow> t \<in> {Motion, CarTelemetry, CarStatus, MotionEx}"

record F1Header =
  packet_format :: u16
  game_year :: u8
  game_major_version :: u8
  game_minor_version :: u8
  f1_packet_version :: u8
  packet_id :: F1PacketType
  session_uid :: u64
  session_time :: "32 word"
  frame_identifier :: u32
  overall_frame_identifier :: u32
  player_car_index :: u8
  secondary_player_car_index :: u8

record F1UdpCodec =
  car_index :: "u8 option"
  telemetry_only :: bool

definition f1_codec_new :: F1UdpCodec where
  "f1_codec_new = \<lparr>car_index = None, telemetry_only = False\<rparr>"

definition f1_for_car :: "u8 \<Rightarrow> F1UdpCodec" where
  "f1_for_car i = \<lparr>car_index = Some i, telemetry_only = False\<rparr>"

definition f1_telemetry_only :: F1UdpCodec where
  "f1_telemetry_only = \<lparr>car_index = None, telemetry_only = True\<rparr>"

definition f1_header_size :: nat where "f1_header_size = 29"

definition f1_decode_header :: "bytes \<Rightarrow> (CodecError + F1Header) option" where
  "f1_decode_header data =
     (if length data < f1_header_size then Some (Err (InsufficientData f1_header_size (length data)))
      else do {
        format \<leftarrow> le_at data 0 2; year \<leftarrow> byte_at data 2; major \<leftarrow> byte_at data 3; minor \<leftarrow> byte_at data 4;
        version \<leftarrow> byte_at data 5; packet_id_raw \<leftarrow> byte_at data 6;
        case f1_packet_type_from_u8 packet_id_raw of
          None \<Rightarrow> Some (Err (InvalidPacketType packet_id_raw))
        | Some t \<Rightarrow> do {
            uid \<leftarrow> le_at data 7 8; time \<leftarrow> le_at data 15 4; frame_id \<leftarrow> le_at data 19 4; overall \<leftarrow> le_at data 23 4;
            player \<leftarrow> byte_at data 27; secondary \<leftarrow> byte_at data 28;
            Some (Ok \<lparr>packet_format = format, game_year = year, game_major_version = major, game_minor_version = minor,
              f1_packet_version = version, packet_id = t, session_uid = uid, session_time = time, frame_identifier = frame_id,
              overall_frame_identifier = overall, player_car_index = player, secondary_player_car_index = secondary\<rparr>)
          }
      })"

section \<open>The parts of a packet\<close>

text \<open>The slot of the selected car: \<open>Some None\<close> where the packet is too short for it.\<close>

definition car_slot :: "F1UdpCodec \<Rightarrow> F1Header \<Rightarrow> nat \<Rightarrow> bytes \<Rightarrow> bytes option option" where
  "car_slot codec header n data =
     (let car = unat (case car_index codec of None \<Rightarrow> player_car_index header | Some i \<Rightarrow> i);
          offset = f1_header_size + car * n in
      if length data < offset + n then Some None else map_option Some (range_at data offset n))"

definition read_f32_sample :: "bytes \<Rightarrow> u16 \<Rightarrow> (CodecError + Sample) \<times> bytes" where
  "read_f32_sample cursor pid =
     (case read_exact 4 cursor of
        (None, rest) \<Rightarrow> (Err (MalformedData ''failed to read f32''), rest)
      | (Some buf, rest) \<Rightarrow> (Ok (sample_good pid (VF32 (from_le_bytes buf))), rest))"

fun read_f32_samples :: "bytes \<Rightarrow> u16 list \<Rightarrow> (CodecError + Sample list) \<times> bytes" where
  "read_f32_samples cursor [] = (Ok [], cursor)"
| "read_f32_samples cursor (pid # pids) =
     (case read_f32_sample cursor pid of
        (Inl e, rest) \<Rightarrow> (Err e, rest)
      | (Inr s, rest) \<Rightarrow> (case read_f32_samples rest pids of (r, rest') \<Rightarrow> (map_ok ((#) s) r, rest')))"

text \<open>Motion: six floats, twice four bytes that are skipped, six floats.\<close>

definition decode_motion_slot :: "bytes \<Rightarrow> CodecError + Sample list" where
  "decode_motion_slot slot =
     (case read_f32_samples slot [120, 121, 122, 41, 42, 43] of
        (Inl e, _) \<Rightarrow> Err e
      | (Inr first, cursor) \<Rightarrow>
          let cursor = snd (read_exact 4 cursor); cursor = snd (read_exact 4 cursor) in
          case read_f32_samples cursor [50, 51, 52, 130, 131, 132] of
            (Inl e, _) \<Rightarrow> Err e
          | (Inr second, _) \<Rightarrow> Ok (first @ second))"

definition decode_motion :: "F1UdpCodec \<Rightarrow> bytes \<Rightarrow> F1Header \<Rightarrow> (CodecError + Sample list) option" where
  "decode_motion codec data header =
     map_option (\<lambda>slot. case slot of None \<Rightarrow> Ok [] | Some cursor \<Rightarrow> decode_motion_slot cursor) (car_slot codec header 60 data)"

definition F32_HUNDRED :: "32 word" where "F32_HUNDRED = 0x42C80000"
definition F32_FULL_TURN :: "32 word" where "F32_FULL_TURN = 0x43B40000"
definition F32_MILLION :: "32 word" where "F32_MILLION = 0x49742400"

definition good_at :: "u16 \<Rightarrow> ('a \<Rightarrow> SampleValue) \<Rightarrow> 'a option \<Rightarrow> Sample option" where
  "good_at pid con r = map_option (\<lambda>v. sample_good pid (con v)) r"

definition car_telemetry_samples :: "bytes \<Rightarrow> Sample list option" where
  "car_telemetry_samples d = do {
     fixed \<leftarrow> those
       [good_at 40 VU16 (le_at d 0 2),
        good_at 10 (\<lambda>throttle. VF32 (f32_mul throttle F32_HUNDRED)) (le_at d 2 4),
        good_at 20 (\<lambda>steer. VF32 (f32_mul steer F32_FULL_TURN)) (le_at d 6 4),
        good_at 11 (\<lambda>brake. VF32 (f32_mul brake F32_HUNDRED)) (le_at d 10 4),
        good_at 30 VI8 (byte_at d 15),
        good_at 1 VU16 (le_at d 16 2),
        good_at 100 (\<lambda>drs. VBool (drs \<noteq> 0)) (byte_at d 18),
        good_at 150 VU16 (le_at d 22 2), good_at 151 VU16 (le_at d 24 2),
        good_at 152 VU16 (le_at d 26 2), good_at 153 VU16 (le_at d 28 2),
        good_at 70 VU8 (byte_at d 30), good_at 71 VU8 (byte_at d 31), good_at 72 VU8 (byte_at d 32), good_at 73 VU8 (byte_at d 33)];
     pressures \<leftarrow> (if 58 \<le> length d
       then those [good_at 80 VF32 (le_at d 42 4), good_at 81 VF32 (le_at d 46 4),
                   good_at 82 VF32 (le_at d 50 4), good_at 83 VF32 (le_at d 54 4)]
       else Some []);
     Some (fixed @ pressures)
   }"

definition decode_car_telemetry :: "F1UdpCodec \<Rightarrow> bytes \<Rightarrow> F1Header \<Rightarrow> (CodecError + Sample list) option" where
  "decode_car_telemetry codec data header =
     do {
       slot \<leftarrow> car_slot codec header 60 data;
       case slot of None \<Rightarrow> Some (Ok []) | Some car_data \<Rightarrow> map_option Ok (car_telemetry_samples car_data)
     }"

definition decode_lap_data :: "F1UdpCodec \<Rightarrow> bytes \<Rightarrow> F1Header \<Rightarrow> (CodecError + Sample list) option" where
  "decode_lap_data codec data header =
     do {
       slot \<leftarrow> car_slot codec header 57 data;
       case slot of
         None \<Rightarrow> Some (Ok [])
       | Some car_data \<Rightarrow> map_option Ok (those
           [good_at 110 VU32 (le_at car_data 0 4), good_at 114 VF32 (le_at car_data 12 4),
            good_at 113 VU8 (byte_at car_data 24), good_at 115 VU8 (byte_at car_data 29)])
     }"

definition f1_event_codes :: "(string \<times> u16 \<times> string \<times> EventSeverity) list" where
  "f1_event_codes =
     [(''SSTA'', 1, ''session_started'', Info), (''SEND'', 2, ''session_ended'', Info), (''FTLP'', 3, ''fastest_lap'', Info),
      (''RTMT'', 4, ''retirement'', Warning), (''DRSE'', 5, ''drs_enabled'', Info), (''DRSD'', 6, ''drs_disabled'', Info),
      (''TMPT'', 7, ''teammate_in_pits'', Info), (''CHQF'', 8, ''chequered_flag'', Info), (''RCWN'', 9, ''race_winner'', Info),
      (''PENA'', 10, ''penalty_issued'', Warning), (''SPTP'', 11, ''speed_trap'', Debug), (''STLG'', 12, ''start_lights'', Info),
      (''LGOT'', 13, ''lights_out'', Info), (''DTSV'', 14, ''drive_through_served'', Info), (''SGSV'', 15, ''stop_go_served'', Info),
      (''FLBK'', 16, ''flashback'', Debug), (''BUTN'', 17, ''button_status'', Trace), (''RDFL'', 18, ''red_flag'', Critical),
      (''OVTK'', 19, ''overtake'', Info)]"

definition decode_f1_event :: "bytes \<Rightarrow> (CodecError + Event list) option" where
  "decode_f1_event data =
     (if length data < f1_header_size + 4 then Some (Ok [])
      else do {
        code \<leftarrow> range_at data f1_header_size 4;
        let code_str = (if valid_utf8 code then from_utf8_bytes code else ''????'');
        Some (Ok [case map_of f1_event_codes code_str of
              Some (i, name, sev) \<Rightarrow> event_new i name sev
            | None \<Rightarrow> event_new 0 code_str Debug])
      })"

section \<open>The decoder\<close>

definition f1_can_decode :: "bytes \<Rightarrow> bool option" where
  "f1_can_decode data =
     (if length data < f1_header_size then Some False
      else map_option (\<lambda>format :: u16. 2020 \<le> format \<and> format \<le> 2030) (le_at data 0 2))"

text \<open>The samples and events of a packet; \<open>Some (Ok None)\<close> for a packet of another type.\<close>

definition f1_content :: "F1UdpCodec \<Rightarrow> bytes \<Rightarrow> F1Header \<Rightarrow> (CodecError + (Sample list \<times> Event list) option) option" where
  "f1_content codec data header =
     (case packet_id header of
        Motion \<Rightarrow> map_option (map_ok (\<lambda>ss. Some (ss, []))) (decode_motion codec data header)
      | CarTelemetry \<Rightarrow> map_option (map_ok (\<lambda>ss. Some (ss, []))) (decode_car_telemetry codec data header)
      | LapData \<Rightarrow> map_option (map_ok (\<lambda>ss. Some (ss, []))) (decode_lap_data codec data header)
      | F1Event \<Rightarrow> map_option (map_ok (\<lambda>es. Some ([], es))) (decode_f1_event data)
      | _ \<Rightarrow> Some (Ok None))"

definition f1_decode :: "i64 \<Rightarrow> F1UdpCodec \<Rightarrow> bytes \<Rightarrow> 'reg CodecContext \<Rightarrow> (CodecError + DecodeOutput) option" where
  "f1_decode now codec data ctx =
     (case f1_decode_header data of
        None \<Rightarrow> None
      | Some (Inl e) \<Rightarrow> Some (Err e)
      | Some (Inr header) \<Rightarrow>
          if telemetry_only codec \<and> \<not> is_telemetry (packet_id header) then Some (Ok (Skipped (length data)))
          else let timestamp = f64_as_i64 (f64_from_f32 (f32_mul (session_time header) F32_MILLION)) in
            case f1_content codec data header of
              None \<Rightarrow> None
            | Some (Inl e) \<Rightarrow> Some (Err e)
            | Some (Inr None) \<Rightarrow> Some (Ok (Skipped (length data)))
            | Some (Inr (Some (ss, es))) \<Rightarrow>
                if ss = [] \<and> es = [] then Some (Ok NoOutput)
                else map_option (\<lambda>frame. Ok (OutFrame frame))
                  (build now (fold builder_set [SetSessionId (session_uid header), SetSequence (ucast (frame_identifier header)),
                     SetTimestamp timestamp, SetSourceId (ctx_source_id ctx), AddSamples ss, AddEvents es] builder_new)))"

section \<open>Properties\<close>

lemma length_slice: "i + n \<le> length data \<Longrightarrow> length (slice data i n) = n"
  by (simp add: slice_def)

lemma those_Some: "those (map (\<lambda>x. Some (f x)) xs) = Some (map f xs)"
  by (induction xs) simp_all

lemma slice_nth: "i + n \<le> length d \<Longrightarrow> slice d i n = map ((!) d) [i ..< i + n]"
  by (rule nth_equalityI) (simp_all add: slice_def)

lemma byte_at_in: "i < length d \<Longrightarrow> byte_at d i = Some (d ! i)"
  by (simp add: byte_at_def)

lemma le_at_in:
  assumes "i + n \<le> length d"
  shows "le_at d i n = Some (from_le_bytes (slice d i n))"
proof -
  have "map (byte_at d) [i ..< i + n] = map (\<lambda>k. Some (d ! k)) [i ..< i + n]" using assms by (simp add: byte_at_def)
  then have "those (map (byte_at d) [i ..< i + n]) = Some (slice d i n)" using assms by (simp only: those_Some slice_nth)
  then show ?thesis by (simp add: le_at_def)
qed

text \<open>The index of the selected car, and the end of the slot of \<open>n\<close> bytes it has in a packet.\<close>

definition f1_car :: "F1UdpCodec \<Rightarrow> u8 \<Rightarrow> nat" where
  "f1_car codec player = unat (case car_index codec of None \<Rightarrow> player | Some i \<Rightarrow> i)"

lemma car_slot_eq:
  "car_slot codec header n data =
     Some (if length data < 29 + Suc (f1_car codec (player_car_index header)) * n then None
       else Some (slice data (29 + f1_car codec (player_car_index header) * n) n))"
  by (simp add: car_slot_def range_at_def f1_car_def f1_header_size_def Let_def)

lemma read_f32_samples_total:
  "4 * length pids \<le> length cursor \<Longrightarrow>
     \<exists>ss. read_f32_samples cursor pids = (Ok ss, drop (4 * length pids) cursor) \<and> length ss = length pids"
proof (induction pids arbitrary: cursor)
  case (Cons pid pids)
  then have "4 * length pids \<le> length (drop 4 cursor)" by simp
  then obtain ss where "read_f32_samples (drop 4 cursor) pids = (Ok ss, drop (4 * length pids) (drop 4 cursor))" "length ss = length pids"
    using Cons.IH by blast
  then show ?case using Cons.prems by (simp add: read_f32_sample_def read_exact_def add.commute)
qed simp

lemma decode_motion_slot_total:
  assumes "length slot = 60"
  shows "\<exists>ss. decode_motion_slot slot = Ok ss \<and> length ss = 12"
proof -
  obtain first where first: "read_f32_samples slot [120, 121, 122, 41, 42, 43] = (Ok first, drop 24 slot)" "length first = 6"
    using read_f32_samples_total [of "[120, 121, 122, 41, 42, 43]" slot] assms by auto
  have skipped: "snd (read_exact 4 (snd (read_exact 4 (drop 24 slot)))) = drop 32 slot" using assms by (simp add: read_exact_def)
  obtain second where second: "read_f32_samples (drop 32 slot) [50, 51, 52, 130, 131, 132] = (Ok second, drop 24 (drop 32 slot))"
      "length second = 6"
    using read_f32_samples_total [of "[50, 51, 52, 130, 131, 132]" "drop 32 slot"] assms by auto
  show ?thesis by (simp add: decode_motion_slot_def first skipped second Let_def del: read_f32_samples.simps)
qed

text \<open>Each part reads only bytes of its slot, and yields a fixed number of samples.\<close>

lemma decode_motion_total:
  "\<exists>ss. decode_motion codec data header = Some (Ok ss) \<and>
     length ss = (if length data < 29 + Suc (f1_car codec (player_car_index header)) * 60 then 0 else 12)"
  using decode_motion_slot_total by (auto simp: decode_motion_def car_slot_eq length_slice)

lemma car_telemetry_samples_total: "length d = 60 \<Longrightarrow> \<exists>ss. car_telemetry_samples d = Some ss \<and> length ss = 19"
  by (simp add: car_telemetry_samples_def good_at_def byte_at_in le_at_in)

lemma decode_car_telemetry_total:
  "\<exists>ss. decode_car_telemetry codec data header = Some (Ok ss) \<and>
     length ss = (if length data < 29 + Suc (f1_car codec (player_car_index header)) * 60 then 0 else 19)"
  using car_telemetry_samples_total by (fastforce simp: decode_car_telemetry_def car_slot_eq length_slice)

lemma decode_lap_data_total:
  "\<exists>ss. decode_lap_data codec data header = Some (Ok ss) \<and>
     length ss = (if length data < 29 + Suc (f1_car codec (player_car_index header)) * 57 then 0 else 4)"
  by (simp add: decode_lap_data_def car_slot_eq length_slice good_at_def byte_at_in le_at_in)

lemma decode_f1_event_total:
  "\<exists>es. decode_f1_event data = Some (Ok es) \<and> length es = (if length data < 33 then 0 else 1)"
  by (simp add: decode_f1_event_def range_at_def f1_header_size_def Let_def)

text \<open>The type byte of a packet, the end of what the decoder reads of it, and how many samples and events it has for each type.\<close>

primrec f1_type_byte :: "F1PacketType \<Rightarrow> u8" where
  "f1_type_byte Motion = 0" | "f1_type_byte Session = 1" | "f1_type_byte LapData = 2" | "f1_type_byte F1Event = 3"
| "f1_type_byte Participants = 4" | "f1_type_byte CarSetups = 5" | "f1_type_byte CarTelemetry = 6" | "f1_type_byte CarStatus = 7"
| "f1_type_byte FinalClassification = 8" | "f1_type_byte LobbyInfo = 9" | "f1_type_byte CarDamage = 10"
| "f1_type_byte SessionHistory = 11" | "f1_type_byte TyreSets = 12" | "f1_type_byte MotionEx = 13"

definition f1_packet_end :: "F1UdpCodec \<Rightarrow> bytes \<Rightarrow> nat" where
  "f1_packet_end codec data =
     (if data ! 6 = 3 then 33
      else 29 + Suc (f1_car codec (data ! 27)) * (if data ! 6 = 2 then 57 else 60))"

definition f1_sample_count :: "u8 \<Rightarrow> nat" where
  "f1_sample_count t = (if t = 0 then 12 else if t = 2 then 4 else if t = 6 then 19 else 0)"

definition f1_event_count :: "u8 \<Rightarrow> nat" where
  "f1_event_count t = (if t = 3 then 1 else 0)"

lemma f1_packet_type_cases:
  "case f1_packet_type_from_u8 v of None \<Rightarrow> 13 < v | Some t \<Rightarrow> v = f1_type_byte t \<and> v \<le> 13"
proof (cases "unat v < 14")
  case True
  then have "unat v \<in> set [0 ..< 14]" by simp
  then have "unat v \<in> {0, 1, 2, 3, 4, 5, 6, 7, 8, 9, 10, 11, 12, 13}" by (simp del: set_upt add: upt_rec numeral_eq_Suc)
  moreover have "of_nat (unat v) = v" by simp
  ultimately have "v \<in> of_nat ` {0, 1, 2, 3, 4, 5, 6, 7, 8, 9, 10, 11, 12, 13}" by (metis image_eqI)
  then show ?thesis by (auto simp: f1_packet_type_from_u8_def f1_packet_types_def)
next
  case False
  then show ?thesis by (simp add: f1_packet_type_from_u8_def f1_packet_types_def word_less_nat_alt)
qed

lemma f1_decode_header_in:
  assumes "29 \<le> length data"
  shows "f1_decode_header data =
     Some (case f1_packet_type_from_u8 (data ! 6) of
         None \<Rightarrow> Err (InvalidPacketType (data ! 6))
       | Some t \<Rightarrow>
           Ok \<lparr>packet_format = from_le_bytes (slice data 0 2), game_year = data ! 2, game_major_version = data ! 3,
              game_minor_version = data ! 4, f1_packet_version = data ! 5, packet_id = t,
              session_uid = from_le_bytes (slice data 7 8), session_time = from_le_bytes (slice data 15 4),
              frame_identifier = from_le_bytes (slice data 19 4), overall_frame_identifier = from_le_bytes (slice data 23 4),
              player_car_index = data ! 27, secondary_player_car_index = data ! 28\<rparr>)"
  using assms by (simp add: f1_decode_header_def f1_header_size_def byte_at_in le_at_in split: option.split)

text \<open>What is read of a packet whose header is \<open>header\<close>, for each type.\<close>

lemma f1_content_total:
  assumes "data ! 6 = f1_type_byte (packet_id header)" "data ! 27 = player_car_index header"
  shows "if data ! 6 \<in> {0, 2, 3, 6}
     then \<exists>ss es. f1_content codec data header = Some (Ok (Some (ss, es))) \<and>
       length ss = (if length data < f1_packet_end codec data then 0 else f1_sample_count (data ! 6)) \<and>
       length es = (if length data < f1_packet_end codec data then 0 else f1_event_count (data ! 6))
     else f1_content codec data header = Some (Ok None)"
  using decode_motion_total [of codec data header] decode_car_telemetry_total [of codec data header]
    decode_lap_data_total [of codec data header] decode_f1_event_total [of data]
  by (cases "packet_id header")
     (auto simp: assms f1_content_def f1_packet_end_def f1_sample_count_def f1_event_count_def simp del: One_nat_def mult_Suc)


text \<open>The bytes of a packet, besides its header, that decide its frame: an event code, or the slot of the selected car.\<close>

definition f1_region :: "F1UdpCodec \<Rightarrow> F1Header \<Rightarrow> nat \<times> nat" where
  "f1_region codec header =
     (let car = unat (case car_index codec of None \<Rightarrow> player_car_index header | Some i \<Rightarrow> i) in
      case packet_id header of
        F1Event \<Rightarrow> (f1_header_size, 4)
      | LapData \<Rightarrow> (f1_header_size + car * 57, 57)
      | _ \<Rightarrow> (f1_header_size + car * 60, 60))"

lemma header_prefix:
  assumes "length data' = length data" "take 29 data' = take 29 data"
  shows "f1_decode_header data' = f1_decode_header data"
proof (cases "29 \<le> length data")
  case True
  have at: "data' ! i = data ! i" if "i < 29" for i using assms(2) that by (metis nth_take)
  have part: "slice data' i n = slice data i n" if "i + n \<le> 29" for i n
    using assms(2) that by (metis slice_def take_drop min.absorb1 take_take add.commute)
  show ?thesis using True by (simp add: f1_decode_header_in assms(1) at part cong: option.case_cong)
qed (simp add: f1_decode_header_def f1_header_size_def assms(1))

text \<open>C35: A frame depends on nothing of the other cars: packets of one length that agree on the header and on the bytes of the
  selected car decode alike.\<close>

theorem f1_reads_one_car:
  assumes "f1_decode_header data = Some (Ok header)" "length data' = length data" "take 29 data' = take 29 data"
    "slice data' (fst (f1_region codec header)) (snd (f1_region codec header)) =
     slice data (fst (f1_region codec header)) (snd (f1_region codec header))"
  shows "f1_decode now codec data' ctx = f1_decode now codec data ctx"
proof -
  have header: "f1_decode_header data' = Some (Ok header)" using header_prefix [OF assms(2,3)] assms(1) by simp
  have "f1_content codec data' header = f1_content codec data header"
    using assms(2,4)
    by (cases "packet_id header")
       (simp_all add: f1_content_def f1_region_def decode_motion_def decode_car_telemetry_def decode_lap_data_def decode_f1_event_def
          car_slot_def range_at_def Let_def)
  then show ?thesis unfolding f1_decode_def header assms(1,2) by simp
qed

theorem f1_reads_one_car_witness:
  "f1_decode 0 f1_codec_new ((replicate 6 0 @ [6] @ replicate 22 0) @ replicate 60 0 @ replicate 60 1) (context_new 1 ''car'' :: unit CodecContext) =
   f1_decode 0 f1_codec_new ((replicate 6 0 @ [6] @ replicate 22 0) @ replicate 60 0 @ replicate 60 0) (context_new 1 ''car'' :: unit CodecContext)"
proof -
  let ?head = "replicate 6 0 @ [6] @ replicate 22 0 :: bytes"
  let ?a = "?head @ replicate 60 0 @ replicate 60 0" and ?b = "?head @ replicate 60 0 @ replicate 60 1"
  obtain header where header: "f1_decode_header ?a = Some (Ok header)" "packet_id header = CarTelemetry" "player_car_index header = 0"
    by (simp add: f1_decode_header_in f1_packet_type_from_u8_def f1_packet_types_def nth_append)
  show ?thesis
    by (rule f1_reads_one_car [OF header(1)])
       (simp_all add: f1_region_def f1_codec_new_def header slice_def f1_header_size_def)
qed

end
