(* ===== verification/Registry.thy ===== *)
theory Registry
  imports Frame Float_Arith
begin

text \<open>
  \<open>crates/pitgun-contract/src/registry.rs\<close>, the numeric readings of \<open>frame.rs\<close>, and the two consumers of both in
  \<open>crates/pitgun-core\<close>: \<open>converter.rs\<close> and \<open>telemetry_aggregate.rs\<close>.

  \<open>None\<close> stands for a panic of an index out of range. Shift amounts wrap around, as compiled without overflow checks. The
  YAML reader is an argument, and so is the logarithm of the platform. The two texts of a rejected parameter are the values
  of \<open>ParameterFault\<close>.
\<close>

unbundle bit_operations_syntax

section \<open>Numeric readings of a sample\<close>

definition parse_i64 :: "string \<Rightarrow> i64 option" where
  "parse_i64 s =
     (let (negative, ds) = take_sign s; n = (if negative then - int (dec_value ds) else int (dec_value ds)) in
      if ds = [] \<or> \<not> list_all is_ascii_digit ds \<or> n < - (2 ^ 63) \<or> 2 ^ 63 \<le> n then None else Some (word_of_int n))"

fun as_f64 :: "SampleValue \<Rightarrow> 64 word option" where
  "as_f64 (VBool b) = Some (if b then F64_ONE else F64_ZERO)"
| "as_f64 (VU8 v) = Some (f64_from_int (uint v))"
| "as_f64 (VU16 v) = Some (f64_from_int (uint v))"
| "as_f64 (VU32 v) = Some (f64_from_int (uint v))"
| "as_f64 (VU64 v) = Some (f64_from_int (uint v))"
| "as_f64 (VI8 v) = Some (f64_from_int (sint v))"
| "as_f64 (VI16 v) = Some (f64_from_int (sint v))"
| "as_f64 (VI32 v) = Some (f64_from_int (sint v))"
| "as_f64 (VI64 v) = Some (f64_from_int (sint v))"
| "as_f64 (VF32 v) = Some (f64_from_f32 v)"
| "as_f64 (VF64 v) = Some v"
| "as_f64 (VBytes _) = None"
| "as_f64 (VString s) = parse_f64 s"

fun as_i64 :: "SampleValue \<Rightarrow> i64 option" where
  "as_i64 (VBool b) = Some (if b then 1 else 0)"
| "as_i64 (VU8 v) = Some (ucast v)"
| "as_i64 (VU16 v) = Some (ucast v)"
| "as_i64 (VU32 v) = Some (ucast v)"
| "as_i64 (VU64 v) = (if uint v < 2 ^ 63 then Some v else None)"
| "as_i64 (VI8 v) = Some (scast v)"
| "as_i64 (VI16 v) = Some (scast v)"
| "as_i64 (VI32 v) = Some (scast v)"
| "as_i64 (VI64 v) = Some v"
| "as_i64 (VF32 v) = Some (f64_as_i64 (f64_from_f32 v))"
| "as_i64 (VF64 v) = Some (f64_as_i64 v)"
| "as_i64 (VBytes _) = None"
| "as_i64 (VString s) = parse_i64 s"

section \<open>Parameters\<close>

datatype DataType =
    DBool | DU8 | DU16 | DU32 | DU64 | DI8 | DI16 | DI32 | DI64 | DF32 | DF64 | DBytes | DString

primrec data_type_size :: "DataType \<Rightarrow> nat option" where
  "data_type_size DBool = Some 1" | "data_type_size DU8 = Some 1" | "data_type_size DI8 = Some 1"
| "data_type_size DU16 = Some 2" | "data_type_size DI16 = Some 2"
| "data_type_size DU32 = Some 4" | "data_type_size DI32 = Some 4" | "data_type_size DF32 = Some 4"
| "data_type_size DU64 = Some 8" | "data_type_size DI64 = Some 8" | "data_type_size DF64 = Some 8"
| "data_type_size DBytes = None" | "data_type_size DString = None"

definition is_float :: "DataType \<Rightarrow> bool" where
  "is_float t \<longleftrightarrow> t \<in> {DF32, DF64}"

definition is_integer :: "DataType \<Rightarrow> bool" where
  "is_integer t \<longleftrightarrow> t \<in> {DU8, DU16, DU32, DU64, DI8, DI16, DI32, DI64}"

definition is_signed :: "DataType \<Rightarrow> bool" where
  "is_signed t \<longleftrightarrow> t \<in> {DI8, DI16, DI32, DI64, DF32, DF64}"

record Range =
  range_min :: "64 word"
  range_max :: "64 word"

definition range_contains :: "Range \<Rightarrow> 64 word \<Rightarrow> bool" where
  "range_contains r v \<longleftrightarrow> f64_le (range_min r) v \<and> f64_le v (range_max r)"

definition range_clamp :: "Range \<Rightarrow> 64 word \<Rightarrow> 64 word option" where
  "range_clamp r v = f64_clamp v (range_min r) (range_max r)"

definition range_span :: "Range \<Rightarrow> 64 word" where
  "range_span r = f64_sub (range_max r) (range_min r)"

datatype Conversion =
    NoConversion
  | LinearConversion "64 word" "64 word"
  | PolynomialConversion "64 word list"
  | TableConversion "64 word list" "64 word list"
  | BitField u8 u8 "64 word" "64 word"

text \<open>Coefficients from the constant term upwards, with the running power.\<close>

definition eval_polynomial :: "64 word list \<Rightarrow> 64 word \<Rightarrow> 64 word" where
  "eval_polynomial coefficients x =
     fst (foldl (\<lambda>(result, power) coef. (f64_add result (f64_mul coef power), f64_mul power x)) (F64_ZERO, F64_ONE) coefficients)"

text \<open>\<open>ys[i] + t * (ys[i + 1] - ys[i])\<close> with \<open>t = (x - xs[i]) / (xs[i + 1] - xs[i])\<close>.\<close>

definition interpolate :: "64 word list \<Rightarrow> 64 word list \<Rightarrow> nat \<Rightarrow> 64 word \<Rightarrow> 64 word option" where
  "interpolate xs ys i x =
     (if i + 1 < length ys
      then Some (let t = f64_div (f64_sub x (xs ! i)) (f64_sub (xs ! (i + 1)) (xs ! i)) in
        f64_add (ys ! i) (f64_mul t (f64_sub (ys ! (i + 1)) (ys ! i))))
      else None)"

definition bracket :: "64 word list \<Rightarrow> 64 word \<Rightarrow> nat option" where
  "bracket xs x = List.find (\<lambda>i. f64_le (xs ! i) x \<and> f64_le x (xs ! (i + 1))) [0..<length xs - 1]"

definition table_lookup :: "64 word list \<Rightarrow> 64 word list \<Rightarrow> 64 word \<Rightarrow> 64 word option" where
  "table_lookup xs ys x =
     (if xs = [] \<or> ys = [] then Some x
      else case bracket xs x of
          Some i \<Rightarrow> interpolate xs ys i x
        | None \<Rightarrow> Some (if f64_lt x (hd xs) then hd ys else last ys))"

fun conversion_apply :: "Conversion \<Rightarrow> 64 word \<Rightarrow> 64 word option" where
  "conversion_apply NoConversion raw = Some raw"
| "conversion_apply (LinearConversion scale offset) raw = Some (f64_add (f64_mul raw scale) offset)"
| "conversion_apply (PolynomialConversion coefficients) raw = Some (eval_polynomial coefficients raw)"
| "conversion_apply (TableConversion xs ys) raw = table_lookup xs ys raw"
| "conversion_apply (BitField start_bit num_bits scale offset) raw =
     (let raw_int = f64_as_u64 raw;
          mask = push_bit (unat num_bits mod 64) 1 - 1;
          extracted = drop_bit (unat start_bit mod 64) raw_int AND mask in
      Some (f64_add (f64_mul (f64_from_u64 extracted) scale) offset))"

definition unscale :: "64 word \<Rightarrow> 64 word \<Rightarrow> 64 word \<Rightarrow> 64 word" where
  "unscale scale offset eng = (if f64_eq scale F64_ZERO then eng else f64_div (f64_sub eng offset) scale)"

fun conversion_unapply :: "Conversion \<Rightarrow> 64 word \<Rightarrow> 64 word option" where
  "conversion_unapply NoConversion eng = Some eng"
| "conversion_unapply (LinearConversion scale offset) eng = Some (unscale scale offset eng)"
| "conversion_unapply (PolynomialConversion _) eng = Some eng"
| "conversion_unapply (TableConversion xs ys) eng = table_lookup ys xs eng"
| "conversion_unapply (BitField _ _ scale offset) eng = Some (unscale scale offset eng)"

datatype RegistryAccessLevel = RPublic | RProtected | RPrivate | RConfidential

primrec registry_level :: "RegistryAccessLevel \<Rightarrow> u8" where
  "registry_level RPublic = 0" | "registry_level RProtected = 1" | "registry_level RPrivate = 2"
| "registry_level RConfidential = 3"

definition can_access :: "RegistryAccessLevel \<Rightarrow> RegistryAccessLevel \<Rightarrow> bool" where
  "can_access own required \<longleftrightarrow> registry_level required \<le> registry_level own"

record Parameter =
  param_id :: u16
  param_name :: string
  canonical_name :: "string option"
  param_description :: "string option"
  param_unit :: string
  data_type :: DataType
  param_range :: "Range option"
  conversion :: Conversion
  param_access_level :: RegistryAccessLevel
  param_group :: "string option"
  param_tags :: "string list"
  sample_rate_hz :: "64 word option"

definition parameter_new :: "u16 \<Rightarrow> string \<Rightarrow> Parameter" where
  "parameter_new i n = \<lparr>param_id = i, param_name = n, canonical_name = None, param_description = None, param_unit = [],
     data_type = DF32, param_range = None, conversion = NoConversion, param_access_level = RPublic, param_group = None,
     param_tags = [], sample_rate_hz = None\<rparr>"

datatype ParameterFault = EmptyName | InvertedRange "64 word" "64 word"

datatype RegistryError =
    RegistryIo string
  | RegistryYaml string
  | DuplicateId u16 string string
  | DuplicateName string u16 u16
  | InvalidParameter u16 ParameterFault

datatype ValidationResult = Valid | BelowMin "64 word" | AboveMax "64 word"

definition is_valid :: "ValidationResult \<Rightarrow> bool" where
  "is_valid r \<longleftrightarrow> r = Valid"

definition parameter_validate :: "Parameter \<Rightarrow> RegistryError + unit" where
  "parameter_validate p =
     (if param_name p = [] then Err (InvalidParameter (param_id p) EmptyName)
      else case param_range p of
          Some r \<Rightarrow>
            if f64_lt (range_max r) (range_min r)
            then Err (InvalidParameter (param_id p) (InvertedRange (range_min r) (range_max r))) else Ok ()
        | None \<Rightarrow> Ok ())"

definition parameter_validate_value :: "Parameter \<Rightarrow> 64 word \<Rightarrow> ValidationResult" where
  "parameter_validate_value p v =
     (case param_range p of
        Some r \<Rightarrow> if f64_lt v (range_min r) then BelowMin (range_min r) else if f64_lt (range_max r) v then AboveMax (range_max r) else Valid
      | None \<Rightarrow> Valid)"

section \<open>The registry\<close>

record ParameterRegistry =
  registry_version :: string
  registry_name :: string
  registry_description :: string
  parameters :: "Parameter list"
  index :: "u16 \<rightharpoonup> nat"
  name_index :: "string \<rightharpoonup> u16"

definition registry_new :: ParameterRegistry where
  "registry_new = \<lparr>registry_version = [], registry_name = [], registry_description = [], parameters = [], index = Map.empty,
     name_index = Map.empty\<rparr>"

definition registry_with_name :: "string \<Rightarrow> ParameterRegistry" where
  "registry_with_name n = registry_new\<lparr>registry_name := n\<rparr>"

definition index_names :: "(string \<rightharpoonup> u16) \<Rightarrow> Parameter \<Rightarrow> (string \<rightharpoonup> u16)" where
  "index_names m p =
     (let m = m(param_name p \<mapsto> param_id p) in
      case canonical_name p of None \<Rightarrow> m | Some c \<Rightarrow> m(c \<mapsto> param_id p))"

definition build_index :: "ParameterRegistry \<Rightarrow> ParameterRegistry" where
  "build_index r = r\<lparr>
     index := foldl (\<lambda>m (i, p). m(param_id p \<mapsto> i)) Map.empty (enumerate 0 (parameters r)),
     name_index := foldl index_names Map.empty (parameters r)\<rparr>"

text \<open>The loop of \<open>validate\<close> with the identifiers and names seen so far.\<close>

fun validate_parameters :: "(u16 \<rightharpoonup> string) \<Rightarrow> (string \<rightharpoonup> u16) \<Rightarrow> Parameter list \<Rightarrow> RegistryError + unit" where
  "validate_parameters ids ns [] = Ok ()"
| "validate_parameters ids ns (p # ps) =
     (case ids (param_id p) of
        Some existing \<Rightarrow> Err (DuplicateId (param_id p) existing (param_name p))
      | None \<Rightarrow>
          (case ns (param_name p) of
             Some existing \<Rightarrow> Err (DuplicateName (param_name p) existing (param_id p))
           | None \<Rightarrow>
               (case parameter_validate p of
                  Inl e \<Rightarrow> Err e
                | Inr _ \<Rightarrow> validate_parameters (ids(param_id p \<mapsto> param_name p)) (ns(param_name p \<mapsto> param_id p)) ps)))"

definition registry_validate :: "ParameterRegistry \<Rightarrow> RegistryError + unit" where
  "registry_validate r = validate_parameters Map.empty Map.empty (parameters r)"

definition registry_get :: "ParameterRegistry \<Rightarrow> u16 \<Rightarrow> Parameter option option" where
  "registry_get r i =
     (case index r i of
        None \<Rightarrow> Some None
      | Some idx \<Rightarrow> if idx < length (parameters r) then Some (Some (parameters r ! idx)) else None)"

definition registry_get_by_name :: "ParameterRegistry \<Rightarrow> string \<Rightarrow> Parameter option option" where
  "registry_get_by_name r n = (case name_index r n of None \<Rightarrow> Some None | Some i \<Rightarrow> registry_get r i)"

definition registry_add :: "ParameterRegistry \<Rightarrow> Parameter \<Rightarrow> (ParameterRegistry \<times> (RegistryError + unit)) option" where
  "registry_add r p =
     (if index r (param_id p) \<noteq> None
      then (case registry_get r (param_id p) of
          Some (Some existing) \<Rightarrow> Some (r, Err (DuplicateId (param_id p) (param_name existing) (param_name p)))
        | _ \<Rightarrow> None)
      else case parameter_validate p of
          Inl e \<Rightarrow> Some (r, Err e)
        | Inr _ \<Rightarrow>
            Some (r\<lparr>name_index := index_names (name_index r) p, index := (index r)(param_id p \<mapsto> length (parameters r)),
              parameters := parameters r @ [p]\<rparr>, Ok ()))"

definition from_yaml :: "(string \<Rightarrow> string + ParameterRegistry) \<Rightarrow> string \<Rightarrow> RegistryError + ParameterRegistry" where
  "from_yaml read_yaml yaml =
     (case read_yaml yaml of
        Inl e \<Rightarrow> Err (RegistryYaml e)
      | Inr registry \<Rightarrow>
          let registry = build_index registry in
          case registry_validate registry of Inl e \<Rightarrow> Err e | Inr _ \<Rightarrow> Ok registry)"

definition registry_contains :: "ParameterRegistry \<Rightarrow> u16 \<Rightarrow> bool" where
  "registry_contains r i \<longleftrightarrow> index r i \<noteq> None"

definition registry_contains_name :: "ParameterRegistry \<Rightarrow> string \<Rightarrow> bool" where
  "registry_contains_name r n \<longleftrightarrow> name_index r n \<noteq> None"

definition with_access_level :: "ParameterRegistry \<Rightarrow> RegistryAccessLevel \<Rightarrow> Parameter list" where
  "with_access_level r level = filter (\<lambda>p. param_access_level p = level) (parameters r)"

definition public_parameters :: "ParameterRegistry \<Rightarrow> Parameter list" where
  "public_parameters r = with_access_level r RPublic"

definition registry_convert :: "ParameterRegistry \<Rightarrow> u16 \<Rightarrow> SampleValue \<Rightarrow> 64 word option option" where
  "registry_convert r i raw =
     (case registry_get r i of
        None \<Rightarrow> None
      | Some None \<Rightarrow> Some None
      | Some (Some p) \<Rightarrow>
          (case as_f64 raw of None \<Rightarrow> Some None | Some v \<Rightarrow> map_option Some (conversion_apply (conversion p) v)))"

definition registry_validate_value :: "ParameterRegistry \<Rightarrow> u16 \<Rightarrow> 64 word \<Rightarrow> ValidationResult option option" where
  "registry_validate_value r i v = map_option (map_option (\<lambda>p. parameter_validate_value p v)) (registry_get r i)"

section \<open>The converter service\<close>

datatype ConversionMethod =
    Identity
  | Linear "64 word" "64 word"
  | Polynomial "64 word list"
  | Table "64 word list" "64 word list"
  | Rational "64 word list" "64 word list"
  | Logarithmic "64 word" "64 word"
  | Custom "64 word \<Rightarrow> 64 word"

definition F64_TINY :: "64 word" where "F64_TINY = 0x3CD203AF9EE75616"

text \<open>\<open>ln\<close> is the logarithm of the platform.\<close>

fun method_apply :: "(64 word \<Rightarrow> 64 word) \<Rightarrow> ConversionMethod \<Rightarrow> 64 word \<Rightarrow> 64 word option" where
  "method_apply ln Identity x = Some x"
| "method_apply ln (Linear scale offset) x = Some (f64_add (f64_mul scale x) offset)"
| "method_apply ln (Polynomial coefficients) x = Some (eval_polynomial coefficients x)"
| "method_apply ln (Table breakpoints vs) x =
     (if breakpoints = [] \<or> vs = [] then Some x
      else if f64_le x (hd breakpoints) then Some (hd vs)
      else if f64_le (last breakpoints) x then Some (last vs)
      else case bracket breakpoints x of Some i \<Rightarrow> interpolate breakpoints vs i x | None \<Rightarrow> Some x)"
| "method_apply ln (Rational numerator denominator) x =
     (let num = eval_polynomial numerator x; den = eval_polynomial denominator x in
      Some (if f64_lt (f64_abs den) F64_TINY then f64_quiet_nan else f64_div num den))"
| "method_apply ln (Logarithmic scale offset) x =
     (let arg = f64_add x offset in Some (if f64_le arg F64_ZERO then f64_quiet_nan else f64_mul scale (ln arg)))"
| "method_apply ln (Custom f) x = Some (f x)"

type_synonym ConverterService = "u16 \<rightharpoonup> ConversionMethod"

definition converter_from_registry :: "ParameterRegistry \<Rightarrow> ConverterService" where
  "converter_from_registry r =
     foldl (\<lambda>c p. if param_unit p \<noteq> [] then c(param_id p \<mapsto> Identity) else c) Map.empty (parameters r)"

definition converter_register :: "ConverterService \<Rightarrow> u16 \<Rightarrow> ConversionMethod \<Rightarrow> ConverterService" where
  "converter_register c i m = c(i \<mapsto> m)"

definition converter_unregister :: "ConverterService \<Rightarrow> u16 \<Rightarrow> ConverterService \<times> ConversionMethod option" where
  "converter_unregister c i = (c(i := None), c i)"

definition converter_convert :: "(64 word \<Rightarrow> 64 word) \<Rightarrow> ConverterService \<Rightarrow> u16 \<Rightarrow> 64 word \<Rightarrow> 64 word option" where
  "converter_convert ln c i v = (case c i of Some m \<Rightarrow> method_apply ln m v | None \<Rightarrow> Some v)"

definition convert_sample :: "(64 word \<Rightarrow> 64 word) \<Rightarrow> ConverterService \<Rightarrow> Sample \<Rightarrow> 64 word option option" where
  "convert_sample ln c s =
     (case as_f64 (sample_value s) of
        None \<Rightarrow> Some None
      | Some raw \<Rightarrow> (case c (parameter_id s) of Some m \<Rightarrow> map_option Some (method_apply ln m raw) | None \<Rightarrow> Some (Some raw)))"

fun convert_samples :: "(64 word \<Rightarrow> 64 word) \<Rightarrow> ConverterService \<Rightarrow> Sample list \<Rightarrow> Sample list option" where
  "convert_samples ln c [] = Some []"
| "convert_samples ln c (s # ss) =
     (case convert_sample ln c s of
        None \<Rightarrow> None
      | Some v \<Rightarrow>
          map_option (\<lambda>rest. (case v of Some x \<Rightarrow> s\<lparr>sample_value := VF64 x\<rparr> | None \<Rightarrow> s) # rest) (convert_samples ln c ss))"

definition convert_frame :: "i64 \<Rightarrow> (64 word \<Rightarrow> 64 word) \<Rightarrow> ConverterService \<Rightarrow> TelemetryFrame \<Rightarrow> TelemetryFrame option" where
  "convert_frame now ln c frame =
     (case convert_samples ln c (samples frame) of
        None \<Rightarrow> None
      | Some ss \<Rightarrow>
          build now (fold builder_set [SetSessionId (session_id frame), SetSequence (frame_sequence frame),
            SetTimestamp (timestamp_us frame), SetSourceId (frame_source_id frame), AddSamples ss] builder_new))"

fun convert_values :: "(64 word \<Rightarrow> 64 word) \<Rightarrow> ConversionMethod \<Rightarrow> 64 word list \<Rightarrow> 64 word list option" where
  "convert_values ln m [] = Some []"
| "convert_values ln m (v # vs) =
     (case method_apply ln m v of None \<Rightarrow> None | Some x \<Rightarrow> map_option (\<lambda>xs. x # xs) (convert_values ln m vs))"

definition convert_batch :: "(64 word \<Rightarrow> 64 word) \<Rightarrow> ConverterService \<Rightarrow> u16 \<Rightarrow> 64 word list \<Rightarrow> 64 word list option" where
  "convert_batch ln c i vs = (case c i of Some m \<Rightarrow> convert_values ln m vs | None \<Rightarrow> Some vs)"

definition convert_in_place :: "(64 word \<Rightarrow> 64 word) \<Rightarrow> ConverterService \<Rightarrow> u16 \<Rightarrow> 64 word list \<Rightarrow> 64 word list option" where
  "convert_in_place ln c i vs = (case c i of Some m \<Rightarrow> convert_values ln m vs | None \<Rightarrow> Some vs)"

definition add_point :: "(64 word \<times> 64 word) list \<Rightarrow> 64 word \<Rightarrow> 64 word \<Rightarrow> (64 word \<times> 64 word) list" where
  "add_point points b v = points @ [(b, v)]"

definition add_points :: "(64 word \<times> 64 word) list \<Rightarrow> (64 word \<times> 64 word) list \<Rightarrow> (64 word \<times> 64 word) list" where
  "add_points points extra = foldl (\<lambda>ps (b, v). add_point ps b v) points extra"

text \<open>The table builder sorts its points; comparing with a NaN panics, and a sort of two points or more compares each.\<close>

definition table_build :: "(64 word \<times> 64 word) list \<Rightarrow> ConversionMethod option" where
  "table_build points =
     (if 2 \<le> length points \<and> list_ex (\<lambda>p. f64_nan (fst p)) points then None
      else let pairs = sort_key (\<lambda>p. f64_scaled (fst p)) points in Some (Table (map fst pairs) (map snd pairs)))"

section \<open>Aggregation of one parameter\<close>

datatype TelemetryAggregateKind = Maximum

record TelemetryAggregateConfig =
  aggregate_parameter_id :: u16
  aggregate_kind :: TelemetryAggregateKind

record TelemetryAggregateResult =
  result_sample_count :: u64
  result_value :: "64 word"

datatype TelemetryAggregateError = NoUsableSamples u16 | SampleCountOverflow

fun aggregate_sample ::
    "TelemetryAggregateConfig \<Rightarrow> u64 \<times> 64 word option \<Rightarrow> Sample \<Rightarrow> TelemetryAggregateError + u64 \<times> 64 word option" where
  "aggregate_sample cfg (n, best) s =
     (if \<not> is_usable (quality s) then Ok (n, best)
      else case as_f64 (sample_value s) of
          None \<Rightarrow> Ok (n, best)
        | Some candidate \<Rightarrow>
            if \<not> is_finite64 candidate then Ok (n, best)
            else case checked_add n 1 of
                None \<Rightarrow> Err SampleCountOverflow
              | Some n' \<Rightarrow>
                  Ok (n', Some (case (aggregate_kind cfg, best) of
                     (Maximum, Some current) \<Rightarrow> f64_max_of current candidate | (Maximum, None) \<Rightarrow> candidate)))"

definition aggregate_telemetry_parameter ::
    "TelemetryFrame list \<Rightarrow> TelemetryAggregateConfig \<Rightarrow> TelemetryAggregateError + TelemetryAggregateResult" where
  "aggregate_telemetry_parameter frames cfg =
     (case try_fold (aggregate_sample cfg) (0, None)
        (filter (\<lambda>s. parameter_id s = aggregate_parameter_id cfg) (concat (map samples frames))) of
        Inl e \<Rightarrow> Err e
      | Inr (n, None) \<Rightarrow> Err (NoUsableSamples (aggregate_parameter_id cfg))
      | Inr (n, Some v) \<Rightarrow> Ok \<lparr>result_sample_count = n, result_value = v\<rparr>)"

section \<open>The index is a search\<close>

definition registry_inv :: "ParameterRegistry \<Rightarrow> bool" where
  "registry_inv r \<longleftrightarrow> distinct (map param_id (parameters r)) \<and>
     (\<forall>i idx. index r i = Some idx \<longleftrightarrow> idx < length (parameters r) \<and> param_id (parameters r ! idx) = i)"

lemma registry_index_dom: "registry_inv r \<Longrightarrow> index r i = None \<longleftrightarrow> i \<notin> param_id ` set (parameters r)"
  by (force simp: registry_inv_def in_set_conv_nth image_iff option.set_sel simp flip: not_Some_eq)

lemma registry_get_find:
  assumes "registry_inv r"
  shows "registry_get r i = Some (List.find (\<lambda>p. param_id p = i) (parameters r))"
proof (cases "index r i")
  case None
  then have "List.find (\<lambda>p. param_id p = i) (parameters r) = None"
    using registry_index_dom [OF assms] by (auto simp: find_None_iff)
  then show ?thesis by (simp add: registry_get_def None)
next
  case (Some idx)
  then have idx: "idx < length (parameters r)" "param_id (parameters r ! idx) = i" using assms by (auto simp: registry_inv_def)
  have "param_id (parameters r ! j) \<noteq> i" if "j < idx" for j
    using that idx assms by (auto simp: registry_inv_def distinct_conv_nth)
  then have "List.find (\<lambda>p. param_id p = i) (parameters r) = Some (parameters r ! idx)"
    using idx by (auto simp: find_Some_iff)
  then show ?thesis using idx by (simp add: registry_get_def Some)
qed

lemma registry_inv_new: "registry_inv registry_new"
  by (simp add: registry_inv_def registry_new_def)

lemma registry_add_cases:
  assumes "registry_inv r"
  shows "if param_id p \<in> param_id ` set (parameters r) then \<exists>n. registry_add r p = Some (r, Err (DuplicateId (param_id p) n (param_name p)))
    else if is_ok (parameter_validate p)
    then \<exists>r'. registry_add r p = Some (r', Ok ()) \<and> parameters r' = parameters r @ [p] \<and> registry_inv r'
    else \<exists>e. registry_add r p = Some (r, Err e)"
proof (cases "param_id p \<in> param_id ` set (parameters r)")
  case True
  then obtain idx where "index r (param_id p) = Some idx" using registry_index_dom [OF assms] by (cases "index r (param_id p)") auto
  moreover from this have "idx < length (parameters r)" using assms by (simp add: registry_inv_def)
  ultimately show ?thesis using True by (simp add: registry_add_def registry_get_def)
next
  case False
  then have none: "index r (param_id p) = None" using registry_index_dom [OF assms] by simp
  show ?thesis
  proof (cases "parameter_validate p")
    case (Inr u)
    have fresh: "param_id (parameters r ! idx) \<noteq> param_id p" if "idx < length (parameters r)" for idx
      using False that by (metis imageI nth_mem)
    have "registry_inv (r\<lparr>name_index := index_names (name_index r) p, index := (index r)(param_id p \<mapsto> length (parameters r)),
        parameters := parameters r @ [p]\<rparr>)"
      using assms False fresh by (auto simp: registry_inv_def nth_append less_Suc_eq image_iff)
    then show ?thesis using False none by (simp add: registry_add_def Inr)
  qed (use False none in \<open>simp add: registry_add_def\<close>)
qed

text \<open>The registry after a sequence of \<open>add\<close> calls, whatever they return.\<close>

fun add_all :: "ParameterRegistry \<Rightarrow> Parameter list \<Rightarrow> ParameterRegistry option" where
  "add_all r [] = Some r"
| "add_all r (p # ps) = (case registry_add r p of None \<Rightarrow> None | Some (r', _) \<Rightarrow> add_all r' ps)"

lemma add_all_lookup:
  assumes "registry_inv r"
  shows "\<exists>r'. add_all r ps = Some r' \<and> registry_inv r' \<and>
    List.find (\<lambda>p. param_id p = i) (parameters r') =
      (case List.find (\<lambda>p. param_id p = i) (parameters r) of
         Some q \<Rightarrow> Some q | None \<Rightarrow> List.find (\<lambda>p. param_id p = i \<and> is_ok (parameter_validate p)) ps)"
  using assms
proof (induction ps arbitrary: r)
  case (Cons p ps)
  have find_snoc: "List.find P (xs @ [x]) = (case List.find P xs of Some q \<Rightarrow> Some q | None \<Rightarrow> if P x then Some x else None)"
    for P xs and x :: Parameter by (induction xs) auto
  have seen: "List.find (\<lambda>p. param_id p = i) (parameters r) \<noteq> None" if "i \<in> param_id ` set (parameters r)"
    using that by (auto simp: find_None_iff)
  show ?case
  proof (cases "param_id p \<notin> param_id ` set (parameters r) \<and> is_ok (parameter_validate p)")
    case True
    then obtain r' where r': "registry_add r p = Some (r', Ok ())" "parameters r' = parameters r @ [p]" "registry_inv r'"
      using registry_add_cases [OF Cons.prems, of p] by auto
    then show ?thesis using Cons.IH [OF r'(3)] True by (auto simp: find_snoc split: option.splits)
  next
    case False
    then obtain e where "registry_add r p = Some (r, Err e)"
      using registry_add_cases [OF Cons.prems, of p] by (auto split: if_splits)
    then show ?thesis using Cons.IH [OF Cons.prems] False seen by (auto split: option.splits)
  qed
qed (auto split: option.split)

text \<open>C34: Adding parameters never panics, and a lookup through the index finds the first valid parameter that was added under the
  identifier; invalid parameters and later duplicates leave no trace.\<close>

theorem registry_lookup_exact:
  "\<exists>r. add_all registry_new ps = Some r \<and>
     registry_get r i = Some (List.find (\<lambda>p. param_id p = i \<and> is_ok (parameter_validate p)) ps)"
  using add_all_lookup [OF registry_inv_new, of ps i] by (auto simp: registry_get_find) (simp add: registry_new_def)

section \<open>Loading\<close>

lemma validate_parameters_Ok:
  "validate_parameters ids ns ps = Ok () \<longleftrightarrow>
     distinct (map param_id ps) \<and> distinct (map param_name ps) \<and> list_all (\<lambda>p. parameter_validate p = Ok ()) ps \<and>
     param_id ` set ps \<inter> dom ids = {} \<and> param_name ` set ps \<inter> dom ns = {}"
  by (induction ps arbitrary: ids ns) (auto split: option.split sum.split)

lemma build_index_inv:
  assumes "distinct (map param_id (parameters r))"
  shows "registry_inv (build_index r)"
proof -
  have index: "foldl (\<lambda>m (i, p). m(param_id p \<mapsto> i)) Map.empty (enumerate 0 ps) i = Some idx \<longleftrightarrow> idx < length ps \<and> param_id (ps ! idx) = i"
    if "distinct (map param_id ps)" for ps :: "Parameter list" and i idx
    using that
  proof (induction ps rule: rev_induct)
    case (snoc p ps)
    have "enumerate 0 (ps @ [p]) = enumerate 0 ps @ [(length ps, p)]" by (simp add: enumerate_append_eq)
    moreover have "param_id (ps ! idx) \<noteq> param_id p" if "idx < length ps"
    proof -
      have "param_id (ps ! idx) \<in> param_id ` set ps" using that by simp
      then show ?thesis using snoc.prems by auto
    qed
    ultimately show ?case using snoc by (auto simp: nth_append less_Suc_eq)
  qed simp
  show ?thesis using assms index [OF assms] by (simp add: registry_inv_def build_index_def)
qed

lemma parameter_validate_unit: "parameter_validate p = Ok () \<longleftrightarrow> param_name p \<noteq> [] \<and>
    (case param_range p of None \<Rightarrow> True | Some r \<Rightarrow> \<not> f64_lt (range_max r) (range_min r))"
  by (simp add: parameter_validate_def split: option.split)

text \<open>A registry is loaded exactly when its identifiers and names are distinct, no name is empty and no range inverted; then
  every lookup in it finds the parameter of that identifier.\<close>

theorem from_yaml_exact:
  "(from_yaml read_yaml yaml = Ok r \<longleftrightarrow>
      (\<exists>r0. read_yaml yaml = Inr r0 \<and> r = build_index r0 \<and> distinct (map param_id (parameters r0)) \<and>
         distinct (map param_name (parameters r0)) \<and>
         list_all (\<lambda>p. param_name p \<noteq> [] \<and>
           (case param_range p of None \<Rightarrow> True | Some b \<Rightarrow> \<not> f64_lt (range_max b) (range_min b))) (parameters r0) \<and>
         registry_get r i = Some (List.find (\<lambda>p. param_id p = i) (parameters r0))))"
proof -
  have same: "parameters (build_index r0) = parameters r0" for r0 by (simp add: build_index_def)
  have get: "registry_get (build_index r0) i = Some (List.find (\<lambda>p. param_id p = i) (parameters r0))"
    if "distinct (map param_id (parameters r0))" for r0
    using registry_get_find [OF build_index_inv [OF that]] by (simp add: same)
  have unit: "(u :: unit) = ()" for u by simp
  show ?thesis
  proof (cases "read_yaml yaml")
    case (Inr r0)
    have "from_yaml read_yaml yaml = Ok r \<longleftrightarrow> r = build_index r0 \<and> registry_validate (build_index r0) = Ok ()"
      by (auto simp: from_yaml_def Inr Let_def split: sum.split)
    also have "registry_validate (build_index r0) = Ok () \<longleftrightarrow> distinct (map param_id (parameters r0)) \<and>
        distinct (map param_name (parameters r0)) \<and> list_all (\<lambda>p. parameter_validate p = Ok ()) (parameters r0)"
      by (simp add: registry_validate_def validate_parameters_Ok same)
    finally show ?thesis using get [of r0] by (auto simp: Inr parameter_validate_unit)
  qed (simp add: from_yaml_def)
qed

text \<open>\<open>add\<close> does not look at names: two valid parameters of one name are both added, the name then stands for the second one,
  and the registry fails its own validation.\<close>

lemma add_accepts_duplicate_name:
  "\<exists>r. add_all registry_new [parameter_new 1 ''rpm'', parameter_new 2 ''rpm''] = Some r \<and> length (parameters r) = 2 \<and>
     name_index r ''rpm'' = Some 2 \<and> registry_validate r = Err (DuplicateName ''rpm'' 1 2)"
  by (simp add: registry_add_def registry_new_def parameter_new_def parameter_validate_def index_names_def registry_validate_def)

section \<open>Conversions, frames and maxima\<close>

text \<open>A table that the builder makes is sorted and holds the given points, and its conversion never panics.\<close>

lemma table_build_sorted:
  assumes "table_build points = Some (Table bs vs)"
  shows "sorted (map f64_scaled bs)" "mset (zip bs vs) = mset points" "length bs = length vs"
  using assms by (auto simp: table_build_def Let_def zip_map_fst_snd o_def case_prod_beta split: if_splits)

lemma bracket_bound: "bracket xs x = Some i \<Longrightarrow> i + 1 < length xs"
  by (auto simp: bracket_def find_Some_iff)

lemma table_total: "length ys = length xs \<Longrightarrow> \<exists>y. method_apply ln (Table xs ys) x = Some y" "length ys = length xs \<Longrightarrow> \<exists>y. table_lookup xs ys x = Some y"
  by (auto simp: table_lookup_def interpolate_def dest: bracket_bound split: option.split)

lemma convert_samples_pointwise:
  "convert_samples ln c ss = Some ts \<longleftrightarrow>
     list_all2 (\<lambda>s t. \<exists>v. convert_sample ln c s = Some v \<and> t = (case v of Some x \<Rightarrow> s\<lparr>sample_value := VF64 x\<rparr> | None \<Rightarrow> s)) ss ts"
  by (induction ss arbitrary: ts) (auto simp: list_all2_Cons1 split: option.splits)

text \<open>A converted frame keeps session, sequence, time and source, and every sample with its quality and offset; its events, its
  position and its metadata are gone, and it counts as received now.\<close>

lemma convert_frame_parts:
  assumes "convert_frame now ln c frame = Some converted"
  shows "convert_samples ln c (samples frame) = Some (samples converted)"
    "converted = (frame_new now (session_id frame) (timestamp_us frame) (frame_source_id frame))
       \<lparr>frame_sequence := frame_sequence frame, samples := samples converted\<rparr>"
    "events converted = []"
  using assms by (auto simp: convert_frame_def build_def builder_new_def frame_new_def split: option.splits)

text \<open>The values that count: finite readings of usable samples of the parameter, in order.\<close>

definition usable_values :: "TelemetryAggregateConfig \<Rightarrow> TelemetryFrame list \<Rightarrow> 64 word list" where
  "usable_values cfg frames =
     concat (map (\<lambda>s. if parameter_id s = aggregate_parameter_id cfg \<and> is_usable (quality s)
        then (case as_f64 (sample_value s) of None \<Rightarrow> [] | Some v \<Rightarrow> if is_finite64 v then [v] else []) else [])
       (concat (map samples frames)))"

definition is_maximum :: "64 word list \<Rightarrow> 64 word \<Rightarrow> bool" where
  "is_maximum vs m \<longleftrightarrow> m \<in> set vs \<and> list_all (\<lambda>v. f64_le v m) vs"

lemma maximum_snoc:
  assumes "list_all is_finite64 (vs @ [x])" "is_maximum vs m"
  shows "is_maximum (vs @ [x]) (f64_max_of m x)"
proof -
  have nan: "\<not> f64_nan m" "\<not> f64_nan x" using assms by (auto simp: is_maximum_def list_all_iff finite_not_nan)
  have "f64_le m (f64_max_of m x)" "f64_le x (f64_max_of m x)" "f64_max_of m x \<in> {m, x}"
    using nan by (auto simp: f64_max_of_def f64_le_def f64_lt_def)
  then show ?thesis using assms(2) f64_order(1) [of _ m "f64_max_of m x"] by (auto simp: is_maximum_def list_all_iff)
qed

definition agrees :: "64 word list \<Rightarrow> u64 \<times> 64 word option \<Rightarrow> bool" where
  "agrees vs st \<longleftrightarrow> length vs < 2 ^ 64 \<and> unat (fst st) = length vs \<and>
     (case snd st of None \<Rightarrow> vs = [] | Some m \<Rightarrow> is_maximum vs m)"

definition sample_values :: "Sample \<Rightarrow> 64 word list" where
  "sample_values s = (if is_usable (quality s)
     then (case as_f64 (sample_value s) of None \<Rightarrow> [] | Some v \<Rightarrow> if is_finite64 v then [v] else []) else [])"

lemma aggregate_sample_step:
  assumes "agrees vs st" "list_all is_finite64 vs"
  shows "case aggregate_sample cfg st s of
      Inl e \<Rightarrow> e = SampleCountOverflow \<and> 2 ^ 64 \<le> length (vs @ sample_values s)
    | Inr st' \<Rightarrow> agrees (vs @ sample_values s) st'"
proof -
  obtain n best where st: "st = (n, best)" by fastforce
  obtain k where k: "aggregate_kind cfg = k" by simp
  show ?thesis
  proof (cases "is_usable (quality s) \<and> (\<exists>v. as_f64 (sample_value s) = Some v \<and> is_finite64 v)")
    case False
    then show ?thesis using assms(1) by (auto simp: st sample_values_def split: option.splits)
  next
    case True
    then obtain v where v: "is_usable (quality s)" "as_f64 (sample_value s) = Some v" "is_finite64 v" by blast
    have one: "sample_values s = [v]" using v by (simp add: sample_values_def)
    show ?thesis
    proof (cases "checked_add n 1")
      case None
      then have "2 ^ 64 \<le> Suc (unat n)" by (simp add: checked_add_def split: if_splits)
      then show ?thesis using assms(1) v None by (simp add: st one agrees_def)
    next
      case (Some n')
      have "unat n' = unat n + 1" using Some by (simp only: checked_add_one_iff)
      moreover have "unat n' < 2 ^ 64" using unsigned_less [of n', where 'a = nat] by simp
      ultimately have n': "unat n' = Suc (unat n)" "Suc (unat n) < 2 ^ 64" by simp_all
      have "is_maximum (vs @ [v]) (case best of Some m \<Rightarrow> f64_max_of m v | None \<Rightarrow> v)"
      proof (cases best)
        case None
        then have "vs = []" using assms(1) by (simp add: st agrees_def)
        then show ?thesis using f64_order(2) [OF finite_not_nan [OF v(3)]] by (simp add: None is_maximum_def)
      next
        case (Some m)
        then have "is_maximum vs m" using assms(1) by (simp add: st agrees_def)
        then show ?thesis using maximum_snoc [of vs v m] assms(2) v(3) by (simp add: Some)
      qed
      moreover have "aggregate_sample cfg st s = Ok (n', Some (case best of Some m \<Rightarrow> f64_max_of m v | None \<Rightarrow> v))"
        using v Some by (cases k; cases best) (simp_all add: st k)
      ultimately show ?thesis using assms(1) n' by (simp add: st one agrees_def)
    qed
  qed
qed

lemma aggregate_fold:
  assumes "agrees vs st" "list_all is_finite64 vs"
  shows "case try_fold (aggregate_sample cfg) st ss of
      Inl e \<Rightarrow> e = SampleCountOverflow \<and> 2 ^ 64 \<le> length (vs @ concat (map sample_values ss))
    | Inr st' \<Rightarrow> agrees (vs @ concat (map sample_values ss)) st'"
  using assms
proof (induction ss arbitrary: vs st)
  case (Cons s ss)
  note step = aggregate_sample_step [OF Cons.prems, where cfg = cfg and s = s]
  show ?case
  proof (cases "aggregate_sample cfg st s")
    case (Inr st')
    have "list_all is_finite64 (vs @ sample_values s)" using Cons.prems(2) by (auto simp: sample_values_def split: option.split)
    then show ?thesis using Cons.IH [of "vs @ sample_values s" st'] step by (simp add: Inr cong: sum.case_cong)
  qed (use step in simp)
qed simp

text \<open>The aggregate counts exactly the finite readings of usable samples of its parameter and returns a greatest one; it fails
  exactly when there is none, or when their number leaves the range of \<open>u64\<close>.\<close>

theorem aggregate_exact:
  "case aggregate_telemetry_parameter frames cfg of
     Inr r \<Rightarrow> unat (result_sample_count r) = length (usable_values cfg frames) \<and> is_maximum (usable_values cfg frames) (result_value r)
   | Inl (NoUsableSamples pid) \<Rightarrow> pid = aggregate_parameter_id cfg \<and> usable_values cfg frames = []
   | Inl SampleCountOverflow \<Rightarrow> 2 ^ 64 \<le> length (usable_values cfg frames)"
proof -
  let ?ss = "filter (\<lambda>s. parameter_id s = aggregate_parameter_id cfg) (concat (map samples frames))"
  have concat_filter: "concat (map f (filter P xs)) = concat (map (\<lambda>x. if P x then f x else []) xs)" for f :: "Sample \<Rightarrow> 64 word list" and P xs
    by (induction xs) simp_all
  have "usable_values cfg frames = concat (map sample_values ?ss)"
    unfolding concat_filter usable_values_def by (rule arg_cong [where f = concat], rule map_cong) (simp_all add: sample_values_def)
  then show ?thesis
    using aggregate_fold [of "[]" "(0, None)", where cfg = cfg and ss = ?ss]
    by (auto simp: aggregate_telemetry_parameter_def agrees_def split: sum.splits option.splits prod.splits)
qed

end
