(* ===== verification/Authorization.thy ===== *)
theory Authorization
  imports Run_Contract
begin

text \<open>
  \<open>crates/pitgun-contract/src/authorization.rs\<close> and \<open>attempt_authorization.rs\<close>: the validity window
  of an authorization, the signed payloads of immutable and of dynamic runs, and the boundary between
  the authorized and the completed contract. Times are \<open>i64\<close> milliseconds, compared as signed integers.
\<close>

section \<open>Validity windows\<close>

definition MAX_SAFE_JSON_I64 :: i64 where
  "MAX_SAFE_JSON_I64 = 9007199254740991"

text \<open>\<open>i64::checked_add\<close>.\<close>

definition checked_add_i64 :: "i64 \<Rightarrow> i64 \<Rightarrow> i64 option" where
  "checked_add_i64 a b =
     (if - (2 ^ 63) \<le> sint a + sint b \<and> sint a + sint b < 2 ^ 63 then Some (a + b) else None)"

datatype RunAuthorizationVersion = RunAuthorizationVersionV1

datatype AuthorizationSignatureAlgorithm = HmacSha256

record AuthorizationValidityV1 =
  issued_at_ms :: i64
  expires_at_ms :: i64
  late_submission_grace_ms :: i64

datatype RunAuthorizationError =
    InvalidValidity string
  | NotYetValid
  | Expired
  | SubmissionGraceExpired
  | AuthRunIdMismatch Digest Digest
  | AuthCanonicalJson CanonicalJsonError

definition validity_validate :: "AuthorizationValidityV1 \<Rightarrow> RunAuthorizationError + unit" where
  "validity_validate v =
     (if issued_at_ms v <s 0 \<or> MAX_SAFE_JSON_I64 <s issued_at_ms v
      then Err (InvalidValidity ''issued_at_ms must be a non-negative I-JSON safe integer'')
      else if expires_at_ms v \<le>s issued_at_ms v \<or> MAX_SAFE_JSON_I64 <s expires_at_ms v
      then Err (InvalidValidity ''expires_at_ms must be greater than issued_at_ms and I-JSON safe'')
      else if late_submission_grace_ms v <s 0 \<or> MAX_SAFE_JSON_I64 <s late_submission_grace_ms v \<or>
        (case checked_add_i64 (expires_at_ms v) (late_submission_grace_ms v) of
           None \<Rightarrow> True | Some value \<Rightarrow> MAX_SAFE_JSON_I64 <s value)
      then Err (InvalidValidity ''late_submission_grace_ms must produce an I-JSON safe deadline'')
      else Ok ())"

definition validity_execution_time :: "AuthorizationValidityV1 \<Rightarrow> i64 \<Rightarrow> RunAuthorizationError + unit" where
  "validity_execution_time v now_ms =
     and_also (validity_validate v)
     (if now_ms <s issued_at_ms v then Err NotYetValid
      else if expires_at_ms v <s now_ms then Err Expired
      else Ok ())"

text \<open>The deadline is computed with a plain addition, here with wrap-around.\<close>

definition validity_submission_time :: "AuthorizationValidityV1 \<Rightarrow> i64 \<Rightarrow> RunAuthorizationError + unit" where
  "validity_submission_time v now_ms =
     and_also (validity_validate v)
     (if now_ms <s issued_at_ms v then Err NotYetValid
      else let deadline = expires_at_ms v + late_submission_grace_ms v in
        if deadline <s now_ms then Err SubmissionGraceExpired else Ok ())"

section \<open>Authorization of an immutable run\<close>

record RunAuthorizationV1 =
  authorization_version :: RunAuthorizationVersion
  nonce :: Digest
  subject :: Identifier
  audience :: Identifier
  auth_contract :: DeterministicRunContractV1
  auth_run_id :: Digest
  policy :: ArtifactIdentity
  signing_key_id :: Identifier
  validity :: AuthorizationValidityV1

record SignedRunAuthorizationV1 =
  authorization :: RunAuthorizationV1
  auth_algorithm :: AuthorizationSignatureAlgorithm
  signature :: string

definition serialize_validity :: "AuthorizationValidityV1 \<Rightarrow> serde_value" where
  "serialize_validity v = serde_struct
     [(''issued_at_ms'', SI64 (issued_at_ms v)),
      (''expires_at_ms'', SI64 (expires_at_ms v)),
      (''late_submission_grace_ms'', SI64 (late_submission_grace_ms v))]"

definition serialize_authorization :: "RunAuthorizationV1 \<Rightarrow> serde_value" where
  "serialize_authorization a = serde_struct
     [(''authorization_version'', SString ''pitgun.run-authorization/v1''),
      (''nonce'', serialize_Digest (nonce a)),
      (''subject'', serialize_Identifier (subject a)),
      (''audience'', serialize_Identifier (audience a)),
      (''contract'', serialize_run_contract (auth_contract a)),
      (''run_id'', serialize_Digest (auth_run_id a)),
      (''policy'', serialize_ArtifactIdentity (policy a)),
      (''signing_key_id'', serialize_Identifier (signing_key_id a)),
      (''validity'', serialize_validity (validity a))]"

definition auth_validate_integrity :: "externals \<Rightarrow> RunAuthorizationV1 \<Rightarrow> RunAuthorizationError + unit" where
  "auth_validate_integrity ext a =
     and_also (validity_validate (validity a))
    (and_then (map_err AuthCanonicalJson (run_id ext (auth_contract a))) (\<lambda>expected.
     if auth_run_id a \<noteq> expected then Err (AuthRunIdMismatch expected (auth_run_id a)) else Ok ()))"

definition auth_signing_bytes :: "externals \<Rightarrow> RunAuthorizationV1 \<Rightarrow> RunAuthorizationError + bytes" where
  "auth_signing_bytes ext a =
     and_also (auth_validate_integrity ext a)
       (map_err AuthCanonicalJson (canonical_json_bytes ext (Inr (serialize_authorization a))))"

section \<open>Authorization of a dynamic attempt\<close>

datatype RunAttemptAuthorizationVersion = RunAttemptAuthorizationVersionV1

record RunAttemptAuthorizationV1 =
  attempt_version :: RunAttemptAuthorizationVersion
  attempt_nonce :: Digest
  attempt_execution_id :: ExecutionId
  attempt_subject :: Identifier
  attempt_audience :: Identifier
  initial_contract :: DeterministicRunContractV1
  initial_run_id :: Digest
  decision_envelope :: ArtifactIdentity
  attempt_policy :: ArtifactIdentity
  attempt_signing_key_id :: Identifier
  attempt_validity :: AuthorizationValidityV1

record SignedRunAttemptAuthorizationV1 =
  attempt_authorization :: RunAttemptAuthorizationV1
  attempt_algorithm :: AuthorizationSignatureAlgorithm
  attempt_signature :: string

datatype RunAttemptAuthorizationError =
    AttemptAuthorizationInvalid RunAuthorizationError
  | InitialRunIdMismatch Digest Digest
  | FinalContractSemanticMismatch
  | ExecutionIdMismatch ExecutionId ExecutionId
  | AttemptReceipt RunContractError
  | AttemptCanonicalJson CanonicalJsonError

definition serialize_attempt :: "RunAttemptAuthorizationV1 \<Rightarrow> serde_value" where
  "serialize_attempt a = serde_struct
     [(''authorization_version'', SString ''pitgun.run-attempt-authorization/v1''),
      (''nonce'', serialize_Digest (attempt_nonce a)),
      (''execution_id'', serialize_ExecutionId (attempt_execution_id a)),
      (''subject'', serialize_Identifier (attempt_subject a)),
      (''audience'', serialize_Identifier (attempt_audience a)),
      (''initial_contract'', serialize_run_contract (initial_contract a)),
      (''initial_run_id'', serialize_Digest (initial_run_id a)),
      (''decision_envelope'', serialize_ArtifactIdentity (decision_envelope a)),
      (''policy'', serialize_ArtifactIdentity (attempt_policy a)),
      (''signing_key_id'', serialize_Identifier (attempt_signing_key_id a)),
      (''validity'', serialize_validity (attempt_validity a))]"

definition attempt_validate_integrity ::
    "externals \<Rightarrow> RunAttemptAuthorizationV1 \<Rightarrow> RunAttemptAuthorizationError + unit" where
  "attempt_validate_integrity ext a =
     and_also (map_err AttemptAuthorizationInvalid (validity_validate (attempt_validity a)))
    (and_then (map_err AttemptCanonicalJson (run_id ext (initial_contract a))) (\<lambda>expected.
     if initial_run_id a \<noteq> expected then Err (InitialRunIdMismatch expected (initial_run_id a))
     else Ok ()))"

definition attempt_execution_time ::
    "externals \<Rightarrow> RunAttemptAuthorizationV1 \<Rightarrow> i64 \<Rightarrow> RunAttemptAuthorizationError + unit" where
  "attempt_execution_time ext a now_ms =
     and_also (attempt_validate_integrity ext a)
       (map_err AttemptAuthorizationInvalid (validity_execution_time (attempt_validity a) now_ms))"

definition attempt_submission_time ::
    "externals \<Rightarrow> RunAttemptAuthorizationV1 \<Rightarrow> i64 \<Rightarrow> RunAttemptAuthorizationError + unit" where
  "attempt_submission_time ext a now_ms =
     and_also (attempt_validate_integrity ext a)
       (map_err AttemptAuthorizationInvalid (validity_submission_time (attempt_validity a) now_ms))"

definition attempt_signing_bytes ::
    "externals \<Rightarrow> RunAttemptAuthorizationV1 \<Rightarrow> RunAttemptAuthorizationError + bytes" where
  "attempt_signing_bytes ext a =
     and_also (attempt_validate_integrity ext a)
       (map_err AttemptCanonicalJson (canonical_json_bytes ext (Inr (serialize_attempt a))))"

definition validate_final_contract ::
    "externals \<Rightarrow> RunAttemptAuthorizationV1 \<Rightarrow> DeterministicRunContractV1
       \<Rightarrow> RunAttemptAuthorizationError + unit" where
  "validate_final_contract ext a final_contract =
     and_also (attempt_validate_integrity ext a)
     (if media_type (contract_input final_contract) \<noteq> media_type (contract_input (initial_contract a)) \<or>
         canonicalization (contract_input final_contract) \<noteq>
           canonicalization (contract_input (initial_contract a))
      then Err FinalContractSemanticMismatch
      else let normalized = final_contract\<lparr>contract_input :=
                 (contract_input final_contract)\<lparr>input_digest := input_digest (contract_input (initial_contract a))\<rparr>\<rparr>
        in if normalized \<noteq> initial_contract a then Err FinalContractSemanticMismatch else Ok ())"

definition validate_completed_receipt ::
    "externals \<Rightarrow> RunAttemptAuthorizationV1 \<Rightarrow> DeterministicRunContractV1 \<Rightarrow> ExecutionReceiptV1
       \<Rightarrow> RunAttemptAuthorizationError + unit" where
  "validate_completed_receipt ext a final_contract receipt =
     and_also (validate_final_contract ext a final_contract)
     (if receipt_execution_id receipt \<noteq> attempt_execution_id a
      then Err (ExecutionIdMismatch (attempt_execution_id a) (receipt_execution_id receipt))
      else map_err AttemptReceipt (verify_receipt ext final_contract receipt))"

section \<open>Windows are exact\<close>

text \<open>The window as integers.\<close>

definition window_ok :: "AuthorizationValidityV1 \<Rightarrow> bool" where
  "window_ok v \<longleftrightarrow>
     0 \<le> sint (issued_at_ms v) \<and> sint (issued_at_ms v) < sint (expires_at_ms v) \<and>
     0 \<le> sint (late_submission_grace_ms v) \<and>
     sint (expires_at_ms v) + sint (late_submission_grace_ms v) \<le> 2 ^ 53 - 1"

lemma sint_MAX_SAFE: "sint MAX_SAFE_JSON_I64 = 9007199254740991"
  by (simp add: MAX_SAFE_JSON_I64_def)

lemma sint_add_no_overflow:
  fixes a b :: i64
  assumes "- (2 ^ 63) \<le> sint a + sint b" "sint a + sint b < 2 ^ 63"
  shows "sint (a + b) = sint a + sint b"
  using assms by (simp add: sint_word_ariths signed_take_bit_int_eq_self)

lemma validity_validate_Ok: "validity_validate v = Ok () \<longleftrightarrow> window_ok v"
proof -
  have "sint x < 2 ^ 63" for x :: i64 using sint_lt [of x] by simp
  then show ?thesis
    by (auto simp: validity_validate_def window_ok_def word_sless_alt word_sle_eq sint_MAX_SAFE
        checked_add_i64_def sint_add_no_overflow split: option.splits if_splits)
qed

lemma execution_window_Ok:
  "validity_execution_time v now = Ok () \<longleftrightarrow>
     window_ok v \<and> sint (issued_at_ms v) \<le> sint now \<and> sint now \<le> sint (expires_at_ms v)"
  by (auto simp: validity_execution_time_def result_simps validity_validate_Ok word_sless_alt)

lemma submission_window_Ok:
  "validity_submission_time v now = Ok () \<longleftrightarrow>
     window_ok v \<and> sint (issued_at_ms v) \<le> sint now \<and>
     sint now \<le> sint (expires_at_ms v) + sint (late_submission_grace_ms v)"
proof -
  have "sint (expires_at_ms v + late_submission_grace_ms v) =
      sint (expires_at_ms v) + sint (late_submission_grace_ms v)" if "window_ok v"
    using that by (intro sint_add_no_overflow) (auto simp: window_ok_def)
  then show ?thesis
    by (auto simp: validity_submission_time_def result_simps validity_validate_Ok word_sless_alt Let_def)
qed

text \<open>C14: a new run may start exactly from issuance to expiry, and a result may be submitted exactly
  from issuance to the end of the grace period; the plain addition that computes the deadline cannot
  overflow once the window has been validated, and every instant that admits a start admits a
  submission.\<close>

theorem authorization_windows_exact:
  "(validity_execution_time v now = Ok () \<longleftrightarrow>
      window_ok v \<and> sint (issued_at_ms v) \<le> sint now \<and> sint now \<le> sint (expires_at_ms v)) \<and>
   (validity_submission_time v now = Ok () \<longleftrightarrow>
      window_ok v \<and> sint (issued_at_ms v) \<le> sint now \<and>
      sint now \<le> sint (expires_at_ms v) + sint (late_submission_grace_ms v)) \<and>
   (validity_execution_time v now = Ok () \<longrightarrow> validity_submission_time v now = Ok ())"
  using execution_window_Ok [of v now] submission_window_Ok [of v now] by (auto simp: window_ok_def)

definition sample_validity :: AuthorizationValidityV1 where
  "sample_validity = \<lparr>issued_at_ms = 1000, expires_at_ms = 2000, late_submission_grace_ms = 500\<rparr>"

lemma sample_window: "window_ok sample_validity"
  by (simp add: window_ok_def sample_validity_def)

theorem authorization_windows_exact_witness:
  "validity_execution_time sample_validity 1500 = Ok () \<and> validity_submission_time sample_validity 1500 = Ok ()"
proof -
  have "validity_execution_time sample_validity 1500 = Ok ()"
    using authorization_windows_exact [of sample_validity 1500] sample_window
    by (simp add: sample_validity_def)
  then show ?thesis
    using authorization_windows_exact [of sample_validity 1500] by simp
qed

section \<open>Signed payloads identify what they authorize\<close>

lemma single_variant_auth [simp]:
  "(a :: RunAuthorizationVersion) = b" "(c :: AuthorizationSignatureAlgorithm) = d"
  "(e :: RunAttemptAuthorizationVersion) = f"
  by (metis RunAuthorizationVersion.exhaust, metis AuthorizationSignatureAlgorithm.exhaust,
      metis RunAttemptAuthorizationVersion.exhaust)

lemma jdoc_validity_inject [simp]:
  "jdoc_of (serialize_validity v) = jdoc_of (serialize_validity w) \<longleftrightarrow> v = w"
  by (auto simp: serialize_validity_def jdoc_of_struct_inject)

lemma plain_validity [simp]: "plain (serialize_validity v)"
  unfolding serialize_validity_def by (rule plain_struct; simp)

lemma serialize_authorization_inject:
  "jdoc_of (serialize_authorization a) = jdoc_of (serialize_authorization b) \<longleftrightarrow> a = b"
  by (auto simp: serialize_authorization_def jdoc_of_struct_inject serialize_run_contract_inject)

lemma serialize_attempt_inject:
  "jdoc_of (serialize_attempt a) = jdoc_of (serialize_attempt b) \<longleftrightarrow> a = b"
  by (auto simp: serialize_attempt_def jdoc_of_struct_inject serialize_run_contract_inject)

lemma plain_authorization [simp]: "plain (serialize_authorization a)" "plain (serialize_attempt b)"
  unfolding serialize_authorization_def serialize_attempt_def by (rule plain_struct; simp)+

interpretation authorization_content: content_addressed serialize_authorization
  by unfold_locales (simp_all add: serialize_authorization_inject)

interpretation attempt_content: content_addressed serialize_attempt
  by unfold_locales (simp_all add: serialize_attempt_inject)

lemma auth_integrity_Ok:
  "auth_validate_integrity ext a = Ok () \<longleftrightarrow>
     window_ok (validity a) \<and> run_id ext (auth_contract a) = Ok (auth_run_id a)"
  by (auto simp: auth_validate_integrity_def result_simps validity_validate_Ok)

lemma attempt_integrity_Ok:
  "attempt_validate_integrity ext a = Ok () \<longleftrightarrow>
     window_ok (attempt_validity a) \<and> run_id ext (initial_contract a) = Ok (initial_run_id a)"
  by (auto simp: attempt_validate_integrity_def result_simps validity_validate_Ok)

lemma signing_bytes_identify:
  assumes "jcs_faithful ext" "auth_signing_bytes ext a = Ok b" "auth_signing_bytes ext a' = Ok b"
  shows "a = a'"
  using assms(2,3) authorization_content.bytes_identify [OF assms(1)]
  by (auto simp: auth_signing_bytes_def result_simps)

lemma attempt_signing_bytes_identify:
  assumes "jcs_faithful ext" "attempt_signing_bytes ext a = Ok b" "attempt_signing_bytes ext a' = Ok b"
  shows "a = a'"
  using assms(2,3) attempt_content.bytes_identify [OF assms(1)]
  by (auto simp: attempt_signing_bytes_def result_simps)

section \<open>What a dynamic attempt may change\<close>

definition with_input_digest :: "DeterministicRunContractV1 \<Rightarrow> Digest \<Rightarrow> DeterministicRunContractV1" where
  "with_input_digest c d = c\<lparr>contract_input := (contract_input c)\<lparr>input_digest := d\<rparr>\<rparr>"

lemma validate_final_contract_Ok:
  "validate_final_contract ext a c = Ok () \<longleftrightarrow>
     attempt_validate_integrity ext a = Ok () \<and> (\<exists>d. c = with_input_digest (initial_contract a) d)"
proof
  assume ok: "validate_final_contract ext a c = Ok ()"
  then have "attempt_validate_integrity ext a = Ok ()"
    and norm: "initial_contract a =
      c\<lparr>contract_input := (contract_input c)\<lparr>input_digest := input_digest (contract_input (initial_contract a))\<rparr>\<rparr>"
    by (auto simp: validate_final_contract_def result_simps Let_def split: if_splits)
  moreover have "c = with_input_digest (initial_contract a) (input_digest (contract_input c))"
    by (subst norm) (simp add: with_input_digest_def)
  ultimately show "attempt_validate_integrity ext a = Ok () \<and> (\<exists>d. c = with_input_digest (initial_contract a) d)"
    by blast
next
  assume "attempt_validate_integrity ext a = Ok () \<and> (\<exists>d. c = with_input_digest (initial_contract a) d)"
  then show "validate_final_contract ext a c = Ok ()"
    by (auto simp: validate_final_contract_def with_input_digest_def result_simps Let_def)
qed

text \<open>A completed receipt is accepted for an authorized attempt exactly when the authorization is
  intact, the final contract is the initial contract with at most its input digest replaced, the receipt
  carries the authorized execution id, and it states the run id of the final contract.\<close>

theorem completed_receipt_exact:
  "validate_completed_receipt ext a final receipt = Ok () \<longleftrightarrow>
     window_ok (attempt_validity a) \<and> run_id ext (initial_contract a) = Ok (initial_run_id a) \<and>
     (\<exists>d. final = with_input_digest (initial_contract a) d) \<and>
     receipt_execution_id receipt = attempt_execution_id a \<and>
     run_id ext final = Ok (receipt_run_id receipt)"
  by (auto simp: validate_completed_receipt_def result_simps validate_final_contract_Ok
      attempt_integrity_Ok verify_receipt_def split: if_splits)

end
