(* ===== verification/Driver_Instructions.thy ===== *)
theory Driver_Instructions
  imports Float64 Authorization "HOL-Library.Product_Lexorder"
begin

text \<open>
  \<open>crates/pitgun-racing-contract/src/driver.rs\<close>, \<open>completed_run.rs\<close> and
  \<open>instruction_authorization.rs\<close>: driver resources and control profiles, instruction timelines, the
  completed input of a dynamic session and the decision envelope that bounds it.
\<close>

section \<open>Unicode trimming\<close>

text \<open>\<open>str::trim\<close> on UTF-8 text: the encodings of the characters with the property White Space.\<close>

definition white_space :: "string list" where
  "white_space = map (map char_of)
     ([[9], [10], [11], [12], [13], [32], [0xC2, 0x85], [0xC2, 0xA0], [0xE1, 0x9A, 0x80]] @
      map (\<lambda>b. [0xE2, 0x80, b]) [0x80..<0x8B] @
      [[0xE2, 0x80, 0xA8], [0xE2, 0x80, 0xA9], [0xE2, 0x80, 0xAF], [0xE2, 0x81, 0x9F], [0xE3, 0x80, 0x80 :: nat]])"

function trim_start :: "string \<Rightarrow> string" where
  "trim_start s =
     (case find (\<lambda>w. w \<noteq> [] \<and> prefix w s) white_space of
        None \<Rightarrow> s
      | Some w \<Rightarrow> trim_start (drop (length w) s))"
  by pat_completeness auto
termination
  by (relation "measure length") (auto simp: find_Some_iff prefix_def)

declare trim_start.simps [simp del]

function trim_end :: "string \<Rightarrow> string" where
  "trim_end s =
     (case find (\<lambda>w. w \<noteq> [] \<and> suffix w s) white_space of
        None \<Rightarrow> s
      | Some w \<Rightarrow> trim_end (take (length s - length w) s))"
  by pat_completeness auto
termination
  by (relation "measure length") (auto simp: find_Some_iff suffix_def)

declare trim_end.simps [simp del]

definition trim :: "string \<Rightarrow> string" where
  "trim s = trim_end (trim_start s)"

section \<open>Driver contracts\<close>

datatype RacingDriverResourceVersion = DriverResourceV2
datatype RacingDriverControlProfileVersion = DriverControlProfileV1
datatype RacingDriverInstructionProfileVersion = InstructionProfileV1
datatype RacingDriverInstructionTimelineVersion = InstructionTimelineV1

datatype RacingDrivingMode = Manage | Balanced | Attack

text \<open>The derived \<open>Ord\<close>: declaration order.\<close>

fun mode_rank :: "RacingDrivingMode \<Rightarrow> nat" where
  "mode_rank Manage = 0"
| "mode_rank Balanced = 1"
| "mode_rank Attack = 2"

instantiation RacingDrivingMode :: linorder
begin
definition less_eq_RacingDrivingMode :: "RacingDrivingMode \<Rightarrow> RacingDrivingMode \<Rightarrow> bool" where
  "less_eq_RacingDrivingMode a b \<longleftrightarrow> mode_rank a \<le> mode_rank b"
definition less_RacingDrivingMode :: "RacingDrivingMode \<Rightarrow> RacingDrivingMode \<Rightarrow> bool" where
  "less_RacingDrivingMode a b \<longleftrightarrow> mode_rank a < mode_rank b"
instance
proof
  fix a b :: RacingDrivingMode
  show "a \<le> b \<Longrightarrow> b \<le> a \<Longrightarrow> a = b"
    by (cases a; cases b) (auto simp: less_eq_RacingDrivingMode_def)
qed (auto simp: less_eq_RacingDrivingMode_def less_RacingDrivingMode_def)
end

datatype RacingDriverInstructionBoundaryGranularityV1 = LapStart | Segment

record RacingDriverInstructionProfileV1 =
  profile_schema_version :: RacingDriverInstructionProfileVersion
  default_mode :: RacingDrivingMode
  profile_granularity :: RacingDriverInstructionBoundaryGranularityV1
  profile_max_events :: u16

record RacingDriverInstructionBoundaryV1 =
  lap_index :: u16
  segment_index :: u32

record RacingDriverInstructionEventV1 =
  event_sequence :: u32
  event_competitor :: string
  effective_at :: RacingDriverInstructionBoundaryV1
  event_mode :: RacingDrivingMode

record RacingDriverInstructionTimelineV1 =
  timeline_schema_version :: RacingDriverInstructionTimelineVersion
  timeline_events :: "RacingDriverInstructionEventV1 list"

record RacingDriverTraitsV1 =
  limit_exploitation :: "64 word"
  consistency :: "64 word"
  tire_management :: "64 word"

record RacingDriverResourceV2 =
  driver_schema_version :: RacingDriverResourceVersion
  driver_id :: string
  driver_traits :: RacingDriverTraitsV1

record RacingDrivingModeCommitmentsV1 =
  commit_manage :: "64 word"
  commit_balanced :: "64 word"
  commit_attack :: "64 word"

record RacingDriverUtilizationResponseV1 =
  util_floor :: "64 word"
  util_span :: "64 word"

record RacingDriverControlProfileV1 =
  control_schema_version :: RacingDriverControlProfileVersion
  mode_commitments :: RacingDrivingModeCommitmentsV1
  cornering :: RacingDriverUtilizationResponseV1
  braking :: RacingDriverUtilizationResponseV1
  traction :: RacingDriverUtilizationResponseV1
  base_control_error :: "64 word"
  commitment_error_gain :: "64 word"
  commitment_error_exponent :: "64 word"
  correction_workload_gain :: "64 word"

datatype RacingDriverContractError =
    EmptyDriverId
  | InvalidTrait string
  | InvalidModeCommitments
  | InvalidUtilization string
  | InvalidControlError
  | InvalidCommitmentErrorExponent
  | InvalidCorrectionWorkloadGain
  | InvalidInstructionEventLimit
  | InvalidInstructionValidationContext
  | TooManyInstructionEvents u16 nat
  | NonContiguousInstructionSequence u32 u32
  | EmptyInstructionCompetitor u32
  | UnknownInstructionCompetitor u32 string
  | InstructionBoundaryOutOfRange u32
  | InstructionAtInitialBoundary u32
  | UnsupportedInstructionBoundary u32 RacingDriverInstructionBoundaryGranularityV1
  | DuplicateInstructionBoundary u32 string
  | NonCanonicalInstructionOrder u32

definition validate_unit_trait :: "string \<Rightarrow> 64 word \<Rightarrow> RacingDriverContractError + unit" where
  "validate_unit_trait name v =
     (if \<not> is_finite64 v \<or> \<not> f64_in_range F64_ZERO F64_ONE v then Err (InvalidTrait name) else Ok ())"

definition driver_validate :: "RacingDriverResourceV2 \<Rightarrow> RacingDriverContractError + unit" where
  "driver_validate d =
     (if trim (driver_id d) = [] then Err EmptyDriverId
      else and_also (validate_unit_trait ''limit_exploitation'' (limit_exploitation (driver_traits d)))
          (and_also (validate_unit_trait ''consistency'' (consistency (driver_traits d)))
            (validate_unit_trait ''tire_management'' (tire_management (driver_traits d)))))"

definition instruction_profile_validate ::
    "RacingDriverInstructionProfileV1 \<Rightarrow> RacingDriverContractError + unit" where
  "instruction_profile_validate p =
     (if \<not> (1 \<le> profile_max_events p \<and> profile_max_events p \<le> 4096)
      then Err InvalidInstructionEventLimit else Ok ())"

text \<open>The order of two boundaries: lap first, then segment.\<close>

definition boundary_key :: "RacingDriverInstructionBoundaryV1 \<Rightarrow> nat \<times> nat" where
  "boundary_key b = (unat (lap_index b), unat (segment_index b))"

definition boundary_less ::
    "RacingDriverInstructionBoundaryV1 \<Rightarrow> RacingDriverInstructionBoundaryV1 \<Rightarrow> bool" where
  "boundary_less a b \<longleftrightarrow>
     lap_index a < lap_index b \<or> (lap_index a = lap_index b \<and> segment_index a < segment_index b)"

text \<open>The checks of one event, and of its place after the previous event.\<close>

definition check_event ::
    "RacingDriverInstructionProfileV1 \<Rightarrow> string set \<Rightarrow> u16 \<Rightarrow> u32 \<Rightarrow> nat \<Rightarrow>
       RacingDriverInstructionEventV1 \<Rightarrow> RacingDriverContractError + unit" where
  "check_event prof competitor_ids lap_count segment_count index e =
     (if 2 ^ 32 \<le> index then Err InvalidInstructionEventLimit
      else if event_sequence e \<noteq> of_nat index
      then Err (NonContiguousInstructionSequence (of_nat index) (event_sequence e))
      else if trim (event_competitor e) = [] then Err (EmptyInstructionCompetitor (event_sequence e))
      else if event_competitor e \<notin> competitor_ids
      then Err (UnknownInstructionCompetitor (event_sequence e) (event_competitor e))
      else if lap_count \<le> lap_index (effective_at e) \<or> segment_count \<le> segment_index (effective_at e)
      then Err (InstructionBoundaryOutOfRange (event_sequence e))
      else if lap_index (effective_at e) = 0 \<and> segment_index (effective_at e) = 0
      then Err (InstructionAtInitialBoundary (event_sequence e))
      else if profile_granularity prof = LapStart \<and> segment_index (effective_at e) \<noteq> 0
      then Err (UnsupportedInstructionBoundary (event_sequence e) (profile_granularity prof))
      else Ok ())"

fun check_order ::
    "(RacingDriverInstructionBoundaryV1 \<times> string) option \<Rightarrow> RacingDriverInstructionEventV1
       \<Rightarrow> RacingDriverContractError + unit" where
  "check_order None e = Ok ()"
| "check_order (Some (boundary, competitor)) e =
     (if boundary_less (effective_at e) boundary then Err (NonCanonicalInstructionOrder (event_sequence e))
      else if effective_at e = boundary
      then (if event_competitor e < competitor then Err (NonCanonicalInstructionOrder (event_sequence e))
            else if event_competitor e = competitor
            then Err (DuplicateInstructionBoundary (event_sequence e) (event_competitor e))
            else Ok ())
      else Ok ())"

fun check_events ::
    "RacingDriverInstructionProfileV1 \<Rightarrow> string set \<Rightarrow> u16 \<Rightarrow> u32 \<Rightarrow> nat \<Rightarrow>
       (RacingDriverInstructionBoundaryV1 \<times> string) option \<Rightarrow> RacingDriverInstructionEventV1 list
       \<Rightarrow> RacingDriverContractError + unit" where
  "check_events prof ids laps segments index previous [] = Ok ()"
| "check_events prof ids laps segments index previous (e # es) =
     and_also (check_event prof ids laps segments index e)
    (and_also (check_order previous e)
      (check_events prof ids laps segments (Suc index) (Some (effective_at e, event_competitor e)) es))"

definition validate_for_session ::
    "RacingDriverInstructionTimelineV1 \<Rightarrow> RacingDriverInstructionProfileV1 \<Rightarrow> string set \<Rightarrow> u16 \<Rightarrow> u32
       \<Rightarrow> RacingDriverContractError + unit" where
  "validate_for_session timeline prof competitor_ids lap_count segment_count =
     and_also (instruction_profile_validate prof)
     (if competitor_ids = {} \<or> lap_count = 0 \<or> segment_count = 0
      then Err InvalidInstructionValidationContext
      else if unat (profile_max_events prof) < length (timeline_events timeline)
      then Err (TooManyInstructionEvents (profile_max_events prof) (length (timeline_events timeline)))
      else check_events prof competitor_ids lap_count segment_count 0 None (timeline_events timeline))"

definition validate_utilization ::
    "string \<Rightarrow> RacingDriverUtilizationResponseV1 \<Rightarrow> RacingDriverContractError + unit" where
  "validate_utilization channel r =
     (if \<not> is_finite64 (util_floor r) \<or> \<not> is_finite64 (util_span r) \<or>
         \<not> f64_in_range F64_HALF F64_ONE (util_floor r) \<or> f64_lt (util_span r) F64_ZERO \<or>
         f64_sum_exceeds (util_floor r) (util_span r) F64_ONE
      then Err (InvalidUtilization channel) else Ok ())"

definition control_profile_validate ::
    "RacingDriverControlProfileV1 \<Rightarrow> RacingDriverContractError + unit" where
  "control_profile_validate p =
     (let modes = mode_commitments p
      in if \<not> (list_all (\<lambda>v. is_finite64 v \<and> f64_in_range F64_ZERO F64_ONE v)
                 [commit_manage modes, commit_balanced modes, commit_attack modes] \<and>
               f64_lt (commit_manage modes) (commit_balanced modes) \<and>
               f64_lt (commit_balanced modes) (commit_attack modes))
         then Err InvalidModeCommitments
         else and_also (validate_utilization ''cornering'' (cornering p))
             (and_also (validate_utilization ''braking'' (braking p))
             (and_also (validate_utilization ''traction'' (traction p))
             (if \<not> is_finite64 (base_control_error p) \<or> \<not> is_finite64 (commitment_error_gain p) \<or>
                 f64_lt (base_control_error p) F64_ZERO \<or> f64_lt (commitment_error_gain p) F64_ZERO \<or>
                 f64_sum_exceeds (base_control_error p) (commitment_error_gain p) F64_QUARTER
              then Err InvalidControlError
              else if \<not> is_finite64 (commitment_error_exponent p) \<or>
                 \<not> f64_in_range F64_ONE F64_FOUR (commitment_error_exponent p)
              then Err InvalidCommitmentErrorExponent
              else if \<not> is_finite64 (correction_workload_gain p) \<or>
                 \<not> f64_in_range F64_ZERO F64_TEN (correction_workload_gain p)
              then Err InvalidCorrectionWorkloadGain
              else Ok ()))))"

fun commitment_for :: "RacingDriverControlProfileV1 \<Rightarrow> RacingDrivingMode \<Rightarrow> 64 word" where
  "commitment_for p Manage = commit_manage (mode_commitments p)"
| "commitment_for p Balanced = commit_balanced (mode_commitments p)"
| "commitment_for p Attack = commit_attack (mode_commitments p)"

section \<open>Completed runs\<close>

datatype RacingCompletedRunInputVersion = CompletedRunInputV1

record RacingCompletedDriverInstructionHistoryV1 =
  history_profile :: ArtifactIdentity
  history_initial_mode :: RacingDrivingMode
  history_competitors :: "string list"
  applied_timeline :: RacingDriverInstructionTimelineV1

record RacingCompletedRunInputV1 =
  completed_schema_version :: RacingCompletedRunInputVersion
  completed_authorized_input :: InputIdentity
  driver_instructions :: RacingCompletedDriverInstructionHistoryV1

datatype RacingCompletedRunError =
    CompletedAuthorizedInputMismatch
  | CompletedProfileIdentityMismatch
  | CompletedEmptyCompetitorSet
  | CompletedInvalidCompetitorId nat
  | CompletedNonCanonicalCompetitorOrder nat
  | InitialModeMismatch RacingDrivingMode RacingDrivingMode
  | DriverContract RacingDriverContractError
  | CompletedCanonicalJson CanonicalJsonError

text \<open>The loop over competitor ids: the index, the previous id, and the constructors of the errors,
  which \<open>completed_run.rs\<close> and \<open>instruction_authorization.rs\<close> spell separately.\<close>

fun check_competitors ::
    "(nat \<Rightarrow> 'e) \<Rightarrow> (nat \<Rightarrow> 'e) \<Rightarrow> nat \<Rightarrow> string option \<Rightarrow> string list \<Rightarrow> 'e + unit" where
  "check_competitors invalid order index previous [] = Ok ()"
| "check_competitors invalid order index previous (c # cs) =
     (if c = [] \<or> trim c \<noteq> c then Err (invalid index)
      else if (case previous of None \<Rightarrow> False | Some q \<Rightarrow> c \<le> q) then Err (order index)
      else check_competitors invalid order (Suc index) (Some c) cs)"

definition canonical_competitor_set :: "string list \<Rightarrow> RacingCompletedRunError + string set" where
  "canonical_competitor_set ids =
     (if ids = [] then Err CompletedEmptyCompetitorSet
      else and_also (check_competitors CompletedInvalidCompetitorId CompletedNonCanonicalCompetitorOrder 0 None ids)
        (Ok (set ids)))"

definition completed_validate ::
    "RacingCompletedRunInputV1 \<Rightarrow> DeterministicRunContractV1 \<Rightarrow> ArtifactIdentity
       \<Rightarrow> RacingDriverInstructionProfileV1 \<Rightarrow> u16 \<Rightarrow> u32 \<Rightarrow> RacingCompletedRunError + unit" where
  "completed_validate c initial profile_identity prof lap_count segment_count =
     (if completed_authorized_input c \<noteq> contract_input initial then Err CompletedAuthorizedInputMismatch
      else if history_profile (driver_instructions c) \<noteq> profile_identity then Err CompletedProfileIdentityMismatch
      else if history_initial_mode (driver_instructions c) \<noteq> default_mode prof
      then Err (InitialModeMismatch (default_mode prof) (history_initial_mode (driver_instructions c)))
      else and_then (canonical_competitor_set (history_competitors (driver_instructions c))) (\<lambda>ids.
           map_err DriverContract
             (validate_for_session (applied_timeline (driver_instructions c)) prof ids lap_count segment_count)))"

fun serialize_mode :: "RacingDrivingMode \<Rightarrow> serde_value" where
  "serialize_mode Manage = SString ''manage''"
| "serialize_mode Balanced = SString ''balanced''"
| "serialize_mode Attack = SString ''attack''"

fun serialize_granularity :: "RacingDriverInstructionBoundaryGranularityV1 \<Rightarrow> serde_value" where
  "serialize_granularity LapStart = SString ''lap_start''"
| "serialize_granularity Segment = SString ''segment''"

definition serialize_boundary :: "RacingDriverInstructionBoundaryV1 \<Rightarrow> serde_value" where
  "serialize_boundary b = serde_struct
     [(''lap_index'', SU16 (lap_index b)), (''segment_index'', SU32 (segment_index b))]"

definition serialize_instruction :: "RacingDriverInstructionEventV1 \<Rightarrow> serde_value" where
  "serialize_instruction e = serde_struct
     [(''sequence'', SU32 (event_sequence e)),
      (''competitor_id'', SString (event_competitor e)),
      (''effective_at'', serialize_boundary (effective_at e)),
      (''mode'', serialize_mode (event_mode e))]"

definition serialize_timeline :: "RacingDriverInstructionTimelineV1 \<Rightarrow> serde_value" where
  "serialize_timeline t = serde_struct
     [(''schema_version'', SString ''pitgun.racing-driver-instruction-timeline/v1''),
      (''events'', SSeq (map serialize_instruction (timeline_events t)))]"

definition serialize_history :: "RacingCompletedDriverInstructionHistoryV1 \<Rightarrow> serde_value" where
  "serialize_history h = serde_struct
     [(''instruction_profile'', serialize_ArtifactIdentity (history_profile h)),
      (''initial_mode'', serialize_mode (history_initial_mode h)),
      (''competitor_ids'', SSeq (map SString (history_competitors h))),
      (''applied_timeline'', serialize_timeline (applied_timeline h))]"

definition serialize_completed :: "RacingCompletedRunInputV1 \<Rightarrow> serde_value" where
  "serialize_completed c = serde_struct
     [(''schema_version'', SString ''pitgun.racing-completed-run-input/v1''),
      (''authorized_input'', serialize_InputIdentity (completed_authorized_input c)),
      (''driver_instructions'', serialize_history (driver_instructions c))]"

definition final_contract ::
    "externals \<Rightarrow> RacingCompletedRunInputV1 \<Rightarrow> DeterministicRunContractV1 \<Rightarrow> ArtifactIdentity
       \<Rightarrow> RacingDriverInstructionProfileV1 \<Rightarrow> u16 \<Rightarrow> u32
       \<Rightarrow> RacingCompletedRunError + DeterministicRunContractV1" where
  "final_contract ext c initial profile_identity prof lap_count segment_count =
     and_also (completed_validate c initial profile_identity prof lap_count segment_count)
    (and_then (map_err CompletedCanonicalJson (canonical_json_digest ext (Inr (serialize_completed c)))) (\<lambda>d.
     Ok (initial\<lparr>contract_input := \<lparr>media_type = ApplicationJson, canonicalization = JcsRfc8785,
                                    input_digest = d\<rparr>\<rparr>)))"

definition final_run_id ::
    "externals \<Rightarrow> RacingCompletedRunInputV1 \<Rightarrow> DeterministicRunContractV1 \<Rightarrow> ArtifactIdentity
       \<Rightarrow> RacingDriverInstructionProfileV1 \<Rightarrow> u16 \<Rightarrow> u32 \<Rightarrow> RacingCompletedRunError + Digest" where
  "final_run_id ext c initial profile_identity prof lap_count segment_count =
     and_then (final_contract ext c initial profile_identity prof lap_count segment_count) (\<lambda>final.
     map_err CompletedCanonicalJson (run_id ext final))"

section \<open>Decision envelopes\<close>

datatype RacingDriverInstructionAuthorizationVersion = InstructionAuthorizationV1

definition RACING_DRIVER_INSTRUCTION_AUTHORIZATION_ID :: string where
  "RACING_DRIVER_INSTRUCTION_AUTHORIZATION_ID = ''pitgun.racing-driver-instruction-authorization''"

definition RACING_DRIVER_INSTRUCTION_AUTHORIZATION_VERSION :: string where
  "RACING_DRIVER_INSTRUCTION_AUTHORIZATION_VERSION = ''1.0.0''"

record RacingDriverInstructionAuthorizationV1 =
  envelope_schema_version :: RacingDriverInstructionAuthorizationVersion
  envelope_authorized_input :: InputIdentity
  envelope_profile :: ArtifactIdentity
  allowed_modes :: "RacingDrivingMode list"
  envelope_granularity :: RacingDriverInstructionBoundaryGranularityV1
  envelope_max_events :: u16
  envelope_competitors :: "string list"
  envelope_lap_count :: u16
  envelope_segment_count :: u32

datatype RacingInstructionAuthorizationError =
    DecisionEnvelopeIdentityMismatch
  | EnvelopeAuthorizedInputMismatch
  | EnvelopeProfileIdentityMismatch
  | EmptyAllowedModes
  | NonCanonicalAllowedModes nat
  | DefaultModeNotAllowed RacingDrivingMode
  | BoundaryGranularityMismatch
  | InvalidEventLimit
  | EnvelopeEmptyCompetitorSet
  | EnvelopeInvalidCompetitorId nat
  | EnvelopeNonCanonicalCompetitorOrder nat
  | InvalidSessionDimensions
  | CompletedCompetitorSetMismatch
  | DisallowedInstructionMode u32 RacingDrivingMode
  | EnvelopeProfile RacingDriverContractError
  | CompletedInput RacingCompletedRunError
  | EnvelopeAttempt RunAttemptAuthorizationError
  | EnvelopeIdentity RunContractError
  | EnvelopeCanonicalJson CanonicalJsonError

fun check_modes :: "nat \<Rightarrow> RacingDrivingMode list \<Rightarrow> RacingInstructionAuthorizationError + unit" where
  "check_modes index (a # b # ms) =
     (if b \<le> a then Err (NonCanonicalAllowedModes index) else check_modes (Suc index) (b # ms))"
| "check_modes index ms = Ok ()"

definition validate_modes :: "RacingDrivingMode list \<Rightarrow> RacingInstructionAuthorizationError + unit" where
  "validate_modes modes = (if modes = [] then Err EmptyAllowedModes else check_modes 1 modes)"

definition validate_competitors :: "string list \<Rightarrow> RacingInstructionAuthorizationError + unit" where
  "validate_competitors ids =
     (if ids = [] then Err EnvelopeEmptyCompetitorSet
      else check_competitors EnvelopeInvalidCompetitorId EnvelopeNonCanonicalCompetitorOrder 0 None ids)"

definition serialize_envelope :: "RacingDriverInstructionAuthorizationV1 \<Rightarrow> serde_value" where
  "serialize_envelope v = serde_struct
     [(''schema_version'', SString ''pitgun.racing-driver-instruction-authorization/v1''),
      (''authorized_input'', serialize_InputIdentity (envelope_authorized_input v)),
      (''instruction_profile'', serialize_ArtifactIdentity (envelope_profile v)),
      (''allowed_modes'', SSeq (map serialize_mode (allowed_modes v))),
      (''boundary_granularity'', serialize_granularity (envelope_granularity v)),
      (''max_events_per_session'', SU16 (envelope_max_events v)),
      (''competitor_ids'', SSeq (map SString (envelope_competitors v))),
      (''lap_count'', SU16 (envelope_lap_count v)),
      (''segment_count'', SU32 (envelope_segment_count v))]"

definition artifact_identity ::
    "externals \<Rightarrow> RacingDriverInstructionAuthorizationV1
       \<Rightarrow> RacingInstructionAuthorizationError + ArtifactIdentity" where
  "artifact_identity ext v =
     and_then (map_err EnvelopeIdentity (identifier_new RACING_DRIVER_INSTRUCTION_AUTHORIZATION_ID)) (\<lambda>i.
     and_then (map_err EnvelopeIdentity
       (semantic_version_new ext RACING_DRIVER_INSTRUCTION_AUTHORIZATION_VERSION)) (\<lambda>version.
     and_then (map_err EnvelopeCanonicalJson (canonical_json_digest ext (Inr (serialize_envelope v)))) (\<lambda>d.
     Ok \<lparr>artifact_id = i, artifact_version = version, artifact_content_digest = d\<rparr>)))"

definition envelope_validate ::
    "RacingDriverInstructionAuthorizationV1 \<Rightarrow> DeterministicRunContractV1 \<Rightarrow> ArtifactIdentity
       \<Rightarrow> RacingDriverInstructionProfileV1 \<Rightarrow> RacingInstructionAuthorizationError + unit" where
  "envelope_validate v initial profile_identity prof =
     and_also (map_err EnvelopeProfile (instruction_profile_validate prof))
     (if envelope_authorized_input v \<noteq> contract_input initial then Err EnvelopeAuthorizedInputMismatch
      else if envelope_profile v \<noteq> profile_identity then Err EnvelopeProfileIdentityMismatch
      else and_also (validate_modes (allowed_modes v))
       (if default_mode prof \<notin> set (allowed_modes v) then Err (DefaultModeNotAllowed (default_mode prof))
        else if envelope_granularity v \<noteq> profile_granularity prof then Err BoundaryGranularityMismatch
        else if envelope_max_events v = 0 \<or> profile_max_events prof < envelope_max_events v
        then Err InvalidEventLimit
        else and_also (validate_competitors (envelope_competitors v))
         (if envelope_lap_count v = 0 \<or> envelope_segment_count v = 0
          then Err InvalidSessionDimensions else Ok ())))"

definition narrowed_profile ::
    "RacingDriverInstructionAuthorizationV1 \<Rightarrow> RacingDriverInstructionProfileV1 \<Rightarrow> RacingDriverInstructionProfileV1" where
  "narrowed_profile v prof =
     \<lparr>profile_schema_version = profile_schema_version prof, default_mode = default_mode prof,
      profile_granularity = envelope_granularity v, profile_max_events = envelope_max_events v\<rparr>"

definition validate_completed_input ::
    "RacingDriverInstructionAuthorizationV1 \<Rightarrow> RacingCompletedRunInputV1 \<Rightarrow> DeterministicRunContractV1
       \<Rightarrow> ArtifactIdentity \<Rightarrow> RacingDriverInstructionProfileV1 \<Rightarrow> RacingInstructionAuthorizationError + unit" where
  "validate_completed_input v c initial profile_identity prof =
     and_also (envelope_validate v initial profile_identity prof)
    (and_also (map_err CompletedInput
       (completed_validate c initial profile_identity (narrowed_profile v prof)
          (envelope_lap_count v) (envelope_segment_count v)))
     (if history_competitors (driver_instructions c) \<noteq> envelope_competitors v
      then Err CompletedCompetitorSetMismatch
      else try_each (\<lambda>e. if event_mode e \<notin> set (allowed_modes v)
             then Err (DisallowedInstructionMode (event_sequence e) (event_mode e)) else Ok ())
           (timeline_events (applied_timeline (driver_instructions c)))))"

definition validate_attempt_authorization ::
    "externals \<Rightarrow> RacingDriverInstructionAuthorizationV1 \<Rightarrow> RunAttemptAuthorizationV1 \<Rightarrow> ArtifactIdentity
       \<Rightarrow> RacingDriverInstructionProfileV1 \<Rightarrow> RacingInstructionAuthorizationError + unit" where
  "validate_attempt_authorization ext v attempt profile_identity prof =
     and_also (map_err EnvelopeAttempt (attempt_validate_integrity ext attempt))
    (and_then (artifact_identity ext v) (\<lambda>identity.
     if decision_envelope attempt \<noteq> identity then Err DecisionEnvelopeIdentityMismatch
     else envelope_validate v (initial_contract attempt) profile_identity prof))"

definition final_contract_for_attempt ::
    "externals \<Rightarrow> RacingDriverInstructionAuthorizationV1 \<Rightarrow> RunAttemptAuthorizationV1
       \<Rightarrow> RacingCompletedRunInputV1 \<Rightarrow> ArtifactIdentity \<Rightarrow> RacingDriverInstructionProfileV1
       \<Rightarrow> RacingInstructionAuthorizationError + DeterministicRunContractV1" where
  "final_contract_for_attempt ext v attempt completed profile_identity prof =
     and_also (validate_attempt_authorization ext v attempt profile_identity prof)
    (and_also (validate_completed_input v completed (initial_contract attempt) profile_identity prof)
    (and_then (map_err CompletedInput
       (final_contract ext completed (initial_contract attempt) profile_identity prof
          (envelope_lap_count v) (envelope_segment_count v))) (\<lambda>final.
     and_also (map_err EnvelopeAttempt (validate_final_contract ext attempt final)) (Ok final))))"

section \<open>Canonical timelines\<close>

definition event_key :: "RacingDriverInstructionEventV1 \<Rightarrow> (nat \<times> nat) \<times> string" where
  "event_key e = (boundary_key (effective_at e), event_competitor e)"

definition event_ok ::
    "RacingDriverInstructionProfileV1 \<Rightarrow> string set \<Rightarrow> u16 \<Rightarrow> u32 \<Rightarrow> RacingDriverInstructionEventV1 \<Rightarrow> bool" where
  "event_ok prof ids laps segments e \<longleftrightarrow>
     trim (event_competitor e) \<noteq> [] \<and> event_competitor e \<in> ids \<and>
     lap_index (effective_at e) < laps \<and> segment_index (effective_at e) < segments \<and>
     boundary_key (effective_at e) \<noteq> (0, 0) \<and>
     (profile_granularity prof = Segment \<or> segment_index (effective_at e) = 0)"

definition timeline_ok ::
    "RacingDriverInstructionProfileV1 \<Rightarrow> string set \<Rightarrow> u16 \<Rightarrow> u32 \<Rightarrow> RacingDriverInstructionEventV1 list \<Rightarrow> bool" where
  "timeline_ok prof ids laps segments es \<longleftrightarrow>
     (\<forall>e \<in> set es. event_ok prof ids laps segments e) \<and>
     map event_sequence es = map of_nat [0..<length es] \<and>
     sorted_wrt (<) (map event_key es)"

lemma boundary_key_simps:
  "boundary_less a b \<longleftrightarrow> boundary_key a < boundary_key b" "boundary_key a = boundary_key b \<longleftrightarrow> a = b"
  by (auto simp: boundary_less_def boundary_key_def less_prod_def' word_less_nat_alt
      word_unat_eq_iff [symmetric] intro!: RacingDriverInstructionBoundaryV1.equality)

lemma check_event_Ok:
  "check_event prof ids laps segments i e = Ok () \<longleftrightarrow>
     i < 2 ^ 32 \<and> event_sequence e = of_nat i \<and> event_ok prof ids laps segments e"
  by (cases "profile_granularity prof")
     (auto simp: check_event_def event_ok_def boundary_key_def unat_eq_zero not_le split: if_splits)

lemma check_order_Ok:
  "check_order previous e = Ok () \<longleftrightarrow>
     (case previous of None \<Rightarrow> True | Some (b, c) \<Rightarrow> (boundary_key b, c) < event_key e)"
proof (cases previous)
  case (Some q)
  then obtain b c where "previous = Some (b, c)" by (cases q) auto
  then show ?thesis
    using less_linear [of "boundary_key (effective_at e)" "boundary_key b"] less_linear [of "event_competitor e" c]
    by (auto simp: event_key_def less_prod_def' boundary_key_simps(1) boundary_key_simps(2) [symmetric])
qed simp

lemma check_events_Ok:
  "i + length es \<le> 2 ^ 32 \<Longrightarrow>
   check_events prof ids laps segments i previous es = Ok () \<longleftrightarrow>
     (\<forall>e \<in> set es. event_ok prof ids laps segments e) \<and>
     map event_sequence es = map of_nat [i..<i + length es] \<and>
     sorted_wrt (<) ((case previous of None \<Rightarrow> [] | Some (b, c) \<Rightarrow> [(boundary_key b, c)]) @ map event_key es)"
proof (induction es arbitrary: i previous)
  case Nil
  show ?case by (auto split: option.splits)
next
  case (Cons e es)
  have i: "i < 2 ^ 32" using Cons.prems by simp
  have up: "[i..<i + length (e # es)] = i # [Suc i..<Suc i + length es]"
    by (simp add: upt_conv_Cons del: upt_Suc)
  have order: "sorted_wrt (<) ((case previous of None \<Rightarrow> [] | Some (b, c) \<Rightarrow> [(boundary_key b, c)]) @ event_key e # ks)
     \<longleftrightarrow> check_order previous e = Ok () \<and> sorted_wrt (<) (event_key e # ks)" for ks
    by (auto simp: check_order_Ok split: option.splits dest: less_trans)
  have key: "(boundary_key (effective_at e), event_competitor e) = event_key e"
    by (simp add: event_key_def)
  have "check_events prof ids laps segments (Suc i) (Some (effective_at e, event_competitor e)) es = Ok () \<longleftrightarrow>
     (\<forall>e \<in> set es. event_ok prof ids laps segments e) \<and>
     map event_sequence es = map of_nat [Suc i..<Suc i + length es] \<and>
     sorted_wrt (<) (event_key e # map event_key es)"
    using Cons.IH [of "Suc i" "Some (effective_at e, event_competitor e)"] Cons.prems by (simp add: key del: upt_Suc)
  then show ?case
    unfolding up list.map(2) order check_events.simps
    using i by (auto simp: result_simps check_event_Ok simp del: upt_Suc sorted_wrt.simps)
qed

lemma validate_for_session_Ok:
  "validate_for_session t prof ids laps segments = Ok () \<longleftrightarrow>
     unat (profile_max_events prof) \<in> {1..4096} \<and> ids \<noteq> {} \<and> 0 < laps \<and> 0 < segments \<and>
     length (timeline_events t) \<le> unat (profile_max_events prof) \<and>
     timeline_ok prof ids laps segments (timeline_events t)"
proof (cases "unat (profile_max_events prof) \<in> {1..4096} \<and> length (timeline_events t) \<le> unat (profile_max_events prof)")
  case True
  then have "0 + length (timeline_events t) \<le> 2 ^ 32" by simp
  from check_events_Ok [OF this] True show ?thesis
    by (auto simp: validate_for_session_def instruction_profile_validate_def timeline_ok_def result_simps
        word_le_nat_alt word_neq_0_conv)
next
  case False
  then show ?thesis
    by (auto simp: validate_for_session_def instruction_profile_validate_def result_simps word_le_nat_alt)
qed

text \<open>A timeline is accepted for a session exactly when the profile allows between 1 and 4096 events, the
  session has competitors, laps and segments, and the events, at most as many as the profile allows, are
  numbered from zero without a gap, name known competitors, lie at supported boundaries inside the session
  after its start, and are strictly ordered by boundary and then by competitor.\<close>

theorem validate_for_session_exact:
  "validate_for_session t prof ids laps segments = Ok () \<longleftrightarrow>
     unat (profile_max_events prof) \<in> {1..4096} \<and> ids \<noteq> {} \<and> 0 < laps \<and> 0 < segments \<and>
     length (timeline_events t) \<le> unat (profile_max_events prof) \<and>
     timeline_ok prof ids laps segments (timeline_events t)"
  by (rule validate_for_session_Ok)

section \<open>Completed inputs and decision envelopes\<close>

definition canonical_ids :: "string list \<Rightarrow> bool" where
  "canonical_ids ids \<longleftrightarrow> ids \<noteq> [] \<and> (\<forall>c \<in> set ids. c \<noteq> [] \<and> trim c = c) \<and> sorted_wrt (<) ids"

lemma check_competitors_Ok:
  "check_competitors invalid order i previous cs = Ok () \<longleftrightarrow>
     (\<forall>c \<in> set cs. c \<noteq> [] \<and> trim c = c) \<and>
     sorted_wrt (<) ((case previous of None \<Rightarrow> [] | Some q \<Rightarrow> [q]) @ cs)"
proof (induction cs arbitrary: i previous)
  case Nil
  show ?case by (simp split: option.splits)
next
  case (Cons c cs)
  have "sorted_wrt (<) ((case previous of None \<Rightarrow> [] | Some q \<Rightarrow> [q]) @ c # cs) \<longleftrightarrow>
     \<not> (case previous of None \<Rightarrow> False | Some q \<Rightarrow> c \<le> q) \<and> sorted_wrt (<) (c # cs)"
    by (auto split: option.splits dest: less_trans)
  then show ?case
    using Cons.IH [of "Suc i" "Some c"] by (simp del: sorted_wrt.simps)
qed

lemma check_modes_Ok: "check_modes i ms = Ok () \<longleftrightarrow> sorted_wrt (<) ms"
  by (induction i ms rule: check_modes.induct) (auto dest: less_trans)

lemma canonical_competitor_set_Ok: "canonical_competitor_set ids = Ok S \<longleftrightarrow> canonical_ids ids \<and> S = set ids"
  by (auto simp: canonical_competitor_set_def canonical_ids_def check_competitors_Ok result_simps)

lemma validate_competitors_Ok: "validate_competitors ids = Ok () \<longleftrightarrow> canonical_ids ids"
  by (simp add: validate_competitors_def canonical_ids_def check_competitors_Ok)

lemma validate_modes_Ok: "validate_modes ms = Ok () \<longleftrightarrow> ms \<noteq> [] \<and> sorted_wrt (<) ms"
  by (simp add: validate_modes_def check_modes_Ok)

lemma completed_validate_Ok:
  "completed_validate c initial pid prof laps segments = Ok () \<longleftrightarrow>
     completed_authorized_input c = contract_input initial \<and>
     history_profile (driver_instructions c) = pid \<and>
     history_initial_mode (driver_instructions c) = default_mode prof \<and>
     canonical_ids (history_competitors (driver_instructions c)) \<and>
     validate_for_session (applied_timeline (driver_instructions c)) prof
       (set (history_competitors (driver_instructions c))) laps segments = Ok ()"
  by (auto simp: completed_validate_def result_simps canonical_competitor_set_Ok split: if_splits)

definition envelope_ok ::
    "RacingDriverInstructionAuthorizationV1 \<Rightarrow> DeterministicRunContractV1 \<Rightarrow> ArtifactIdentity
       \<Rightarrow> RacingDriverInstructionProfileV1 \<Rightarrow> bool" where
  "envelope_ok v initial pid prof \<longleftrightarrow>
     unat (profile_max_events prof) \<in> {1..4096} \<and>
     envelope_authorized_input v = contract_input initial \<and> envelope_profile v = pid \<and>
     sorted_wrt (<) (allowed_modes v) \<and> default_mode prof \<in> set (allowed_modes v) \<and>
     envelope_granularity v = profile_granularity prof \<and>
     0 < envelope_max_events v \<and> envelope_max_events v \<le> profile_max_events prof \<and>
     canonical_ids (envelope_competitors v) \<and> 0 < envelope_lap_count v \<and> 0 < envelope_segment_count v"

lemma envelope_validate_Ok: "envelope_validate v initial pid prof = Ok () \<longleftrightarrow> envelope_ok v initial pid prof"
proof -
  have "instruction_profile_validate prof = Ok () \<longleftrightarrow> unat (profile_max_events prof) \<in> {1..4096}"
    by (auto simp: instruction_profile_validate_def word_le_nat_alt)
  moreover have "default_mode prof \<in> set (allowed_modes v) \<Longrightarrow> allowed_modes v \<noteq> []" by auto
  ultimately show ?thesis
    by (auto simp: envelope_validate_def envelope_ok_def result_simps validate_modes_Ok
        validate_competitors_Ok word_neq_0_conv not_less)
qed

text \<open>What the completed history of a session may contain under an envelope.\<close>

definition decisions_ok :: "RacingDriverInstructionAuthorizationV1 \<Rightarrow> RacingCompletedDriverInstructionHistoryV1 \<Rightarrow> bool" where
  "decisions_ok v h \<longleftrightarrow>
     history_competitors h = envelope_competitors v \<and>
     length (timeline_events (applied_timeline h)) \<le> unat (envelope_max_events v) \<and>
     (\<forall>e \<in> set (timeline_events (applied_timeline h)). event_mode e \<in> set (allowed_modes v))"

lemma timeline_ok_granularity:
  "profile_granularity p = profile_granularity q \<Longrightarrow>
     timeline_ok p ids laps segments es = timeline_ok q ids laps segments es"
  by (simp add: timeline_ok_def event_ok_def)

lemma narrowed_profile_simps [simp]:
  "default_mode (narrowed_profile v prof) = default_mode prof"
  "profile_max_events (narrowed_profile v prof) = envelope_max_events v"
  "profile_granularity (narrowed_profile v prof) = envelope_granularity v"
  by (simp_all add: narrowed_profile_def)

lemma validate_completed_input_Ok:
  "validate_completed_input v c initial pid prof = Ok () \<longleftrightarrow>
     envelope_ok v initial pid prof \<and> decisions_ok v (driver_instructions c) \<and>
     completed_validate c initial pid prof (envelope_lap_count v) (envelope_segment_count v) = Ok ()"
proof (cases "envelope_ok v initial pid prof")
  case True
  have modes: "try_each (\<lambda>e. if event_mode e \<notin> set (allowed_modes v)
       then Err (DisallowedInstructionMode (event_sequence e) (event_mode e)) else Ok ()) es = Ok ()
     \<longleftrightarrow> (\<forall>e \<in> set es. event_mode e \<in> set (allowed_modes v))" for es
    by (induction es) (auto simp: result_simps)
  have gran: "timeline_ok (narrowed_profile v prof) ids laps segments es = timeline_ok prof ids laps segments es"
    for ids laps segments es
    using True by (intro timeline_ok_granularity) (simp add: envelope_ok_def)
  have le: "unat (envelope_max_events v) \<le> unat (profile_max_events prof)"
    "1 \<le> unat (envelope_max_events v)" "unat (profile_max_events prof) \<le> 4096"
    using True by (auto simp: envelope_ok_def word_le_nat_alt word_less_nat_alt)
  show ?thesis
    using True le unfolding validate_completed_input_def
    by (auto simp: result_simps envelope_validate_Ok completed_validate_Ok validate_for_session_Ok modes gran
        decisions_ok_def)
next
  case False
  then show ?thesis
    by (auto simp: validate_completed_input_def result_simps envelope_validate_Ok)
qed

section \<open>Identity of the decisions\<close>

lemma single_variant_driver [simp]:
  "(a :: RacingDriverInstructionTimelineVersion) = b" "(c :: RacingCompletedRunInputVersion) = d"
  "(e :: RacingDriverInstructionAuthorizationVersion) = f"
  by (metis RacingDriverInstructionTimelineVersion.exhaust, metis RacingCompletedRunInputVersion.exhaust,
      metis RacingDriverInstructionAuthorizationVersion.exhaust)

lemma jdoc_mode [simp]: "jdoc_of (serialize_mode m) = jdoc_of (serialize_mode n) \<longleftrightarrow> m = n"
  by (cases m; cases n) simp_all

lemma jdoc_granularity [simp]:
  "jdoc_of (serialize_granularity g) = jdoc_of (serialize_granularity h) \<longleftrightarrow> g = h"
  by (cases g; cases h) simp_all

lemma jdoc_boundary [simp]: "jdoc_of (serialize_boundary b) = jdoc_of (serialize_boundary b') \<longleftrightarrow> b = b'"
  by (auto simp: serialize_boundary_def jdoc_of_struct_inject)

lemma jdoc_instruction [simp]:
  "jdoc_of (serialize_instruction e) = jdoc_of (serialize_instruction e') \<longleftrightarrow> e = e'"
  by (auto simp: serialize_instruction_def jdoc_of_struct_inject)

lemma jdoc_timeline [simp]: "jdoc_of (serialize_timeline t) = jdoc_of (serialize_timeline t') \<longleftrightarrow> t = t'"
  using jdoc_seq_inject [of serialize_instruction "timeline_events t" "timeline_events t'"]
  by (auto simp: serialize_timeline_def jdoc_of_struct_inject)

lemma jdoc_history [simp]: "jdoc_of (serialize_history h) = jdoc_of (serialize_history h') \<longleftrightarrow> h = h'"
  using jdoc_seq_inject [of SString "history_competitors h" "history_competitors h'"]
  by (auto simp: serialize_history_def jdoc_of_struct_inject)

lemma serialize_completed_inject:
  "jdoc_of (serialize_completed c) = jdoc_of (serialize_completed c') \<longleftrightarrow> c = c'"
  by (auto simp: serialize_completed_def jdoc_of_struct_inject)

lemma serialize_envelope_inject:
  "jdoc_of (serialize_envelope v) = jdoc_of (serialize_envelope v') \<longleftrightarrow> v = v'"
  using jdoc_seq_inject [of serialize_mode "allowed_modes v" "allowed_modes v'"]
    jdoc_seq_inject [of SString "envelope_competitors v" "envelope_competitors v'"]
  by (auto simp: serialize_envelope_def jdoc_of_struct_inject)

lemma plain_driver_parts [simp]:
  "plain (serialize_mode m)" "plain (serialize_granularity g)" "plain (serialize_boundary b)"
  "plain (serialize_instruction e)" "plain (serialize_timeline t)"
proof -
  show mode: "plain (serialize_mode m)" for m by (cases m) simp_all
  show "plain (serialize_granularity g)" by (cases g) simp_all
  show bound: "plain (serialize_boundary b)" for b
    unfolding serialize_boundary_def by (rule plain_struct; simp)
  show event: "plain (serialize_instruction e)" for e
    unfolding serialize_instruction_def by (rule plain_struct; simp add: mode bound)
  show "plain (serialize_timeline t)"
    unfolding serialize_timeline_def by (rule plain_struct; simp add: list_all_iff event)
qed

lemma plain_completed [simp]: "plain (serialize_completed c)" "plain (serialize_envelope v)"
proof -
  have "plain (serialize_history h)" for h
    unfolding serialize_history_def by (rule plain_struct; simp add: list_all_iff)
  then show "plain (serialize_completed c)"
    unfolding serialize_completed_def by (intro plain_struct) simp_all
  show "plain (serialize_envelope v)"
    unfolding serialize_envelope_def by (rule plain_struct; simp add: list_all_iff)
qed

interpretation completed_content: content_addressed serialize_completed
  by unfold_locales (simp_all add: serialize_completed_inject)

interpretation envelope_content: content_addressed serialize_envelope
  by unfold_locales (simp_all add: serialize_envelope_inject)

lemma final_contract_Ok:
  "final_contract ext c initial pid prof laps segments = Ok final \<longleftrightarrow>
     completed_validate c initial pid prof laps segments = Ok () \<and>
     (\<exists>d. canonical_json_digest ext (Inr (serialize_completed c)) = Ok d \<and> final = with_input_digest initial d)"
  by (auto simp: final_contract_def result_simps with_input_digest_def)

lemma final_contract_for_attempt_Ok:
  "final_contract_for_attempt ext v a c pid prof = Ok final \<longleftrightarrow>
     attempt_validate_integrity ext a = Ok () \<and> artifact_identity ext v = Ok (decision_envelope a) \<and>
     envelope_ok v (initial_contract a) pid prof \<and> decisions_ok v (driver_instructions c) \<and>
     completed_validate c (initial_contract a) pid prof (envelope_lap_count v) (envelope_segment_count v) = Ok () \<and>
     (\<exists>d. canonical_json_digest ext (Inr (serialize_completed c)) = Ok d \<and>
          final = with_input_digest (initial_contract a) d)"
  by (auto simp: final_contract_for_attempt_def validate_attempt_authorization_def result_simps
      envelope_validate_Ok validate_completed_input_Ok final_contract_Ok validate_final_contract_Ok split: if_splits)

text \<open>C15: a final contract is derived from an attempt exactly when the attempt is intact and names the identity of
  the decision envelope, the envelope narrows the catalog profile and fixes the session, and the completed
  history is valid for that session and stays inside the envelope: its competitors, its number of events and
  its modes. The final contract is then the initial contract with the digest of the completed input in place
  of the digest of the authorized one; no other part of the contract changes.\<close>

theorem final_contract_for_attempt_exact:
  "final_contract_for_attempt ext v a c pid prof = Ok final \<longleftrightarrow>
     attempt_validate_integrity ext a = Ok () \<and> artifact_identity ext v = Ok (decision_envelope a) \<and>
     envelope_ok v (initial_contract a) pid prof \<and> decisions_ok v (driver_instructions c) \<and>
     completed_validate c (initial_contract a) pid prof (envelope_lap_count v) (envelope_segment_count v) = Ok () \<and>
     (\<exists>d. canonical_json_digest ext (Inr (serialize_completed c)) = Ok d \<and>
          final = with_input_digest (initial_contract a) d)"
  by (rule final_contract_for_attempt_Ok)

lemma final_contract_input_digest:
  "final_contract_for_attempt ext v a c pid prof = Ok final \<Longrightarrow>
     canonical_json_digest ext (Inr (serialize_completed c)) = Ok (input_digest (contract_input final))"
  by (auto simp: final_contract_for_attempt_Ok with_input_digest_def)

text \<open>C16: two completed inputs that yield the same final contract are equal, or their canonical bytes are a SHA-256
  collision: the run id of a dynamic session fixes every driver decision that was applied.\<close>

theorem final_contract_fixes_decisions:
  assumes "jcs_faithful ext"
    "final_contract_for_attempt ext v a c pid prof = Ok final"
    "final_contract_for_attempt ext v' a' c' pid' prof' = Ok final" "c \<noteq> c'"
  shows "\<exists>b b'. canonical_json_bytes ext (Inr (serialize_completed c)) = Ok b \<and>
     canonical_json_bytes ext (Inr (serialize_completed c')) = Ok b' \<and> b \<noteq> b' \<and> ext_sha256 ext b = ext_sha256 ext b'"
  using final_contract_input_digest [OF assms(2)] final_contract_input_digest [OF assms(3)] assms(1,4)
    completed_content.digest_identify by blast

definition sample_profile :: RacingDriverInstructionProfileV1 where
  "sample_profile = \<lparr>profile_schema_version = InstructionProfileV1, default_mode = Balanced,
     profile_granularity = LapStart, profile_max_events = 8\<rparr>"

definition sample_event :: RacingDriverInstructionEventV1 where
  "sample_event = \<lparr>event_sequence = 0, event_competitor = ''a'',
     effective_at = \<lparr>lap_index = 1, segment_index = 0\<rparr>, event_mode = Balanced\<rparr>"

definition sample_completed :: "RacingDriverInstructionEventV1 list \<Rightarrow> RacingCompletedRunInputV1" where
  "sample_completed es = \<lparr>completed_schema_version = CompletedRunInputV1,
     completed_authorized_input = contract_input (sample_contract 0 3),
     driver_instructions = \<lparr>history_profile = sample_artifact ''profile'' 7, history_initial_mode = Balanced,
       history_competitors = [''a''],
       applied_timeline = \<lparr>timeline_schema_version = InstructionTimelineV1, timeline_events = es\<rparr>\<rparr>\<rparr>"

definition sample_envelope :: RacingDriverInstructionAuthorizationV1 where
  "sample_envelope = \<lparr>envelope_schema_version = InstructionAuthorizationV1,
     envelope_authorized_input = contract_input (sample_contract 0 3), envelope_profile = sample_artifact ''profile'' 7,
     allowed_modes = [Balanced], envelope_granularity = LapStart, envelope_max_events = 2,
     envelope_competitors = [''a''], envelope_lap_count = 2, envelope_segment_count = 1\<rparr>"

definition sample_attempt :: RunAttemptAuthorizationV1 where
  "sample_attempt = \<lparr>attempt_version = RunAttemptAuthorizationVersionV1, attempt_nonce = sample_digest 1,
     attempt_execution_id = ExecutionId ''x'', attempt_subject = Identifier ''player'',
     attempt_audience = Identifier ''verifier'', initial_contract = sample_contract 0 3,
     initial_run_id = sample_digest 0,
     decision_envelope = \<lparr>artifact_id = Identifier RACING_DRIVER_INSTRUCTION_AUTHORIZATION_ID,
       artifact_version = SemanticVersion ''1.0.0'', artifact_content_digest = sample_digest 0\<rparr>,
     attempt_policy = sample_artifact ''policy'' 9, attempt_signing_key_id = Identifier ''key-1'',
     attempt_validity = sample_validity\<rparr>"

lemma trim_sample: "trim ''a'' = ''a''"
  by code_simp

lemma weak_digest:
  "profile weak_ext v \<Longrightarrow> canonical_json_digest weak_ext (Inr v) = Ok (sample_digest 0)"
  by (simp add: canonical_json_digest_def canonical_json_bytes_def from_bytes_def sample_digest_def
      validate_serializable_Ok [THEN iffD2])

lemma profile_sample_parts [simp]:
  "profile weak_ext (serialize_ArtifactIdentity (sample_artifact x y))"
  "profile weak_ext (serialize_InputIdentity (contract_input (sample_contract s b)))"
  by (simp_all add: serialize_ArtifactIdentity_def serialize_InputIdentity_def sample_contract_def
      profile_struct serialize_defs)

lemma sample_envelope_identity:
  "artifact_identity weak_ext sample_envelope = Ok (decision_envelope sample_attempt)"
proof -
  have "profile weak_ext (serialize_envelope sample_envelope)"
    by (simp add: serialize_envelope_def sample_envelope_def profile_struct serialize_defs)
  moreover have "identifier_new RACING_DRIVER_INSTRUCTION_AUTHORIZATION_ID =
      Ok (Identifier RACING_DRIVER_INSTRUCTION_AUTHORIZATION_ID)" by code_simp
  moreover have "ext_semver weak_ext = Some" by (simp add: weak_ext_def)
  ultimately show ?thesis
    by (simp add: artifact_identity_def sample_attempt_def weak_digest result_simps semantic_version_new_def
        RACING_DRIVER_INSTRUCTION_AUTHORIZATION_VERSION_def)
qed

lemma sample_final_contract:
  assumes "es = [] \<or> es = [sample_event]"
  shows "final_contract_for_attempt weak_ext sample_envelope sample_attempt (sample_completed es)
     (sample_artifact ''profile'' 7) sample_profile = Ok (sample_contract 0 0)"
proof -
  have "profile weak_ext (serialize_completed (sample_completed es))"
    using assms by (auto simp: serialize_completed_def serialize_history_def serialize_timeline_def
        serialize_instruction_def serialize_boundary_def sample_completed_def sample_event_def
        profile_struct serialize_defs)
  moreover have "attempt_validate_integrity weak_ext sample_attempt = Ok ()"
    by (simp add: attempt_integrity_Ok sample_attempt_def sample_window sample_run_id)
  moreover have "envelope_ok sample_envelope (initial_contract sample_attempt) (sample_artifact ''profile'' 7) sample_profile"
    by (simp add: envelope_ok_def sample_envelope_def sample_attempt_def sample_profile_def canonical_ids_def trim_sample)
  moreover have "decisions_ok sample_envelope (driver_instructions (sample_completed es))"
    using assms by (auto simp: decisions_ok_def sample_envelope_def sample_completed_def sample_event_def)
  moreover have "completed_validate (sample_completed es) (initial_contract sample_attempt)
      (sample_artifact ''profile'' 7) sample_profile 2 1 = Ok ()"
    using assms by (auto simp: completed_validate_Ok validate_for_session_Ok sample_completed_def sample_attempt_def
        sample_profile_def sample_event_def canonical_ids_def trim_sample timeline_ok_def event_ok_def boundary_key_def)
  moreover have "sample_contract 0 0 = with_input_digest (initial_contract sample_attempt) (sample_digest 0)"
    by (simp add: with_input_digest_def sample_contract_def sample_attempt_def)
  moreover have "envelope_lap_count sample_envelope = 2" "envelope_segment_count sample_envelope = 1"
    by (simp_all add: sample_envelope_def)
  ultimately show ?thesis
    by (simp add: final_contract_for_attempt_Ok sample_envelope_identity weak_digest)
qed

theorem final_contract_fixes_decisions_witness:
  "\<exists>b b'. canonical_json_bytes weak_ext (Inr (serialize_completed (sample_completed []))) = Ok b \<and>
     canonical_json_bytes weak_ext (Inr (serialize_completed (sample_completed [sample_event]))) = Ok b' \<and>
     b \<noteq> b' \<and> ext_sha256 weak_ext b = ext_sha256 weak_ext b'"
  by (rule final_contract_fixes_decisions [OF jcs_faithful_weak sample_final_contract sample_final_contract])
     (simp_all add: sample_completed_def)

section \<open>Control profiles\<close>

text \<open>The value of a finite \<open>f64\<close> as a multiple of \<open>2 ^ -1074\<close>, and the accepted ranges in that unit:
  \<open>2 ^ 1074\<close> stands for \<open>1.0\<close>.\<close>

definition unit_commitments :: "RacingDrivingModeCommitmentsV1 \<Rightarrow> bool" where
  "unit_commitments m \<longleftrightarrow>
     0 \<le> f64_scaled (commit_manage m) \<and> f64_scaled (commit_manage m) < f64_scaled (commit_balanced m) \<and>
     f64_scaled (commit_balanced m) < f64_scaled (commit_attack m) \<and> f64_scaled (commit_attack m) \<le> 2 ^ 1074"

definition utilization_ok :: "RacingDriverUtilizationResponseV1 \<Rightarrow> bool" where
  "utilization_ok r \<longleftrightarrow> 2 ^ 1073 \<le> f64_scaled (util_floor r) \<and>
     f64_scaled (util_floor r) \<le> 2 ^ 1074 \<and> 0 \<le> f64_scaled (util_span r) \<and>
     f64_scaled (util_floor r) + f64_scaled (util_span r) \<le> 2 ^ 1074 + 2 ^ 1021"

text \<open>Every bound of a control profile is far below the largest finite value.\<close>

lemma bounded_finite: "0 \<le> f64_scaled v \<Longrightarrow> f64_scaled v \<le> 10 * 2 ^ 1074 \<Longrightarrow> is_finite64 v"
proof (rule small_finite)
  assume "0 \<le> f64_scaled v" "f64_scaled v \<le> 10 * 2 ^ 1074"
  moreover have "(10::int) * 2 ^ 1074 < 2 ^ 2098" by simp
  ultimately show "\<bar>f64_scaled v\<bar> < 2 ^ 2098" by (simp only: abs_of_nonneg)
qed

lemma range_iff:
  assumes "\<not> f64_nan low" "\<not> f64_nan high" "0 \<le> f64_scaled low" "f64_scaled high \<le> 10 * 2 ^ 1074"
  shows "is_finite64 v \<and> f64_in_range low high v \<longleftrightarrow> f64_scaled low \<le> f64_scaled v \<and> f64_scaled v \<le> f64_scaled high"
  using assms bounded_finite [of v] finite_not_nan [of v]
  by (auto simp: f64_in_range_def f64_le_def)

lemma sum_exceeds_iff:
  assumes "0 \<le> f64_scaled a" "0 \<le> f64_scaled b" "f64_magnitude c = 2 ^ (r + 53)"
  shows "f64_sum_exceeds a b c \<longleftrightarrow> 2 ^ (r + 53) + 2 ^ r < f64_scaled a + f64_scaled b"
proof -
  have "f64_sum_exceeds a b c \<longleftrightarrow> 2 ^ (r + 53) + 2 ^ r < f64_magnitude a + f64_magnitude b"
    unfolding f64_sum_exceeds_def assms(3) by (rule round53_exceeds_power)
  also have "\<dots> \<longleftrightarrow> int (2 ^ (r + 53) + 2 ^ r) < int (f64_magnitude a + f64_magnitude b)"
    by (simp only: of_nat_less_iff)
  finally show ?thesis by (simp add: scaled_magnitude [OF assms(1)] scaled_magnitude [OF assms(2)])
qed

lemma nonneg_pair_iff:
  assumes c: "f64_magnitude c = 2 ^ (r + 53)" and r: "(2::int) ^ (r + 53) + 2 ^ r \<le> 10 * 2 ^ 1074"
  shows "is_finite64 a \<and> is_finite64 b \<and> \<not> f64_lt a F64_ZERO \<and> \<not> f64_lt b F64_ZERO \<and> \<not> f64_sum_exceeds a b c \<longleftrightarrow>
    0 \<le> f64_scaled a \<and> 0 \<le> f64_scaled b \<and> f64_scaled a + f64_scaled b \<le> 2 ^ (r + 53) + 2 ^ r"
proof -
  have lt: "f64_lt v F64_ZERO \<longleftrightarrow> f64_scaled v < 0" if "is_finite64 v" for v
    using that by (simp add: f64_lt_def finite_not_nan f64_constants_not_nan f64_constant_values)
  have small: "is_finite64 a" "is_finite64 b"
    if "0 \<le> f64_scaled a" "0 \<le> f64_scaled b" "f64_scaled a + f64_scaled b \<le> 2 ^ (r + 53) + 2 ^ r"
    using that r by (auto intro!: bounded_finite)
  show ?thesis
    using lt [of a] lt [of b] small sum_exceeds_iff [OF _ _ c, of a b] not_less by metis
qed

lemma validate_utilization_Ok: "validate_utilization name u = Ok () \<longleftrightarrow> utilization_ok u"
proof -
  have one: "f64_magnitude F64_ONE = 2 ^ (1021 + 53)" by (simp only: f64_constant_magnitudes) simp
  have range: "is_finite64 (util_floor u) \<and> f64_in_range F64_HALF F64_ONE (util_floor u) \<longleftrightarrow>
      2 ^ 1073 \<le> f64_scaled (util_floor u) \<and> f64_scaled (util_floor u) \<le> 2 ^ 1074"
    by (subst range_iff) (simp_all add: f64_constants_not_nan f64_constant_values)
  then have "is_finite64 (util_floor u) \<and> f64_in_range F64_HALF F64_ONE (util_floor u) \<Longrightarrow>
      0 \<le> f64_scaled (util_floor u) \<and> \<not> f64_lt (util_floor u) F64_ZERO"
    by (simp add: f64_lt_def f64_constant_values)
  moreover have "2 ^ 1073 \<le> f64_scaled (util_floor u) \<Longrightarrow> 0 \<le> f64_scaled (util_floor u)" by simp
  ultimately have "validate_utilization name u = Ok () \<longleftrightarrow>
      (is_finite64 (util_floor u) \<and> f64_in_range F64_HALF F64_ONE (util_floor u)) \<and>
      (is_finite64 (util_floor u) \<and> is_finite64 (util_span u) \<and> \<not> f64_lt (util_floor u) F64_ZERO \<and>
       \<not> f64_lt (util_span u) F64_ZERO \<and> \<not> f64_sum_exceeds (util_floor u) (util_span u) F64_ONE)"
    unfolding validate_utilization_def by simp
  also have "\<dots> \<longleftrightarrow> utilization_ok u"
    unfolding range nonneg_pair_iff [OF one, simplified] utilization_ok_def by auto
  finally show ?thesis .
qed

lemma commitments_Ok:
  "list_all (\<lambda>v. is_finite64 v \<and> f64_in_range F64_ZERO F64_ONE v)
     [commit_manage m, commit_balanced m, commit_attack m] \<and>
   f64_lt (commit_manage m) (commit_balanced m) \<and> f64_lt (commit_balanced m) (commit_attack m)
   \<longleftrightarrow> unit_commitments m"
proof -
  have range: "is_finite64 v \<and> f64_in_range F64_ZERO F64_ONE v \<longleftrightarrow> 0 \<le> f64_scaled v \<and> f64_scaled v \<le> 2 ^ 1074" for v
    by (subst range_iff) (simp_all add: f64_constants_not_nan f64_constant_values)
  moreover have "is_finite64 v" if "0 \<le> f64_scaled v" "f64_scaled v \<le> 2 ^ 1074" for v
    using that by (intro bounded_finite) simp_all
  ultimately show ?thesis
    unfolding unit_commitments_def list.pred_inject range by (auto simp: finite_lt)
qed

text \<open>A control profile is accepted exactly when its commitments satisfy \<open>0 \<le> manage < balanced < attack \<le> 1\<close>,
  each utilization has a floor in \<open>[0.5, 1]\<close> and a span that is not negative, the control errors are not
  negative, the exponent lies in \<open>[1, 4]\<close> and the workload gain in \<open>[0, 10]\<close>. The two sums are rounded before
  they are compared, so that the exact sum of floor and span may exceed one, and that of the control errors
  one quarter, by at most half a unit in the last place. The unit is \<open>2 ^ -1074\<close>.\<close>

theorem control_profile_exact:
  "control_profile_validate p = Ok () \<longleftrightarrow>
     unit_commitments (mode_commitments p) \<and>
     utilization_ok (cornering p) \<and> utilization_ok (braking p) \<and> utilization_ok (traction p) \<and>
     0 \<le> f64_scaled (base_control_error p) \<and> 0 \<le> f64_scaled (commitment_error_gain p) \<and>
     f64_scaled (base_control_error p) + f64_scaled (commitment_error_gain p) \<le> 2 ^ 1072 + 2 ^ 1019 \<and>
     f64_scaled (commitment_error_exponent p) \<in> {2 ^ 1074..4 * 2 ^ 1074} \<and>
     f64_scaled (correction_workload_gain p) \<in> {0..10 * 2 ^ 1074}"
proof -
  have quarter: "f64_magnitude F64_QUARTER = 2 ^ (1019 + 53)" by (simp only: f64_constant_magnitudes) simp
  have four: "is_finite64 v \<and> f64_in_range F64_ONE F64_FOUR v \<longleftrightarrow> f64_scaled v \<in> {2 ^ 1074..4 * 2 ^ 1074}" for v
    by (subst range_iff) (simp_all add: f64_constants_not_nan f64_constant_values)
  have ten: "is_finite64 v \<and> f64_in_range F64_ZERO F64_TEN v \<longleftrightarrow> f64_scaled v \<in> {0..10 * 2 ^ 1074}" for v
    by (subst range_iff) (simp_all add: f64_constants_not_nan f64_constant_values)
  have "control_profile_validate p = Ok () \<longleftrightarrow>
     unit_commitments (mode_commitments p) \<and>
     utilization_ok (cornering p) \<and> utilization_ok (braking p) \<and> utilization_ok (traction p) \<and>
     (is_finite64 (base_control_error p) \<and> is_finite64 (commitment_error_gain p) \<and>
      \<not> f64_lt (base_control_error p) F64_ZERO \<and> \<not> f64_lt (commitment_error_gain p) F64_ZERO \<and>
      \<not> f64_sum_exceeds (base_control_error p) (commitment_error_gain p) F64_QUARTER) \<and>
     (is_finite64 (commitment_error_exponent p) \<and> f64_in_range F64_ONE F64_FOUR (commitment_error_exponent p)) \<and>
     (is_finite64 (correction_workload_gain p) \<and> f64_in_range F64_ZERO F64_TEN (correction_workload_gain p))"
    unfolding control_profile_validate_def Let_def commitments_Ok
    by (auto simp: result_simps validate_utilization_Ok split: if_splits)
  then show ?thesis
    unfolding nonneg_pair_iff [OF quarter, simplified] four ten by simp
qed

end
