(* ===== verification/Stint_Plan.thy ===== *)
theory Stint_Plan
  imports Driver_Instructions
begin

text \<open>
  Stint plans of \<open>crates/pitgun-racing-simulator/src/lib.rs\<close> over the race types of
  \<open>crates/pitgun-racing-contract/src/race.rs\<close>: the pit laps a strategy stands for, the tire of every lap,
  the pit plan handed to the solver, and the lap times in milliseconds.
\<close>

section \<open>Race types\<close>

record RaceStint =
  stint_tire_id :: string
  stint_laps :: u16

record CompetitorStintStrategy =
  strategy_stints :: "RaceStint list"
  strategy_pit_laps :: "u16 list"

record TuningSpec =
  engine_points :: "64 word"
  cooling_points :: "64 word"
  aero_points :: "64 word"
  chassis_points :: "64 word"
  downforce_slider :: "64 word"
  gear_ratio_slider :: "64 word"

record CompetitorSpec =
  competitor_spec_id :: string
  competitor_driver_id :: "string option"
  competitor_name :: string
  competitor_team_id :: string
  competitor_is_player :: bool
  competitor_tuning :: TuningSpec
  competitor_budget_cap :: "64 word"
  competitor_stint_strategy :: "CompetitorStintStrategy option"

record RaceInput =
  race_track_id :: string
  race_laps :: u16
  race_competitors :: "CompetitorSpec list"

record ResolvedStintPlan =
  tire_by_lap :: "string list"
  pit_laps :: "u16 list"

record 'tire PitStop =
  stop_lap :: u16
  stop_tire :: 'tire

datatype StintPlanError =
    NoStints
  | EmptyTireId nat
  | NoLaps nat
  | LapSumMismatch u16 u16
  | PitLapsMismatch "u16 list" "u16 list"
  | MissingTireAssignment u16
  | UnknownTire string

section \<open>Resolution\<close>

text \<open>\<open>sort_unstable\<close> followed by \<open>dedup\<close>, which drops equal neighbours.\<close>

definition sanitize_pit_laps :: "u16 list \<Rightarrow> u16 \<Rightarrow> u16 list" where
  "sanitize_pit_laps raw_laps total_laps =
     (if total_laps \<le> 1 then []
      else remdups_adj (sort (filter (\<lambda>lap. 0 < lap \<and> lap < total_laps) raw_laps)))"

text \<open>The loop over the stints of a strategy: its state is the tires pushed so far, the pit laps pushed so
  far and the saturating count of laps.\<close>

fun resolve_stints ::
  "nat \<Rightarrow> u16 \<Rightarrow> nat \<Rightarrow> RaceStint list \<Rightarrow> string list \<times> u16 list \<times> u16 \<Rightarrow>
     StintPlanError + string list \<times> u16 list \<times> u16" where
  "resolve_stints n_stints total_laps idx [] state = Inr state"
| "resolve_stints n_stints total_laps idx (stint # stints) (tires, pits, cumulative) =
     (if trim (stint_tire_id stint) = '''' then Inl (EmptyTireId idx)
      else if stint_laps stint = 0 then Inl (NoLaps idx)
      else let cumulative' = saturating_add cumulative (stint_laps stint)
           in resolve_stints n_stints total_laps (Suc idx) stints
                (tires @ replicate (unat (stint_laps stint)) (stint_tire_id stint),
                 (if idx < n_stints - 1 \<and> 0 < cumulative' \<and> cumulative' < total_laps
                  then pits @ [cumulative'] else pits),
                 cumulative'))"

definition resolve_explicit_stint_plan ::
  "CompetitorStintStrategy \<Rightarrow> u16 \<Rightarrow> StintPlanError + ResolvedStintPlan" where
  "resolve_explicit_stint_plan strategy total_laps =
     and_also (ensure (strategy_stints strategy \<noteq> []) NoStints)
     (and_then (resolve_stints (length (strategy_stints strategy)) total_laps 0 (strategy_stints strategy) ([], [], 0))
        (\<lambda>(tires, pits, cumulative).
           and_also (ensure (cumulative = total_laps) (LapSumMismatch total_laps cumulative))
           (let declared = sanitize_pit_laps (strategy_pit_laps strategy) total_laps
            in and_also (ensure (declared = [] \<or> declared = pits) (PitLapsMismatch declared pits))
               (Inr \<lparr>tire_by_lap = tires, pit_laps = pits\<rparr>))))"

definition is_player_spec :: "CompetitorSpec \<Rightarrow> bool" where
  "is_player_spec competitor \<longleftrightarrow> competitor_is_player competitor \<or> competitor_spec_id competitor = ''player''"

definition resolve_stint_plan ::
  "CompetitorSpec \<Rightarrow> u16 \<Rightarrow> string \<Rightarrow> u16 list \<Rightarrow> StintPlanError + ResolvedStintPlan" where
  "resolve_stint_plan competitor total_laps default_tire_id legacy_player_pit_laps =
     (case competitor_stint_strategy competitor of
        Some strategy \<Rightarrow> resolve_explicit_stint_plan strategy total_laps
      | None \<Rightarrow> Inr \<lparr>tire_by_lap = replicate (unat total_laps) default_tire_id,
          pit_laps = (if is_player_spec competitor then sanitize_pit_laps legacy_player_pit_laps total_laps else [])\<rparr>)"

definition pit_stop_for ::
  "(string \<Rightarrow> 'tire option) \<Rightarrow> ResolvedStintPlan \<Rightarrow> u16 \<Rightarrow> StintPlanError + 'tire PitStop" where
  "pit_stop_for tires plan lap =
     and_then (ok_or (if unat lap < length (tire_by_lap plan) then Some (tire_by_lap plan ! unat lap) else None)
                 (MissingTireAssignment (lap + 1)))
       (\<lambda>tire_id. and_then (ok_or (tires tire_id) (UnknownTire tire_id))
          (\<lambda>tire. Inr \<lparr>stop_lap = lap, stop_tire = tire\<rparr>))"

definition build_pit_plan ::
  "(string \<Rightarrow> 'tire option) \<Rightarrow> ResolvedStintPlan \<Rightarrow> StintPlanError + 'tire PitStop list" where
  "build_pit_plan tires plan = try_map (pit_stop_for tires plan) (pit_laps plan)"

section \<open>Lap times\<close>

text \<open>\<open>slice::binary_search\<close>: the window \<open>[base, base + size)\<close> is halved until one element is left.\<close>

function bisect :: "'a::linorder list \<Rightarrow> 'a \<Rightarrow> nat \<Rightarrow> nat \<Rightarrow> nat" where
  "bisect xs x base width =
     (if width \<le> 1 then base
      else let half = width div 2; mid = base + half
           in bisect xs x (if x < xs ! mid then base else mid) (width - half))"
  by pat_completeness auto
termination
  by (relation "measure (\<lambda>(xs, x, base, width). width)") auto

declare bisect.simps [simp del]

definition binary_search_is_ok :: "'a::linorder list \<Rightarrow> 'a \<Rightarrow> bool" where
  "binary_search_is_ok xs x \<longleftrightarrow> xs \<noteq> [] \<and> xs ! bisect xs x 0 (length xs) = x"

definition lap_times_ms :: "64 word list \<Rightarrow> ResolvedStintPlan \<Rightarrow> u64 \<Rightarrow> u64 list" where
  "lap_times_ms lap_times_s plan pit_loss_ms =
     map (\<lambda>(idx, lap_time).
       let lap_number = of_nat idx + 1; base = f64_lap_millis lap_time
       in if binary_search_is_ok (pit_laps plan) lap_number then saturating_add base pit_loss_ms else base)
       (enumerate 0 lap_times_s)"

definition TELEMETRY_BATCH_SIZE :: nat where
  "TELEMETRY_BATCH_SIZE = 64"

text \<open>\<open>slice::chunks\<close>: consecutive pieces of the given size, the last one possibly shorter.\<close>

function chunks :: "nat \<Rightarrow> 'a list \<Rightarrow> 'a list list" where
  "chunks n xs = (if xs = [] \<or> n = 0 then [] else take n xs # chunks n (drop n xs))"
  by pat_completeness auto
termination
  by (relation "measure (\<lambda>(n, xs). length xs)") auto

declare chunks.simps [simp del]

definition telemetry_batches :: "'frame list \<Rightarrow> 'frame list list" where
  "telemetry_batches frames = chunks TELEMETRY_BATCH_SIZE frames"

section \<open>What an explicit strategy resolves to\<close>

text \<open>The number of laps completed at the end of each stint, without a bound.\<close>

fun stint_ends :: "nat \<Rightarrow> RaceStint list \<Rightarrow> nat list" where
  "stint_ends c [] = []"
| "stint_ends c (s # ss) = (c + unat (stint_laps s)) # stint_ends (c + unat (stint_laps s)) ss"

definition stint_total :: "RaceStint list \<Rightarrow> nat" where
  "stint_total ss = sum_list (map (\<lambda>s. unat (stint_laps s)) ss)"

definition stint_boundaries :: "u16 \<Rightarrow> nat \<Rightarrow> RaceStint list \<Rightarrow> u16 list" where
  "stint_boundaries total_laps c ss = map of_nat (filter (\<lambda>e. e < unat total_laps) (butlast (stint_ends c ss)))"

definition stint_tires :: "RaceStint list \<Rightarrow> string list" where
  "stint_tires ss = concat (map (\<lambda>s. replicate (unat (stint_laps s)) (stint_tire_id s)) ss)"

definition stint_ok :: "RaceStint \<Rightarrow> bool" where
  "stint_ok s \<longleftrightarrow> trim (stint_tire_id s) \<noteq> '''' \<and> 0 < stint_laps s"

lemma unat_u16_bound: "unat (w :: u16) \<le> 65535"
  using unsigned_less [of w, where 'a = nat] by simp

lemma unat_of_nat_16: "n \<le> 65535 \<Longrightarrow> unat (of_nat n :: u16) = n"
  by (simp add: unsigned_of_nat take_bit_nat_eq_self)

lemma saturating_add_min:
  "saturating_add (of_nat (min e 65535)) a = (of_nat (min (e + unat a) 65535) :: u16)"
proof (rule word_unat_eq_iff [THEN iffD2])
  show "unat (saturating_add (of_nat (min e 65535)) a) = unat (of_nat (min (e + unat a) 65535) :: u16)"
    by (simp add: unat_saturating_add unat_of_nat_16)
qed

lemma saturated_below:
  "(of_nat (min e 65535) :: u16) < t \<longleftrightarrow> e < unat t"
  "0 < e \<Longrightarrow> 0 < (of_nat (min e 65535) :: u16)"
  using unat_u16_bound [of t] by (auto simp: word_less_nat_alt unat_of_nat_16 min_def split: if_splits)

lemma saturated_eq: "(of_nat (min e 65535) :: u16) = t \<longleftrightarrow> min e 65535 = unat t"
  by (metis min.cobounded2 of_nat_unat ucast_id unat_of_nat_16)

lemma stint_ends_Nil: "stint_ends c ss = [] \<longleftrightarrow> ss = []"
  by (cases ss) simp_all

lemma stint_boundaries_Cons:
  "stint_boundaries t c (s # ss) =
     (if ss \<noteq> [] \<and> c + unat (stint_laps s) < unat t then [of_nat (c + unat (stint_laps s))] else [])
     @ stint_boundaries t (c + unat (stint_laps s)) ss"
  by (simp add: stint_boundaries_def stint_ends_Nil)

lemma resolve_stints_Ok:
  "resolve_stints (idx + length ss) t idx ss (tires, pits, of_nat (min c 65535)) = Inr (tires', pits', c') \<longleftrightarrow>
     list_all stint_ok ss \<and> tires' = tires @ stint_tires ss \<and> pits' = pits @ stint_boundaries t c ss \<and>
     c' = of_nat (min (c + stint_total ss) 65535)"
proof (induction ss arbitrary: idx tires pits c)
  case Nil
  then show ?case by (auto simp: stint_tires_def stint_boundaries_def stint_total_def)
next
  case (Cons s ss)
  let ?c = "c + unat (stint_laps s)"
  let ?pits = "if ss \<noteq> [] \<and> ?c < unat t then pits @ [of_nat ?c] else pits"
  show ?case
  proof (cases "stint_ok s")
    case True
    then have pos: "0 < ?c" by (simp add: stint_ok_def word_less_nat_alt)
    have small: "?c < unat t \<Longrightarrow> min ?c 65535 = ?c" using unat_u16_bound [of t] by simp
    have step: "resolve_stints (idx + length (s # ss)) t idx (s # ss) (tires, pits, of_nat (min c 65535)) =
        resolve_stints (Suc idx + length ss) t (Suc idx) ss
          (tires @ replicate (unat (stint_laps s)) (stint_tire_id s), ?pits, of_nat (min ?c 65535))"
      using True saturated_below(2) [OF pos] small
      by (auto simp: stint_ok_def saturating_add_min saturated_below(1) Let_def simp del: min.bounded_iff)
    show ?thesis
      unfolding step Cons.IH using True
      by (auto simp: stint_tires_def stint_boundaries_Cons stint_total_def add.assoc)
  qed (auto simp: stint_ok_def word_neq_0_conv)
qed

lemma resolve_explicit_Ok:
  "resolve_explicit_stint_plan strategy t = Inr plan \<longleftrightarrow>
     strategy_stints strategy \<noteq> [] \<and> list_all stint_ok (strategy_stints strategy) \<and>
     min (stint_total (strategy_stints strategy)) 65535 = unat t \<and>
     sanitize_pit_laps (strategy_pit_laps strategy) t \<in> {[], stint_boundaries t 0 (strategy_stints strategy)} \<and>
     plan = \<lparr>tire_by_lap = stint_tires (strategy_stints strategy),
             pit_laps = stint_boundaries t 0 (strategy_stints strategy)\<rparr>"
proof -
  note run = resolve_stints_Ok [of 0 "strategy_stints strategy" t "[]" "[]" 0, simplified]
  show ?thesis
    by (auto simp: resolve_explicit_stint_plan_def result_simps run Let_def saturated_eq)
qed

section \<open>Resolved plans are well formed\<close>

text \<open>The tire of every lap is assigned, the pit laps are strictly increasing laps of the race before
  the last one, and the tire changes only after a pit lap.\<close>

definition plan_wf :: "u16 \<Rightarrow> ResolvedStintPlan \<Rightarrow> bool" where
  "plan_wf total_laps plan \<longleftrightarrow>
     length (tire_by_lap plan) = unat total_laps \<and> sorted_wrt (<) (pit_laps plan) \<and>
     list_all (\<lambda>lap. 0 < lap \<and> lap < total_laps) (pit_laps plan)"

definition changes_at_pits :: "ResolvedStintPlan \<Rightarrow> bool" where
  "changes_at_pits plan \<longleftrightarrow>
     (\<forall>i. Suc i < length (tire_by_lap plan) \<and> tire_by_lap plan ! i \<noteq> tire_by_lap plan ! Suc i \<longrightarrow>
        of_nat (Suc i) \<in> set (pit_laps plan))"

lemma sorted_remdups_adj_strict: "sorted xs \<Longrightarrow> sorted_wrt (<) (remdups_adj xs)" for xs :: "'a::linorder list"
  by (induction xs rule: remdups_adj.induct) (auto simp: order.strict_iff_order intro: order.trans)

lemma sanitize_wf:
  "sorted_wrt (<) (sanitize_pit_laps raw t)"
  "lap \<in> set (sanitize_pit_laps raw t) \<longleftrightarrow> lap \<in> set raw \<and> 0 < lap \<and> lap < t"
proof -
  show "sorted_wrt (<) (sanitize_pit_laps raw t)"
    by (simp add: sanitize_pit_laps_def sorted_remdups_adj_strict)
  have "\<not> (0 < lap \<and> lap < t)" if "t \<le> 1"
    using that by (auto simp: word_less_nat_alt word_le_nat_alt)
  then show "lap \<in> set (sanitize_pit_laps raw t) \<longleftrightarrow> lap \<in> set raw \<and> 0 < lap \<and> lap < t"
    by (auto simp: sanitize_pit_laps_def)
qed

lemma length_stint_tires: "length (stint_tires ss) = stint_total ss"
  by (induction ss) (auto simp: stint_tires_def stint_total_def)

lemma stint_ends_bounds: "list_all stint_ok ss \<Longrightarrow> e \<in> set (stint_ends c ss) \<Longrightarrow> c < e \<and> e \<le> c + stint_total ss"
proof (induction ss arbitrary: c)
  case (Cons s ss)
  have pos: "0 < unat (stint_laps s)" using Cons.prems(1) by (simp add: stint_ok_def word_less_nat_alt)
  show ?case
  proof (cases "e = c + unat (stint_laps s)")
    case True then show ?thesis using pos by (simp add: stint_total_def)
  next
    case False
    then have "e \<in> set (stint_ends (c + unat (stint_laps s)) ss)" using Cons.prems(2) by simp
    with Cons show ?thesis using pos by (fastforce simp: stint_total_def)
  qed
qed simp

lemma stint_ends_sorted: "list_all stint_ok ss \<Longrightarrow> sorted_wrt (<) (stint_ends c ss)"
  by (induction ss arbitrary: c) (auto dest: stint_ends_bounds)

lemma sorted_wrt_of_nat_16:
  "sorted_wrt (<) xs \<Longrightarrow> list_all (\<lambda>e. e \<le> 65535) xs \<Longrightarrow> sorted_wrt (<) (map (of_nat :: nat \<Rightarrow> u16) xs)"
  by (induction xs) (auto simp: list_all_iff word_less_nat_alt unat_of_nat_16)

lemma sorted_wrt_butlast: "sorted_wrt P xs \<Longrightarrow> sorted_wrt P (butlast xs)"
  by (induction xs) (auto dest: in_set_butlastD)

lemma boundaries_wf:
  assumes "list_all stint_ok ss"
  shows "sorted_wrt (<) (stint_boundaries t 0 ss)"
    and "lap \<in> set (stint_boundaries t 0 ss) \<Longrightarrow> 0 < lap \<and> lap < t"
proof -
  have small: "e < unat t \<Longrightarrow> e \<le> 65535" for e using unat_u16_bound [of t] by simp
  then show "sorted_wrt (<) (stint_boundaries t 0 ss)"
    using sorted_wrt_butlast [OF stint_ends_sorted [OF assms]]
    by (auto simp: stint_boundaries_def list_all_iff intro!: sorted_wrt_of_nat_16 sorted_wrt_filter)
  assume "lap \<in> set (stint_boundaries t 0 ss)"
  then obtain e where e: "lap = of_nat e" "e \<in> set (stint_ends 0 ss)" "e < unat t"
    by (auto simp: stint_boundaries_def dest: in_set_butlastD)
  moreover have "0 < e" using stint_ends_bounds [OF assms e(2)] by simp
  ultimately show "0 < lap \<and> lap < t" using small [of e] by (simp add: word_less_nat_alt unat_of_nat_16)
qed

lemma tire_change_at_end:
  assumes "Suc i < length (stint_tires ss)" "stint_tires ss ! i \<noteq> stint_tires ss ! Suc i"
  shows "c + Suc i \<in> set (butlast (stint_ends c ss))"
  using assms
proof (induction ss arbitrary: i c)
  case Nil then show ?case by (simp add: stint_tires_def)
next
  case (Cons s ss)
  let ?n = "unat (stint_laps s)"
  have tires: "stint_tires (s # ss) = replicate ?n (stint_tire_id s) @ stint_tires ss" by (simp add: stint_tires_def)
  have ne: "ss \<noteq> []" if "?n \<le> Suc i" using Cons.prems(1) that by (auto simp: tires stint_tires_def)
  consider "Suc i < ?n" | "Suc i = ?n" | "?n \<le> i" by linarith
  then show ?case
  proof cases
    case 1 then show ?thesis using Cons.prems(2) by (simp add: tires nth_append)
  next
    case 2 then show ?thesis using ne by (simp add: stint_ends_Nil)
  next
    case 3
    then have "Suc (i - ?n) < length (stint_tires ss)" "stint_tires ss ! (i - ?n) \<noteq> stint_tires ss ! Suc (i - ?n)"
      using Cons.prems by (simp_all add: tires nth_append Suc_diff_le)
    then have "(c + ?n) + Suc (i - ?n) \<in> set (butlast (stint_ends (c + ?n) ss))" by (rule Cons.IH)
    then show ?thesis using 3 ne by (simp add: stint_ends_Nil)
  qed
qed

lemma explicit_plan_wf:
  assumes "resolve_explicit_stint_plan strategy t = Inr plan" "stint_total (strategy_stints strategy) \<le> 65535"
  shows "plan_wf t plan" "changes_at_pits plan"
proof -
  have ok: "list_all stint_ok (strategy_stints strategy)" "stint_total (strategy_stints strategy) = unat t"
    and plan: "plan = \<lparr>tire_by_lap = stint_tires (strategy_stints strategy),
             pit_laps = stint_boundaries t 0 (strategy_stints strategy)\<rparr>"
    using assms by (auto simp: resolve_explicit_Ok)
  show "plan_wf t plan"
    using boundaries_wf [OF ok(1)] ok(2) by (auto simp: plan_wf_def plan length_stint_tires list_all_iff)
  show "changes_at_pits plan"
    unfolding changes_at_pits_def
  proof (intro allI impI)
    fix i
    assume i: "Suc i < length (tire_by_lap plan) \<and> tire_by_lap plan ! i \<noteq> tire_by_lap plan ! Suc i"
    then have "Suc i \<in> set (butlast (stint_ends 0 (strategy_stints strategy)))"
      using tire_change_at_end [of i "strategy_stints strategy" 0] by (simp add: plan)
    moreover have "Suc i < unat t" using i ok(2) by (simp add: plan length_stint_tires)
    ultimately show "of_nat (Suc i) \<in> set (pit_laps plan)"
      by (auto simp: plan stint_boundaries_def simp del: of_nat_Suc)
  qed
qed

lemma resolve_stint_plan_wf:
  assumes "resolve_stint_plan competitor t tire legacy = Inr plan"
    "\<And>strategy. competitor_stint_strategy competitor = Some strategy \<Longrightarrow>
       stint_total (strategy_stints strategy) \<le> 65535"
  shows "plan_wf t plan" "changes_at_pits plan"
proof -
  have "plan_wf t plan \<and> changes_at_pits plan"
  proof (cases "competitor_stint_strategy competitor")
    case None
    then have plan: "plan = \<lparr>tire_by_lap = replicate (unat t) tire,
        pit_laps = (if is_player_spec competitor then sanitize_pit_laps legacy t else [])\<rparr>"
      using assms(1) by (simp add: resolve_stint_plan_def)
    have "sorted_wrt (<) (pit_laps plan)" "list_all (\<lambda>lap. 0 < lap \<and> lap < t) (pit_laps plan)"
      by (simp_all add: plan list_all_iff sanitize_wf)
    moreover have "tire_by_lap plan ! i = tire_by_lap plan ! Suc i" if "Suc i < length (tire_by_lap plan)" for i
      using that by (simp add: plan)
    ultimately show ?thesis by (auto simp: plan_wf_def changes_at_pits_def) (simp add: plan)
  next
    case (Some strategy)
    then have "resolve_explicit_stint_plan strategy t = Inr plan"
      using assms(1) by (simp add: resolve_stint_plan_def)
    then show ?thesis using explicit_plan_wf assms(2) [OF Some] by blast
  qed
  then show "plan_wf t plan" "changes_at_pits plan" by simp_all
qed

text \<open>The pit plan of a well-formed stint plan: one stop per pit lap, fitting the tire of the next lap.\<close>

lemma build_pit_plan_wf:
  assumes "plan_wf t plan"
  shows "build_pit_plan tires plan = Inr stops \<longleftrightarrow>
    map stop_lap stops = pit_laps plan \<and>
    (\<forall>stop\<in>set stops. tires (tire_by_lap plan ! unat (stop_lap stop)) = Some (stop_tire stop))"
proof -
  have inside: "unat lap < length (tire_by_lap plan)" if "lap \<in> set (pit_laps plan)" for lap
    using assms that by (auto simp: plan_wf_def list_all_iff word_less_nat_alt)
  have step: "pit_stop_for tires plan lap = Inr stop \<longleftrightarrow>
      stop_lap stop = lap \<and> tires (tire_by_lap plan ! unat (stop_lap stop)) = Some (stop_tire stop)"
    if "lap \<in> set (pit_laps plan)" for lap and stop :: "'a PitStop"
    using inside [OF that] by (cases stop) (auto simp: pit_stop_for_def result_simps)
  have "set laps \<subseteq> set (pit_laps plan) \<Longrightarrow> try_map (pit_stop_for tires plan) laps = Inr stops \<longleftrightarrow>
      map stop_lap stops = laps \<and>
      (\<forall>stop\<in>set stops. tires (tire_by_lap plan ! unat (stop_lap stop)) = Some (stop_tire stop))" for laps stops
  proof (induction laps arbitrary: stops)
    case (Cons l laps)
    then have l: "l \<in> set (pit_laps plan)" and ls: "set laps \<subseteq> set (pit_laps plan)" by auto
    show ?case
      by (simp add: and_then_Ok map_ok_Ok step [OF l] Cons.IH [OF ls]) (auto simp: map_eq_Cons_conv)
  qed auto
  then show ?thesis unfolding build_pit_plan_def by blast
qed

section \<open>Lap times and telemetry batches\<close>

lemma bisect_bounds:
  assumes "sorted xs" "0 < width" "base + width \<le> length xs" "xs ! i = x" "base \<le> i" "i < base + width"
  shows "xs ! bisect xs x base width = x"
  using assms
proof (induction xs x base width arbitrary: i rule: bisect.induct)
  case (1 xs x base width)
  show ?case
  proof (cases "width \<le> 1")
    case True
    then have "bisect xs x base width = base" "i = base"
      using "1.prems" by (subst bisect.simps, simp_all)
    then show ?thesis using "1.prems" by simp
  next
    case False
    define half where "half = width div 2"
    have half: "0 < half" "half < width" using False by (auto simp: half_def)
    have step: "bisect xs x base width = bisect xs x (if x < xs ! (base + half) then base else base + half) (width - half)"
      using False by (subst bisect.simps) (simp add: half_def Let_def)
    have mono: "j \<le> k \<Longrightarrow> k < length xs \<Longrightarrow> xs ! j \<le> xs ! k" for j k
      using "1.prems"(1) by (rule sorted_nth_mono)
    have "\<exists>j. xs ! j = x \<and> (if x < xs ! (base + half) then base else base + half) \<le> j \<and>
        j < (if x < xs ! (base + half) then base else base + half) + (width - half)"
    proof (cases "x < xs ! (base + half)")
      case True
      then have "i < base + half" using mono [of "base + half" i] "1.prems" by (auto simp: not_less [symmetric])
      moreover have "half \<le> width - half" by (simp add: half_def)
      ultimately show ?thesis using True "1.prems" by (intro exI [of _ i]) auto
    next
      case ge: False
      show ?thesis
      proof (cases "base + half \<le> i")
        case True then show ?thesis using ge "1.prems" half by (intro exI [of _ i]) auto
      next
        case False
        then have "x \<le> xs ! (base + half)"
          using mono [of i "base + half"] "1.prems" half by auto
        then have "xs ! (base + half) = x" using ge by simp
        then show ?thesis using ge half by (intro exI [of _ "base + half"]) auto
      qed
    qed
    then obtain j where j: "xs ! j = x" "(if x < xs ! (base + half) then base else base + half) \<le> j"
        "j < (if x < xs ! (base + half) then base else base + half) + (width - half)" by blast
    show ?thesis
      unfolding step
      using "1.IH" [OF False half_def refl] "1.prems" half j
      by (auto simp: Let_def half_def [symmetric])
  qed
qed

lemma binary_search_member:
  assumes "sorted xs"
  shows "binary_search_is_ok xs x \<longleftrightarrow> x \<in> set xs"
proof
  have in_range: "base + width \<le> length xs \<Longrightarrow> 0 < width \<Longrightarrow> bisect xs x base width < length xs" for base width
  proof (induction xs x base width rule: bisect.induct)
    case (1 xs x base width)
    then show ?case by (subst bisect.simps) (auto simp: Let_def)
  qed
  assume "binary_search_is_ok xs x"
  then show "x \<in> set xs"
    using in_range [of 0 "length xs"] by (auto simp: binary_search_is_ok_def in_set_conv_nth)
next
  assume "x \<in> set xs"
  then obtain i where "i < length xs" "xs ! i = x" by (auto simp: in_set_conv_nth)
  then show "binary_search_is_ok xs x"
    using bisect_bounds [OF assms, of "length xs" 0 i x] by (cases xs) (auto simp: binary_search_is_ok_def)
qed

lemma lap_times_ms_nth:
  assumes "plan_wf t plan" "i < length secs"
  shows "lap_times_ms secs plan loss ! i =
    (if of_nat (Suc i) \<in> set (pit_laps plan) then saturating_add (f64_lap_millis (secs ! i)) loss
     else f64_lap_millis (secs ! i))"
proof -
  have "sorted (pit_laps plan)" using assms(1) by (simp add: plan_wf_def strict_sorted_imp_sorted)
  then show ?thesis
    using assms(2)
    by (simp add: lap_times_ms_def nth_enumerate_eq binary_search_member Let_def add.commute)
qed

lemma length_lap_times_ms [simp]: "length (lap_times_ms secs plan loss) = length secs"
  by (simp add: lap_times_ms_def)

lemma concat_chunks: "0 < n \<Longrightarrow> concat (chunks n xs) = xs"
  by (induction n xs rule: chunks.induct) (subst chunks.simps, auto)

lemma chunks_Nil [simp]: "chunks n [] = []"
  by (simp add: chunks.simps)

lemma chunks_sizes: "c \<in> set (chunks n xs) \<Longrightarrow> c \<noteq> [] \<and> length c \<le> n"
  by (induction n xs rule: chunks.induct) (subst (asm) chunks.simps, auto split: if_splits)

lemma length_chunks: "0 < n \<Longrightarrow> length (chunks n xs) = (length xs + n - 1) div n"
proof (induction n xs rule: chunks.induct)
  case (1 n xs)
  show ?case
  proof (cases "xs = []")
    case True then show ?thesis using "1.prems" by (simp add: chunks.simps)
  next
    case False
    then have "length (chunks n xs) = Suc ((length (drop n xs) + n - 1) div n)"
      using "1.IH" "1.prems" by (subst chunks.simps) simp
    also have "\<dots> = (length xs + n - 1) div n"
    proof (cases "length xs \<le> n")
      case True
      then have "(length xs + n - 1) div n = 1"
        using False "1.prems" by (intro div_nat_eqI) (cases xs; simp)+
      then show ?thesis using True "1.prems" by simp
    next
      case big: False
      then have "length xs + n - 1 = (length (drop n xs) + n - 1) + n" using "1.prems" by simp
      then have "(length xs + n - 1) div n = ((length (drop n xs) + n - 1) + n) div n" by (rule arg_cong)
      also have "\<dots> = Suc ((length (drop n xs) + n - 1) div n)"
        using "1.prems" by (simp only: div_add_self2 Suc_eq_plus1 less_not_refl2 not_False_eq_True) 
      finally show ?thesis by (rule sym)
    qed
    finally show ?thesis .
  qed
qed

section \<open>Properties\<close>

text \<open>An explicit strategy is accepted exactly when it has stints, each with a tire name and at least
  one lap, whose laps saturate to the race distance and whose declared pit laps, when any lie inside the
  race, are the stint boundaries. The plan then has the tire of every lap in order and a pit lap at each
  boundary.\<close>

theorem explicit_stint_plan_exact:
  "resolve_explicit_stint_plan strategy t = Inr plan \<longleftrightarrow>
     strategy_stints strategy \<noteq> [] \<and> list_all stint_ok (strategy_stints strategy) \<and>
     min (stint_total (strategy_stints strategy)) 65535 = unat t \<and>
     sanitize_pit_laps (strategy_pit_laps strategy) t \<in> {[], stint_boundaries t 0 (strategy_stints strategy)} \<and>
     plan = \<lparr>tire_by_lap = stint_tires (strategy_stints strategy),
             pit_laps = stint_boundaries t 0 (strategy_stints strategy)\<rparr>"
  by (rule resolve_explicit_Ok)

text \<open>C26: a resolved stint plan assigns a tire to every lap of the race, its pit laps are strictly
  increasing and inside the race, and the tire changes only after a pit lap. Its pit plan has one stop per
  pit lap, with the tire of the next lap, and fails only for a tire that the catalog does not have. The laps
  of an explicit strategy have to fit in 16 bits.\<close>

theorem stint_plan_well_formed:
  assumes "resolve_stint_plan competitor t tire legacy = Inr plan"
    "\<And>strategy. competitor_stint_strategy competitor = Some strategy \<Longrightarrow>
       stint_total (strategy_stints strategy) \<le> 65535"
  shows "plan_wf t plan \<and> changes_at_pits plan \<and>
    (build_pit_plan tires plan = Inr stops \<longleftrightarrow> map stop_lap stops = pit_laps plan \<and>
      (\<forall>stop\<in>set stops. tires (tire_by_lap plan ! unat (stop_lap stop)) = Some (stop_tire stop)))"
  using resolve_stint_plan_wf [OF assms] build_pit_plan_wf [OF resolve_stint_plan_wf(1) [OF assms]] by blast

definition sample_stint :: "string \<Rightarrow> u16 \<Rightarrow> RaceStint" where
  "sample_stint tire laps = \<lparr>stint_tire_id = tire, stint_laps = laps\<rparr>"

definition sample_competitor :: CompetitorSpec where
  "sample_competitor = \<lparr>competitor_spec_id = ''player'', competitor_driver_id = None, competitor_name = ''P'',
     competitor_team_id = ''t'', competitor_is_player = True,
     competitor_tuning = \<lparr>engine_points = 0, cooling_points = 0, aero_points = 0, chassis_points = 0,
       downforce_slider = 0, gear_ratio_slider = 0\<rparr>, competitor_budget_cap = 0,
     competitor_stint_strategy = Some \<lparr>strategy_stints = [sample_stint ''soft'' 2, sample_stint ''hard'' 3],
       strategy_pit_laps = [2, 9]\<rparr>\<rparr>"

lemma trim_samples: "trim ''soft'' = ''soft''" "trim ''hard'' = ''hard''"
  by code_simp+

lemma sample_plan:
  "resolve_stint_plan sample_competitor 5 ''base'' [] =
     Inr \<lparr>tire_by_lap = [''soft'', ''soft'', ''hard'', ''hard'', ''hard''], pit_laps = [2]\<rparr>"
proof -
  have "replicate 2 ''soft'' = [''soft'', ''soft'']" "replicate 3 ''hard'' = [''hard'', ''hard'', ''hard'']"
    by (simp_all add: numeral_2_eq_2 numeral_3_eq_3)
  then show ?thesis
    by (simp add: resolve_stint_plan_def sample_competitor_def resolve_explicit_Ok sample_stint_def stint_ok_def
        trim_samples stint_total_def sanitize_pit_laps_def stint_boundaries_def stint_tires_def)
qed

theorem stint_plan_well_formed_witness:
  "build_pit_plan (map_of [(''soft'', 1 :: nat), (''hard'', 2)])
     \<lparr>tire_by_lap = [''soft'', ''soft'', ''hard'', ''hard'', ''hard''], pit_laps = [2]\<rparr>
   = Inr [\<lparr>stop_lap = 2, stop_tire = 2\<rparr>]"
  using stint_plan_well_formed [OF sample_plan, of "map_of [(''soft'', 1 :: nat), (''hard'', 2)]"
      "[\<lparr>stop_lap = 2, stop_tire = 2\<rparr>]"]
  by (simp add: sample_competitor_def sample_stint_def stint_total_def)

text \<open>The saturating count lets a strategy of 65536 laps stand for a race of 65535: its plan has a tire
  too many.\<close>

lemma stint_total_saturates:
  "\<exists>strategy plan. resolve_explicit_stint_plan strategy 65535 = Inr plan \<and> length (tire_by_lap plan) = 65536"
proof -
  let ?strategy = "\<lparr>strategy_stints = [sample_stint ''soft'' 65535, sample_stint ''hard'' 1], strategy_pit_laps = []\<rparr>"
  have "resolve_explicit_stint_plan ?strategy 65535 =
      Inr \<lparr>tire_by_lap = stint_tires (strategy_stints ?strategy), pit_laps = stint_boundaries 65535 0 (strategy_stints ?strategy)\<rparr>"
    by (simp add: resolve_explicit_Ok stint_ok_def sample_stint_def trim_samples stint_total_def sanitize_pit_laps_def)
  moreover have "length (stint_tires (strategy_stints ?strategy)) = 65536"
    by (simp add: length_stint_tires stint_total_def sample_stint_def)
  ultimately show ?thesis by fastforce
qed

end
