(* ===== verification/Solver_Session.thy ===== *)
theory Solver_Session
  imports Stint_Plan
begin

text \<open>
  The stateful execution of one competitor of \<open>crates/pitgun-racing-solver/src/lib.rs\<close>: the request, the
  lap loop of the V3 kernel with its driver-control schedule and its pit stops, the future that suspends the
  kernel after every lap, and the session that polls it.

  The floating-point physics of one lap is a parameter, the record \<open>lap_solver\<close>: it takes the state at the
  start of a lap and gives the samples and the state at its end. Everything the kernel does between laps is
  modelled.
\<close>

section \<open>Requests\<close>

record VehicleState =
  fuel_mass :: "64 word"
  tire_wear :: "64 word"
  tire_temp :: "64 word"
  engine_temp :: "64 word"

record DriverControlParamsV3 =
  cornering_utilization :: "64 word"
  braking_utilization :: "64 word"
  traction_utilization :: "64 word"
  control_error :: "64 word"

record ResolvedDriverControlLapV3 =
  control_lap_index :: u16
  control_lap_control :: DriverControlParamsV3
  control_lap_multiplier :: "64 word option"

datatype DriverCorrectionCapacityModelV3 = FrictionBudgetV1

text \<open>The track, the vehicle without its tire, the contact, mechanical, fuel, degradation and thermal
  coefficients and the seed are the component \<open>request_physics\<close>, which only the lap physics reads.\<close>

record ('phys, 'tire) ResolvedSimulationRequestV3 =
  request_physics :: 'phys
  request_vehicle_tire :: 'tire
  request_state :: VehicleState
  request_track_s :: "64 word list"
  request_pit_time_penalty_s :: "64 word"
  request_pit_tire_temp :: "64 word option"
  request_lap_count :: u16
  request_pit_stops :: "'tire PitStop list"
  request_driver_id :: string
  request_driver_control :: DriverControlParamsV3
  request_multiplier :: "64 word option"
  request_control_schedule :: "ResolvedDriverControlLapV3 list"
  request_capacity_model :: "DriverCorrectionCapacityModelV3 option"

datatype SolverError =
    SolverInvalid string
  | UtilizationRange string
  | ControlErrorRange
  | WorkloadRange
  | BudgetRequiresMultiplier
  | ScheduleStartsAtZero
  | ScheduleOutside u16 u16
  | ScheduleOrder
  | SolverFailed string
  | SessionAlreadyCompleted
  | UnconsumedLap
  | SuspendedWithoutLap

definition F64_THREE_HALF :: "64 word" where "F64_THREE_HALF = 0x400C000000000000"

definition validate_driver_control_v3 :: "DriverControlParamsV3 \<Rightarrow> SolverError + unit" where
  "validate_driver_control_v3 control =
     and_also (try_each (\<lambda>(name, value).
         ensure (is_finite64 value \<and> f64_in_range F64_HALF F64_ONE value) (UtilizationRange name))
       [(''driver_control.cornering_utilization'', cornering_utilization control),
        (''driver_control.braking_utilization'', braking_utilization control),
        (''driver_control.traction_utilization'', traction_utilization control)])
     (ensure (is_finite64 (control_error control) \<and> f64_in_range F64_ZERO F64_QUARTER (control_error control))
        ControlErrorRange)"

definition validate_driver_correction_workload_v3 ::
  "64 word option \<Rightarrow> DriverCorrectionCapacityModelV3 option \<Rightarrow> SolverError + unit" where
  "validate_driver_correction_workload_v3 multiplier capacity_model =
     and_also (case multiplier of
         None \<Rightarrow> Inr ()
       | Some m \<Rightarrow> ensure (is_finite64 m \<and> f64_in_range F64_ONE F64_THREE_HALF m) WorkloadRange)
     (ensure (\<not> (capacity_model = Some FrictionBudgetV1 \<and> multiplier = None)) BudgetRequiresMultiplier)"

definition effective_lap_count :: "('phys, 'tire) ResolvedSimulationRequestV3 \<Rightarrow> u16" where
  "effective_lap_count req = max 1 (request_lap_count req)"

text \<open>The loop over the schedule keeps the lap index of the entry before.\<close>

fun check_schedule ::
  "u16 \<Rightarrow> DriverCorrectionCapacityModelV3 option \<Rightarrow> u16 option \<Rightarrow> ResolvedDriverControlLapV3 list \<Rightarrow>
     SolverError + unit" where
  "check_schedule lap_count model previous [] = Inr ()"
| "check_schedule lap_count model previous (entry # entries) =
     and_also (ensure (control_lap_index entry \<noteq> 0) ScheduleStartsAtZero)
     (and_also (ensure (control_lap_index entry < lap_count) (ScheduleOutside (control_lap_index entry) lap_count))
     (and_also (ensure (case previous of None \<Rightarrow> True | Some p \<Rightarrow> p < control_lap_index entry) ScheduleOrder)
     (and_also (validate_driver_control_v3 (control_lap_control entry))
     (and_also (validate_driver_correction_workload_v3 (control_lap_multiplier entry) model)
        (check_schedule lap_count model (Some (control_lap_index entry)) entries)))))"

definition validate_driver_control_schedule_v3 :: "('phys, 'tire) ResolvedSimulationRequestV3 \<Rightarrow> SolverError + unit" where
  "validate_driver_control_schedule_v3 req =
     check_schedule (effective_lap_count req) (request_capacity_model req) None (request_control_schedule req)"

record ControlEnvelope =
  env_control :: DriverControlParamsV3
  env_multiplier :: "64 word option"
  env_capacity_fraction :: "64 word"

text \<open>What the physics of one lap hands back: the time grid of the lap, the vehicle state before any
  service, or the error when the fuel does not last, the speed, the gear and the pending shift at the line,
  the sampled channels and the running totals.\<close>

record ('ch, 'acc) LapNumbers =
  numbers_t :: "64 word list"
  numbers_state :: "string + VehicleState"
  numbers_end_speed :: "64 word option"
  numbers_end_gear :: "u8 option"
  numbers_shift_remaining :: "64 word"
  numbers_channels :: 'ch
  numbers_totals :: 'acc

record SimulationSolution =
  solution_s :: "64 word list"
  solution_t :: "64 word list"

record 'ch ResolvedSimulationLapV3 =
  lap_index :: u16
  lap_time_s :: "64 word"
  cumulative_time_s :: "64 word"
  cumulative_distance_m :: "64 word"
  state_after_lap :: VehicleState
  end_speed_mps :: "64 word option"
  end_gear :: "u8 option"
  shift_time_remaining_s :: "64 word"
  active_driver_control :: DriverControlParamsV3
  correction_workload_multiplier :: "64 word option"
  pit_stop_completed :: bool
  lap_solution :: SimulationSolution
  lap_channels :: 'ch

record ('tire, 'acc) KernelState =
  kernel_next_lap :: nat
  kernel_tire :: 'tire
  kernel_state :: VehicleState
  kernel_t_offset :: "64 word"
  kernel_s_offset :: "64 word"
  kernel_end_speed :: "64 word option"
  kernel_end_gear :: "u8 option"
  kernel_shift_remaining :: "64 word"
  kernel_lap_times :: "64 word list"
  kernel_active :: ControlEnvelope
  kernel_cursor :: nat
  kernel_applied :: "ResolvedDriverControlLapV3 list"
  kernel_totals :: 'acc

text \<open>The parameters: the validation of the physical coefficients before and after the driver controls, the
  square root of a reciprocal, the physics of one lap from the kernel state, the tire of the lap and its
  number, and the terminal result.\<close>

record ('phys, 'tire, 'ch, 'acc, 'res) lap_solver =
  validate_physics :: "('phys, 'tire) ResolvedSimulationRequestV3 \<Rightarrow> string + unit"
  validate_options :: "('phys, 'tire) ResolvedSimulationRequestV3 \<Rightarrow> string + unit"
  sqrt_recip :: "64 word \<Rightarrow> 64 word"
  no_totals :: 'acc
  solve_lap :: "('phys, 'tire) ResolvedSimulationRequestV3 \<Rightarrow> ('tire, 'acc) KernelState \<Rightarrow> 'tire \<Rightarrow> u16 \<Rightarrow>
    string + ('ch, 'acc) LapNumbers"
  finish_kernel :: "('phys, 'tire) ResolvedSimulationRequestV3 \<Rightarrow> ('tire, 'acc) KernelState \<Rightarrow> string + 'res"

definition validate_resolved_simulation_request_v3 ::
  "('phys, 'tire, 'ch, 'acc, 'res) lap_solver \<Rightarrow> ('phys, 'tire) ResolvedSimulationRequestV3 \<Rightarrow> SolverError + unit" where
  "validate_resolved_simulation_request_v3 L req =
     and_also (map_err SolverInvalid (validate_physics L req))
     (and_also (validate_driver_control_v3 (request_driver_control req))
     (and_also (validate_driver_correction_workload_v3 (request_multiplier req) (request_capacity_model req))
     (and_also (validate_driver_control_schedule_v3 req)
        (map_err SolverInvalid (validate_options L req)))))"

section \<open>The kernel\<close>

text \<open>The case of a friction budget without a multiplier is unreachable in the source: the validation before
  it has refused it.\<close>

definition resolve_driver_control_envelope_v3 ::
  "('phys, 'tire, 'ch, 'acc, 'res) lap_solver \<Rightarrow> DriverControlParamsV3 \<Rightarrow> 64 word option \<Rightarrow>
     DriverCorrectionCapacityModelV3 option \<Rightarrow> SolverError + ControlEnvelope" where
  "resolve_driver_control_envelope_v3 L control multiplier model =
     and_also (validate_driver_control_v3 control)
     (and_also (validate_driver_correction_workload_v3 multiplier model)
     (Inr \<lparr>env_control = control, env_multiplier = multiplier,
        env_capacity_fraction = (case (model, multiplier) of
            (Some FrictionBudgetV1, Some m) \<Rightarrow> sqrt_recip L m
          | _ \<Rightarrow> F64_ONE)\<rparr>))"

text \<open>\<open>rfind\<close> on the sorted stops: the last stop before the lap.\<close>

definition tire_for_lap :: "'tire \<Rightarrow> 'tire PitStop list \<Rightarrow> u16 \<Rightarrow> 'tire" where
  "tire_for_lap default_tire stops lap =
     (case find (\<lambda>stop. stop_lap stop < lap) (rev stops) of None \<Rightarrow> default_tire | Some stop \<Rightarrow> stop_tire stop)"

definition sorted_stops :: "('phys, 'tire) ResolvedSimulationRequestV3 \<Rightarrow> 'tire PitStop list" where
  "sorted_stops req = sort_key stop_lap (request_pit_stops req)"

definition baseline_entry :: "('phys, 'tire) ResolvedSimulationRequestV3 \<Rightarrow> ResolvedDriverControlLapV3" where
  "baseline_entry req = \<lparr>control_lap_index = 0, control_lap_control = request_driver_control req,
     control_lap_multiplier = request_multiplier req\<rparr>"

definition kernel_start ::
  "('phys, 'tire, 'ch, 'acc, 'res) lap_solver \<Rightarrow> ('phys, 'tire) ResolvedSimulationRequestV3 \<Rightarrow>
     SolverError + ('tire, 'acc) KernelState" where
  "kernel_start L req =
     map_ok (\<lambda>baseline. \<lparr>kernel_next_lap = 1, kernel_tire = request_vehicle_tire req, kernel_state = request_state req,
         kernel_t_offset = F64_ZERO, kernel_s_offset = F64_ZERO, kernel_end_speed = None, kernel_end_gear = None,
         kernel_shift_remaining = F64_ZERO, kernel_lap_times = [], kernel_active = baseline, kernel_cursor = 0,
         kernel_applied = (if request_control_schedule req = [] then [] else [baseline_entry req]),
         kernel_totals = no_totals L\<rparr>)
       (resolve_driver_control_envelope_v3 L (request_driver_control req) (request_multiplier req)
          (request_capacity_model req))"

text \<open>The driver-control transition at the start of a lap.\<close>

definition apply_control_schedule ::
  "('phys, 'tire, 'ch, 'acc, 'res) lap_solver \<Rightarrow> ('phys, 'tire) ResolvedSimulationRequestV3 \<Rightarrow>
     ('tire, 'acc) KernelState \<Rightarrow> SolverError + ('tire, 'acc) KernelState" where
  "apply_control_schedule L req k =
     (let schedule = request_control_schedule req; cursor = kernel_cursor k
      in if cursor < length schedule \<and> unat (control_lap_index (schedule ! cursor)) = kernel_next_lap k - 1
         then map_ok (\<lambda>envelope. k\<lparr>kernel_active := envelope,
                  kernel_applied := kernel_applied k @ [schedule ! cursor], kernel_cursor := Suc cursor\<rparr>)
                (resolve_driver_control_envelope_v3 L (control_lap_control (schedule ! cursor))
                   (control_lap_multiplier (schedule ! cursor)) (request_capacity_model req))
         else Inr k)"

definition F64_TENTH :: "64 word" where "F64_TENTH = 0x3FB999999999999A"

text \<open>\<open>f64::max\<close> with a second argument that is a number.\<close>

definition f64_max :: "64 word \<Rightarrow> 64 word \<Rightarrow> 64 word" where
  "f64_max a b = (if f64_nan a \<or> f64_lt a b then b else a)"

definition last_or_zero :: "64 word list \<Rightarrow> 64 word" where
  "last_or_zero xs = (if xs = [] then F64_ZERO else last xs)"

text \<open>The end of a lap: the offsets, the service of a pit stop and the record that is yielded.\<close>

definition finish_lap ::
  "('phys, 'tire) ResolvedSimulationRequestV3 \<Rightarrow> ('tire, 'acc) KernelState \<Rightarrow> u16 \<Rightarrow> ('ch, 'acc) LapNumbers \<Rightarrow>
     VehicleState \<Rightarrow> 'ch ResolvedSimulationLapV3 \<times> ('tire, 'acc) KernelState" where
  "finish_lap req k lap_idx numbers after =
     (let lap_time = f64_max (last (numbers_t numbers)) F64_TENTH;
          t_offset = f64_add (kernel_t_offset k) (last_or_zero (numbers_t numbers));
          s_offset = f64_add (kernel_s_offset k) (last_or_zero (request_track_s req));
          stop = find (\<lambda>stop. stop_lap stop = lap_idx) (sorted_stops req);
          k' = k\<lparr>kernel_next_lap := Suc (kernel_next_lap k), kernel_s_offset := s_offset,
             kernel_lap_times := kernel_lap_times k @ [lap_time], kernel_totals := numbers_totals numbers\<rparr>;
          k'' = (case stop of
              None \<Rightarrow> k'\<lparr>kernel_t_offset := t_offset, kernel_state := after,
                 kernel_end_speed := numbers_end_speed numbers, kernel_end_gear := numbers_end_gear numbers,
                 kernel_shift_remaining := numbers_shift_remaining numbers\<rparr>
            | Some pit \<Rightarrow> k'\<lparr>kernel_t_offset := f64_add t_offset (f64_max (request_pit_time_penalty_s req) F64_ZERO),
                 kernel_state := after\<lparr>tire_wear := F64_ZERO,
                    tire_temp := (case request_pit_tire_temp req of
                       None \<Rightarrow> tire_temp (request_state req) | Some temp \<Rightarrow> temp)\<rparr>,
                 kernel_tire := stop_tire pit, kernel_end_speed := None, kernel_end_gear := None,
                 kernel_shift_remaining := F64_ZERO\<rparr>)
      in (\<lparr>lap_index = lap_idx, lap_time_s = lap_time, cumulative_time_s = kernel_t_offset k'',
           cumulative_distance_m = s_offset, state_after_lap = kernel_state k'',
           end_speed_mps = kernel_end_speed k'', end_gear = kernel_end_gear k'',
           shift_time_remaining_s = kernel_shift_remaining k'',
           active_driver_control = env_control (kernel_active k),
           correction_workload_multiplier = env_multiplier (kernel_active k),
           pit_stop_completed = list_ex (\<lambda>stop. stop_lap stop = lap_idx) (sorted_stops req),
           lap_solution = \<lparr>solution_s = request_track_s req, solution_t = numbers_t numbers\<rparr>,
           lap_channels = numbers_channels numbers\<rparr>, k''))"

text \<open>One turn of the lap loop.\<close>

definition kernel_lap ::
  "('phys, 'tire, 'ch, 'acc, 'res) lap_solver \<Rightarrow> ('phys, 'tire) ResolvedSimulationRequestV3 \<Rightarrow>
     ('tire, 'acc) KernelState \<Rightarrow> SolverError + 'ch ResolvedSimulationLapV3 \<times> ('tire, 'acc) KernelState" where
  "kernel_lap L req k =
     and_then (apply_control_schedule L req k) (\<lambda>k.
       let lap_idx = of_nat (kernel_next_lap k); tire = tire_for_lap (kernel_tire k) (sorted_stops req) lap_idx
       in and_then (map_err SolverFailed (solve_lap L req k tire lap_idx)) (\<lambda>numbers.
            and_also (ensure (numbers_t numbers \<noteq> []) (SolverFailed ''simulation produced an empty time grid''))
              (map_ok (finish_lap req k lap_idx numbers) (map_err SolverFailed (numbers_state numbers)))))"

section \<open>The session\<close>

text \<open>The future: not polled yet, suspended after a lap, or finished.\<close>

datatype ('tire, 'acc) KernelFuture = NotStarted | Suspended "('tire, 'acc) KernelState" | Finished_Future

record ('phys, 'tire, 'ch, 'acc) SolverSession =
  session_request :: "('phys, 'tire) ResolvedSimulationRequestV3"
  session_future :: "('tire, 'acc) KernelFuture"
  session_lap_slot :: "'ch ResolvedSimulationLapV3 option"
  session_complete :: bool

datatype ('ch, 'res) SolverStep = LapStep "'ch ResolvedSimulationLapV3" | CompleteStep 'res

datatype 'res PollResult = Pending | Ready "SolverError + 'res"

definition session_new ::
  "('phys, 'tire, 'ch, 'acc, 'res) lap_solver \<Rightarrow> ('phys, 'tire) ResolvedSimulationRequestV3 \<Rightarrow>
     SolverError + ('phys, 'tire, 'ch, 'acc) SolverSession" where
  "session_new L req =
     and_also (validate_resolved_simulation_request_v3 L req)
       (Inr \<lparr>session_request = req, session_future = NotStarted, session_lap_slot = None, session_complete = False\<rparr>)"

text \<open>Resuming the kernel runs it to the next suspension point, which stores the lap, or to its end.\<close>

definition resume_kernel ::
  "('phys, 'tire, 'ch, 'acc, 'res) lap_solver \<Rightarrow> ('phys, 'tire, 'ch, 'acc) SolverSession \<Rightarrow>
     ('tire, 'acc) KernelState \<Rightarrow> ('phys, 'tire, 'ch, 'acc) SolverSession \<times> 'res PollResult" where
  "resume_kernel L s k =
     (if kernel_next_lap k \<le> unat (effective_lap_count (session_request s))
      then case kernel_lap L (session_request s) k of
             Inl e \<Rightarrow> (s\<lparr>session_future := Finished_Future\<rparr>, Ready (Inl e))
           | Inr (lap, k') \<Rightarrow> (s\<lparr>session_future := Suspended k', session_lap_slot := Some lap\<rparr>, Pending)
      else (s\<lparr>session_future := Finished_Future\<rparr>, Ready (map_err SolverFailed (finish_kernel L (session_request s) k))))"

definition poll_future ::
  "('phys, 'tire, 'ch, 'acc, 'res) lap_solver \<Rightarrow> ('phys, 'tire, 'ch, 'acc) SolverSession \<Rightarrow>
     (('phys, 'tire, 'ch, 'acc) SolverSession \<times> 'res PollResult) option" where
  "poll_future L s =
     (case session_future s of
        NotStarted \<Rightarrow>
          (case kernel_start L (session_request s) of
             Inl e \<Rightarrow> Some (s\<lparr>session_future := Finished_Future\<rparr>, Ready (Inl e))
           | Inr k \<Rightarrow> Some (resume_kernel L s k))
      | Suspended k \<Rightarrow> Some (resume_kernel L s k)
      | Finished_Future \<Rightarrow> None)"

text \<open>\<open>ResolvedSimulationSessionV3::advance\<close>. Polling a finished future panics: the value \<open>None\<close>.\<close>

definition session_advance ::
  "('phys, 'tire, 'ch, 'acc, 'res) lap_solver \<Rightarrow> ('phys, 'tire, 'ch, 'acc) SolverSession \<Rightarrow>
     (('phys, 'tire, 'ch, 'acc) SolverSession \<times> (SolverError + ('ch, 'res) SolverStep)) option" where
  "session_advance L s =
     (if session_complete s then Some (s, Inl SessionAlreadyCompleted)
      else if session_lap_slot s \<noteq> None then Some (s, Inl UnconsumedLap)
      else case poll_future L s of
          None \<Rightarrow> None
        | Some (s', Pending) \<Rightarrow>
            Some (s'\<lparr>session_lap_slot := None\<rparr>, map_ok LapStep (ok_or (session_lap_slot s') SuspendedWithoutLap))
        | Some (s', Ready r) \<Rightarrow> Some (s'\<lparr>session_complete := True\<rparr>, map_ok CompleteStep r))"

text \<open>\<open>run_resolved_simulation_v3\<close>: the loop until the terminal result or the first error. A loop that does
  not end, or a panic, is \<open>None\<close>.\<close>

partial_function (option) run_session ::
  "('phys, 'tire, 'ch, 'acc, 'res) lap_solver \<Rightarrow> ('phys, 'tire, 'ch, 'acc) SolverSession \<Rightarrow> (SolverError + 'res) option" where
  "run_session L s =
     (case session_advance L s of
        None \<Rightarrow> None
      | Some (s', Inl e) \<Rightarrow> Some (Inl e)
      | Some (s', Inr (LapStep _)) \<Rightarrow> run_session L s'
      | Some (s', Inr (CompleteStep r)) \<Rightarrow> Some (Inr r))"

definition run_resolved_simulation_v3 ::
  "('phys, 'tire, 'ch, 'acc, 'res) lap_solver \<Rightarrow> ('phys, 'tire) ResolvedSimulationRequestV3 \<Rightarrow> (SolverError + 'res) option" where
  "run_resolved_simulation_v3 L req =
     (case session_new L req of Inl e \<Rightarrow> Some (Inl e) | Inr s \<Rightarrow> run_session L s)"

section \<open>The control schedule\<close>

definition control_entry_ok :: "('phys, 'tire) ResolvedSimulationRequestV3 \<Rightarrow> ResolvedDriverControlLapV3 \<Rightarrow> bool" where
  "control_entry_ok req entry \<longleftrightarrow> validate_driver_control_v3 (control_lap_control entry) = Inr () \<and>
     validate_driver_correction_workload_v3 (control_lap_multiplier entry) (request_capacity_model req) = Inr ()"

definition schedule_ok :: "('phys, 'tire) ResolvedSimulationRequestV3 \<Rightarrow> bool" where
  "schedule_ok req \<longleftrightarrow> control_entry_ok req (baseline_entry req) \<and>
     list_all (\<lambda>entry. 0 < control_lap_index entry \<and> control_lap_index entry < effective_lap_count req \<and>
       control_entry_ok req entry) (request_control_schedule req) \<and>
     sorted_wrt (\<lambda>a b. control_lap_index a < control_lap_index b) (request_control_schedule req)"

lemma check_schedule_Ok:
  "check_schedule n (request_capacity_model req) previous entries = Inr () \<longleftrightarrow>
     list_all (\<lambda>entry. 0 < control_lap_index entry \<and> control_lap_index entry < n \<and> control_entry_ok req entry) entries \<and>
     sorted_wrt (\<lambda>a b. control_lap_index a < control_lap_index b) entries \<and>
     (case previous of None \<Rightarrow> True | Some p \<Rightarrow> \<forall>entry\<in>set entries. p < control_lap_index entry)"
proof (induction entries arbitrary: previous)
  case (Cons e es)
  show ?case
    unfolding check_schedule.simps and_also_Ok ensure_Ok Cons.IH
    by (cases previous) (auto simp: control_entry_ok_def list_all_iff word_neq_0_conv)
qed (simp split: option.splits)

lemma validate_request_schedule:
  "validate_resolved_simulation_request_v3 L req = Inr () \<Longrightarrow> schedule_ok req"
  by (simp add: validate_resolved_simulation_request_v3_def result_simps schedule_ok_def
      validate_driver_control_schedule_v3_def check_schedule_Ok control_entry_ok_def baseline_entry_def)

definition envelope_of ::
  "('phys, 'tire, 'ch, 'acc, 'res) lap_solver \<Rightarrow> ('phys, 'tire) ResolvedSimulationRequestV3 \<Rightarrow>
     ResolvedDriverControlLapV3 \<Rightarrow> ControlEnvelope" where
  "envelope_of L req entry = \<lparr>env_control = control_lap_control entry, env_multiplier = control_lap_multiplier entry,
     env_capacity_fraction = (case (request_capacity_model req, control_lap_multiplier entry) of
         (Some FrictionBudgetV1, Some m) \<Rightarrow> sqrt_recip L m | _ \<Rightarrow> F64_ONE)\<rparr>"

lemma envelope_Ok:
  "control_entry_ok req entry \<Longrightarrow>
   resolve_driver_control_envelope_v3 L (control_lap_control entry) (control_lap_multiplier entry)
     (request_capacity_model req) = Inr (envelope_of L req entry)"
  by (simp add: resolve_driver_control_envelope_v3_def control_entry_ok_def envelope_of_def)

text \<open>The entry in force on a lap: the last one, baseline included, whose zero-based lap is not after it.\<close>

definition control_on_lap :: "('phys, 'tire) ResolvedSimulationRequestV3 \<Rightarrow> nat \<Rightarrow> ResolvedDriverControlLapV3" where
  "control_on_lap req lap =
     last (filter (\<lambda>entry. unat (control_lap_index entry) < lap) (baseline_entry req # request_control_schedule req))"

text \<open>The invariant of the kernel before the lap \<open>kernel_next_lap\<close>. The cursor has passed the entries of the
  laps before.\<close>

definition kernel_inv ::
  "('phys, 'tire, 'ch, 'acc, 'res) lap_solver \<Rightarrow> ('phys, 'tire) ResolvedSimulationRequestV3 \<Rightarrow>
     ('tire, 'acc) KernelState \<Rightarrow> bool" where
  "kernel_inv L req k \<longleftrightarrow>
     0 < kernel_next_lap k \<and>
     kernel_cursor k = length (filter (\<lambda>e. unat (control_lap_index e) < kernel_next_lap k - 1) (request_control_schedule req)) \<and>
     kernel_active k = envelope_of L req (last (baseline_entry req # take (kernel_cursor k) (request_control_schedule req))) \<and>
     kernel_applied k = (if request_control_schedule req = [] then []
        else baseline_entry req # take (kernel_cursor k) (request_control_schedule req)) \<and>
     length (kernel_lap_times k) = kernel_next_lap k - 1 \<and>
     (list_all (\<lambda>stop. kernel_next_lap k \<le> unat (stop_lap stop)) (sorted_stops req) \<longrightarrow>
        kernel_tire k = request_vehicle_tire req)"

text \<open>In a list with strictly increasing keys the entries below a bound are a prefix.\<close>

lemma filter_below_take:
  assumes "sorted_wrt (\<lambda>a b. f a < f b) xs"
  shows "filter (\<lambda>x. f x < (n :: nat)) xs = take (length (filter (\<lambda>x. f x < n) xs)) xs"
  using assms
proof (induction xs)
  case (Cons x xs)
  show ?case
  proof (cases "f x < n")
    case False
    then have "filter (\<lambda>x. f x < n) xs = []" using Cons.prems by (auto simp: filter_empty_conv)
    then show ?thesis using False by simp
  qed (use Cons in simp)
qed simp

lemma filter_next:
  assumes "sorted_wrt (\<lambda>a b. f a < f b) xs" "c = length (filter (\<lambda>x. f x < (n :: nat)) xs)"
  shows "length (filter (\<lambda>x. f x < Suc n) xs) = (if c < length xs \<and> f (xs ! c) = n then Suc c else c)"
  using assms
proof (induction xs arbitrary: c)
  case (Cons x xs)
  show ?case
  proof (cases "f x < n")
    case True
    then show ?thesis using Cons.IH [of "c - 1"] Cons.prems by auto
  next
    case False
    then have "filter (\<lambda>x. f x < n) xs = []" using Cons.prems by (auto simp: filter_empty_conv)
    then have c: "c = 0" using False Cons.prems by simp
    show ?thesis
    proof (cases "f x = n")
      case True
      then have "filter (\<lambda>x. f x < Suc n) xs = []" using Cons.prems by (auto simp: filter_empty_conv)
      then show ?thesis using c True by simp
    next
      case False
      then have "filter (\<lambda>x. f x < Suc n) xs = []" using \<open>\<not> f x < n\<close> Cons.prems by (auto simp: filter_empty_conv)
      then show ?thesis using c False \<open>\<not> f x < n\<close> by simp
    qed
  qed
qed simp

lemma schedule_sorted:
  "schedule_ok req \<Longrightarrow> sorted_wrt (\<lambda>a b. unat (control_lap_index a) < unat (control_lap_index b)) (request_control_schedule req)"
  by (simp add: schedule_ok_def word_less_nat_alt)

lemma control_on_lap_take:
  assumes "schedule_ok req" "0 < lap"
  shows "control_on_lap req lap = last (baseline_entry req #
    take (length (filter (\<lambda>e. unat (control_lap_index e) < lap) (request_control_schedule req))) (request_control_schedule req))"
  using filter_below_take [OF schedule_sorted [OF assms(1)], of lap] assms(2)
  by (simp add: control_on_lap_def baseline_entry_def)

lemma apply_control_schedule_Ok:
  assumes "schedule_ok req" "kernel_inv L req k"
  defines "c \<equiv> length (filter (\<lambda>e. unat (control_lap_index e) < kernel_next_lap k) (request_control_schedule req))"
  shows "apply_control_schedule L req k = Inr (k\<lparr>kernel_active := envelope_of L req (control_on_lap req (kernel_next_lap k)),
    kernel_cursor := c,
    kernel_applied := (if request_control_schedule req = [] then []
      else baseline_entry req # take c (request_control_schedule req))\<rparr>)"
proof -
  let ?s = "request_control_schedule req"
  have inv: "0 < kernel_next_lap k"
    "kernel_cursor k = length (filter (\<lambda>e. unat (control_lap_index e) < kernel_next_lap k - 1) ?s)"
    "kernel_active k = envelope_of L req (last (baseline_entry req # take (kernel_cursor k) ?s))"
    "kernel_applied k = (if ?s = [] then [] else baseline_entry req # take (kernel_cursor k) ?s)"
    using assms(2) by (simp_all add: kernel_inv_def)
  let ?hit = "kernel_cursor k < length ?s \<and> unat (control_lap_index (?s ! kernel_cursor k)) = kernel_next_lap k - 1"
  have c: "c = (if ?hit then Suc (kernel_cursor k) else kernel_cursor k)"
    using filter_next [OF schedule_sorted [OF assms(1)] inv(2)] inv(1) by (simp add: c_def)
  have on: "control_on_lap req (kernel_next_lap k) = last (baseline_entry req # take c ?s)"
    using control_on_lap_take [OF assms(1) inv(1)] by (simp add: c_def)
  show ?thesis
  proof (cases ?hit)
    case True
    then have ok: "control_entry_ok req (?s ! kernel_cursor k)" and ne: "?s \<noteq> []"
      using assms(1) by (auto simp: schedule_ok_def list_all_iff)
    have c': "c = Suc (kernel_cursor k)" using c True by (simp only: if_True simp_thms)
    have take: "take c ?s = take (kernel_cursor k) ?s @ [?s ! kernel_cursor k]"
      unfolding c' using True by (intro take_Suc_conv_app_nth) simp
    have "apply_control_schedule L req k = Inr (k\<lparr>kernel_active := envelope_of L req (?s ! kernel_cursor k),
        kernel_applied := kernel_applied k @ [?s ! kernel_cursor k], kernel_cursor := Suc (kernel_cursor k)\<rparr>)"
      using True by (simp add: apply_control_schedule_def Let_def envelope_Ok [OF ok])
    then show ?thesis by (simp add: on take inv(4) ne c' [symmetric])
  next
    case False
    then have c': "c = kernel_cursor k" using c by (simp only: if_False)
    have "apply_control_schedule L req k = Inr k" using False by (auto simp: apply_control_schedule_def Let_def)
    then show ?thesis unfolding on c' inv(3) [symmetric] inv(4) [symmetric] by simp
  qed
qed

lemma find_none_list_all: "find P xs = None \<longleftrightarrow> list_all (\<lambda>x. \<not> P x) xs"
  by (auto simp: find_None_iff list_all_iff)

text \<open>The tire of a lap does not depend on the services done so far.\<close>

lemma lap_tire:
  assumes "kernel_inv L req k" "kernel_next_lap k \<le> 65535"
  shows "tire_for_lap (kernel_tire k) (sorted_stops req) (of_nat (kernel_next_lap k)) =
    tire_for_lap (request_vehicle_tire req) (sorted_stops req) (of_nat (kernel_next_lap k))"
proof (cases "find (\<lambda>stop. stop_lap stop < of_nat (kernel_next_lap k)) (rev (sorted_stops req))")
  case None
  then have "list_all (\<lambda>stop. kernel_next_lap k \<le> unat (stop_lap stop)) (sorted_stops req)"
    using assms(2) by (auto simp: find_none_list_all list_all_iff word_less_nat_alt unat_of_nat_16)
  then show ?thesis using assms(1) by (simp add: kernel_inv_def)
qed (simp add: tire_for_lap_def)

definition lap_faithful ::
  "('phys, 'tire) ResolvedSimulationRequestV3 \<Rightarrow> nat \<Rightarrow> 'ch ResolvedSimulationLapV3 \<Rightarrow> bool" where
  "lap_faithful req n lap \<longleftrightarrow> unat (lap_index lap) = n \<and>
     active_driver_control lap = control_lap_control (control_on_lap req n) \<and>
     correction_workload_multiplier lap = control_lap_multiplier (control_on_lap req n) \<and>
     (pit_stop_completed lap \<longleftrightarrow> (\<exists>stop\<in>set (request_pit_stops req). stop_lap stop = lap_index lap)) \<and>
     solution_s (lap_solution lap) = request_track_s req"

lemma finish_lap_parts:
  assumes "finish_lap req k (of_nat n) numbers after = (lap, k')" "n \<le> 65535"
    "kernel_active k = envelope_of L req (control_on_lap req n)"
  shows "lap_faithful req n lap" "kernel_next_lap k' = Suc (kernel_next_lap k)"
    "kernel_active k' = kernel_active k" "kernel_cursor k' = kernel_cursor k" "kernel_applied k' = kernel_applied k"
    "length (kernel_lap_times k') = Suc (length (kernel_lap_times k))"
    "list_all (\<lambda>stop. stop_lap stop \<noteq> of_nat n) (sorted_stops req) \<Longrightarrow> kernel_tire k' = kernel_tire k"
proof -
  have active: "env_control (kernel_active k) = control_lap_control (control_on_lap req n)"
    "env_multiplier (kernel_active k) = control_lap_multiplier (control_on_lap req n)"
    by (simp_all add: assms(3) envelope_of_def)
  have stops: "set (sorted_stops req) = set (request_pit_stops req)" by (simp add: sorted_stops_def)
  note lap = assms(1) [unfolded finish_lap_def Let_def prod.inject]
  show "lap_faithful req n lap"
    using lap assms(2) active by (auto simp: lap_faithful_def unat_of_nat_16 list_ex_iff stops)
  show "kernel_next_lap k' = Suc (kernel_next_lap k)" "kernel_active k' = kernel_active k"
    "kernel_cursor k' = kernel_cursor k" "kernel_applied k' = kernel_applied k"
    "length (kernel_lap_times k') = Suc (length (kernel_lap_times k))"
    using lap by (auto split: option.splits)
  assume "list_all (\<lambda>stop. stop_lap stop \<noteq> of_nat n) (sorted_stops req)"
  then have "find (\<lambda>stop. stop_lap stop = of_nat n) (sorted_stops req) = None" by (simp add: find_none_list_all)
  then show "kernel_tire k' = kernel_tire k" using lap by auto
qed

lemma kernel_lap_Ok:
  assumes "schedule_ok req" "kernel_inv L req k" "kernel_next_lap k \<le> 65535" "kernel_lap L req k = Inr (lap, k')"
  shows "lap_faithful req (kernel_next_lap k) lap \<and> kernel_next_lap k' = Suc (kernel_next_lap k) \<and> kernel_inv L req k'"
proof -
  let ?s = "request_control_schedule req" and ?n = "kernel_next_lap k"
  let ?c = "length (filter (\<lambda>e. unat (control_lap_index e) < ?n) ?s)"
  let ?k = "k\<lparr>kernel_active := envelope_of L req (control_on_lap req ?n), kernel_cursor := ?c,
    kernel_applied := (if ?s = [] then [] else baseline_entry req # take ?c ?s)\<rparr>"
  have pos: "0 < ?n" using assms(2) by (simp add: kernel_inv_def)
  obtain numbers after where fin: "finish_lap req ?k (of_nat ?n) numbers after = (lap, k')"
    using assms(4) by (auto simp: kernel_lap_def apply_control_schedule_Ok [OF assms(1,2)] result_simps Let_def)
  note parts = finish_lap_parts [OF fin assms(3), of L, simplified]
  have "kernel_tire k' = request_vehicle_tire req"
    if "list_all (\<lambda>stop. Suc ?n \<le> unat (stop_lap stop)) (sorted_stops req)"
  proof -
    have "list_all (\<lambda>stop. stop_lap stop \<noteq> of_nat ?n) (sorted_stops req)"
      using that assms(3) by (auto simp: list_all_iff unat_of_nat_16)
    moreover have "kernel_tire k = request_vehicle_tire req"
      using that assms(2) by (auto simp: kernel_inv_def list_all_iff)
    ultimately show ?thesis using parts(7) by simp
  qed
  moreover have "length (kernel_lap_times k) = ?n - 1" using assms(2) by (simp add: kernel_inv_def)
  ultimately show ?thesis
    using parts(1-6) pos control_on_lap_take [OF assms(1) pos] by (auto simp: kernel_inv_def)
qed

lemma kernel_start_Ok:
  "schedule_ok req \<Longrightarrow> \<exists>k. kernel_start L req = Inr k \<and> kernel_next_lap k = 1 \<and> kernel_inv L req k"
  using envelope_Ok [of req "baseline_entry req" L]
  by (auto simp: kernel_start_def schedule_ok_def kernel_inv_def baseline_entry_def result_simps)

section \<open>Stepping the session\<close>

text \<open>The reference: the lap loop run to its end, with the laps completed before an error.\<close>

fun kernel_trace ::
  "('phys, 'tire, 'ch, 'acc, 'res) lap_solver \<Rightarrow> ('phys, 'tire) ResolvedSimulationRequestV3 \<Rightarrow> nat \<Rightarrow>
     ('tire, 'acc) KernelState \<Rightarrow> 'ch ResolvedSimulationLapV3 list \<times> (SolverError + ('tire, 'acc) KernelState)" where
  "kernel_trace L req 0 k = ([], Inr k)"
| "kernel_trace L req (Suc n) k =
     (case kernel_lap L req k of
        Inl e \<Rightarrow> ([], Inl e)
      | Inr (lap, k') \<Rightarrow> (case kernel_trace L req n k' of (laps, r) \<Rightarrow> (lap # laps, r)))"

definition kernel_result ::
  "('phys, 'tire, 'ch, 'acc, 'res) lap_solver \<Rightarrow> ('phys, 'tire) ResolvedSimulationRequestV3 \<Rightarrow> nat \<Rightarrow>
     ('tire, 'acc) KernelState \<Rightarrow> SolverError + 'res" where
  "kernel_result L req n k =
     and_then (snd (kernel_trace L req n k)) (\<lambda>k'. map_err SolverFailed (finish_kernel L req k'))"

definition run_kernel ::
  "('phys, 'tire, 'ch, 'acc, 'res) lap_solver \<Rightarrow> ('phys, 'tire) ResolvedSimulationRequestV3 \<Rightarrow> SolverError + 'res" where
  "run_kernel L req =
     and_then (kernel_start L req) (kernel_result L req (unat (effective_lap_count req)))"

text \<open>The states of a session between two calls: a kernel that is about to run lap \<open>kernel_next_lap\<close>, or
  completed.\<close>

definition session_open ::
  "('phys, 'tire, 'ch, 'acc, 'res) lap_solver \<Rightarrow> ('phys, 'tire, 'ch, 'acc) SolverSession \<Rightarrow>
     ('tire, 'acc) KernelState \<Rightarrow> bool" where
  "session_open L s k \<longleftrightarrow> \<not> session_complete s \<and> session_lap_slot s = None \<and>
     (session_future s = Suspended k \<or>
      session_future s = NotStarted \<and> kernel_start L (session_request s) = Inr k) \<and>
     schedule_ok (session_request s) \<and> kernel_inv L (session_request s) k \<and>
     kernel_next_lap k \<le> Suc (unat (effective_lap_count (session_request s)))"

definition laps_left :: "('phys, 'tire, 'ch, 'acc) SolverSession \<Rightarrow> ('tire, 'acc) KernelState \<Rightarrow> nat" where
  "laps_left s k = Suc (unat (effective_lap_count (session_request s))) - kernel_next_lap k"

lemma effective_lap_count_bounds: "0 < unat (effective_lap_count req)" "unat (effective_lap_count req) \<le> 65535"
proof -
  have "1 \<le> effective_lap_count req" by (simp add: effective_lap_count_def)
  then show "0 < unat (effective_lap_count req)" by (simp add: word_le_nat_alt)
  show "unat (effective_lap_count req) \<le> 65535" by (rule unat_u16_bound)
qed

lemma session_new_open:
  assumes "session_new L req = Inr s"
  obtains k where "session_open L s k" "kernel_start L req = Inr k" "kernel_next_lap k = 1" "session_request s = req"
proof -
  have v: "schedule_ok req" and s: "s = \<lparr>session_request = req, session_future = NotStarted, session_lap_slot = None,
      session_complete = False\<rparr>"
    using assms by (auto simp: session_new_def result_simps dest: validate_request_schedule)
  obtain k where "kernel_start L req = Inr k" "kernel_next_lap k = 1" "kernel_inv L req k"
    using kernel_start_Ok [OF v] by blast
  then show ?thesis using that [of k] v by (simp add: s session_open_def)
qed

lemma session_advance_poll:
  assumes "session_open L s k"
  shows "poll_future L s = Some (resume_kernel L s k)"
  using assms by (auto simp: session_open_def poll_future_def)

text \<open>A call while laps are left yields the next lap, or the error of that lap.\<close>

lemma session_advance_lap:
  assumes "session_open L s k" "0 < laps_left s k"
  shows "case kernel_lap L (session_request s) k of
      Inl e \<Rightarrow> \<exists>s'. session_advance L s = Some (s', Inl e) \<and> session_complete s'
    | Inr (lap, k') \<Rightarrow> \<exists>s'. session_advance L s = Some (s', Inr (LapStep lap)) \<and> session_open L s' k' \<and>
        session_request s' = session_request s \<and> Suc (laps_left s' k') = laps_left s k \<and>
        lap_faithful (session_request s) (kernel_next_lap k) lap \<and> kernel_next_lap k' = Suc (kernel_next_lap k)"
proof -
  have le: "kernel_next_lap k \<le> unat (effective_lap_count (session_request s))"
    using assms(2) by (simp add: laps_left_def)
  have open_s: "\<not> session_complete s" "session_lap_slot s = None" "schedule_ok (session_request s)"
    "kernel_inv L (session_request s) k"
    using assms(1) by (simp_all add: session_open_def)
  have small: "kernel_next_lap k \<le> 65535" using le effective_lap_count_bounds(2) [of "session_request s"] by simp
  show ?thesis
  proof (cases "kernel_lap L (session_request s) k")
    case (Inl e)
    then show ?thesis
      using le open_s by (simp add: session_advance_def session_advance_poll [OF assms(1)] resume_kernel_def)
  next
    case (Inr r)
    obtain lap k' where r: "r = (lap, k')" by force
    note ok = kernel_lap_Ok [OF open_s(3,4) small Inr [unfolded r]]
    show ?thesis
      using le open_s ok Inr
      by (simp add: session_advance_def session_advance_poll [OF assms(1)] resume_kernel_def r session_open_def
          laps_left_def Suc_diff_le)
  qed
qed

lemma session_advance_finish:
  assumes "session_open L s k" "laps_left s k = 0"
  shows "\<exists>s'. session_advance L s =
      Some (s', map_ok CompleteStep (map_err SolverFailed (finish_kernel L (session_request s) k))) \<and> session_complete s'"
proof -
  have "\<not> session_complete s" "session_lap_slot s = None"
    "\<not> kernel_next_lap k \<le> unat (effective_lap_count (session_request s))"
    using assms by (simp_all add: session_open_def laps_left_def)
  then show ?thesis
    by (simp add: session_advance_def session_advance_poll [OF assms(1)] resume_kernel_def)
qed

lemma session_advance_completed:
  "session_complete s \<Longrightarrow> session_advance L s = Some (s, Inl SessionAlreadyCompleted)"
  by (simp add: session_advance_def)

lemma run_session_open:
  "session_open L s k \<Longrightarrow> run_session L s = Some (kernel_result L (session_request s) (laps_left s k) k)"
proof (induction "laps_left s k" arbitrary: s k)
  case 0
  then obtain s' where "session_advance L s =
      Some (s', map_ok CompleteStep (map_err SolverFailed (finish_kernel L (session_request s) k)))"
    using session_advance_finish [of L s k] by auto
  then show ?case
    using 0 by (subst run_session.simps)
      (cases "finish_kernel L (session_request s) k"; simp add: kernel_result_def)
next
  case (Suc n)
  then have left: "0 < laps_left s k" by simp
  note step = session_advance_lap [OF Suc.prems left]
  show ?case
  proof (cases "kernel_lap L (session_request s) k")
    case (Inl e)
    then obtain s' where "session_advance L s = Some (s', Inl e)" using step by auto
    then show ?thesis
      by (subst run_session.simps) (simp add: kernel_result_def Suc.hyps(2) [symmetric] Inl)
  next
    case (Inr r)
    obtain lap k' where r: "r = (lap, k')" by force
    obtain s' where s': "session_advance L s = Some (s', Inr (LapStep lap))" "session_open L s' k'"
        "session_request s' = session_request s" "Suc (laps_left s' k') = laps_left s k"
      using step unfolding Inr r by auto
    have "n = laps_left s' k'" using s'(4) Suc.hyps(2) by simp
    then have "run_session L s' = Some (kernel_result L (session_request s') (laps_left s' k') k')"
      using s'(2) by (rule Suc.hyps(1))
    moreover have "run_session L s = run_session L s'" by (subst run_session.simps) (simp add: s'(1))
    ultimately show ?thesis
      by (simp add: s'(3) kernel_result_def s'(4) [symmetric] Inr r split: prod.splits)
  qed
qed

text \<open>The answers of the next calls of a session.\<close>

fun session_steps ::
  "('phys, 'tire, 'ch, 'acc, 'res) lap_solver \<Rightarrow> nat \<Rightarrow> ('phys, 'tire, 'ch, 'acc) SolverSession \<Rightarrow>
     (SolverError + ('ch, 'res) SolverStep) list option" where
  "session_steps L 0 s = Some []"
| "session_steps L (Suc n) s =
     (case session_advance L s of
        None \<Rightarrow> None
      | Some (s', r) \<Rightarrow> map_option ((#) r) (session_steps L n s'))"

lemma session_steps_completed:
  "session_complete s \<Longrightarrow> session_steps L n s = Some (replicate n (Inl SessionAlreadyCompleted))"
  by (induction n) (simp_all add: session_advance_completed)

definition lap_answers :: "'ch ResolvedSimulationLapV3 list \<Rightarrow> (SolverError + ('ch, 'res) SolverStep) list" where
  "lap_answers laps = map (\<lambda>lap. Inr (LapStep lap)) laps"

lemma session_steps_open:
  assumes "session_open L s k" "kernel_trace L (session_request s) (laps_left s k) k = (laps, r)"
  shows "session_steps L (Suc (length laps) + m) s = Some (lap_answers laps @
      map_ok CompleteStep (kernel_result L (session_request s) (laps_left s k) k) #
      replicate m (Inl SessionAlreadyCompleted)) \<and>
    (\<forall>i<length laps. lap_faithful (session_request s) (kernel_next_lap k + i) (laps ! i)) \<and>
    length laps \<le> laps_left s k \<and> (is_ok r \<longrightarrow> length laps = laps_left s k)"
  using assms
proof (induction "laps_left s k" arbitrary: s k laps)
  case 0
  then obtain s' where "session_advance L s =
      Some (s', map_ok CompleteStep (map_err SolverFailed (finish_kernel L (session_request s) k)))" "session_complete s'"
    using session_advance_finish [of L s k] by auto
  then show ?case using 0 by (auto simp: kernel_result_def session_steps_completed lap_answers_def)
next
  case (Suc n)
  then have left: "0 < laps_left s k" by simp
  note step = session_advance_lap [OF Suc.prems(1) left]
  show ?case
  proof (cases "kernel_lap L (session_request s) k")
    case (Inl e)
    then obtain s' where "session_advance L s = Some (s', Inl e)" "session_complete s'" using step by auto
    then show ?thesis
      using Suc.prems(2)
      by (auto simp: kernel_result_def session_steps_completed lap_answers_def Suc.hyps(2) [symmetric] Inl)
  next
    case (Inr p)
    obtain lap k' where p: "p = (lap, k')" by force
    obtain s' where s': "session_advance L s = Some (s', Inr (LapStep lap))" "session_open L s' k'"
        "session_request s' = session_request s" "Suc (laps_left s' k') = laps_left s k"
        "lap_faithful (session_request s) (kernel_next_lap k) lap" "kernel_next_lap k' = Suc (kernel_next_lap k)"
      using step unfolding Inr p by auto
    obtain laps' where laps: "laps = lap # laps'"
        "kernel_trace L (session_request s') (laps_left s' k') k' = (laps', r)"
      using Suc.prems(2) by (auto simp: s'(3) s'(4) [symmetric] Inr p split: prod.splits)
    have n: "n = laps_left s' k'" using s'(4) Suc.hyps(2) by simp
    note IH = Suc.hyps(1) [OF n s'(2) laps(2)]
    have "kernel_result L (session_request s) (laps_left s k) k = kernel_result L (session_request s') (laps_left s' k') k'"
      by (simp add: s'(3) kernel_result_def s'(4) [symmetric] Inr p split: prod.splits)
    moreover have "lap_faithful (session_request s) (kernel_next_lap k + i) (laps ! i)" if "i < length laps" for i
      using IH that s'(3,5,6) by (cases i) (auto simp: laps(1))
    ultimately show ?thesis
      using IH s'(1) by (auto simp: laps(1) s'(4) [symmetric] lap_answers_def)
  qed
qed

section \<open>Properties\<close>

text \<open>C17: executing a competitor by repeated calls always ends, and its outcome is that of the lap loop run
  in one go: the first validation or lap error, or the terminal result.\<close>

theorem run_resolved_simulation_v3_exact:
  "run_resolved_simulation_v3 L req =
     Some (and_also (validate_resolved_simulation_request_v3 L req) (run_kernel L req))"
proof (cases "session_new L req")
  case (Inl e)
  then show ?thesis
    by (auto simp: run_resolved_simulation_v3_def session_new_def result_simps)
next
  case (Inr s)
  then have "validate_resolved_simulation_request_v3 L req = Inr ()" by (simp add: session_new_def result_simps)
  moreover obtain k where "session_open L s k" "kernel_start L req = Inr k" "kernel_next_lap k = 1" "session_request s = req"
    using Inr by (rule session_new_open)
  ultimately show ?thesis
    by (simp add: run_resolved_simulation_v3_def Inr run_session_open run_kernel_def laps_left_def)
qed

text \<open>C18: a solver session answers with the laps of the race in order, numbered from 1, each under the
  driver control in force on it and with a pit stop exactly when one is planned; then with the outcome, once;
  and every later call is refused. No call panics.\<close>

theorem session_protocol:
  assumes "session_new L req = Inr s"
  shows "\<exists>laps. length laps \<le> unat (effective_lap_count req) \<and>
    (is_ok (run_kernel L req) \<longrightarrow> length laps = unat (effective_lap_count req)) \<and>
    (\<forall>i<length laps. lap_faithful req (Suc i) (laps ! i)) \<and>
    (\<forall>m. session_steps L (Suc (length laps) + m) s = Some (lap_answers laps @
       map_ok CompleteStep (run_kernel L req) # replicate m (Inl SessionAlreadyCompleted)))"
proof -
  obtain k where k: "session_open L s k" "kernel_start L req = Inr k" "kernel_next_lap k = 1" "session_request s = req"
    using assms by (rule session_new_open)
  then have left: "laps_left s k = unat (effective_lap_count req)" by (simp add: laps_left_def)
  obtain laps r where t: "kernel_trace L req (laps_left s k) k = (laps, r)" by force
  have run: "run_kernel L req = kernel_result L req (laps_left s k) k" by (simp add: run_kernel_def k(2) left)
  have "is_ok r" if "is_ok (run_kernel L req)"
    using that unfolding run kernel_result_def t by (cases r) simp_all
  then show ?thesis
    using session_steps_open [OF k(1), unfolded k(4), OF t] k(3) by (intro exI [of _ laps]) (auto simp: run left)
qed

definition sample_solver :: "(unit, nat, unit, unit, nat) lap_solver" where
  "sample_solver = \<lparr>validate_physics = (\<lambda>_. Inr ()), validate_options = (\<lambda>_. Inr ()), sqrt_recip = (\<lambda>x. x), no_totals = (),
     solve_lap = (\<lambda>req k tire lap. Inr \<lparr>numbers_t = [F64_ONE], numbers_state = Inr (kernel_state k),
        numbers_end_speed = None, numbers_end_gear = None, numbers_shift_remaining = F64_ZERO,
        numbers_channels = (), numbers_totals = ()\<rparr>),
     finish_kernel = (\<lambda>req k. Inr (length (kernel_lap_times k)))\<rparr>"

definition sample_control :: DriverControlParamsV3 where
  "sample_control = \<lparr>cornering_utilization = F64_ONE, braking_utilization = F64_ONE, traction_utilization = F64_ONE,
     control_error = F64_ZERO\<rparr>"

definition sample_request :: "(unit, nat) ResolvedSimulationRequestV3" where
  "sample_request = \<lparr>request_physics = (), request_vehicle_tire = 0,
     request_state = \<lparr>fuel_mass = 0, tire_wear = 0, tire_temp = 0, engine_temp = 0\<rparr>, request_track_s = [F64_ZERO, F64_ONE],
     request_pit_time_penalty_s = F64_ONE, request_pit_tire_temp = None, request_lap_count = 2,
     request_pit_stops = [\<lparr>stop_lap = 1, stop_tire = 7\<rparr>], request_driver_id = ''d'', request_driver_control = sample_control,
     request_multiplier = None,
     request_control_schedule = [\<lparr>control_lap_index = 1, control_lap_control = sample_control\<lparr>cornering_utilization := F64_HALF\<rparr>,
        control_lap_multiplier = None\<rparr>],
     request_capacity_model = None\<rparr>"

lemma sample_control_valid:
  "validate_driver_control_v3 sample_control = Inr ()"
  "validate_driver_control_v3 (sample_control\<lparr>cornering_utilization := F64_HALF\<rparr>) = Inr ()"
  by (simp_all add: validate_driver_control_v3_def sample_control_def f64_in_range_def f64_le_def f64_constants_not_nan
      f64_constant_values is_finite64_exponent f64_constant_parts f64_scaled_def f64_constant_magnitudes f64_nan_def)

lemma sample_session:
  "session_new sample_solver sample_request = Inr \<lparr>session_request = sample_request, session_future = NotStarted,
     session_lap_slot = None, session_complete = False\<rparr>"
  by (simp add: session_new_def validate_resolved_simulation_request_v3_def sample_solver_def sample_request_def
      sample_control_valid validate_driver_correction_workload_v3_def validate_driver_control_schedule_v3_def
      effective_lap_count_def max_def)

theorem session_protocol_witness:
  "\<exists>laps. length laps \<le> 2 \<and> (\<forall>i<length laps. lap_faithful sample_request (Suc i) (laps ! i)) \<and>
     session_steps sample_solver (Suc (length laps) + 1)
       \<lparr>session_request = sample_request, session_future = NotStarted, session_lap_slot = None, session_complete = False\<rparr> =
     Some (lap_answers laps @ [map_ok CompleteStep (run_kernel sample_solver sample_request), Inl SessionAlreadyCompleted])"
proof -
  have "unat (effective_lap_count sample_request) = 2" by (simp add: sample_request_def effective_lap_count_def max_def)
  with session_protocol [OF sample_session] show ?thesis by (metis One_nat_def replicate.simps)
qed

end
