(* ===== verification/Execution_Stream.thy ===== *)
theory Execution_Stream
  imports Run_Contract
begin

text \<open>
  \<open>crates/pitgun-contract/src/execution_stream.rs\<close>: the incremental execution stream. A producer
  sends bounded batches of records; the cursor of the consumer checks each batch against what it
  has accepted so far. The payload types are type variables, as in the source.
\<close>

section \<open>Records, batches and the cursor\<close>

definition MAX_INCREMENTAL_STREAM_BATCH_RECORDS :: nat where
  "MAX_INCREMENTAL_STREAM_BATCH_RECORDS = 256"

datatype StreamVersion = StreamV1

record StreamDescriptor =
  descriptor_schema_version :: StreamVersion
  descriptor_execution_id :: ExecutionId
  descriptor_model :: ArtifactIdentity
  descriptor_clock :: LogicalClockV1

datatype ('p, 'c) StreamEvent = Progress 'p | Complete 'c

fun is_complete :: "('p, 'c) StreamEvent \<Rightarrow> bool" where
  "is_complete (Complete _) = True"
| "is_complete (Progress _) = False"

record ('p, 'c) StreamRecord =
  rec_sequence :: u64
  rec_tick :: u64
  rec_event :: "('p, 'c) StreamEvent"

record ('p, 'c) StreamBatch =
  batch_schema_version :: StreamVersion
  batch_records :: "('p, 'c) StreamRecord list"

record StreamCursor =
  next_sequence :: u64
  last_logical_tick :: "u64 option"
  completed :: bool

datatype StreamError =
    EmptyBatch
  | BatchTooLarge nat nat
  | StreamUnsafeInteger string u64
  | UnexpectedSequence u64 u64
  | DecreasingLogicalTick u64 u64
  | CompletionNotLast u64
  | BatchAfterCompletion
  | SequenceExhausted

definition descriptor_new :: "ExecutionId \<Rightarrow> ArtifactIdentity \<Rightarrow> LogicalClockV1 \<Rightarrow> StreamDescriptor" where
  "descriptor_new execution mdl clk =
     \<lparr>descriptor_schema_version = StreamV1, descriptor_execution_id = execution,
      descriptor_model = mdl, descriptor_clock = clk\<rparr>"

definition validate_portable_integer :: "string \<Rightarrow> u64 \<Rightarrow> StreamError + unit" where
  "validate_portable_integer field value =
     (if value \<le> MAX_SAFE_JSON_INTEGER then Ok () else Err (StreamUnsafeInteger field value))"

definition record_new ::
    "u64 \<Rightarrow> u64 \<Rightarrow> ('p, 'c) StreamEvent \<Rightarrow> StreamError + ('p, 'c) StreamRecord" where
  "record_new seq tick event =
     and_also (validate_portable_integer ''sequence'' seq)
    (and_also (validate_portable_integer ''logical_tick'' tick)
    (Ok \<lparr>rec_sequence = seq, rec_tick = tick, rec_event = event\<rparr>))"

text \<open>The loop over \<open>records.windows(2)\<close>.\<close>

fun validate_pairs :: "('p, 'c) StreamRecord list \<Rightarrow> StreamError + unit" where
  "validate_pairs (a # b # rest) =
     and_then (ok_or (checked_add (rec_sequence a) 1) SequenceExhausted) (\<lambda>expected.
     if rec_sequence b \<noteq> expected then Err (UnexpectedSequence expected (rec_sequence b))
     else if rec_tick b < rec_tick a then Err (DecreasingLogicalTick (rec_tick a) (rec_tick b))
     else if is_complete (rec_event a) then Err (CompletionNotLast (rec_sequence a))
     else validate_pairs (b # rest))"
| "validate_pairs _ = Ok ()"

definition validate_batch_structure :: "('p, 'c) StreamRecord list \<Rightarrow> StreamError + unit" where
  "validate_batch_structure records =
     (if records = [] then Err EmptyBatch
      else if length records > MAX_INCREMENTAL_STREAM_BATCH_RECORDS
      then Err (BatchTooLarge (length records) MAX_INCREMENTAL_STREAM_BATCH_RECORDS)
      else and_also (try_each (\<lambda>r.
             and_also (validate_portable_integer ''sequence'' (rec_sequence r))
               (validate_portable_integer ''logical_tick'' (rec_tick r))) records)
             (validate_pairs records))"

definition batch_new :: "('p, 'c) StreamRecord list \<Rightarrow> StreamError + ('p, 'c) StreamBatch" where
  "batch_new records =
     and_also (validate_batch_structure records)
       (Ok \<lparr>batch_schema_version = StreamV1, batch_records = records\<rparr>)"

definition cursor_new :: StreamCursor where
  "cursor_new = \<lparr>next_sequence = 0, last_logical_tick = None, completed = False\<rparr>"

text \<open>The values that the last lines of \<open>validate_next\<close> store in the cursor.\<close>

definition advance_past :: "('p, 'c) StreamRecord \<Rightarrow> StreamError + StreamCursor" where
  "advance_past final =
     (let done = is_complete (rec_event final) in
      and_then
        (if done then Ok (rec_sequence final)
         else and_then (ok_or (checked_add (rec_sequence final) 1) SequenceExhausted) (\<lambda>next.
              and_also (validate_portable_integer ''sequence'' next) (Ok next)))
        (\<lambda>next. Ok \<lparr>next_sequence = next, last_logical_tick = Some (rec_tick final), completed = done\<rparr>))"

definition check_next :: "StreamCursor \<Rightarrow> ('p, 'c) StreamBatch \<Rightarrow> StreamError + StreamCursor" where
  "check_next cursor batch =
     (if completed cursor then Err BatchAfterCompletion
      else and_also (validate_batch_structure (batch_records batch))
       (let first = hd (batch_records batch) in
        if rec_sequence first \<noteq> next_sequence cursor
        then Err (UnexpectedSequence (next_sequence cursor) (rec_sequence first))
        else and_also
          (case last_logical_tick cursor of
             Some previous \<Rightarrow>
               (if rec_tick first < previous
                then Err (DecreasingLogicalTick previous (rec_tick first)) else Ok ())
           | None \<Rightarrow> Ok ())
          (advance_past (last (batch_records batch)))))"

definition validate_next ::
    "StreamCursor \<Rightarrow> ('p, 'c) StreamBatch \<Rightarrow> StreamCursor \<times> (StreamError + unit)" where
  "validate_next cursor batch =
     (case check_next cursor batch of
        Inl e \<Rightarrow> (cursor, Err e)
      | Inr cursor' \<Rightarrow> (cursor', Ok ()))"

text \<open>A consumer that feeds batches to one cursor and stops at the first error.\<close>

definition run_batches :: "StreamCursor \<Rightarrow> ('p, 'c) StreamBatch list \<Rightarrow> StreamError + StreamCursor" where
  "run_batches = try_fold (\<lambda>cursor batch.
     case validate_next cursor batch of (cursor', r) \<Rightarrow> and_also r (Ok cursor'))"

section \<open>Single batches\<close>

definition record_safe :: "('p, 'c) StreamRecord \<Rightarrow> bool" where
  "record_safe r \<longleftrightarrow> safe_unsigned (rec_sequence r) \<and> safe_unsigned (rec_tick r)"

definition follows :: "('p, 'c) StreamRecord \<Rightarrow> ('p, 'c) StreamRecord \<Rightarrow> bool" where
  "follows a b \<longleftrightarrow> unat (rec_sequence b) = unat (rec_sequence a) + 1 \<and>
     rec_tick a \<le> rec_tick b \<and> \<not> is_complete (rec_event a)"

lemma portable_Ok: "validate_portable_integer field v = Ok () \<longleftrightarrow> safe_unsigned v"
  by (auto simp: validate_portable_integer_def safe_unsigned_def word_le_nat_alt unat_MAX_SAFE)

lemma checked_add_one_safe: "safe_unsigned a \<Longrightarrow> checked_add a 1 = Some (a + 1)"
  by (simp add: checked_add_Some safe_unsigned_def)

lemma safe_unsigned_succ: "safe_unsigned a \<Longrightarrow> unat (a + 1) = unat a + 1"
  using checked_add_unat [OF checked_add_one_safe] by simp

lemma validate_pairs_Ok:
  "validate_pairs rs = Ok () \<longleftrightarrow> successively follows rs"
  by (induction rs rule: validate_pairs.induct)
    (auto simp: follows_def result_simps checked_add_one_iff word_less_nat_alt word_le_nat_alt
      word_unat_eq_iff split: if_splits)

definition batch_ok :: "('p, 'c) StreamRecord list \<Rightarrow> bool" where
  "batch_ok rs \<longleftrightarrow> rs \<noteq> [] \<and> length rs \<le> 256 \<and> list_all record_safe rs \<and> successively follows rs"

lemma validate_batch_structure_Ok: "validate_batch_structure rs = Ok () \<longleftrightarrow> batch_ok rs"
  by (auto simp: validate_batch_structure_def batch_ok_def MAX_INCREMENTAL_STREAM_BATCH_RECORDS_def
      result_simps portable_Ok record_safe_def validate_pairs_Ok list_all_iff)

definition can_follow :: "('p, 'c) StreamRecord \<Rightarrow> bool" where
  "can_follow r \<longleftrightarrow> is_complete (rec_event r) \<or> unat (rec_sequence r) + 1 \<le> 9007199254740991"

definition cursor_after :: "('p, 'c) StreamRecord \<Rightarrow> StreamCursor" where
  "cursor_after r = \<lparr>next_sequence = (if is_complete (rec_event r) then rec_sequence r else rec_sequence r + 1),
     last_logical_tick = Some (rec_tick r), completed = is_complete (rec_event r)\<rparr>"

lemma advance_past_Ok:
  "safe_unsigned (rec_sequence r) \<Longrightarrow> advance_past r = Ok c \<longleftrightarrow> can_follow r \<and> c = cursor_after r"
  using checked_add_unat [OF checked_add_one_safe, of "rec_sequence r"]
  by (auto simp: advance_past_def can_follow_def cursor_after_def checked_add_one_safe result_simps
      portable_Ok safe_unsigned_def Let_def)

lemma check_next_Ok:
  "check_next c b = Ok c' \<longleftrightarrow>
     \<not> completed c \<and> batch_ok (batch_records b) \<and>
     rec_sequence (hd (batch_records b)) = next_sequence c \<and>
     (case last_logical_tick c of None \<Rightarrow> True | Some t \<Rightarrow> t \<le> rec_tick (hd (batch_records b))) \<and>
     can_follow (last (batch_records b)) \<and> c' = cursor_after (last (batch_records b))"
proof (cases "\<not> completed c \<and> batch_ok (batch_records b)")
  case True
  then have "safe_unsigned (rec_sequence (last (batch_records b)))"
    by (auto simp: batch_ok_def list_all_iff record_safe_def)
  with True show ?thesis
    by (auto simp: check_next_def result_simps validate_batch_structure_Ok advance_past_Ok Let_def
        linorder_not_less split: option.splits if_splits)
next
  case False
  then show ?thesis by (auto simp: check_next_def result_simps validate_batch_structure_Ok)
qed

section \<open>The cursor as a state machine\<close>

definition cursor_inv :: "StreamCursor \<Rightarrow> bool" where
  "cursor_inv c \<longleftrightarrow> safe_unsigned (next_sequence c) \<and>
     (case last_logical_tick c of
        None \<Rightarrow> next_sequence c = 0 \<and> \<not> completed c
      | Some t \<Rightarrow> safe_unsigned t \<and> (completed c \<or> 0 < next_sequence c))"

lemma cursor_inv_new: "cursor_inv cursor_new"
  by (simp add: cursor_inv_def cursor_new_def safe_unsigned_def)

lemma cursor_inv_after:
  assumes "record_safe r" "can_follow r"
  shows "cursor_inv (cursor_after r)"
proof -
  have "unat (rec_sequence r + 1) = unat (rec_sequence r) + 1"
    using assms(1) by (simp add: record_safe_def safe_unsigned_succ)
  then show ?thesis
    using assms by (auto simp: cursor_inv_def cursor_after_def record_safe_def can_follow_def
        safe_unsigned_def word_less_nat_alt)
qed

lemma check_next_inv: "check_next c b = Ok c' \<Longrightarrow> cursor_inv c'"
  by (auto simp: check_next_Ok batch_ok_def list_all_iff intro!: cursor_inv_after)

interpretation stream_cursor: guarded_machine validate_next cursor_inv
  by unfold_locales (auto simp: validate_next_def dest: check_next_inv split: sum.splits)

text \<open>C19: a batch that the cursor rejects leaves the cursor as it was; a batch that it accepts keeps
  the cursor's invariant; and once the completion has been accepted no batch is accepted any more.\<close>

theorem validate_next_transactional:
  "(\<forall>e. snd (validate_next c b) = Err e \<longrightarrow> fst (validate_next c b) = c) \<and>
   (cursor_inv c \<longrightarrow> cursor_inv (fst (validate_next c b))) \<and>
   (completed c \<longrightarrow> validate_next c b = (c, Err BatchAfterCompletion))"
proof (intro conjI allI impI)
  show "fst (validate_next c b) = c" if "snd (validate_next c b) = Err e" for e
    using that by (rule stream_cursor.step_error)
  show "cursor_inv (fst (validate_next c b))" if "cursor_inv c"
    using that by (rule stream_cursor.step_inv)
  show "validate_next c b = (c, Err BatchAfterCompletion)" if "completed c"
    using that by (simp add: validate_next_def check_next_def)
qed

definition sample_batch :: "u64 \<Rightarrow> u64 \<Rightarrow> (unit, unit) StreamBatch" where
  "sample_batch seq tick = \<lparr>batch_schema_version = StreamV1,
     batch_records = [\<lparr>rec_sequence = seq, rec_tick = tick, rec_event = Progress ()\<rparr>,
                      \<lparr>rec_sequence = seq + 1, rec_tick = tick, rec_event = Complete ()\<rparr>]\<rparr>"

theorem validate_next_transactional_witness:
  "validate_next (fst (validate_next cursor_new (sample_batch 0 5))) (sample_batch 2 7)
   = (fst (validate_next cursor_new (sample_batch 0 5)), Err BatchAfterCompletion)"
proof -
  have "completed (fst (validate_next cursor_new (sample_batch 0 5)))"
    by (simp add: validate_next_def check_next_def sample_batch_def cursor_new_def checked_add_def
        validate_batch_structure_def MAX_INCREMENTAL_STREAM_BATCH_RECORDS_def advance_past_def
        validate_portable_integer_def MAX_SAFE_JSON_INTEGER_def)
  then show ?thesis
    using validate_next_transactional [of "fst (validate_next cursor_new (sample_batch 0 5))" "sample_batch 2 7"]
    by simp
qed

section \<open>Whole streams\<close>

definition concat_batches :: "('p, 'c) StreamBatch list \<Rightarrow> ('p, 'c) StreamRecord list" where
  "concat_batches bs = concat (map batch_records bs)"

text \<open>The records of a prefix of an execution, whatever the batches they arrive in.\<close>

definition linked_stream :: "('p, 'c) StreamRecord list \<Rightarrow> bool" where
  "linked_stream rs \<longleftrightarrow> list_all record_safe rs \<and> successively follows rs \<and>
     (rs = [] \<or> rec_sequence (hd rs) = 0 \<and> can_follow (last rs))"

definition cursor_of :: "('p, 'c) StreamRecord list \<Rightarrow> StreamCursor" where
  "cursor_of rs = (if rs = [] then cursor_new else cursor_after (last rs))"

lemma run_batches_snoc:
  "run_batches c (bs @ [b]) = and_then (run_batches c bs) (\<lambda>c'. check_next c' b)"
  unfolding run_batches_def try_fold_append
  by (cases "try_fold (\<lambda>cursor batch. case validate_next cursor batch of (cursor', r) \<Rightarrow> and_also r (Ok cursor')) c bs")
    (auto simp: validate_next_def split: sum.splits)

lemma next_after_last:
  assumes "record_safe r" "\<not> is_complete (rec_event r)"
  shows "rec_sequence r' = next_sequence (cursor_after r) \<longleftrightarrow> unat (rec_sequence r') = unat (rec_sequence r) + 1"
proof -
  have "unat (rec_sequence r + 1) = unat (rec_sequence r) + 1"
    using assms(1) by (simp add: record_safe_def safe_unsigned_succ)
  then show ?thesis using assms(2) by (simp add: cursor_after_def word_unat_eq_iff)
qed

lemma linked_stream_append:
  assumes "linked_stream rs" "batch_ok ts"
  shows "linked_stream (rs @ ts) \<longleftrightarrow>
     \<not> completed (cursor_of rs) \<and> rec_sequence (hd ts) = next_sequence (cursor_of rs) \<and>
     (case last_logical_tick (cursor_of rs) of None \<Rightarrow> True | Some t \<Rightarrow> t \<le> rec_tick (hd ts)) \<and>
     can_follow (last ts)"
proof (cases "rs = []")
  case True
  then show ?thesis
    using assms(2) by (auto simp: linked_stream_def batch_ok_def cursor_of_def cursor_new_def)
next
  case False
  then have "record_safe (last rs)" using assms(1) by (auto simp: linked_stream_def list_all_iff)
  with False assms show ?thesis
    using next_after_last [of "last rs" "hd ts"]
    by (auto simp: linked_stream_def batch_ok_def cursor_of_def successively_append_iff follows_def)
       (auto simp: cursor_after_def)
qed

lemma linked_stream_prefix: "linked_stream (rs @ ts) \<Longrightarrow> ts \<noteq> [] \<Longrightarrow> linked_stream rs"
proof -
  assume l: "linked_stream (rs @ ts)" "ts \<noteq> []"
  show ?thesis
  proof (cases "rs = []")
    case False
    have f: "follows (last rs) (hd ts)"
      using l False by (auto simp: linked_stream_def successively_append_iff)
    moreover have "record_safe (hd ts)" using l by (auto simp: linked_stream_def list_all_iff)
    ultimately have "can_follow (last rs)"
      by (auto simp: can_follow_def follows_def record_safe_def safe_unsigned_def)
    then show ?thesis using l False by (auto simp: linked_stream_def successively_append_iff)
  qed (simp add: linked_stream_def)
qed

lemma run_batches_Ok:
  "run_batches cursor_new bs = Ok c \<longleftrightarrow>
     list_all (\<lambda>b. batch_ok (batch_records b)) bs \<and> linked_stream (concat_batches bs) \<and>
     c = cursor_of (concat_batches bs)"
proof (induction bs arbitrary: c rule: rev_induct)
  case Nil
  then show ?case
    by (auto simp: run_batches_def concat_batches_def linked_stream_def cursor_of_def)
next
  case (snoc b bs)
  let ?rs = "concat_batches bs" and ?ts = "batch_records b"
  have cat: "concat_batches (bs @ [b]) = ?rs @ ?ts" by (simp add: concat_batches_def)
  have "run_batches cursor_new (bs @ [b]) = Ok c \<longleftrightarrow>
      list_all (\<lambda>b. batch_ok (batch_records b)) bs \<and> linked_stream ?rs \<and>
      check_next (cursor_of ?rs) b = Ok c"
    by (auto simp: run_batches_snoc and_then_Ok snoc.IH)
  also have "\<dots> \<longleftrightarrow> list_all (\<lambda>b. batch_ok (batch_records b)) bs \<and> linked_stream ?rs \<and>
      batch_ok ?ts \<and> linked_stream (?rs @ ?ts) \<and> c = cursor_of (?rs @ ?ts)"
    using linked_stream_append [of ?rs ?ts]
    by (auto simp: check_next_Ok cursor_of_def batch_ok_def)
  also have "\<dots> \<longleftrightarrow> list_all (\<lambda>b. batch_ok (batch_records b)) (bs @ [b]) \<and>
      linked_stream (?rs @ ?ts) \<and> c = cursor_of (?rs @ ?ts)"
    using linked_stream_prefix [of ?rs ?ts] by (auto simp: batch_ok_def)
  finally show ?case unfolding cat .
qed

text \<open>The promise of the protocol: sequences count the records from 0, ticks never decrease, only the
  last record may be the completion, and every integer is an exact JSON integer, with room for a
  successor while the stream is open.\<close>

definition well_formed_stream :: "('p, 'c) StreamRecord list \<Rightarrow> bool" where
  "well_formed_stream rs \<longleftrightarrow>
     map (\<lambda>r. unat (rec_sequence r)) rs = [0..<length rs] \<and> sorted (map rec_tick rs) \<and>
     list_all (\<lambda>r. unat (rec_tick r) \<le> 2 ^ 53 - 1) rs \<and>
     list_all (\<lambda>r. \<not> is_complete (rec_event r)) (butlast rs) \<and>
     length rs \<le> (if rs \<noteq> [] \<and> is_complete (rec_event (last rs)) then 2 ^ 53 else 2 ^ 53 - 1)"

lemma follows_split:
  "successively follows rs \<longleftrightarrow>
     successively (\<lambda>a b. unat (rec_sequence b) = unat (rec_sequence a) + 1) rs \<and>
     successively (\<lambda>a b. rec_tick a \<le> rec_tick b) rs \<and>
     list_all (\<lambda>r. \<not> is_complete (rec_event r)) (butlast rs)"
proof (induction rs rule: induct_list012)
  case (3 x y zs)
  then show ?case by (auto simp: follows_def)
qed simp_all

lemma counting_from:
  assumes "rs \<noteq> []"
  shows "successively (\<lambda>a b. unat (rec_sequence b) = unat (rec_sequence a) + 1) rs \<longleftrightarrow>
    map (\<lambda>r. unat (rec_sequence r)) rs = [unat (rec_sequence (hd rs))..<unat (rec_sequence (hd rs)) + length rs]"
  using successively_Suc_iff [of "map (\<lambda>r. unat (rec_sequence r)) rs"] assms
  by (simp add: successively_map hd_map)

lemma linked_stream_iff: "linked_stream rs \<longleftrightarrow> well_formed_stream rs"
proof (cases "rs = []")
  case True
  then show ?thesis by (simp add: linked_stream_def well_formed_stream_def)
next
  case False
  have ticks: "successively (\<lambda>a b. rec_tick a \<le> rec_tick b) rs \<longleftrightarrow> sorted (map rec_tick rs)"
    by (subst successively_conv_sorted_wrt) (auto simp: sorted_wrt_map intro!: transpI)
  have seqs: "unat (rec_sequence (last rs)) = length rs - 1 \<and> (\<forall>r\<in>set rs. unat (rec_sequence r) < length rs)"
    if m: "map (\<lambda>r. unat (rec_sequence r)) rs = [0..<length rs]"
  proof
    have "last (map (\<lambda>r. unat (rec_sequence r)) rs) = length rs - 1"
      using False unfolding m by simp
    then show "unat (rec_sequence (last rs)) = length rs - 1" using False by (simp add: last_map)
    show "\<forall>r\<in>set rs. unat (rec_sequence r) < length rs"
      using arg_cong [OF m, of set] by auto
  qed
  have zero: "rec_sequence (hd rs) = 0 \<longleftrightarrow> unat (rec_sequence (hd rs)) = 0"
    by (simp add: unat_eq_0)
  have m0: "map (\<lambda>r. unat (rec_sequence r)) rs = [0..<length rs] \<Longrightarrow> unat (rec_sequence (hd rs)) = 0"
    using False by (metis hd_map hd_upt length_greater_0_conv)
  have "linked_stream rs \<longleftrightarrow> list_all record_safe rs \<and> can_follow (last rs) \<and>
      map (\<lambda>r. unat (rec_sequence r)) rs = [0..<length rs] \<and> sorted (map rec_tick rs) \<and>
      list_all (\<lambda>r. \<not> is_complete (rec_event r)) (butlast rs)"
    using False counting_from [OF False] m0
    by (auto simp: linked_stream_def follows_split ticks zero)
  also have "\<dots> \<longleftrightarrow> well_formed_stream rs"
  proof (cases "map (\<lambda>r. unat (rec_sequence r)) rs = [0..<length rs]")
    case True
    have "last rs \<in> set rs" using False by simp
    then have "(\<forall>r\<in>set rs. unat (rec_sequence r) \<le> m) \<longleftrightarrow> length rs - 1 \<le> m" for m
      using seqs [OF True] by fastforce
    then have "list_all record_safe rs \<longleftrightarrow>
        length rs - 1 \<le> 9007199254740991 \<and> list_all (\<lambda>r. unat (rec_tick r) \<le> 2 ^ 53 - 1) rs"
      by (auto simp: record_safe_def safe_unsigned_def list_all_iff)
    moreover have "0 < length rs" using False by simp
    ultimately show ?thesis
      using True False seqs [OF True] by (auto simp: well_formed_stream_def can_follow_def)
  qed (simp add: well_formed_stream_def)
  finally show ?thesis .
qed

text \<open>C4: a fresh cursor accepts a sequence of batches exactly when each batch holds 1 to 256 records
  and the records of all batches together form a well-formed stream; the cursor then points at the last
  record. How the producer cuts the stream into batches makes no other difference.\<close>

theorem run_batches_exact:
  "run_batches cursor_new bs = Ok c \<longleftrightarrow>
     list_all (\<lambda>b. 1 \<le> length (batch_records b) \<and> length (batch_records b) \<le> 256) bs \<and>
     well_formed_stream (concat_batches bs) \<and> c = cursor_of (concat_batches bs)"
proof -
  have "batch_ok (batch_records b) \<longleftrightarrow> 1 \<le> length (batch_records b) \<and> length (batch_records b) \<le> 256"
    if linked: "linked_stream (concat_batches bs)" and b: "b \<in> set bs" for b
  proof -
    obtain cs ds where "bs = cs @ b # ds"
      using b by (auto simp: in_set_conv_decomp)
    then have "concat_batches bs = concat_batches cs @ batch_records b @ concat_batches ds"
      by (simp add: concat_batches_def)
    then show ?thesis
      using linked by (auto simp: linked_stream_def batch_ok_def successively_append_iff Suc_le_eq)
  qed
  then show ?thesis
    using run_batches_Ok [of bs c] linked_stream_iff [of "concat_batches bs"]
    by (auto simp: list_all_iff)
qed

end
