(* ===== verification/Racing_Models.thy ===== *)
theory Racing_Models
  imports Run_Contract
begin

text \<open>
  \<open>crates/pitgun-racing-simulator/src/workload.rs\<close>: the immutable identities of the published and
  candidate racing models, each the SHA-256 digest of a static manifest.
\<close>

section \<open>Manifests\<close>

definition RACING_MODEL_V1_MANIFEST :: bytes where
  "RACING_MODEL_V1_MANIFEST = as_bytes
    (''pitgun.racing:model:1.0.0:conformance-vector'')"

definition RACING_MODEL_V2_MANIFEST :: bytes where
  "RACING_MODEL_V2_MANIFEST = as_bytes
    (''pitgun.racing:model:2.0.0:continuous-curvature-v1'')"

definition RACING_MODEL_V3_CANDIDATE_MANIFEST :: bytes where
  "RACING_MODEL_V3_CANDIDATE_MANIFEST = as_bytes
    (''pitgun.racing-v3-candidate:model:0.9.0:resolved-vehicle:per-segment-v1:aggregate-contact'' @
     ''-v2:mechanical-controls-v1:aero-efficiency-v1:development-resolution-v1:transmission-res'' @
     ''olution-v1:zero-downforce-v1:first-stint-tire-v1:power-based-fuel-mass-v1:compound-degra'' @
     ''dation-v1'')"

definition RACING_MODEL_V3_THERMAL_CANDIDATE_MANIFEST :: bytes where
  "RACING_MODEL_V3_THERMAL_CANDIDATE_MANIFEST = as_bytes
    (''pitgun.racing-v3-candidate:model:0.10.0:resolved-vehicle:per-segment-v1:aggregate-contac'' @
     ''t-v2:mechanical-controls-v1:aero-efficiency-v1:development-resolution-v1:transmission-re'' @
     ''solution-v1:zero-downforce-v1:first-stint-tire-v1:power-based-fuel-mass-v1:compound-degr'' @
     ''adation-v1:engine-thermal-resolution-v1'')"

definition RACING_MODEL_V3_COMPONENT_CANDIDATE_MANIFEST :: bytes where
  "RACING_MODEL_V3_COMPONENT_CANDIDATE_MANIFEST = as_bytes
    (''pitgun.racing-v3-candidate:model:0.11.0:resolved-vehicle:per-segment-v1:aggregate-contac'' @
     ''t-v2:mechanical-controls-v1:aero-efficiency-v1:development-resolution-v1:transmission-re'' @
     ''solution-v1:zero-downforce-v1:first-stint-tire-v1:power-based-fuel-mass-v1:compound-degr'' @
     ''adation-v1:engine-thermal-resolution-v2:per-competitor-components-v1'')"

definition RACING_MODEL_V3_DRIVER_CONTROL_CANDIDATE_MANIFEST :: bytes where
  "RACING_MODEL_V3_DRIVER_CONTROL_CANDIDATE_MANIFEST = as_bytes
    (''pitgun.racing-v3-candidate:model:0.12.0:resolved-vehicle:per-segment-v1:aggregate-contac'' @
     ''t-v2:mechanical-controls-v1:aero-efficiency-v1:development-resolution-v1:transmission-re'' @
     ''solution-v1:zero-downforce-v1:first-stint-tire-v1:power-based-fuel-mass-v1:compound-degr'' @
     ''adation-v1:engine-thermal-resolution-v2:per-competitor-components-v1:driver-traits-v1:dr'' @
     ''iving-mode-v1:correction-workload-v1'')"

definition RACING_MODEL_V3_DRIVER_FRICTION_CANDIDATE_MANIFEST :: bytes where
  "RACING_MODEL_V3_DRIVER_FRICTION_CANDIDATE_MANIFEST = as_bytes
    (''pitgun.racing-v3-candidate:model:0.13.0:resolved-vehicle:per-segment-v1:aggregate-contac'' @
     ''t-v2:mechanical-controls-v1:aero-efficiency-v1:development-resolution-v1:transmission-re'' @
     ''solution-v1:zero-downforce-v1:first-stint-tire-v1:power-based-fuel-mass-v1:compound-degr'' @
     ''adation-v1:engine-thermal-resolution-v2:per-competitor-components-v1:driver-traits-v1:dr'' @
     ''iving-mode-v1:correction-workload-v1:correction-friction-budget-v1'')"

definition RACING_MODEL_V3_TIMELINE_CANDIDATE_MANIFEST :: bytes where
  "RACING_MODEL_V3_TIMELINE_CANDIDATE_MANIFEST = as_bytes
    (''pitgun.racing-v3-candidate:model:0.14.0:resolved-vehicle:per-segment-v1:aggregate-contac'' @
     ''t-v2:mechanical-controls-v1:aero-efficiency-v1:development-resolution-v1:transmission-re'' @
     ''solution-v1:zero-downforce-v1:first-stint-tire-v1:power-based-fuel-mass-v1:compound-degr'' @
     ''adation-v1:engine-thermal-resolution-v2:per-competitor-components-v1:driver-traits-v1:dr'' @
     ''iving-mode-v1:correction-workload-v1:correction-friction-budget-v1:catalog-driver-contro'' @
     ''l-v1:driver-instruction-timeline-v1'')"

definition RACING_MODEL_V3_FUEL_CONTRACT_CANDIDATE_MANIFEST :: bytes where
  "RACING_MODEL_V3_FUEL_CONTRACT_CANDIDATE_MANIFEST = as_bytes
    (''pitgun.racing-v3-candidate:model:0.15.0:resolved-vehicle:per-segment-v1:aggregate-contac'' @
     ''t-v2:mechanical-controls-v1:aero-efficiency-v1:development-resolution-v1:transmission-re'' @
     ''solution-v1:zero-downforce-v1:first-stint-tire-v1:power-based-fuel-mass-v1:compound-degr'' @
     ''adation-v1:engine-thermal-resolution-v2:per-competitor-components-v1:driver-traits-v1:dr'' @
     ''iving-mode-v1:correction-workload-v1:correction-friction-budget-v1:catalog-driver-contro'' @
     ''l-v1:driver-instruction-timeline-v1:catalog-fuel-contract-v1'')"

definition RACING_MODEL_V3_FUEL_MASS_CANDIDATE_MANIFEST :: bytes where
  "RACING_MODEL_V3_FUEL_MASS_CANDIDATE_MANIFEST = as_bytes
    (''pitgun.racing-v3-candidate:model:0.8.0:resolved-vehicle:per-segment-v1:aggregate-contact'' @
     ''-v1:mechanical-controls-v1:aero-efficiency-v1:development-resolution-v1:transmission-res'' @
     ''olution-v1:zero-downforce-v1:first-stint-tire-v1:power-based-fuel-mass-v1'')"

definition RACING_MODEL_V3_FIDELITY_CANDIDATE_MANIFEST :: bytes where
  "RACING_MODEL_V3_FIDELITY_CANDIDATE_MANIFEST = as_bytes
    (''pitgun.racing-v3-candidate:model:0.7.0:resolved-vehicle:per-segment-v1:aggregate-contact'' @
     ''-v1:mechanical-controls-v1:aero-efficiency-v1:development-resolution-v1:transmission-res'' @
     ''olution-v1:zero-downforce-v1:first-stint-tire-v1'')"

definition RACING_MODEL_V3_TRANSMISSION_CANDIDATE_MANIFEST :: bytes where
  "RACING_MODEL_V3_TRANSMISSION_CANDIDATE_MANIFEST = as_bytes
    (''pitgun.racing-v3-candidate:model:0.6.0:resolved-vehicle:per-segment-v1:aggregate-contact'' @
     ''-v1:mechanical-controls-v1:aero-efficiency-v1:development-resolution-v1:transmission-res'' @
     ''olution-v1'')"

definition RACING_MODEL_V3_DEVELOPMENT_CANDIDATE_MANIFEST :: bytes where
  "RACING_MODEL_V3_DEVELOPMENT_CANDIDATE_MANIFEST = as_bytes
    (''pitgun.racing-v3-candidate:model:0.5.0:resolved-vehicle:per-segment-v1:aggregate-contact'' @
     ''-v1:mechanical-controls-v1:aero-efficiency-v1:development-resolution-v1'')"

definition RACING_MODEL_V3_AERO_CANDIDATE_MANIFEST :: bytes where
  "RACING_MODEL_V3_AERO_CANDIDATE_MANIFEST = as_bytes
    (''pitgun.racing-v3-candidate:model:0.4.0:resolved-vehicle:per-segment-v1:aggregate-contact'' @
     ''-v1:mechanical-controls-v1:aero-efficiency-v1'')"

definition RACING_MODEL_V3_MECHANICAL_CANDIDATE_MANIFEST :: bytes where
  "RACING_MODEL_V3_MECHANICAL_CANDIDATE_MANIFEST = as_bytes
    (''pitgun.racing-v3-candidate:model:0.3.0:resolved-vehicle:per-segment-v1:aggregate-contact'' @
     ''-v1:mechanical-controls-v1'')"


section \<open>Identities\<close>

text \<open>The ids and versions are literals, whose \<open>parse\<close> succeeds.\<close>

definition static_identity :: "externals \<Rightarrow> string \<Rightarrow> string \<Rightarrow> bytes \<Rightarrow> ArtifactIdentity" where
  "static_identity ext name version manifest =
     \<lparr>artifact_id = Identifier name, artifact_version = SemanticVersion version,
      artifact_content_digest = from_bytes ext manifest\<rparr>"

definition racing_model_v1_identity :: "externals \<Rightarrow> ArtifactIdentity" where
  "racing_model_v1_identity ext =
     static_identity ext ''pitgun.racing'' ''1.0.0'' RACING_MODEL_V1_MANIFEST"

definition racing_model_v2_identity :: "externals \<Rightarrow> ArtifactIdentity" where
  "racing_model_v2_identity ext =
     static_identity ext ''pitgun.racing'' ''2.0.0'' RACING_MODEL_V2_MANIFEST"

definition racing_model_v3_candidate_identity :: "externals \<Rightarrow> ArtifactIdentity" where
  "racing_model_v3_candidate_identity ext =
     static_identity ext ''pitgun.racing-v3-candidate'' ''0.9.0'' RACING_MODEL_V3_CANDIDATE_MANIFEST"

definition racing_model_v3_thermal_candidate_identity :: "externals \<Rightarrow> ArtifactIdentity" where
  "racing_model_v3_thermal_candidate_identity ext =
     static_identity ext ''pitgun.racing-v3-candidate'' ''0.10.0'' RACING_MODEL_V3_THERMAL_CANDIDATE_MANIFEST"

definition racing_model_v3_component_candidate_identity :: "externals \<Rightarrow> ArtifactIdentity" where
  "racing_model_v3_component_candidate_identity ext =
     static_identity ext ''pitgun.racing-v3-candidate'' ''0.11.0'' RACING_MODEL_V3_COMPONENT_CANDIDATE_MANIFEST"

definition racing_model_v3_driver_control_candidate_identity :: "externals \<Rightarrow> ArtifactIdentity" where
  "racing_model_v3_driver_control_candidate_identity ext =
     static_identity ext ''pitgun.racing-v3-candidate'' ''0.12.0'' RACING_MODEL_V3_DRIVER_CONTROL_CANDIDATE_MANIFEST"

definition racing_model_v3_driver_friction_candidate_identity :: "externals \<Rightarrow> ArtifactIdentity" where
  "racing_model_v3_driver_friction_candidate_identity ext =
     static_identity ext ''pitgun.racing-v3-candidate'' ''0.13.0'' RACING_MODEL_V3_DRIVER_FRICTION_CANDIDATE_MANIFEST"

definition racing_model_v3_timeline_candidate_identity :: "externals \<Rightarrow> ArtifactIdentity" where
  "racing_model_v3_timeline_candidate_identity ext =
     static_identity ext ''pitgun.racing-v3-candidate'' ''0.14.0'' RACING_MODEL_V3_TIMELINE_CANDIDATE_MANIFEST"

definition racing_model_v3_fuel_contract_candidate_identity :: "externals \<Rightarrow> ArtifactIdentity" where
  "racing_model_v3_fuel_contract_candidate_identity ext =
     static_identity ext ''pitgun.racing-v3-candidate'' ''0.15.0'' RACING_MODEL_V3_FUEL_CONTRACT_CANDIDATE_MANIFEST"

definition racing_model_v3_fuel_mass_candidate_identity :: "externals \<Rightarrow> ArtifactIdentity" where
  "racing_model_v3_fuel_mass_candidate_identity ext =
     static_identity ext ''pitgun.racing-v3-candidate'' ''0.8.0'' RACING_MODEL_V3_FUEL_MASS_CANDIDATE_MANIFEST"

definition racing_model_v3_fidelity_candidate_identity :: "externals \<Rightarrow> ArtifactIdentity" where
  "racing_model_v3_fidelity_candidate_identity ext =
     static_identity ext ''pitgun.racing-v3-candidate'' ''0.7.0'' RACING_MODEL_V3_FIDELITY_CANDIDATE_MANIFEST"

definition racing_model_v3_transmission_candidate_identity :: "externals \<Rightarrow> ArtifactIdentity" where
  "racing_model_v3_transmission_candidate_identity ext =
     static_identity ext ''pitgun.racing-v3-candidate'' ''0.6.0'' RACING_MODEL_V3_TRANSMISSION_CANDIDATE_MANIFEST"

definition racing_model_v3_development_candidate_identity :: "externals \<Rightarrow> ArtifactIdentity" where
  "racing_model_v3_development_candidate_identity ext =
     static_identity ext ''pitgun.racing-v3-candidate'' ''0.5.0'' RACING_MODEL_V3_DEVELOPMENT_CANDIDATE_MANIFEST"

definition racing_model_v3_aero_candidate_identity :: "externals \<Rightarrow> ArtifactIdentity" where
  "racing_model_v3_aero_candidate_identity ext =
     static_identity ext ''pitgun.racing-v3-candidate'' ''0.4.0'' RACING_MODEL_V3_AERO_CANDIDATE_MANIFEST"

definition racing_model_v3_mechanical_candidate_identity :: "externals \<Rightarrow> ArtifactIdentity" where
  "racing_model_v3_mechanical_candidate_identity ext =
     static_identity ext ''pitgun.racing-v3-candidate'' ''0.3.0'' RACING_MODEL_V3_MECHANICAL_CANDIDATE_MANIFEST"

text \<open>The message \<open>unsupported Racing model version\<close> is a constructor that carries the version.\<close>

datatype RacingModelError = UnsupportedRacingModelVersion string

definition racing_model_identity_for_version :: "externals \<Rightarrow> string \<Rightarrow> RacingModelError + ArtifactIdentity" where
  "racing_model_identity_for_version ext version =
     (if version = ''1.0.0'' then Ok (racing_model_v1_identity ext)
      else if version = ''2.0.0'' then Ok (racing_model_v2_identity ext)
      else if version = ''0.10.0'' then Ok (racing_model_v3_thermal_candidate_identity ext)
      else if version = ''0.11.0'' then Ok (racing_model_v3_component_candidate_identity ext)
      else if version = ''0.14.0'' then Ok (racing_model_v3_timeline_candidate_identity ext)
      else if version = ''0.15.0'' then Ok (racing_model_v3_fuel_contract_candidate_identity ext)
      else Err (UnsupportedRacingModelVersion version))"

section \<open>No two models share an identity\<close>

definition racing_models :: "externals \<Rightarrow> ArtifactIdentity list" where
  "racing_models ext =
     [racing_model_v1_identity ext, racing_model_v2_identity ext, racing_model_v3_candidate_identity ext,
      racing_model_v3_thermal_candidate_identity ext, racing_model_v3_component_candidate_identity ext,
      racing_model_v3_driver_control_candidate_identity ext, racing_model_v3_driver_friction_candidate_identity ext,
      racing_model_v3_timeline_candidate_identity ext, racing_model_v3_fuel_contract_candidate_identity ext,
      racing_model_v3_fuel_mass_candidate_identity ext, racing_model_v3_fidelity_candidate_identity ext,
      racing_model_v3_transmission_candidate_identity ext, racing_model_v3_development_candidate_identity ext,
      racing_model_v3_aero_candidate_identity ext, racing_model_v3_mechanical_candidate_identity ext]"

lemmas racing_model_identity_defs =
  racing_model_v1_identity_def racing_model_v2_identity_def racing_model_v3_candidate_identity_def
  racing_model_v3_thermal_candidate_identity_def racing_model_v3_component_candidate_identity_def
  racing_model_v3_driver_control_candidate_identity_def racing_model_v3_driver_friction_candidate_identity_def
  racing_model_v3_timeline_candidate_identity_def racing_model_v3_fuel_contract_candidate_identity_def
  racing_model_v3_fuel_mass_candidate_identity_def racing_model_v3_fidelity_candidate_identity_def
  racing_model_v3_transmission_candidate_identity_def racing_model_v3_development_candidate_identity_def
  racing_model_v3_aero_candidate_identity_def racing_model_v3_mechanical_candidate_identity_def

lemma static_identity_simps [simp]:
  "artifact_id (static_identity ext n v m) = Identifier n"
  "artifact_version (static_identity ext n v m) = SemanticVersion v"
  by (simp_all add: static_identity_def)

text \<open>The versions alone tell the models apart, whatever the digest function does.\<close>

lemma racing_models_distinct: "distinct (map artifact_version (racing_models ext))"
  by (simp add: racing_models_def racing_model_identity_defs)

lemma racing_model_for_version:
  "racing_model_identity_for_version ext v = Ok i \<Longrightarrow> i \<in> set (racing_models ext) \<and> artifact_version i = SemanticVersion v"
  by (auto simp: racing_model_identity_for_version_def racing_models_def racing_model_identity_defs split: if_splits)

lemma static_names_parse:
  "i \<in> set (racing_models ext) \<Longrightarrow> identifier_new (ident_text (artifact_id i)) = Ok (artifact_id i)"
proof -
  have "identifier_new ''pitgun.racing'' = Ok (Identifier ''pitgun.racing'')"
    "identifier_new ''pitgun.racing-v3-candidate'' = Ok (Identifier ''pitgun.racing-v3-candidate'')"
    by code_simp+
  then show "i \<in> set (racing_models ext) \<Longrightarrow> identifier_new (ident_text (artifact_id i)) = Ok (artifact_id i)"
    by (auto simp: racing_models_def racing_model_identity_defs)
qed

end
