(* ===== verification/Experiment_Profile.thy ===== *)
theory Experiment_Profile
  imports Solver_Session Racing_Models Driver_Instructions
begin

text \<open>
  The V3 experiment profile of \<open>crates/pitgun-racing-simulator/src/lib.rs\<close> with the physical parameter
  groups it selects, those of \<open>crates/pitgun-racing-solver/src/lib.rs\<close> and \<open>fuel_contract.rs\<close> included: their defaults,
  their validation and the ladder of profile versions that says which group a version may carry.

  A coefficient is the bit pattern of its \<open>f64\<close>; the decimals of the source are given before each default. Errors are
  the messages of the source.
\<close>

section \<open>Bit patterns in order\<close>

definition F64_TWO :: "64 word" where "F64_TWO = 0x4000000000000000"
definition F64_TENTH :: "64 word" where "F64_TENTH = 0x3FB999999999999A"
definition F64_TWENTIETH :: "64 word" where "F64_TWENTIETH = 0x3FA999999999999A"
definition F64_HUNDREDTH :: "64 word" where "F64_HUNDREDTH = 0x3F847AE147AE147B"
definition F64_TWENTY :: "64 word" where "F64_TWENTY = 0x4034000000000000"
definition F64_FORTY :: "64 word" where "F64_FORTY = 0x4044000000000000"
definition F64_FIFTY :: "64 word" where "F64_FIFTY = 0x4049000000000000"
definition F64_MINUS_FIFTY :: "64 word" where "F64_MINUS_FIFTY = 0xC049000000000000"
definition F64_150 :: "64 word" where "F64_150 = 0x4062C00000000000"
definition F64_100 :: "64 word" where "F64_100 = 0x4059000000000000"
definition F64_200 :: "64 word" where "F64_200 = 0x4069000000000000"

section \<open>Parameter groups of the solver\<close>

datatype TuningResponseVersion = TuningResponseVersionV1

record TuningResponseV1 =
  tuning_schema_version :: TuningResponseVersion
  development_points_cap :: "64 word"
  aero_development_gain :: "64 word"
  drag_base :: "64 word"
  drag_slider_gain :: "64 word"
  downforce_base :: "64 word"
  downforce_slider_gain :: "64 word"
  straight_aero_scale :: "64 word"
  corner_aero_scale :: "64 word"
  chassis_grip_development_gain :: "64 word"
  cooling_base :: "64 word"
  cooling_development_gain :: "64 word"
  engine_torque_development_gain :: "64 word"
  gear_ratio_base :: "64 word"
  gear_ratio_slider_reduction :: "64 word"

text \<open>\<open>20.0\<close>, \<open>0.10\<close>, \<open>0.85\<close>, \<open>0.30\<close>, \<open>0.75\<close>, \<open>0.55\<close>, \<open>0.95\<close>, \<open>1.05\<close>, \<open>0.08\<close>, \<open>0.75\<close>, \<open>0.50\<close>, \<open>0.01\<close>, \<open>1.10\<close>, \<open>0.20\<close>.\<close>

definition default_tuning_response :: TuningResponseV1 where
  "default_tuning_response = \<lparr>tuning_schema_version = TuningResponseVersionV1,
     development_points_cap = 0x4034000000000000,
     aero_development_gain = 0x3FB999999999999A,
     drag_base = 0x3FEB333333333333,
     drag_slider_gain = 0x3FD3333333333333,
     downforce_base = 0x3FE8000000000000,
     downforce_slider_gain = 0x3FE199999999999A,
     straight_aero_scale = 0x3FEE666666666666,
     corner_aero_scale = 0x3FF0CCCCCCCCCCCD,
     chassis_grip_development_gain = 0x3FB47AE147AE147B,
     cooling_base = 0x3FE8000000000000,
     cooling_development_gain = 0x3FE0000000000000,
     engine_torque_development_gain = 0x3F847AE147AE147B,
     gear_ratio_base = 0x3FF199999999999A,
     gear_ratio_slider_reduction = 0x3FC999999999999A\<rparr>"

datatype EngineThermalDeratingShapeV3 = LinearThreshold | SmoothKnee

record EngineThermalParamsV3 =
  derating_shape :: EngineThermalDeratingShapeV3
  smooth_knee_width_c :: "64 word"
  minimum_power_fraction :: "64 word"

record FuelMassParamsV3 =
  brake_specific_fuel_consumption_kg_per_kwh :: "64 word"
  idle_fuel_flow_kg_per_s :: "64 word"

text \<open>\<open>0.24\<close>, \<open>0.000_4\<close>.\<close>

definition default_fuel_mass :: FuelMassParamsV3 where
  "default_fuel_mass = \<lparr>brake_specific_fuel_consumption_kg_per_kwh = 0x3FCEB851EB851EB8,
     idle_fuel_flow_kg_per_s = 0x3F3A36E2EB1C432D\<rparr>"

record TireDegradationParamsV3 =
  reference_load_wear_coefficient :: "64 word"
  thermal_deviation_wear_gain :: "64 word"
  maximum_thermal_wear_multiplier :: "64 word"

text \<open>\<open>0.000_000_1\<close>, \<open>0.35\<close>, \<open>3.0\<close>.\<close>

definition default_tire_degradation :: TireDegradationParamsV3 where
  "default_tire_degradation = \<lparr>reference_load_wear_coefficient = 0x3E7AD7F29ABCAF48,
     thermal_deviation_wear_gain = 0x3FD6666666666666,
     maximum_thermal_wear_multiplier = 0x4008000000000000\<rparr>"

record TireContactParamsV3 =
  reference_normal_load_n :: "64 word"
  load_sensitivity_exponent :: "64 word"
  thermal_capacity_j_per_c :: "64 word"
  heat_generation_fraction :: "64 word"
  cooling_w_per_c :: "64 word"
  speed_cooling_w_per_mps_c :: "64 word"
  baseline_wear_per_s :: "64 word"
  workload_energy_to_full_wear_j :: "64 word"

text \<open>\<open>8_500.0\<close>, \<open>0.08\<close>, \<open>180_000.0\<close>, \<open>0.006\<close>, \<open>80.0\<close>, \<open>0.8\<close>, \<open>0.000_001\<close>, \<open>8_000_000_000.0\<close>.\<close>

definition default_tire_contact :: TireContactParamsV3 where
  "default_tire_contact = \<lparr>reference_normal_load_n = 0x40C09A0000000000,
     load_sensitivity_exponent = 0x3FB47AE147AE147B,
     thermal_capacity_j_per_c = 0x4105F90000000000,
     heat_generation_fraction = 0x3F789374BC6A7EFA,
     cooling_w_per_c = 0x4054000000000000,
     speed_cooling_w_per_mps_c = 0x3FE999999999999A,
     baseline_wear_per_s = 0x3EB0C6F7A0B5ED8D,
     workload_energy_to_full_wear_j = 0x41FDCD6500000000\<rparr>"

section \<open>Parameter groups of the simulator\<close>

record MechanicalParamsV3 =
  maximum_brake_force_n :: "64 word"
  upshift_rpm :: "64 word"
  downshift_rpm :: "64 word"
  shift_duration_s :: "64 word"
  shift_power_fraction :: "64 word"
  driveline_efficiency :: "64 word"
  chassis_force_transfer_efficiency :: "64 word"
  fixed_drag_area_m2 :: "64 word"
  fixed_downforce_area_m2 :: "64 word"

text \<open>\<open>18_000.0\<close>, \<open>11_000.0\<close>, \<open>5_500.0\<close>, \<open>0.050\<close>, \<open>0.0\<close>, \<open>0.95\<close>, \<open>1.0\<close>, \<open>0.95\<close>, \<open>3.20\<close>.\<close>

definition default_mechanical :: MechanicalParamsV3 where
  "default_mechanical = \<lparr>maximum_brake_force_n = 0x40D1940000000000,
     upshift_rpm = 0x40C57C0000000000,
     downshift_rpm = 0x40B57C0000000000,
     shift_duration_s = 0x3FA999999999999A,
     shift_power_fraction = 0,
     driveline_efficiency = 0x3FEE666666666666,
     chassis_force_transfer_efficiency = 0x3FF0000000000000,
     fixed_drag_area_m2 = 0x3FEE666666666666,
     fixed_downforce_area_m2 = 0x400999999999999A\<rparr>"

record V3MechanicalOverrides =
  override_maximum_brake_force_n :: "64 word option"
  override_upshift_rpm :: "64 word option"
  override_downshift_rpm :: "64 word option"
  override_shift_duration_s :: "64 word option"
  override_shift_power_fraction :: "64 word option"
  override_driveline_efficiency :: "64 word option"
  override_fixed_drag_area_m2 :: "64 word option"
  override_fixed_downforce_area_m2 :: "64 word option"
  override_chassis_force_transfer_efficiency :: "64 word option"

definition default_overrides :: V3MechanicalOverrides where
  "default_overrides = \<lparr>override_maximum_brake_force_n = None,
     override_upshift_rpm = None,
     override_downshift_rpm = None,
     override_shift_duration_s = None,
     override_shift_power_fraction = None,
     override_driveline_efficiency = None,
     override_fixed_drag_area_m2 = None,
     override_fixed_downforce_area_m2 = None,
     override_chassis_force_transfer_efficiency = None\<rparr>"

definition apply_override :: "'a option \<Rightarrow> 'a \<Rightarrow> 'a" where
  "apply_override replacement value = (case replacement of None \<Rightarrow> value | Some v \<Rightarrow> v)"

definition apply_overrides :: "V3MechanicalOverrides \<Rightarrow> MechanicalParamsV3 \<Rightarrow> MechanicalParamsV3" where
  "apply_overrides v m = m\<lparr>maximum_brake_force_n := apply_override (override_maximum_brake_force_n v) (maximum_brake_force_n m),
     upshift_rpm := apply_override (override_upshift_rpm v) (upshift_rpm m),
     downshift_rpm := apply_override (override_downshift_rpm v) (downshift_rpm m),
     shift_duration_s := apply_override (override_shift_duration_s v) (shift_duration_s m),
     shift_power_fraction := apply_override (override_shift_power_fraction v) (shift_power_fraction m),
     driveline_efficiency := apply_override (override_driveline_efficiency v) (driveline_efficiency m),
     fixed_drag_area_m2 := apply_override (override_fixed_drag_area_m2 v) (fixed_drag_area_m2 m),
     fixed_downforce_area_m2 := apply_override (override_fixed_downforce_area_m2 v) (fixed_downforce_area_m2 m),
     chassis_force_transfer_efficiency := apply_override (override_chassis_force_transfer_efficiency v) (chassis_force_transfer_efficiency m)\<rparr>"

record V3AeroResolutionParams =
  minimum_downforce_area_multiplier :: "64 word"
  maximum_downforce_area_multiplier :: "64 word"
  base_drag_area_multiplier :: "64 word"
  induced_drag_factor_per_m2 :: "64 word"
  development_downforce_gain_at_cap :: "64 word"
  development_drag_reduction_at_cap :: "64 word"

text \<open>\<open>0.75\<close>, \<open>1.25\<close>, \<open>0.85\<close>, \<open>0.25\<close>, \<open>0.08\<close>, \<open>0.04\<close>.\<close>

definition default_aero :: V3AeroResolutionParams where
  "default_aero = \<lparr>minimum_downforce_area_multiplier = 0x3FE8000000000000,
     maximum_downforce_area_multiplier = 0x3FF4000000000000,
     base_drag_area_multiplier = 0x3FEB333333333333,
     induced_drag_factor_per_m2 = 0x3FD0000000000000,
     development_downforce_gain_at_cap = 0x3FB47AE147AE147B,
     development_drag_reduction_at_cap = 0x3FA47AE147AE147B\<rparr>"

record V3DevelopmentResolutionParams =
  chassis_force_transfer_efficiency_without_development :: "64 word"
  chassis_force_transfer_efficiency_at_cap :: "64 word"
  engine_torque_gain_at_cap :: "64 word"
  cooling_capacity_multiplier_without_development :: "64 word"
  cooling_capacity_gain_at_cap :: "64 word"

text \<open>\<open>0.97\<close>, \<open>1.0\<close>, \<open>0.06\<close>, \<open>0.75\<close>, \<open>0.50\<close>.\<close>

definition default_development :: V3DevelopmentResolutionParams where
  "default_development = \<lparr>chassis_force_transfer_efficiency_without_development = 0x3FEF0A3D70A3D70A,
     chassis_force_transfer_efficiency_at_cap = 0x3FF0000000000000,
     engine_torque_gain_at_cap = 0x3FAEB851EB851EB8,
     cooling_capacity_multiplier_without_development = 0x3FE8000000000000,
     cooling_capacity_gain_at_cap = 0x3FE0000000000000\<rparr>"

record V3EngineThermalResolutionParams =
  thermal_capacity_multiplier :: "64 word"
  heat_generation_multiplier :: "64 word"
  static_cooling_multiplier :: "64 word"
  speed_cooling_multiplier :: "64 word"
  soft_limit_offset_c :: "64 word"
  derate_slope_multiplier :: "64 word"
  resolution_minimum_power_fraction :: "64 word"
  resolution_derating_shape :: EngineThermalDeratingShapeV3
  resolution_smooth_knee_width_c :: "64 word"
  cooling_drag_area_m2_at_cap :: "64 word"

text \<open>\<open>1.0\<close>, \<open>1.0\<close>, \<open>1.0\<close>, \<open>1.0\<close>, \<open>0.0\<close>, \<open>1.0\<close>, \<open>0.20\<close>, \<open>0.0\<close>, \<open>0.0\<close>.\<close>

definition default_engine_thermal :: V3EngineThermalResolutionParams where
  "default_engine_thermal = \<lparr>thermal_capacity_multiplier = 0x3FF0000000000000,
     heat_generation_multiplier = 0x3FF0000000000000,
     static_cooling_multiplier = 0x3FF0000000000000,
     speed_cooling_multiplier = 0x3FF0000000000000,
     soft_limit_offset_c = 0,
     derate_slope_multiplier = 0x3FF0000000000000,
     resolution_minimum_power_fraction = 0x3FC999999999999A,
     resolution_derating_shape = LinearThreshold,
     resolution_smooth_knee_width_c = 0,
     cooling_drag_area_m2_at_cap = 0\<rparr>"

record V3TransmissionResolutionParams =
  minimum_target_top_speed_mps :: "64 word"
  maximum_target_top_speed_mps :: "64 word"
  target_engine_speed_fraction :: "64 word"

text \<open>\<open>85.0\<close>, \<open>105.0\<close>, \<open>0.98\<close>.\<close>

definition default_transmission :: V3TransmissionResolutionParams where
  "default_transmission = \<lparr>minimum_target_top_speed_mps = 0x4055400000000000,
     maximum_target_top_speed_mps = 0x405A400000000000,
     target_engine_speed_fraction = 0x3FEF5C28F5C28F5C\<rparr>"

section \<open>Validation of the groups\<close>

text \<open>The rounded difference of two finite values is at most zero exactly when the first is at most the second,
  since a difference of distinct values never rounds to zero: \<open>gear_ratio_base - gear_ratio_slider_reduction <= 0.0\<close>
  is a comparison of the two.\<close>

definition check_all :: "(string \<times> 64 word) list \<Rightarrow> (64 word \<Rightarrow> bool) \<Rightarrow> (string \<Rightarrow> string) \<Rightarrow> string + unit" where
  "check_all named ok message =
     (case find (\<lambda>(_, v). \<not> ok v) named of None \<Rightarrow> Ok () | Some (name, _) \<Rightarrow> Err (message name))"

definition finite_in :: "64 word \<Rightarrow> 64 word \<Rightarrow> 64 word \<Rightarrow> bool" where
  "finite_in low high v \<longleftrightarrow> is_finite64 v \<and> f64_in_range low high v"

definition tuning_validate :: "TuningResponseV1 \<Rightarrow> string + unit" where
  "tuning_validate t =
     and_also (ensure (list_all is_finite64 [development_points_cap t, aero_development_gain t, drag_base t, drag_slider_gain t, downforce_base t, downforce_slider_gain t, straight_aero_scale t, corner_aero_scale t, chassis_grip_development_gain t, cooling_base t, cooling_development_gain t, engine_torque_development_gain t, gear_ratio_base t, gear_ratio_slider_reduction t])
        ''tuning response coefficients must be finite'')
    (and_also (ensure (\<not> f64_le (development_points_cap t) F64_ZERO) ''development_points_cap must be positive'')
    (and_also (check_all [(''drag_base'', drag_base t),
        (''downforce_base'', downforce_base t),
        (''straight_aero_scale'', straight_aero_scale t),
        (''corner_aero_scale'', corner_aero_scale t),
        (''cooling_base'', cooling_base t),
        (''gear_ratio_base'', gear_ratio_base t)]
        (\<lambda>v. \<not> f64_le v F64_ZERO) (\<lambda>name. name @ '' must be positive''))
    (and_also (check_all [(''aero_development_gain'', aero_development_gain t),
        (''drag_slider_gain'', drag_slider_gain t),
        (''downforce_slider_gain'', downforce_slider_gain t),
        (''chassis_grip_development_gain'', chassis_grip_development_gain t),
        (''cooling_development_gain'', cooling_development_gain t),
        (''engine_torque_development_gain'', engine_torque_development_gain t),
        (''gear_ratio_slider_reduction'', gear_ratio_slider_reduction t)]
        (\<lambda>v. \<not> f64_lt v F64_ZERO) (\<lambda>name. name @ '' must not be negative''))
    (ensure (\<not> f64_le (gear_ratio_base t) (gear_ratio_slider_reduction t))
        ''gear_ratio_slider_reduction must remain below gear_ratio_base''))))"

definition engine_thermal_validate :: "EngineThermalParamsV3 \<Rightarrow> string + unit" where
  "engine_thermal_validate p =
     and_also (ensure (is_finite64 (smooth_knee_width_c p) \<and>
         (case derating_shape p of
            LinearThreshold \<Rightarrow> f64_scaled (smooth_knee_width_c p) = 0
          | SmoothKnee \<Rightarrow> f64_in_range F64_TENTH F64_FIFTY (smooth_knee_width_c p)))
        ''V3 linear thermal response requires a zero knee width; smooth response requires [0.1, 50] degC'')
    (ensure (finite_in F64_TWENTIETH F64_ONE (minimum_power_fraction p))
        ''V3 engine thermal minimum-power fraction must be in [0.05, 1]'')"

definition fuel_mass_validate :: "FuelMassParamsV3 \<Rightarrow> string + unit" where
  "fuel_mass_validate p =
     and_also (ensure (finite_in F64_TWENTIETH F64_ONE (brake_specific_fuel_consumption_kg_per_kwh p))
        ''V3 brake-specific fuel consumption must be in [0.05, 1.0] kg/kWh'')
    (ensure (finite_in F64_ZERO F64_HUNDREDTH (idle_fuel_flow_kg_per_s p))
        ''V3 idle fuel flow must be in [0, 0.01] kg/s'')"

definition tire_degradation_validate :: "TireDegradationParamsV3 \<Rightarrow> string + unit" where
  "tire_degradation_validate p =
     and_also (ensure (is_finite64 (reference_load_wear_coefficient p) \<and>
         \<not> f64_le (reference_load_wear_coefficient p) F64_ZERO)
        ''V3 reference load-wear coefficient must be finite and positive'')
    (and_also (ensure (finite_in F64_ZERO F64_TEN (thermal_deviation_wear_gain p))
        ''V3 thermal-deviation wear gain must be in [0, 10]'')
    (ensure (finite_in F64_ONE F64_TWENTY (maximum_thermal_wear_multiplier p))
        ''V3 maximum thermal-wear multiplier must be in [1, 20]''))"

definition aero_validate :: "V3AeroResolutionParams \<Rightarrow> string + unit" where
  "aero_validate a =
     and_also (ensure (list_all is_finite64 [minimum_downforce_area_multiplier a, maximum_downforce_area_multiplier a,
         base_drag_area_multiplier a, induced_drag_factor_per_m2 a, development_downforce_gain_at_cap a,
         development_drag_reduction_at_cap a])
        ''V3 aero-resolution coefficients must be finite'')
    (and_also (ensure (\<not> (f64_le (minimum_downforce_area_multiplier a) F64_ZERO \<or>
         f64_le (maximum_downforce_area_multiplier a) (minimum_downforce_area_multiplier a)))
        ''V3 downforce multipliers must satisfy 0 < minimum < maximum'')
    (and_also (ensure (\<not> f64_lt F64_TWO (maximum_downforce_area_multiplier a))
        ''V3 maximum downforce multiplier must be <= 2'')
    (and_also (ensure (\<not> f64_le (base_drag_area_multiplier a) F64_ZERO)
        ''V3 base drag multiplier must be positive'')
    (and_also (ensure (f64_in_range F64_ZERO F64_TWO (induced_drag_factor_per_m2 a))
        ''V3 induced drag factor must be in [0, 2] 1/m2'')
    (check_all [(''development downforce gain'', development_downforce_gain_at_cap a),
        (''development drag reduction'', development_drag_reduction_at_cap a)]
        (f64_in_range F64_ZERO F64_HALF) (\<lambda>name. ''V3 '' @ name @ '' must be in [0, 0.5]''))))))"

definition engine_thermal_resolution_validate :: "V3EngineThermalResolutionParams \<Rightarrow> string + unit" where
  "engine_thermal_resolution_validate p =
     and_also (check_all [(''thermal capacity multiplier'', thermal_capacity_multiplier p),
        (''heat generation multiplier'', heat_generation_multiplier p),
        (''static cooling multiplier'', static_cooling_multiplier p),
        (''speed cooling multiplier'', speed_cooling_multiplier p),
        (''derate slope multiplier'', derate_slope_multiplier p)]
        (finite_in F64_TENTH F64_FOUR) (\<lambda>name. ''V3 '' @ name @ '' must be finite and in [0.1, 4]''))
    (and_also (ensure (finite_in F64_MINUS_FIFTY F64_FIFTY (soft_limit_offset_c p))
        ''V3 thermal soft-limit offset must be in [-50, 50] degC'')
    (and_also (ensure (finite_in F64_TWENTIETH F64_ONE (resolution_minimum_power_fraction p))
        ''V3 thermal minimum-power fraction must be in [0.05, 1]'')
    (and_also (engine_thermal_validate \<lparr>derating_shape = resolution_derating_shape p,
        smooth_knee_width_c = resolution_smooth_knee_width_c p,
        minimum_power_fraction = resolution_minimum_power_fraction p\<rparr>)
    (ensure (finite_in F64_ZERO F64_HALF (cooling_drag_area_m2_at_cap p))
        ''V3 cooling drag area at cap must be in [0, 0.5] m2''))))"

definition transmission_validate :: "V3TransmissionResolutionParams \<Rightarrow> string + unit" where
  "transmission_validate p =
     and_also (ensure (list_all is_finite64 [minimum_target_top_speed_mps p, maximum_target_top_speed_mps p,
         target_engine_speed_fraction p])
        ''V3 transmission-resolution coefficients must be finite'')
    (and_also (ensure (\<not> (f64_lt (minimum_target_top_speed_mps p) F64_FORTY \<or>
         f64_le (maximum_target_top_speed_mps p) (minimum_target_top_speed_mps p) \<or>
         f64_lt F64_150 (maximum_target_top_speed_mps p)))
        ''V3 target top speeds must satisfy 40 <= minimum < maximum <= 150 m/s'')
    (ensure (f64_in_range F64_HALF F64_ONE (target_engine_speed_fraction p))
        ''V3 target engine-speed fraction must be in [0.5, 1]''))"

definition development_validate :: "V3DevelopmentResolutionParams \<Rightarrow> string + unit" where
  "development_validate p =
     and_also (ensure (list_all is_finite64 [chassis_force_transfer_efficiency_without_development p,
         chassis_force_transfer_efficiency_at_cap p, engine_torque_gain_at_cap p,
         cooling_capacity_multiplier_without_development p, cooling_capacity_gain_at_cap p])
        ''V3 development-resolution coefficients must be finite'')
    (and_also (ensure (\<not> (f64_le (chassis_force_transfer_efficiency_without_development p) F64_ZERO \<or>
         f64_lt (chassis_force_transfer_efficiency_at_cap p) (chassis_force_transfer_efficiency_without_development p) \<or>
         f64_lt F64_ONE (chassis_force_transfer_efficiency_at_cap p)))
        ''V3 chassis force-transfer efficiencies must satisfy 0 < base <= cap <= 1'')
    (and_also (ensure (f64_in_range F64_ZERO F64_HALF (engine_torque_gain_at_cap p))
        ''V3 engine torque gain must be in [0, 0.5]'')
    (ensure (\<not> (f64_le (cooling_capacity_multiplier_without_development p) F64_ZERO \<or>
         \<not> f64_in_range F64_ZERO F64_TWO (cooling_capacity_gain_at_cap p)))
        ''V3 cooling capacity base must be positive and gain must be in [0, 2]'')))"

section \<open>Experiment profiles\<close>

datatype V3CandidateExperimentProfileVersion =
    ProfileV1 | ProfileV2 | ProfileV3 | ProfileV4 | ProfileV5 | ProfileV6
  | ProfileV7 | ProfileV8 | ProfileV9 | ProfileV10 | ProfileV11

record V3CandidateExperimentProfile =
  profile_schema_version :: V3CandidateExperimentProfileVersion
  profile_tuning_response :: TuningResponseV1
  profile_tire_contact :: TireContactParamsV3
  profile_aero_resolution :: "V3AeroResolutionParams option"
  profile_development_resolution :: "V3DevelopmentResolutionParams option"
  profile_transmission_resolution :: "V3TransmissionResolutionParams option"
  profile_mechanical_overrides :: V3MechanicalOverrides
  profile_driver_control_override :: "DriverControlParamsV3 option"
  profile_driver_control_profile :: "RacingDriverControlProfileV1 option"
  profile_fuel_mass :: "FuelMassParamsV3 option"
  profile_tire_degradation :: "TireDegradationParamsV3 option"
  profile_engine_thermal_resolution :: "V3EngineThermalResolutionParams option"

definition default_profile :: V3CandidateExperimentProfile where
  "default_profile = \<lparr>profile_schema_version = ProfileV7, profile_tuning_response = default_tuning_response,
     profile_tire_contact = default_tire_contact, profile_aero_resolution = Some default_aero,
     profile_development_resolution = Some default_development,
     profile_transmission_resolution = Some default_transmission, profile_mechanical_overrides = default_overrides,
     profile_driver_control_override = None, profile_driver_control_profile = None,
     profile_fuel_mass = Some default_fuel_mass, profile_tire_degradation = Some default_tire_degradation,
     profile_engine_thermal_resolution = None\<rparr>"

fun version_name :: "V3CandidateExperimentProfileVersion \<Rightarrow> string" where
  "version_name ProfileV1 = ''V1''"
| "version_name ProfileV2 = ''V2''"
| "version_name ProfileV3 = ''V3''"
| "version_name ProfileV4 = ''V4''"
| "version_name ProfileV5 = ''V5''"
| "version_name ProfileV6 = ''V6''"
| "version_name ProfileV7 = ''V7''"
| "version_name ProfileV8 = ''V8''"
| "version_name ProfileV9 = ''V9''"
| "version_name ProfileV10 = ''V10''"
| "version_name ProfileV11 = ''V11''"

datatype ProfileError =
    ProfileInvalid string
  | InvalidDriverControlProfile RacingDriverContractError

definition validate_resolution :: "V3CandidateExperimentProfile \<Rightarrow> string + unit" where
  "validate_resolution p =
     (case (profile_schema_version p, profile_aero_resolution p, profile_development_resolution p,
        profile_transmission_resolution p) of
        (ProfileV1, None, None, None) \<Rightarrow> Ok ()
      | (ProfileV2, Some aero, None, None) \<Rightarrow> aero_validate aero
      | (ProfileV3, Some aero, Some development, None) \<Rightarrow> and_also (aero_validate aero) (development_validate development)
      | (ProfileV1, _, _, _) \<Rightarrow> Err ''V3 experiment profile V1 cannot define later resolution resources''
      | (ProfileV2, _, _, _) \<Rightarrow>
          Err ''V3 experiment profile V2 requires aero_resolution and forbids development_resolution''
      | (ProfileV3, _, _, _) \<Rightarrow>
          Err ''V3 experiment profile V3 requires aero and development resolution and forbids transmission resolution''
      | (_, Some aero, Some development, Some transmission) \<Rightarrow>
          and_also (aero_validate aero) (and_also (development_validate development) (transmission_validate transmission))
      | (version, _, _, _) \<Rightarrow>
          Err (''V3 experiment profile '' @ version_name version @ '' requires aero, development and transmission resolution''))"

definition validate_fuel :: "V3CandidateExperimentProfile \<Rightarrow> string + unit" where
  "validate_fuel p =
     (case (profile_schema_version p \<in> {ProfileV6, ProfileV7, ProfileV8, ProfileV9, ProfileV10, ProfileV11}, profile_fuel_mass p) of
        (True, Some fuel) \<Rightarrow> fuel_mass_validate fuel
      | (True, None) \<Rightarrow> Err ''V3 experiment profiles V6 through V11 require fuel_mass''
      | (False, None) \<Rightarrow> Ok ()
      | (False, Some _) \<Rightarrow> Err ''historical V3 experiment profiles cannot define fuel_mass'')"

definition validate_tire_degradation :: "V3CandidateExperimentProfile \<Rightarrow> string + unit" where
  "validate_tire_degradation p =
     (case (profile_schema_version p \<in> {ProfileV7, ProfileV8, ProfileV9, ProfileV10, ProfileV11}, profile_tire_degradation p) of
        (True, Some tire) \<Rightarrow> tire_degradation_validate tire
      | (True, None) \<Rightarrow> Err ''V3 experiment profiles V7 through V11 require tire_degradation''
      | (False, None) \<Rightarrow> Ok ()
      | (False, Some _) \<Rightarrow> Err ''historical V3 experiment profiles cannot define tire_degradation'')"

definition validate_engine_thermal :: "V3CandidateExperimentProfile \<Rightarrow> string + unit" where
  "validate_engine_thermal p =
     (case (profile_schema_version p, profile_engine_thermal_resolution p) of
        (ProfileV8, None) \<Rightarrow> Err ''V3 experiment profile V8 requires engine_thermal_resolution''
      | (_, None) \<Rightarrow> Ok ()
      | (version, Some thermal) \<Rightarrow>
          if version \<in> {ProfileV8, ProfileV9, ProfileV10, ProfileV11} then engine_thermal_resolution_validate thermal
          else Err ''historical V3 experiment profiles cannot define engine_thermal_resolution'')"

definition validate_driver_control :: "V3CandidateExperimentProfile \<Rightarrow> ProfileError + unit" where
  "validate_driver_control p =
     (if profile_schema_version p \<in> {ProfileV10, ProfileV11}
      then case (profile_driver_control_override p, profile_driver_control_profile p) of
          (None, Some control) \<Rightarrow> map_err InvalidDriverControlProfile (control_profile_validate control)
        | (Some _, _) \<Rightarrow> Err (ProfileInvalid ''V3 experiment profiles V10 and V11 forbid the legacy driver_control_override'')
        | (None, None) \<Rightarrow> Err (ProfileInvalid ''V3 experiment profiles V10 and V11 require driver_control_profile'')
      else case profile_driver_control_profile p of
          None \<Rightarrow> Ok ()
        | Some _ \<Rightarrow> Err (ProfileInvalid ''historical V3 experiment profiles cannot define driver_control_profile''))"

definition profile_validate :: "V3CandidateExperimentProfile \<Rightarrow> ProfileError + unit" where
  "profile_validate p =
     and_also (map_err ProfileInvalid (tuning_validate (profile_tuning_response p)))
    (and_also (map_err ProfileInvalid (validate_resolution p))
    (and_also (map_err ProfileInvalid (validate_fuel p))
    (and_also (map_err ProfileInvalid (validate_tire_degradation p))
    (and_also (map_err ProfileInvalid (validate_engine_thermal p))
    (validate_driver_control p)))))"

fun profile_model_identity :: "externals \<Rightarrow> V3CandidateExperimentProfileVersion \<Rightarrow> ArtifactIdentity" where
  "profile_model_identity ext ProfileV1 = racing_model_v3_mechanical_candidate_identity ext"
| "profile_model_identity ext ProfileV2 = racing_model_v3_aero_candidate_identity ext"
| "profile_model_identity ext ProfileV3 = racing_model_v3_development_candidate_identity ext"
| "profile_model_identity ext ProfileV4 = racing_model_v3_transmission_candidate_identity ext"
| "profile_model_identity ext ProfileV5 = racing_model_v3_fidelity_candidate_identity ext"
| "profile_model_identity ext ProfileV6 = racing_model_v3_fuel_mass_candidate_identity ext"
| "profile_model_identity ext ProfileV7 = racing_model_v3_candidate_identity ext"
| "profile_model_identity ext ProfileV8 = racing_model_v3_thermal_candidate_identity ext"
| "profile_model_identity ext ProfileV9 = racing_model_v3_component_candidate_identity ext"
| "profile_model_identity ext ProfileV10 = racing_model_v3_driver_control_candidate_identity ext"
| "profile_model_identity ext ProfileV11 = racing_model_v3_driver_friction_candidate_identity ext"

definition applies_first_stint_tire :: "V3CandidateExperimentProfile \<Rightarrow> bool" where
  "applies_first_stint_tire p \<longleftrightarrow>
     profile_schema_version p \<in> {ProfileV5, ProfileV6, ProfileV7, ProfileV8, ProfileV9, ProfileV10, ProfileV11}"

definition accepts_zero_downforce :: "V3CandidateExperimentProfile \<Rightarrow> bool" where
  "accepts_zero_downforce p \<longleftrightarrow>
     profile_schema_version p \<in> {ProfileV5, ProfileV6, ProfileV7, ProfileV8, ProfileV9, ProfileV10, ProfileV11}"

section \<open>Fuel contracts\<close>

datatype RacingFuelContractVersion = FuelContractVersionV1
datatype RacingFuelContractId = FuelContractId
datatype RacingFuelContractSemanticVersion = FuelContractSemanticV1
datatype RacingFuelDepletionBehavior = DepletionReject

record RacingFuelContractV1 =
  fuel_contract_schema_version :: RacingFuelContractVersion
  fuel_contract_id :: RacingFuelContractId
  fuel_contract_version :: RacingFuelContractSemanticVersion
  default_initial_fuel_mass_kg :: "64 word"
  minimum_finish_reserve_kg :: "64 word"
  depletion_behavior :: RacingFuelDepletionBehavior
  consumption :: FuelMassParamsV3

definition fuel_contract_validate :: "RacingFuelContractV1 \<Rightarrow> string + unit" where
  "fuel_contract_validate c =
     and_also (ensure (finite_in F64_ONE F64_200 (default_initial_fuel_mass_kg c))
        ''default initial fuel mass must be in [1, 200] kg'')
    (and_also (ensure (is_finite64 (minimum_finish_reserve_kg c) \<and> f64_le F64_ZERO (minimum_finish_reserve_kg c) \<and>
         f64_lt (minimum_finish_reserve_kg c) (default_initial_fuel_mass_kg c))
        ''minimum finish reserve must be non-negative and below the initial load'')
    (fuel_mass_validate (consumption c)))"

section \<open>Patterns of non-negative values are ordered like the values\<close>

text \<open>A pattern with a clear sign bit is its biased exponent followed by its fraction, so that the magnitude grows with
  the pattern.\<close>

lemma sign_bit: "bit b 63 \<longleftrightarrow> 2 ^ 63 \<le> unat (b :: 64 word)"
proof -
  have "bit b 63 \<longleftrightarrow> bit (unat b) 63" by (simp add: bit_unsigned_iff)
  also have "\<dots> \<longleftrightarrow> odd (unat b div 2 ^ 63)" by (simp only: bit_iff_odd)
  also have "\<dots> \<longleftrightarrow> 2 ^ 63 \<le> unat b"
  proof (cases "2 ^ 63 \<le> unat b")
    case True
    moreover have "unat b < 2 ^ 64" using unsigned_less [of b] by simp
    ultimately have "unat b div 2 ^ 63 = 1" by (intro div_nat_eqI) simp_all
    then show ?thesis using True by simp
  qed simp
  finally show ?thesis .
qed

lemma exponent_div: "unat b < 2 ^ 63 \<Longrightarrow> f64_exponent b = unat b div 2 ^ 52"
  by (simp add: f64_exponent_def take_bit_eq_mod drop_bit_eq_div unat_mod unat_div)

lemma pattern_parts:
  assumes "\<not> bit b 63"
  shows "unat b = f64_exponent b * 2 ^ 52 + f64_fraction b" "f64_fraction b < 2 ^ 52"
proof -
  have "unat b < 2 ^ 63" using assms by (simp add: sign_bit)
  then have "f64_exponent b = unat b div 2 ^ 52" by (rule exponent_div)
  moreover have frac: "f64_fraction b = unat b mod 2 ^ 52"
    by (simp add: f64_fraction_def take_bit_eq_mod unat_mod)
  ultimately show "unat b = f64_exponent b * 2 ^ 52 + f64_fraction b" by (simp only: div_mult_mod_eq)
  show "f64_fraction b < 2 ^ 52" by (simp add: frac)
qed

lemma magnitude_bounds:
  assumes "\<not> bit b 63" "0 < f64_exponent b"
  shows "2 ^ 52 * 2 ^ (f64_exponent b - 1) \<le> f64_magnitude b" "f64_magnitude b < 2 ^ 52 * 2 ^ f64_exponent b"
proof -
  show "2 ^ 52 * 2 ^ (f64_exponent b - 1) \<le> f64_magnitude b"
    using assms(2) by (simp add: f64_magnitude_def)
  have "f64_magnitude b < (2 ^ 52 + 2 ^ 52) * 2 ^ (f64_exponent b - 1)"
    using pattern_parts(2) [OF assms(1)] assms(2) by (simp add: f64_magnitude_def)
  also have "\<dots> = 2 ^ 52 * 2 ^ Suc (f64_exponent b - 1)" by simp
  finally show "f64_magnitude b < 2 ^ 52 * 2 ^ f64_exponent b" using assms(2) by simp
qed

lemma magnitude_less:
  assumes "\<not> bit a 63" "\<not> bit b 63" "unat a < unat b"
  shows "f64_magnitude a < f64_magnitude b"
proof (cases "f64_exponent a = f64_exponent b")
  case True
  then have "f64_fraction a < f64_fraction b"
    using assms(3) pattern_parts(1) [OF assms(1)] pattern_parts(1) [OF assms(2)] by simp
  then show ?thesis using True by (simp add: f64_magnitude_def)
next
  case False
  have less: "f64_exponent a < f64_exponent b"
  proof (rule ccontr)
    assume "\<not> f64_exponent a < f64_exponent b"
    with False have "Suc (f64_exponent b) * 2 ^ 52 \<le> f64_exponent a * 2 ^ 52" by (intro mult_le_mono1) simp
    then show False using assms(3) pattern_parts [OF assms(1)] pattern_parts [OF assms(2)] by simp
  qed
  have low: "2 ^ 52 * 2 ^ (f64_exponent b - 1) \<le> f64_magnitude b"
    using magnitude_bounds(1) [OF assms(2)] less by simp
  show ?thesis
  proof (cases "f64_exponent a = 0")
    case True
    have "f64_magnitude a < 2 ^ 52" using True pattern_parts(2) [OF assms(1)] by (simp add: f64_magnitude_def)
    moreover have "(2 :: nat) ^ 52 * 1 \<le> 2 ^ 52 * 2 ^ (f64_exponent b - 1)" by (intro mult_le_mono2) simp
    ultimately show ?thesis using low by linarith
  next
    case pos: False
    have "(2 :: nat) ^ f64_exponent a \<le> 2 ^ (f64_exponent b - 1)" using less by (intro power_increasing) simp_all
    then show ?thesis using magnitude_bounds(2) [OF assms(1)] pos low
      by (meson le_trans less_le_trans mult_le_mono2 gr0I)
  qed
qed

lemma pattern_order:
  assumes "\<not> bit a 63" "\<not> bit b 63" "\<not> f64_nan a" "\<not> f64_nan b"
  shows "f64_le a b \<longleftrightarrow> a \<le> b" "f64_lt a b \<longleftrightarrow> a < b"
proof -
  have order: "f64_magnitude a < f64_magnitude b \<longleftrightarrow> unat a < unat b"
    if "\<not> bit a 63" "\<not> bit b 63" for a b :: "64 word"
    using that magnitude_less [of a b] magnitude_less [of b a] by (metis linorder_cases not_less_iff_gr_or_eq word_unat_eq_iff)
  from order [OF assms(1,2)] order [OF assms(2,1)] show "f64_le a b \<longleftrightarrow> a \<le> b" "f64_lt a b \<longleftrightarrow> a < b"
    using assms(3,4)
    by (simp_all add: f64_le_def f64_lt_def f64_scaled_def assms(1,2) word_le_nat_alt word_less_nat_alt flip: not_less)
qed

lemma positive_pattern:
  assumes "b < 0x7FF0000000000000"
  shows "\<not> bit b 63" "\<not> f64_nan b" "is_finite64 b"
proof -
  have n: "unat b < 0x7FF0000000000000" using assms by (simp add: word_less_nat_alt)
  then show "\<not> bit b 63" by (simp add: sign_bit)
  have "f64_exponent b = unat b div 2 ^ 52" using n by (intro exponent_div) simp
  then have "f64_exponent b < 2047" using n by (simp add: less_mult_imp_div_less)
  then show "\<not> f64_nan b" "is_finite64 b" by (simp_all add: f64_nan_def is_finite64_exponent)
qed

section \<open>The ladder of profile versions\<close>

fun version_number :: "V3CandidateExperimentProfileVersion \<Rightarrow> nat" where
  "version_number ProfileV1 = 1"
| "version_number ProfileV2 = 2"
| "version_number ProfileV3 = 3"
| "version_number ProfileV4 = 4"
| "version_number ProfileV5 = 5"
| "version_number ProfileV6 = 6"
| "version_number ProfileV7 = 7"
| "version_number ProfileV8 = 8"
| "version_number ProfileV9 = 9"
| "version_number ProfileV10 = 10"
| "version_number ProfileV11 = 11"

text \<open>A group that is present exactly from some version on, and valid.\<close>

definition group_from :: "nat \<Rightarrow> nat \<Rightarrow> ('a \<Rightarrow> 'e + unit) \<Rightarrow> 'a option \<Rightarrow> bool" where
  "group_from n first validate part \<longleftrightarrow>
     (case part of None \<Rightarrow> n < first | Some g \<Rightarrow> first \<le> n \<and> validate g = Ok ())"

lemma validate_resolution_Ok:
  "validate_resolution p = Ok () \<longleftrightarrow>
     (let n = version_number (profile_schema_version p) in
      group_from n 2 aero_validate (profile_aero_resolution p) \<and>
      group_from n 3 development_validate (profile_development_resolution p) \<and>
      group_from n 4 transmission_validate (profile_transmission_resolution p))"
  by (cases "profile_schema_version p"; cases "profile_aero_resolution p"; cases "profile_development_resolution p";
      cases "profile_transmission_resolution p")
    (simp_all add: validate_resolution_def group_from_def result_simps)

lemma validate_fuel_Ok:
  "validate_fuel p = Ok () \<longleftrightarrow> group_from (version_number (profile_schema_version p)) 6 fuel_mass_validate (profile_fuel_mass p)"
  by (cases "profile_schema_version p"; cases "profile_fuel_mass p") (simp_all add: validate_fuel_def group_from_def)

lemma validate_tire_degradation_Ok:
  "validate_tire_degradation p = Ok () \<longleftrightarrow>
     group_from (version_number (profile_schema_version p)) 7 tire_degradation_validate (profile_tire_degradation p)"
  by (cases "profile_schema_version p"; cases "profile_tire_degradation p")
    (simp_all add: validate_tire_degradation_def group_from_def)

lemma validate_engine_thermal_Ok:
  "validate_engine_thermal p = Ok () \<longleftrightarrow>
     (case profile_engine_thermal_resolution p of
        None \<Rightarrow> version_number (profile_schema_version p) \<noteq> 8
      | Some t \<Rightarrow> 8 \<le> version_number (profile_schema_version p) \<and> engine_thermal_resolution_validate t = Ok ())"
  by (cases "profile_schema_version p"; cases "profile_engine_thermal_resolution p") (simp_all add: validate_engine_thermal_def)

lemma validate_driver_control_Ok:
  "validate_driver_control p = Ok () \<longleftrightarrow>
     group_from (version_number (profile_schema_version p)) 10 control_profile_validate (profile_driver_control_profile p) \<and>
     (10 \<le> version_number (profile_schema_version p) \<longrightarrow> profile_driver_control_override p = None)"
  by (cases "profile_schema_version p"; cases "profile_driver_control_profile p"; cases "profile_driver_control_override p")
    (simp_all add: validate_driver_control_def group_from_def result_simps)

text \<open>A profile is accepted exactly when its tuning response is valid and it carries the groups of its version, each
  valid: aerodynamics from version 2, development from 3, transmission from 4, fuel from 6, tire degradation from 7,
  the driver-control profile from 10, where the legacy override is forbidden; the engine-thermal group is required by
  version 8, optional from 9 and forbidden before.\<close>

theorem profile_validate_exact:
  "profile_validate p = Ok () \<longleftrightarrow>
     (let n = version_number (profile_schema_version p) in
      tuning_validate (profile_tuning_response p) = Ok () \<and>
      group_from n 2 aero_validate (profile_aero_resolution p) \<and>
      group_from n 3 development_validate (profile_development_resolution p) \<and>
      group_from n 4 transmission_validate (profile_transmission_resolution p) \<and>
      group_from n 6 fuel_mass_validate (profile_fuel_mass p) \<and>
      group_from n 7 tire_degradation_validate (profile_tire_degradation p) \<and>
      (case profile_engine_thermal_resolution p of
         None \<Rightarrow> n \<noteq> 8
       | Some t \<Rightarrow> 8 \<le> n \<and> engine_thermal_resolution_validate t = Ok ()) \<and>
      group_from n 10 control_profile_validate (profile_driver_control_profile p) \<and>
      (n < 10 \<or> profile_driver_control_override p = None))"
  by (auto simp: profile_validate_def result_simps validate_resolution_Ok validate_fuel_Ok validate_tire_degradation_Ok
      validate_engine_thermal_Ok validate_driver_control_Ok Let_def not_less)

section \<open>The default profile\<close>

lemmas profile_constants =
  F64_ZERO_def F64_ONE_def F64_HALF_def F64_FOUR_def F64_TEN_def F64_TWO_def F64_TENTH_def F64_TWENTIETH_def
  F64_HUNDREDTH_def F64_TWENTY_def F64_FORTY_def F64_FIFTY_def F64_150_def F64_100_def F64_200_def

lemmas pattern_simps = pattern_order [OF positive_pattern(1) positive_pattern(1) positive_pattern(2) positive_pattern(2)]
  positive_pattern(3)

lemma default_groups_valid:
  "tuning_validate default_tuning_response = Ok ()" "aero_validate default_aero = Ok ()"
  "development_validate default_development = Ok ()" "transmission_validate default_transmission = Ok ()"
  "fuel_mass_validate default_fuel_mass = Ok ()" "tire_degradation_validate default_tire_degradation = Ok ()"
  by (simp_all add: tuning_validate_def default_tuning_response_def aero_validate_def default_aero_def
      development_validate_def default_development_def transmission_validate_def default_transmission_def
      fuel_mass_validate_def default_fuel_mass_def tire_degradation_validate_def default_tire_degradation_def
      check_all_def finite_in_def f64_in_range_def profile_constants pattern_simps)

text \<open>The profiles that the published workloads build from the default are accepted exactly when the
  control profile and the consumption of the catalog are.\<close>

lemma v11_profile_valid:
  "profile_validate (default_profile\<lparr>profile_schema_version := ProfileV11,
     profile_driver_control_profile := Some control, profile_fuel_mass := Some fuel\<rparr>) = Ok () \<longleftrightarrow>
   control_profile_validate control = Ok () \<and> fuel_mass_validate fuel = Ok ()"
  by (auto simp: profile_validate_def result_simps validate_resolution_Ok validate_fuel_Ok validate_tire_degradation_Ok
      validate_engine_thermal_Ok validate_driver_control_Ok group_from_def default_profile_def default_groups_valid)

lemma default_profile_valid: "profile_validate default_profile = Ok ()"
  by (simp add: profile_validate_def result_simps validate_resolution_Ok validate_fuel_Ok validate_tire_degradation_Ok
      validate_engine_thermal_Ok validate_driver_control_Ok group_from_def default_profile_def default_groups_valid)

text \<open>A valid fuel contract carries a load that the race accepts and a reserve below it.\<close>

lemma fuel_contract_valid:
  assumes "fuel_contract_validate c = Ok ()"
  shows "finite_in F64_ONE F64_200 (default_initial_fuel_mass_kg c)" "fuel_mass_validate (consumption c) = Ok ()"
    "f64_scaled (minimum_finish_reserve_kg c) < f64_scaled (default_initial_fuel_mass_kg c)"
  using assms by (auto simp: fuel_contract_validate_def result_simps f64_lt_def)

end
