(* ===== verification/Bundle.thy ===== *)
theory Bundle
  imports Run_Contract
begin

text \<open>
  \<open>crates/pitgun-contract/src/bundle.rs\<close> and \<open>metrics.rs\<close>: the manifest of a portable run bundle, its
  fixed layout, telemetry records, and the derived-metrics artifact.
\<close>

section \<open>The manifest\<close>

datatype RunBundleManifestVersion = ManifestV1
datatype RunBundleReceiptVersion = BundleReceiptV1
datatype RunBundleTelemetryRecordVersion = TelemetryRecordV1

record RunBundleTelemetryRecordV1 =
  telemetry_schema_version :: RunBundleTelemetryRecordVersion
  ordinal :: u64
  batch_ordinal :: u64
  record_frame :: TelemetryFrame

datatype RunBundleMediaType = BundleJson | BundleNdjson

record RunBundleArtifactV1 =
  artifact_path :: string
  artifact_media_type :: RunBundleMediaType
  bundle_artifact_digest :: Digest

record RunBundleCanonicalArtifactsV1 =
  ca_scenario :: RunBundleArtifactV1
  ca_contract :: RunBundleArtifactV1
  ca_output :: RunBundleArtifactV1
  ca_telemetry :: RunBundleArtifactV1
  ca_telemetry_summary :: RunBundleArtifactV1
  ca_metrics :: RunBundleArtifactV1

record RunBundleExecutionArtifactsV1 =
  ea_receipt :: RunBundleArtifactV1

record RunBundleManifestV1 =
  manifest_schema_version :: RunBundleManifestVersion
  manifest_run_id :: Digest
  canonical_artifacts :: RunBundleCanonicalArtifactsV1
  execution_artifacts :: RunBundleExecutionArtifactsV1

record RunBundleReceiptV1 =
  bundle_receipt_version :: RunBundleReceiptVersion
  bundle_receipt :: ExecutionReceiptV1

datatype RunBundleManifestError =
    UnexpectedPath string string string
  | UnexpectedMediaType string RunBundleMediaType RunBundleMediaType

definition validate_artifact ::
    "string \<Rightarrow> RunBundleArtifactV1 \<Rightarrow> string \<Rightarrow> RunBundleMediaType \<Rightarrow> RunBundleManifestError + unit" where
  "validate_artifact name artifact expected_path expected_media_type =
     (if artifact_path artifact \<noteq> expected_path
      then Err (UnexpectedPath name expected_path (artifact_path artifact))
      else if artifact_media_type artifact \<noteq> expected_media_type
      then Err (UnexpectedMediaType name expected_media_type (artifact_media_type artifact))
      else Ok ())"

definition manifest_validate :: "RunBundleManifestV1 \<Rightarrow> RunBundleManifestError + unit" where
  "manifest_validate m =
     (let ca = canonical_artifacts m in
      and_also (validate_artifact ''scenario'' (ca_scenario ca) ''scenario.json'' BundleJson)
     (and_also (validate_artifact ''contract'' (ca_contract ca) ''contract.json'' BundleJson)
     (and_also (validate_artifact ''output'' (ca_output ca) ''output.json'' BundleJson)
     (and_also (validate_artifact ''telemetry'' (ca_telemetry ca) ''telemetry.jsonl'' BundleNdjson)
     (and_also (validate_artifact ''telemetry summary'' (ca_telemetry_summary ca)
        ''telemetry-summary.json'' BundleJson)
     (and_also (validate_artifact ''metrics'' (ca_metrics ca) ''metrics.json'' BundleJson)
     (validate_artifact ''receipt'' (ea_receipt (execution_artifacts m)) ''receipt.json'' BundleJson)))))))"

section \<open>Derived metrics\<close>

datatype DerivedMetricsVersion = DerivedMetricsVersionV1
datatype DerivedMetricProcessorV1 = TelemetryAggregateV1
datatype DerivedMetricStatisticV1 = Maximum

record DerivedMetricV1 =
  metric_id :: Identifier
  metric_processor :: DerivedMetricProcessorV1
  metric_parameter_id :: u16
  metric_statistic :: DerivedMetricStatisticV1
  metric_unit :: string
  metric_sample_count :: u64
  metric_value :: "64 word"

record DerivedMetricsV1 =
  metrics_schema_version :: DerivedMetricsVersion
  metrics_list :: "DerivedMetricV1 list"

datatype DerivedMetricsError =
    EmptyMetrics
  | InvalidOrder
  | InvalidUnit Identifier string
  | InvalidSampleCount Identifier u64
  | NonFiniteValue Identifier

definition unit_char :: "char \<Rightarrow> bool" where
  "unit_char c \<longleftrightarrow> is_ascii_alphanumeric c \<or> c \<in> {CHR ''%'', CHR ''.'', CHR ''/'', CHR ''_'', CHR ''-''}"

definition validate_metric :: "DerivedMetricV1 \<Rightarrow> DerivedMetricsError + unit" where
  "validate_metric m =
     (if metric_unit m = [] \<or> length (metric_unit m) > 32 \<or> \<not> list_all unit_char (metric_unit m)
      then Err (InvalidUnit (metric_id m) (metric_unit m))
      else if metric_sample_count m = 0 \<or> metric_sample_count m > MAX_SAFE_JSON_INTEGER
      then Err (InvalidSampleCount (metric_id m) (metric_sample_count m))
      else if \<not> is_finite64 (metric_value m) then Err (NonFiniteValue (metric_id m))
      else Ok ())"

definition metrics_validate :: "DerivedMetricsV1 \<Rightarrow> DerivedMetricsError + unit" where
  "metrics_validate a =
     (if metrics_list a = [] then Err EmptyMetrics
      else if \<not> successively (\<lambda>l r. \<not> metric_id r \<le> metric_id l) (metrics_list a) then Err InvalidOrder
      else try_each validate_metric (metrics_list a))"

text \<open>\<open>sort_by\<close> on the id is a stable sort by key.\<close>

definition metrics_new :: "DerivedMetricV1 list \<Rightarrow> DerivedMetricsError + DerivedMetricsV1" where
  "metrics_new metrics =
     (let artifact = \<lparr>metrics_schema_version = DerivedMetricsVersionV1,
            metrics_list = sort_key metric_id metrics\<rparr>
      in and_also (metrics_validate artifact) (Ok artifact))"

lemma metrics_validate_Ok:
  "metrics_validate a = Ok () \<longleftrightarrow>
     metrics_list a \<noteq> [] \<and> sorted_wrt (<) (map metric_id (metrics_list a)) \<and>
     (\<forall>m\<in>set (metrics_list a). validate_metric m = Ok ())"
proof -
  have "successively (\<lambda>l r. metric_id l < metric_id r) (metrics_list a) \<longleftrightarrow>
      sorted_wrt (<) (map metric_id (metrics_list a))"
    by (subst successively_conv_sorted_wrt) (auto simp: sorted_wrt_map intro!: transpI)
  then show ?thesis
    by (auto simp: metrics_validate_def try_each_Ok not_le)
qed

text \<open>A metrics artifact is built exactly from a non-empty list of valid metrics with distinct
  identifiers; the artifact holds these metrics in identifier order, so it does not depend on the
  order in which they were computed.\<close>

theorem metrics_new_exact:
  "metrics_new ms = Ok a \<longleftrightarrow>
     ms \<noteq> [] \<and> distinct (map metric_id ms) \<and> list_all (\<lambda>m. validate_metric m = Ok ()) ms \<and>
     a = \<lparr>metrics_schema_version = DerivedMetricsVersionV1, metrics_list = sort_key metric_id ms\<rparr>"
proof -
  have "sorted_wrt (<) (map metric_id (sort_key metric_id ms)) \<longleftrightarrow> distinct (map metric_id ms)"
    by (simp add: strict_sorted_iff distinct_map)
  moreover have "sort_key metric_id ms = [] \<longleftrightarrow> ms = []"
    by (metis length_0_conv length_sort)
  ultimately show ?thesis
    by (auto simp: metrics_new_def Let_def result_simps metrics_validate_Ok list_all_iff)
qed

text \<open>The fixed layout as a list.\<close>

definition bundle_layout :: "(string \<times> RunBundleMediaType) list" where
  "bundle_layout = [(''scenario.json'', BundleJson), (''contract.json'', BundleJson),
     (''output.json'', BundleJson), (''telemetry.jsonl'', BundleNdjson),
     (''telemetry-summary.json'', BundleJson), (''metrics.json'', BundleJson), (''receipt.json'', BundleJson)]"

definition manifest_artifacts :: "RunBundleManifestV1 \<Rightarrow> RunBundleArtifactV1 list" where
  "manifest_artifacts m = (let ca = canonical_artifacts m in
     [ca_scenario ca, ca_contract ca, ca_output ca, ca_telemetry ca, ca_telemetry_summary ca,
      ca_metrics ca, ea_receipt (execution_artifacts m)])"

lemma validate_artifact_Ok:
  "validate_artifact n a p t = Ok () \<longleftrightarrow> (artifact_path a, artifact_media_type a) = (p, t)"
  by (auto simp: validate_artifact_def)

lemma manifest_validate_Ok:
  "manifest_validate m = Ok () \<longleftrightarrow>
     map (\<lambda>a. (artifact_path a, artifact_media_type a)) (manifest_artifacts m) = bundle_layout"
  by (simp add: manifest_validate_def manifest_artifacts_def bundle_layout_def Let_def and_also_Ok
      validate_artifact_Ok)

end
