(* ===== verification/Runtime_Exec.thy ===== *)
theory Runtime_Exec
  imports Bundle
begin

text \<open>
  \<open>crates/pitgun-runtime/src/workload.rs\<close> and \<open>verification.rs\<close>: execution of a linked workload under a
  run contract, and the pure verification of a loaded run bundle. The trait \<open>LinkedWorkload\<close> is a record
  of functions, so that every definition and theorem holds for any workload.
\<close>

section \<open>Linked workloads\<close>

record ('input, 'output, 'evidence, 'error) LinkedWorkload =
  serialize_input :: "'input \<Rightarrow> string + serde_value"
  model_identity :: ArtifactIdentity
  workload_execute :: "DeterministicRunContractV1 \<Rightarrow> 'input \<Rightarrow> 'error + ('output \<times> 'evidence)"
  evidence_output :: "'evidence \<Rightarrow> CanonicalJsonError + Digest"
  evidence_telemetry_summary :: "'evidence \<Rightarrow> CanonicalJsonError + Digest"

record ('output, 'evidence) ExecutedWorkload =
  executed_run_id :: Digest
  executed_output_digest :: Digest
  executed_telemetry_summary_digest :: Digest
  executed_output :: 'output
  executed_evidence :: 'evidence

datatype 'error LinkedWorkloadError =
    ModelMismatch ArtifactIdentity ArtifactIdentity
  | InputDigestMismatch Digest Digest
  | Canonicalization CanonicalJsonError
  | WorkloadFailed 'error

definition execute_linked ::
    "externals \<Rightarrow> ('i, 'o, 'ev, 'err) LinkedWorkload \<Rightarrow> DeterministicRunContractV1 \<Rightarrow> 'i
       \<Rightarrow> 'err LinkedWorkloadError + ('o, 'ev) ExecutedWorkload" where
  "execute_linked ext workload contract inp =
     (if model_identity workload \<noteq> contract_model contract
      then Err (ModelMismatch (contract_model contract) (model_identity workload))
      else and_then (map_err Canonicalization (canonical_json_digest ext (serialize_input workload inp)))
       (\<lambda>digest.
        if digest \<noteq> input_digest (contract_input contract)
        then Err (InputDigestMismatch (input_digest (contract_input contract)) digest)
        else and_then (map_err Canonicalization (run_id ext contract)) (\<lambda>run.
             and_then (map_err WorkloadFailed (workload_execute workload contract inp)) (\<lambda>(out, ev).
             and_then (map_err Canonicalization (evidence_output workload ev)) (\<lambda>out_digest.
             and_then (map_err Canonicalization (evidence_telemetry_summary workload ev)) (\<lambda>summary_digest.
             Ok \<lparr>executed_run_id = run, executed_output_digest = out_digest,
                  executed_telemetry_summary_digest = summary_digest,
                  executed_output = out, executed_evidence = ev\<rparr>))))))"

text \<open>A workload runs exactly under a contract that names its model and commits to the canonical
  digest of its input; the result carries the contract's run id and the digests of the evidence that
  the workload returned.\<close>

theorem execute_linked_exact:
  "execute_linked ext w contract inp = Ok r \<longleftrightarrow>
     model_identity w = contract_model contract \<and>
     canonical_json_digest ext (serialize_input w inp) = Ok (input_digest (contract_input contract)) \<and>
     run_id ext contract = Ok (executed_run_id r) \<and>
     workload_execute w contract inp = Ok (executed_output r, executed_evidence r) \<and>
     evidence_output w (executed_evidence r) = Ok (executed_output_digest r) \<and>
     evidence_telemetry_summary w (executed_evidence r) = Ok (executed_telemetry_summary_digest r)"
  by (cases r) (auto simp: execute_linked_def result_simps split: prod.splits if_splits)

section \<open>Loaded bundles\<close>

record RunBundleArtifactBytes =
  ab_scenario :: bytes
  ab_contract :: bytes
  ab_output :: bytes
  ab_telemetry :: bytes
  ab_telemetry_summary :: bytes
  ab_metrics :: bytes
  ab_receipt :: bytes

record ScenarioBinding =
  sb_scenario :: ScenarioIdentity
  sb_model :: ArtifactIdentity
  sb_data_pack :: ArtifactIdentity
  sb_input_digest :: Digest

record LoadedRunBundle =
  lb_manifest :: RunBundleManifestV1
  lb_contract :: DeterministicRunContractV1
  lb_receipt :: RunBundleReceiptV1
  lb_scenario :: ScenarioBinding
  lb_artifacts :: RunBundleArtifactBytes
  lb_declared_telemetry_summary :: TelemetrySummaryV1
  lb_telemetry_records :: "RunBundleTelemetryRecordV1 list"

record VerifiedRunBundle =
  vb_run_id :: Digest
  vb_telemetry_summary :: TelemetrySummaryV1

datatype RunBundleVerificationError =
    InvalidManifest RunBundleManifestError
  | BundleArtifactDigestMismatch string Digest Digest
  | CanonicalIdentity CanonicalJsonError
  | ManifestRunIdMismatch Digest Digest
  | ScenarioIdentityMismatch
  | ModelIdentityMismatch
  | DataPackIdentityMismatch
  | BundleInputDigestMismatch Digest Digest
  | BundleReceiptError RunContractError
  | ReceiptOutputDigestMismatch Digest Digest
  | ReceiptTelemetryDigestMismatch Digest Digest
  | TelemetryOrdinalMismatch nat u64 u64
  | TelemetryBatchOrdinalMismatch nat u64
  | TelemetryCountOverflow string
  | TelemetrySummaryFailed TelemetrySummaryError
  | TelemetrySummaryMismatch

text \<open>The body and the loop of \<open>summarize_telemetry\<close> over the enumerated records.\<close>

definition ordinal_step ::
    "nat \<Rightarrow> u64 \<Rightarrow> RunBundleTelemetryRecordV1 \<Rightarrow> RunBundleVerificationError + u64" where
  "ordinal_step index batches r =
     and_then (ok_or (u64_try_from index) (TelemetryCountOverflow ''record ordinal'')) (\<lambda>expected.
     if ordinal r \<noteq> expected then Err (TelemetryOrdinalMismatch index expected (ordinal r))
     else if batch_ordinal r = batches
     then ok_or (checked_add batches 1) (TelemetryCountOverflow ''batch count'')
     else if batches = 0 \<or> batch_ordinal r \<noteq> batches - 1
     then Err (TelemetryBatchOrdinalMismatch index (batch_ordinal r))
     else Ok batches)"

fun check_ordinals ::
    "nat \<Rightarrow> u64 \<Rightarrow> RunBundleTelemetryRecordV1 list \<Rightarrow> RunBundleVerificationError + u64" where
  "check_ordinals index batches [] = Ok batches"
| "check_ordinals index batches (r # rs) =
     and_then (ordinal_step index batches r) (\<lambda>batches'. check_ordinals (Suc index) batches' rs)"

definition summarize_telemetry ::
    "RunBundleTelemetryRecordV1 list \<Rightarrow> RunBundleVerificationError + TelemetrySummaryV1" where
  "summarize_telemetry records =
     and_then (check_ordinals 0 0 records) (\<lambda>batches.
     map_err TelemetrySummaryFailed (from_ordered_frames batches (map record_frame records) 0))"

definition artifact_table ::
    "RunBundleManifestV1 \<Rightarrow> RunBundleArtifactBytes \<Rightarrow> (string \<times> Digest \<times> bytes) list" where
  "artifact_table m b =
     (let ca = canonical_artifacts m in
      [(''scenario.json'', bundle_artifact_digest (ca_scenario ca), ab_scenario b),
       (''contract.json'', bundle_artifact_digest (ca_contract ca), ab_contract b),
       (''output.json'', bundle_artifact_digest (ca_output ca), ab_output b),
       (''telemetry.jsonl'', bundle_artifact_digest (ca_telemetry ca), ab_telemetry b),
       (''telemetry-summary.json'', bundle_artifact_digest (ca_telemetry_summary ca), ab_telemetry_summary b),
       (''metrics.json'', bundle_artifact_digest (ca_metrics ca), ab_metrics b),
       (''receipt.json'', bundle_artifact_digest (ea_receipt (execution_artifacts m)), ab_receipt b)])"

definition verify_run_bundle_artifacts ::
    "externals \<Rightarrow> RunBundleManifestV1 \<Rightarrow> RunBundleArtifactBytes \<Rightarrow> RunBundleVerificationError + unit" where
  "verify_run_bundle_artifacts ext m b =
     try_each (\<lambda>(artifact, expected, actual_bytes).
       let actual = from_bytes ext actual_bytes in
       if actual \<noteq> expected then Err (BundleArtifactDigestMismatch artifact expected actual) else Ok ())
       (artifact_table m b)"

definition verify_receipt_digests ::
    "RunBundleManifestV1 \<Rightarrow> RunBundleReceiptV1 \<Rightarrow> RunBundleVerificationError + unit" where
  "verify_receipt_digests m receipt =
     (let expected_output = bundle_artifact_digest (ca_output (canonical_artifacts m));
          expected_telemetry = bundle_artifact_digest (ca_telemetry_summary (canonical_artifacts m)) in
      if receipt_output_digest (bundle_receipt receipt) \<noteq> expected_output
      then Err (ReceiptOutputDigestMismatch expected_output (receipt_output_digest (bundle_receipt receipt)))
      else if receipt_telemetry_summary_digest (bundle_receipt receipt) \<noteq> expected_telemetry
      then Err (ReceiptTelemetryDigestMismatch expected_telemetry
             (receipt_telemetry_summary_digest (bundle_receipt receipt)))
      else Ok ())"

definition verify_loaded_run_bundle ::
    "externals \<Rightarrow> LoadedRunBundle \<Rightarrow> RunBundleVerificationError + VerifiedRunBundle" where
  "verify_loaded_run_bundle ext b =
     and_also (map_err InvalidManifest (manifest_validate (lb_manifest b)))
    (and_then (summarize_telemetry (lb_telemetry_records b)) (\<lambda>telemetry_summary.
     and_also (verify_run_bundle_artifacts ext (lb_manifest b) (lb_artifacts b))
    (and_then (map_err CanonicalIdentity (run_id ext (lb_contract b))) (\<lambda>run.
     if manifest_run_id (lb_manifest b) \<noteq> run
     then Err (ManifestRunIdMismatch run (manifest_run_id (lb_manifest b)))
     else if sb_scenario (lb_scenario b) \<noteq> contract_scenario (lb_contract b) then Err ScenarioIdentityMismatch
     else if sb_model (lb_scenario b) \<noteq> contract_model (lb_contract b) then Err ModelIdentityMismatch
     else if sb_data_pack (lb_scenario b) \<noteq> contract_data_pack (lb_contract b) then Err DataPackIdentityMismatch
     else if sb_input_digest (lb_scenario b) \<noteq> input_digest (contract_input (lb_contract b))
     then Err (BundleInputDigestMismatch (input_digest (contract_input (lb_contract b)))
            (sb_input_digest (lb_scenario b)))
     else and_also (map_err BundleReceiptError
            (verify_receipt ext (lb_contract b) (bundle_receipt (lb_receipt b))))
         (and_also (verify_receipt_digests (lb_manifest b) (lb_receipt b))
         (if telemetry_summary \<noteq> lb_declared_telemetry_summary b then Err TelemetrySummaryMismatch
          else Ok \<lparr>vb_run_id = run, vb_telemetry_summary = telemetry_summary\<rparr>))))))"

section \<open>Telemetry ordinals\<close>

text \<open>Batch ordinals start at 0 and each record continues the current batch or opens the next.\<close>

definition contiguous_batches :: "nat list \<Rightarrow> bool" where
  "contiguous_batches bs \<longleftrightarrow> bs = [] \<or> hd bs = 0 \<and> successively (\<lambda>a b. b = a \<or> b = Suc a) bs"

definition batches_in :: "nat list \<Rightarrow> nat" where
  "batches_in bs = (if bs = [] then 0 else Suc (last bs))"

definition well_numbered :: "RunBundleTelemetryRecordV1 list \<Rightarrow> bool" where
  "well_numbered rs \<longleftrightarrow> map (\<lambda>r. unat (ordinal r)) rs = [0..<length rs] \<and>
     contiguous_batches (map (\<lambda>r. unat (batch_ordinal r)) rs)"

lemma ordinal_step_Ok:
  assumes "i < 2 ^ 64" "unat c \<le> i"
  shows "ordinal_step i c r = Ok c' \<longleftrightarrow> unat (ordinal r) = i \<and> unat c' \<le> Suc i \<and>
     (unat (batch_ordinal r) = unat c \<and> unat c' = Suc (unat c) \<or>
      0 < unat c \<and> unat (batch_ordinal r) = unat c - 1 \<and> c' = c)"
proof -
  have ord: "ordinal r = word_of_nat i \<longleftrightarrow> unat (ordinal r) = i"
    using assms(1) by (metis unat_word_of_nat_64 word_unat_eq_iff)
  have add: "checked_add c 1 = Some c' \<longleftrightarrow> unat c' = Suc (unat c)"
    using checked_add_one_iff [of c c'] by simp
  have sub: "0 < unat c \<Longrightarrow> unat (c - 1) = unat c - 1"
    by (metis One_nat_def Suc_leI unat_1 unat_sub word_le_nat_alt)
  have zero: "c = 0 \<longleftrightarrow> unat c = 0" by (simp add: unat_eq_0)
  have same: "batch_ordinal r = c \<longleftrightarrow> unat (batch_ordinal r) = unat c"
    "batch_ordinal r = c - 1 \<longleftrightarrow> unat (batch_ordinal r) = unat (c - 1)"
    by (simp_all only: word_unat_eq_iff)
  have def: "ordinal_step i c r = Ok c' \<longleftrightarrow> unat (ordinal r) = i \<and>
      (if unat (batch_ordinal r) = unat c then unat c' = Suc (unat c)
       else unat c \<noteq> 0 \<and> unat (batch_ordinal r) = unat (c - 1) \<and> c' = c)"
    unfolding ordinal_step_def u64_try_from_def if_P [OF assms(1)]
    by (simp only: ok_or_simps and_then_simps ord same zero split: if_split) (auto simp: ok_or_Ok add)
  show ?thesis
    unfolding def using sub assms(2) by (cases "unat (batch_ordinal r) = unat c") auto
qed

text \<open>The batch counter of the loop, over natural numbers.\<close>

fun count_batches :: "nat \<Rightarrow> nat list \<Rightarrow> nat option" where
  "count_batches c [] = Some c"
| "count_batches c (b # bs) =
     (if b = c then count_batches (Suc c) bs
      else if 0 < c \<and> b = c - 1 then count_batches c bs else None)"

lemma count_batches_pos:
  "count_batches (Suc c) bs = Some d \<longleftrightarrow>
     successively (\<lambda>a b. b = a \<or> b = Suc a) (c # bs) \<and> d = Suc (last (c # bs))"
  by (induction bs arbitrary: c) auto

lemma count_batches_iff:
  "count_batches 0 bs = Some d \<longleftrightarrow> contiguous_batches bs \<and> d = batches_in bs"
proof (cases bs)
  case (Cons b cs)
  then show ?thesis
    using count_batches_pos [of 0 cs d] by (auto simp: contiguous_batches_def batches_in_def)
qed (auto simp: contiguous_batches_def batches_in_def)

lemma check_ordinals_Ok:
  assumes "i + length rs < 2 ^ 64" "unat c \<le> i"
  shows "check_ordinals i c rs = Ok c' \<longleftrightarrow>
    map (\<lambda>r. unat (ordinal r)) rs = [i..<i + length rs] \<and>
    count_batches (unat c) (map (\<lambda>r. unat (batch_ordinal r)) rs) = Some (unat c')"
  using assms
proof (induction i c rs rule: check_ordinals.induct)
  case (1 i c)
  then show ?case by (auto simp: word_unat_eq_iff)
next
  case (2 i c r rs)
  have i: "i < 2 ^ 64" and rest: "Suc i + length rs < 2 ^ 64" using 2(2) by simp_all
  have head: "map (\<lambda>r. unat (ordinal r)) (r # rs) = [i..<i + length (r # rs)] \<longleftrightarrow>
      unat (ordinal r) = i \<and> map (\<lambda>r. unat (ordinal r)) rs = [Suc i..<Suc i + length rs]"
    by (simp add: upt_conv_Cons del: upt_Suc)
  have "check_ordinals i c (r # rs) = Ok c' \<longleftrightarrow>
      (\<exists>d. ordinal_step i c r = Ok d \<and> check_ordinals (Suc i) d rs = Ok c')"
    by (simp add: and_then_Ok)
  also have "\<dots> \<longleftrightarrow> (\<exists>d. ordinal_step i c r = Ok d \<and>
      map (\<lambda>r. unat (ordinal r)) rs = [Suc i..<Suc i + length rs] \<and>
      count_batches (unat d) (map (\<lambda>r. unat (batch_ordinal r)) rs) = Some (unat c'))"
    using 2(1) [OF rest] ordinal_step_Ok [OF i 2(3), of r] by blast
  also have "\<dots> \<longleftrightarrow> unat (ordinal r) = i \<and> map (\<lambda>r. unat (ordinal r)) rs = [Suc i..<Suc i + length rs] \<and>
      count_batches (unat c) (map (\<lambda>r. unat (batch_ordinal r)) (r # rs)) = Some (unat c')"
  proof -
    obtain d0 :: u64 where d0: "unat d0 = Suc (unat c)"
      using rest 2(3) that [of "word_of_nat (Suc (unat c))"] unat_word_of_nat_64 [of "Suc (unat c)"] by linarith
    then show ?thesis
      unfolding ordinal_step_Ok [OF i 2(3)] using 2(3) d0
      by (auto simp del: upt_Suc intro!: exI [of _ d0])
  qed
  finally show ?case unfolding head by blast
qed

lemma batches_in_le: "contiguous_batches bs \<Longrightarrow> batches_in bs \<le> length bs"
proof (induction bs rule: rev_induct)
  case (snoc b bs)
  then show ?case
    by (cases "bs = []") (auto simp: contiguous_batches_def batches_in_def successively_append_iff)
qed (simp add: batches_in_def)

lemma summarize_telemetry_Ok:
  "summarize_telemetry rs = Ok s \<longleftrightarrow>
     well_numbered rs \<and>
     from_ordered_frames (word_of_nat (batches_in (map (\<lambda>r. unat (batch_ordinal r)) rs)))
       (map record_frame rs) 0 = Ok s"
proof -
  let ?bs = "map (\<lambda>r. unat (batch_ordinal r)) rs"
  have check: "check_ordinals 0 0 rs = Ok c \<longleftrightarrow> well_numbered rs \<and> c = word_of_nat (batches_in ?bs)"
    if len: "length rs < 2 ^ 64" for c
  proof -
    have "check_ordinals 0 0 rs = Ok c \<longleftrightarrow> well_numbered rs \<and> unat c = batches_in ?bs"
      using check_ordinals_Ok [of 0 rs 0 c] len count_batches_iff [of ?bs "unat c"]
      by (auto simp: well_numbered_def)
    moreover have "unat (word_of_nat (batches_in ?bs) :: u64) = batches_in ?bs" if "contiguous_batches ?bs"
      using batches_in_le [OF that] len by (intro unat_word_of_nat_64) simp
    ultimately show ?thesis
      by (auto simp: well_numbered_def word_unat_eq_iff)
  qed
  have len: "length rs < 2 ^ 64" if "from_ordered_frames c (map record_frame rs) 0 = Ok s" for c
    using that by (auto simp: from_ordered_frames_Ok summarizable_def)
  show ?thesis
  proof (cases "length rs < 2 ^ 64")
    case True
    then show ?thesis
      using check by (auto simp: summarize_telemetry_def result_simps)
  next
    case False
    then show ?thesis
      using len by (auto simp: summarize_telemetry_def result_simps)
  qed
qed

section \<open>Verified bundles\<close>

text \<open>The bytes of each of the seven artifacts have the digest that the manifest states for that artifact.\<close>

definition artifacts_match :: "externals \<Rightarrow> RunBundleManifestV1 \<Rightarrow> RunBundleArtifactBytes \<Rightarrow> bool" where
  "artifacts_match ext m a \<longleftrightarrow>
     from_bytes ext (ab_scenario a) = bundle_artifact_digest (ca_scenario (canonical_artifacts m)) \<and>
     from_bytes ext (ab_contract a) = bundle_artifact_digest (ca_contract (canonical_artifacts m)) \<and>
     from_bytes ext (ab_output a) = bundle_artifact_digest (ca_output (canonical_artifacts m)) \<and>
     from_bytes ext (ab_telemetry a) = bundle_artifact_digest (ca_telemetry (canonical_artifacts m)) \<and>
     from_bytes ext (ab_telemetry_summary a) = bundle_artifact_digest (ca_telemetry_summary (canonical_artifacts m)) \<and>
     from_bytes ext (ab_metrics a) = bundle_artifact_digest (ca_metrics (canonical_artifacts m)) \<and>
     from_bytes ext (ab_receipt a) = bundle_artifact_digest (ea_receipt (execution_artifacts m))"

lemma verify_artifacts_Ok: "verify_run_bundle_artifacts ext m a = Ok () \<longleftrightarrow> artifacts_match ext m a"
proof -
  have "verify_run_bundle_artifacts ext m a = Ok () \<longleftrightarrow> list_all (\<lambda>(n, d, bs). from_bytes ext bs = d) (artifact_table m a)"
    by (auto simp: verify_run_bundle_artifacts_def try_each_Ok list_all_iff Let_def split: if_splits)
  then show ?thesis by (simp add: artifact_table_def artifacts_match_def Let_def)
qed

definition scenario_bound :: "ScenarioBinding \<Rightarrow> DeterministicRunContractV1 \<Rightarrow> bool" where
  "scenario_bound sb c \<longleftrightarrow> sb = \<lparr>sb_scenario = contract_scenario c, sb_model = contract_model c,
     sb_data_pack = contract_data_pack c, sb_input_digest = input_digest (contract_input c)\<rparr>"

lemma verified_bundle_Ok:
  "verify_loaded_run_bundle ext b = Ok v \<longleftrightarrow>
     map (\<lambda>a. (artifact_path a, artifact_media_type a)) (manifest_artifacts (lb_manifest b)) = bundle_layout \<and>
     artifacts_match ext (lb_manifest b) (lb_artifacts b) \<and>
     run_id ext (lb_contract b) = Ok (vb_run_id v) \<and>
     manifest_run_id (lb_manifest b) = vb_run_id v \<and>
     receipt_run_id (bundle_receipt (lb_receipt b)) = vb_run_id v \<and>
     scenario_bound (lb_scenario b) (lb_contract b) \<and>
     receipt_output_digest (bundle_receipt (lb_receipt b))
       = bundle_artifact_digest (ca_output (canonical_artifacts (lb_manifest b))) \<and>
     receipt_telemetry_summary_digest (bundle_receipt (lb_receipt b))
       = bundle_artifact_digest (ca_telemetry_summary (canonical_artifacts (lb_manifest b))) \<and>
     well_numbered (lb_telemetry_records b) \<and>
     summarizable (word_of_nat (batches_in (map (\<lambda>r. unat (batch_ordinal r)) (lb_telemetry_records b))))
       (map record_frame (lb_telemetry_records b)) 0 \<and>
     vb_telemetry_summary v = summary_of (word_of_nat (batches_in (map (\<lambda>r. unat (batch_ordinal r)) (lb_telemetry_records b))))
       (map record_frame (lb_telemetry_records b)) 0 \<and>
     lb_declared_telemetry_summary b = vb_telemetry_summary v"
  by (cases v; cases "lb_scenario b")
    (auto simp: verify_loaded_run_bundle_def result_simps manifest_validate_Ok verify_artifacts_Ok
      summarize_telemetry_Ok from_ordered_frames_Ok verify_receipt_def verify_receipt_digests_def scenario_bound_def Let_def
      split: if_splits)

text \<open>C21: a loaded bundle verifies exactly when its manifest has the fixed layout, each of the seven artifacts has the
  digest that the manifest states for it, the manifest and the receipt state the run id of the contract, the
  scenario is the one of the contract, the receipt states the output and summary digests of the
  manifest, and the declared summary states the counts, boundaries and parameters of the well-numbered telemetry
  records, which have exact JSON integers.\<close>

theorem verified_bundle_exact:
  "verify_loaded_run_bundle ext b = Ok v \<longleftrightarrow>
     map (\<lambda>a. (artifact_path a, artifact_media_type a)) (manifest_artifacts (lb_manifest b)) = bundle_layout \<and>
     artifacts_match ext (lb_manifest b) (lb_artifacts b) \<and>
     run_id ext (lb_contract b) = Ok (vb_run_id v) \<and>
     manifest_run_id (lb_manifest b) = vb_run_id v \<and>
     receipt_run_id (bundle_receipt (lb_receipt b)) = vb_run_id v \<and>
     scenario_bound (lb_scenario b) (lb_contract b) \<and>
     receipt_output_digest (bundle_receipt (lb_receipt b))
       = bundle_artifact_digest (ca_output (canonical_artifacts (lb_manifest b))) \<and>
     receipt_telemetry_summary_digest (bundle_receipt (lb_receipt b))
       = bundle_artifact_digest (ca_telemetry_summary (canonical_artifacts (lb_manifest b))) \<and>
     well_numbered (lb_telemetry_records b) \<and>
     summarizable (word_of_nat (batches_in (map (\<lambda>r. unat (batch_ordinal r)) (lb_telemetry_records b))))
       (map record_frame (lb_telemetry_records b)) 0 \<and>
     vb_telemetry_summary v = summary_of (word_of_nat (batches_in (map (\<lambda>r. unat (batch_ordinal r)) (lb_telemetry_records b))))
       (map record_frame (lb_telemetry_records b)) 0 \<and>
     lb_declared_telemetry_summary b = vb_telemetry_summary v"
  by (rule verified_bundle_Ok)

text \<open>The bytes that two bundles have for the same artifact.\<close>

definition artifact_pairs :: "RunBundleArtifactBytes \<Rightarrow> RunBundleArtifactBytes \<Rightarrow> (bytes \<times> bytes) set" where
  "artifact_pairs a a' =
     {(ab_scenario a, ab_scenario a'), (ab_contract a, ab_contract a'), (ab_output a, ab_output a'),
      (ab_telemetry a, ab_telemetry a'), (ab_telemetry_summary a, ab_telemetry_summary a'), (ab_metrics a, ab_metrics a'),
      (ab_receipt a, ab_receipt a')}"

text \<open>The canonical bytes of the contracts of two bundles.\<close>

definition contract_pairs :: "externals \<Rightarrow> DeterministicRunContractV1 \<Rightarrow> DeterministicRunContractV1 \<Rightarrow> (bytes \<times> bytes) set" where
  "contract_pairs ext c c' =
     {(x, y). canonical_json_bytes ext (Inr (serialize_run_contract c)) = Ok x \<and>
        canonical_json_bytes ext (Inr (serialize_run_contract c')) = Ok y}"

lemma artifacts_match_differ:
  assumes "artifacts_match ext m a" "artifacts_match ext m a'" "a \<noteq> a'"
  shows "\<exists>(x, y) \<in> artifact_pairs a a'. x \<noteq> y \<and> ext_sha256 ext x = ext_sha256 ext y"
proof -
  have "\<exists>(x, y) \<in> artifact_pairs a a'. x \<noteq> y"
    using assms(3) by (cases a; cases a') (auto simp: artifact_pairs_def)
  moreover have "ext_sha256 ext x = ext_sha256 ext y" if "(x, y) \<in> artifact_pairs a a'" for x y
    using assms(1,2) that by (auto simp: artifacts_match_def artifact_pairs_def from_bytes_def) (metis Digest.inject)+
  ultimately show ?thesis by blast
qed

text \<open>C22: The manifest of a bundle fixes the bundle: two bundles that verify against one manifest and differ in the bytes of
  an artifact, in the contract or in the scenario exhibit a collision of SHA-256, between the different bytes of one artifact or
  between the canonical bytes of the two contracts.\<close>

theorem manifest_fixes_artifacts:
  assumes "jcs_faithful ext"
    and "verify_loaded_run_bundle ext b = Ok v" "verify_loaded_run_bundle ext b' = Ok v'" "lb_manifest b = lb_manifest b'"
    and "(lb_artifacts b, lb_contract b, lb_scenario b) \<noteq> (lb_artifacts b', lb_contract b', lb_scenario b')"
  shows "\<exists>x y. (x, y) \<in> artifact_pairs (lb_artifacts b) (lb_artifacts b') \<union> contract_pairs ext (lb_contract b) (lb_contract b') \<and>
     x \<noteq> y \<and> ext_sha256 ext x = ext_sha256 ext y"
proof (cases "lb_artifacts b = lb_artifacts b'")
  case True
  have run: "run_id ext (lb_contract b) = Ok (manifest_run_id (lb_manifest b))"
    "run_id ext (lb_contract b') = Ok (manifest_run_id (lb_manifest b))"
    using assms(2-4) by (auto simp: verified_bundle_Ok)
  have "lb_contract b \<noteq> lb_contract b'"
    using True assms(2,3,5) by (auto simp: verified_bundle_Ok scenario_bound_def)
  then show ?thesis
    using run_contract_content.digest_identify [OF assms(1)] run unfolding run_id_def contract_pairs_def by blast
next
  case False
  then show ?thesis
    using artifacts_match_differ [of ext "lb_manifest b" "lb_artifacts b" "lb_artifacts b'"] assms(2-4)
    by (auto simp: verified_bundle_Ok)
qed

text \<open>A bundle without telemetry, accepted with a digest function that is constant.\<close>

definition sample_manifest :: RunBundleManifestV1 where
  "sample_manifest =
     (let art = (\<lambda>p t. \<lparr>artifact_path = p, artifact_media_type = t, bundle_artifact_digest = sample_digest 0\<rparr>) in
      \<lparr>manifest_schema_version = ManifestV1, manifest_run_id = sample_digest 0,
       canonical_artifacts = \<lparr>ca_scenario = art ''scenario.json'' BundleJson, ca_contract = art ''contract.json'' BundleJson,
         ca_output = art ''output.json'' BundleJson, ca_telemetry = art ''telemetry.jsonl'' BundleNdjson,
         ca_telemetry_summary = art ''telemetry-summary.json'' BundleJson, ca_metrics = art ''metrics.json'' BundleJson\<rparr>,
       execution_artifacts = \<lparr>ea_receipt = art ''receipt.json'' BundleJson\<rparr>\<rparr>)"

definition sample_bundle :: "bytes \<Rightarrow> LoadedRunBundle" where
  "sample_bundle out = \<lparr>lb_manifest = sample_manifest, lb_contract = sample_contract 0 3,
     lb_receipt = \<lparr>bundle_receipt_version = BundleReceiptV1,
       bundle_receipt = sample_receipt\<lparr>receipt_output_digest := sample_digest 0,
         receipt_telemetry_summary_digest := sample_digest 0\<rparr>\<rparr>,
     lb_scenario = \<lparr>sb_scenario = contract_scenario (sample_contract 0 3), sb_model = contract_model (sample_contract 0 3),
       sb_data_pack = contract_data_pack (sample_contract 0 3),
       sb_input_digest = input_digest (contract_input (sample_contract 0 3))\<rparr>,
     lb_artifacts = \<lparr>ab_scenario = [], ab_contract = [], ab_output = out, ab_telemetry = [],
       ab_telemetry_summary = [], ab_metrics = [], ab_receipt = []\<rparr>,
     lb_declared_telemetry_summary = summary_of 0 [] 0, lb_telemetry_records = []\<rparr>"

lemma sample_bundle_verifies:
  "verify_loaded_run_bundle weak_ext (sample_bundle out)
     = Ok \<lparr>vb_run_id = sample_digest 0, vb_telemetry_summary = summary_of 0 [] 0\<rparr>"
proof -
  have "summarizable 0 [] 0" by (simp add: summarizable_def safe_unsigned_def total_events_def)
  moreover have "from_bytes weak_ext bs = sample_digest 0" for bs
    by (simp add: from_bytes_def sample_digest_def)
  ultimately show ?thesis
    unfolding verified_bundle_Ok
    by (simp add: sample_bundle_def sample_manifest_def manifest_artifacts_def bundle_layout_def
        artifacts_match_def sample_run_id scenario_bound_def sample_receipt_def well_numbered_def
        contiguous_batches_def batches_in_def Let_def)
qed

theorem manifest_fixes_artifacts_witness:
  "\<exists>x y. (x, y) \<in> artifact_pairs (lb_artifacts (sample_bundle [1])) (lb_artifacts (sample_bundle [2])) \<union>
       contract_pairs weak_ext (sample_contract 0 3) (sample_contract 0 3) \<and>
     x \<noteq> y \<and> ext_sha256 weak_ext x = ext_sha256 weak_ext y"
  using manifest_fixes_artifacts [OF jcs_faithful_weak sample_bundle_verifies [of "[1]"] sample_bundle_verifies [of "[2]"]]
  by (simp add: sample_bundle_def)

end
