(* ===== verification/Catalog.thy ===== *)
theory Catalog
  imports Run_Contract
begin

text \<open>
  \<open>crates/pitgun-contract/src/catalog.rs\<close>: resource catalog manifests, safe catalog paths and media
  types, compatibility with a run, release identities and resolved scenarios. A \<open>BTreeSet\<close> of versions
  is the list of its elements in iteration order.
\<close>

section \<open>Paths and media types\<close>

definition MAX_CATALOG_PATH_LENGTH :: nat where
  "MAX_CATALOG_PATH_LENGTH = 512"

definition MAX_MEDIA_TYPE_LENGTH :: nat where
  "MAX_MEDIA_TYPE_LENGTH = 127"

datatype CatalogPath = CatalogPath (path_text: string)

datatype CatalogResourceMediaType = CatalogResourceMediaType (media_text: string)

text \<open>\<open>str::split\<close> on one character: the fields between separators, at least one.\<close>

fun split_on :: "char \<Rightarrow> string \<Rightarrow> string list" where
  "split_on sep [] = [[]]"
| "split_on sep (c # cs) =
     (if c = sep then [] # split_on sep cs
      else case split_on sep cs of [] \<Rightarrow> [[c]] | f # fs \<Rightarrow> (c # f) # fs)"

record CatalogRelease =
  release_id :: Identifier
  release_version :: SemanticVersion

datatype CatalogReleaseIdentityVersion = ReleaseIdentityV1
datatype ResourceCatalogManifestVersion = ResourceCatalogV1
datatype CatalogCompatibilityVersion = CatalogCompatibilityVersionV1
datatype CatalogIndexMediaType = IndexJson

record CatalogReleaseIdentityV1 =
  identity_schema_version :: CatalogReleaseIdentityVersion
  identity_id :: Identifier
  identity_version :: SemanticVersion
  manifest_digest :: Digest

record CatalogIndexV1 =
  index_path_of :: CatalogPath
  index_media_type :: CatalogIndexMediaType
  index_digest :: Digest

record CatalogResourceV1 =
  resource_id :: Identifier
  resource_path :: CatalogPath
  resource_media_type :: CatalogResourceMediaType
  resource_digest :: Digest

record CatalogPackV1 =
  pack_identity :: ArtifactIdentity
  pack_index :: CatalogIndexV1

record CompatibleModelV1 =
  compatible_id :: Identifier
  compatible_versions :: "SemanticVersion list"

record CatalogCompatibilityV1 =
  compatibility_schema_version :: CatalogCompatibilityVersion
  contract_versions :: "ContractVersion list"
  compatible_models :: "CompatibleModelV1 list"

record ResourceCatalogManifestV1 =
  catalog_schema_version :: ResourceCatalogManifestVersion
  catalog_release :: CatalogRelease
  simulation_pack :: CatalogPackV1
  presentation_pack :: CatalogPackV1
  compatibility :: CatalogCompatibilityV1

datatype CatalogContractError =
    InvalidPath string
  | InvalidMediaType string
  | EmptyContractVersions
  | NonCanonicalContractVersions
  | EmptyModels
  | NonCanonicalModels
  | EmptyModelVersions Identifier
  | PackDigestMismatch string Digest Digest
  | ReleaseIdentityMismatch CatalogReleaseIdentityV1 CatalogReleaseIdentityV1
  | IncompatibleContractVersion ContractVersion
  | CatalogUnknownModel Identifier
  | IncompatibleModelVersion Identifier SemanticVersion
  | SimulationPackMismatch ArtifactIdentity ArtifactIdentity
  | CatalogCanonicalJson CanonicalJsonError

definition segment_ok :: "string \<Rightarrow> bool" where
  "segment_ok segment \<longleftrightarrow> segment \<noteq> [] \<and> segment \<noteq> ''.'' \<and> segment \<noteq> ''..'' \<and>
     list_all (\<lambda>c. is_ascii_lowercase c \<or> is_ascii_digit c \<or> c \<in> {CHR ''.'', CHR ''_'', CHR ''-''}) segment"

definition validate_catalog_path :: "string \<Rightarrow> CatalogContractError + unit" where
  "validate_catalog_path value =
     (if value \<noteq> [] \<and> length value \<le> MAX_CATALOG_PATH_LENGTH \<and> hd value \<noteq> CHR ''/'' \<and>
         last value \<noteq> CHR ''/'' \<and> list_all segment_ok (split_on (CHR ''/'') value)
      then Ok () else Err (InvalidPath value))"

definition catalog_path_new :: "string \<Rightarrow> CatalogContractError + CatalogPath" where
  "catalog_path_new value = and_also (validate_catalog_path value) (Ok (CatalogPath value))"

definition media_token :: "string \<Rightarrow> bool" where
  "media_token token \<longleftrightarrow> token \<noteq> [] \<and>
     list_all (\<lambda>c. is_ascii_lowercase c \<or> is_ascii_digit c \<or>
       c \<in> {CHR ''!'', CHR ''#'', CHR ''$'', CHR ''&'', CHR ''^'', CHR ''_'', CHR ''.'', CHR ''+'', CHR ''-''}) token"

definition validate_resource_media_type :: "string \<Rightarrow> CatalogContractError + unit" where
  "validate_resource_media_type value =
     (let parts = split_on (CHR ''/'') value;
          type_name = (case parts of p # _ \<Rightarrow> p | [] \<Rightarrow> []);
          subtype = (case parts of _ # p # _ \<Rightarrow> p | _ \<Rightarrow> [])
      in if length value \<le> MAX_MEDIA_TYPE_LENGTH \<and> length parts \<le> 2 \<and> media_token type_name \<and>
            media_token subtype
         then Ok () else Err (InvalidMediaType value))"

definition media_type_new :: "string \<Rightarrow> CatalogContractError + CatalogResourceMediaType" where
  "media_type_new value =
     and_also (validate_resource_media_type value) (Ok (CatalogResourceMediaType value))"

section \<open>Manifests\<close>

definition validate_pack :: "string \<Rightarrow> CatalogPackV1 \<Rightarrow> CatalogContractError + unit" where
  "validate_pack name pack =
     (if artifact_content_digest (pack_identity pack) = index_digest (pack_index pack) then Ok ()
      else Err (PackDigestMismatch name (artifact_content_digest (pack_identity pack))
             (index_digest (pack_index pack))))"

definition compatibility_validate :: "CatalogCompatibilityV1 \<Rightarrow> CatalogContractError + unit" where
  "compatibility_validate c =
     (if contract_versions c = [] then Err EmptyContractVersions
      else if \<not> successively (\<lambda>a b. a \<noteq> b) (contract_versions c) then Err NonCanonicalContractVersions
      else if compatible_models c = [] then Err EmptyModels
      else if \<not> successively (\<lambda>a b. \<not> compatible_id b \<le> compatible_id a) (compatible_models c)
      then Err NonCanonicalModels
      else case List.find (\<lambda>m. compatible_versions m = []) (compatible_models c) of
          Some m \<Rightarrow> Err (EmptyModelVersions (compatible_id m))
        | None \<Rightarrow> Ok ())"

definition compatibility_validate_for ::
    "CatalogCompatibilityV1 \<Rightarrow> ArtifactIdentity \<Rightarrow> ContractVersion \<Rightarrow> CatalogContractError + unit" where
  "compatibility_validate_for c mdl version =
     and_also (compatibility_validate c)
     (if version \<notin> set (contract_versions c) then Err (IncompatibleContractVersion version)
      else and_then (ok_or (List.find (\<lambda>m. compatible_id m = artifact_id mdl) (compatible_models c))
             (CatalogUnknownModel (artifact_id mdl))) (\<lambda>compatible.
           if artifact_version mdl \<notin> set (compatible_versions compatible)
           then Err (IncompatibleModelVersion (artifact_id mdl) (artifact_version mdl))
           else Ok ()))"

definition catalog_validate :: "ResourceCatalogManifestV1 \<Rightarrow> CatalogContractError + unit" where
  "catalog_validate m =
     and_also (validate_pack ''simulation_pack'' (simulation_pack m))
    (and_also (validate_pack ''presentation_pack'' (presentation_pack m))
       (compatibility_validate (compatibility m)))"

definition serialize_CatalogIndex :: "CatalogIndexV1 \<Rightarrow> serde_value" where
  "serialize_CatalogIndex i = serde_struct
     [(''path'', SString (path_text (index_path_of i))),
      (''media_type'', SString ''application/json''),
      (''digest'', serialize_Digest (index_digest i))]"

definition serialize_CatalogPack :: "CatalogPackV1 \<Rightarrow> serde_value" where
  "serialize_CatalogPack p = serde_struct
     [(''identity'', serialize_ArtifactIdentity (pack_identity p)),
      (''index'', serialize_CatalogIndex (pack_index p))]"

definition serialize_CompatibleModel :: "CompatibleModelV1 \<Rightarrow> serde_value" where
  "serialize_CompatibleModel m = serde_struct
     [(''id'', serialize_Identifier (compatible_id m)),
      (''versions'', SSeq (map serialize_SemanticVersion (compatible_versions m)))]"

definition serialize_CatalogCompatibility :: "CatalogCompatibilityV1 \<Rightarrow> serde_value" where
  "serialize_CatalogCompatibility c = serde_struct
     [(''schema_version'', SString ''pitgun.catalog-compatibility/v1''),
      (''contract_versions'', SSeq (map (\<lambda>_. SString ''pitgun.deterministic-run/v1'') (contract_versions c))),
      (''models'', SSeq (map serialize_CompatibleModel (compatible_models c)))]"

definition serialize_CatalogRelease :: "CatalogRelease \<Rightarrow> serde_value" where
  "serialize_CatalogRelease r = serde_struct
     [(''id'', serialize_Identifier (release_id r)),
      (''version'', serialize_SemanticVersion (release_version r))]"

definition serialize_manifest :: "ResourceCatalogManifestV1 \<Rightarrow> serde_value" where
  "serialize_manifest m = serde_struct
     [(''schema_version'', SString ''pitgun.resource-catalog/v1''),
      (''catalog'', serialize_CatalogRelease (catalog_release m)),
      (''simulation_pack'', serialize_CatalogPack (simulation_pack m)),
      (''presentation_pack'', serialize_CatalogPack (presentation_pack m)),
      (''compatibility'', serialize_CatalogCompatibility (compatibility m))]"

definition release_identity ::
    "externals \<Rightarrow> ResourceCatalogManifestV1 \<Rightarrow> CatalogContractError + CatalogReleaseIdentityV1" where
  "release_identity ext m =
     and_also (catalog_validate m)
    (and_then (map_err CatalogCanonicalJson (canonical_json_digest ext (Inr (serialize_manifest m)))) (\<lambda>d.
     Ok \<lparr>identity_schema_version = ReleaseIdentityV1, identity_id = release_id (catalog_release m),
          identity_version = release_version (catalog_release m), manifest_digest = d\<rparr>))"

definition verify_release_identity ::
    "externals \<Rightarrow> ResourceCatalogManifestV1 \<Rightarrow> CatalogReleaseIdentityV1 \<Rightarrow> CatalogContractError + unit" where
  "verify_release_identity ext m actual =
     and_then (release_identity ext m) (\<lambda>expected.
     if expected = actual then Ok () else Err (ReleaseIdentityMismatch expected actual))"

definition validate_for_run ::
    "ResourceCatalogManifestV1 \<Rightarrow> DeterministicRunContractV1 \<Rightarrow> CatalogContractError + unit" where
  "validate_for_run m contract =
     and_also (catalog_validate m)
    (and_also (compatibility_validate_for (compatibility m) (contract_model contract) (contract_version contract))
     (if pack_identity (simulation_pack m) \<noteq> contract_data_pack contract
      then Err (SimulationPackMismatch (pack_identity (simulation_pack m)) (contract_data_pack contract))
      else Ok ()))"

record ('input, 'resources) ResolvedScenario =
  resolved_contract :: DeterministicRunContractV1
  resolved_release :: "CatalogReleaseIdentityV1 option"
  resolved_input :: 'input
  resolved_resources :: 'resources

definition catalog_free ::
    "DeterministicRunContractV1 \<Rightarrow> 'i \<Rightarrow> 'r \<Rightarrow> ('i, 'r) ResolvedScenario" where
  "catalog_free contract inp resources =
     \<lparr>resolved_contract = contract, resolved_release = None, resolved_input = inp,
      resolved_resources = resources\<rparr>"

definition catalog_backed ::
    "externals \<Rightarrow> DeterministicRunContractV1 \<Rightarrow> ResourceCatalogManifestV1 \<Rightarrow> CatalogReleaseIdentityV1
       \<Rightarrow> 'i \<Rightarrow> 'r \<Rightarrow> CatalogContractError + ('i, 'r) ResolvedScenario" where
  "catalog_backed ext contract catalog release inp resources =
     and_also (verify_release_identity ext catalog release)
    (and_also (validate_for_run catalog contract)
    (Ok \<lparr>resolved_contract = contract, resolved_release = Some release, resolved_input = inp,
          resolved_resources = resources\<rparr>))"

section \<open>Safe paths\<close>

fun join_with :: "char \<Rightarrow> string list \<Rightarrow> string" where
  "join_with sep [] = []"
| "join_with sep [f] = f"
| "join_with sep (f # g # fs) = f @ sep # join_with sep (g # fs)"

lemma split_on_not_Nil: "split_on sep s \<noteq> []"
  by (induction s) (auto split: list.splits)

lemma join_split: "join_with sep (split_on sep s) = s"
proof (induction s)
  case (Cons c cs)
  obtain f fs where fs: "split_on sep cs = f # fs"
    using split_on_not_Nil by (metis neq_Nil_conv)
  then show ?case using Cons by (cases fs) auto
qed simp

lemma split_on_inject: "split_on sep s = split_on sep t \<Longrightarrow> s = t"
  by (metis join_split)

text \<open>What a file system does with the components of a relative path: the directories entered so
  far, innermost first; leaving the root has no result.\<close>

fun walk :: "string list \<Rightarrow> string list \<Rightarrow> string list option" where
  "walk at [] = Some at"
| "walk at (c # cs) =
     (if c = [] \<or> c = ''.'' then walk at cs
      else if c = ''..'' then (case at of [] \<Rightarrow> None | _ # up \<Rightarrow> walk up cs)
      else walk (c # at) cs)"

lemma walk_safe: "list_all segment_ok cs \<Longrightarrow> walk at cs = Some (rev cs @ at)"
  by (induction cs arbitrary: at) (auto simp: segment_ok_def)

interpretation catalog_path_text:
  text_codec path_text catalog_path_new "\<lambda>p. validate_catalog_path (path_text p) = Ok ()"
  by unfold_locales (auto simp: catalog_path_new_def result_simps)

text \<open>C23: resolving an accepted catalog path below a release root enters exactly its components and
  never leaves the root, and two accepted paths that reach the same file are the same path.\<close>

theorem catalog_path_stays_inside:
  assumes "catalog_path_new s = Ok p" "catalog_path_new t = Ok q"
  shows "walk [] (split_on (CHR ''/'') s) = Some (rev (split_on (CHR ''/'') s)) \<and>
    (walk [] (split_on (CHR ''/'') s) = walk [] (split_on (CHR ''/'') t) \<longrightarrow> p = q)"
proof -
  have ok: "list_all segment_ok (split_on (CHR ''/'') s)" "list_all segment_ok (split_on (CHR ''/'') t)"
    "p = CatalogPath s" "q = CatalogPath t"
    using assms by (auto simp: catalog_path_new_def result_simps validate_catalog_path_def split: if_splits)
  then show ?thesis
    using walk_safe [OF ok(1), of "[]"] walk_safe [OF ok(2), of "[]"] split_on_inject by auto
qed

theorem catalog_path_stays_inside_witness:
  "walk [] (split_on (CHR ''/'') ''packs/a.json'') = Some [''a.json'', ''packs'']"
proof -
  have "catalog_path_new ''packs/a.json'' = Ok (CatalogPath ''packs/a.json'')"
    by code_simp
  from catalog_path_stays_inside [OF this this] show ?thesis by simp
qed

section \<open>Compatibility\<close>

lemma compatibility_validate_Ok:
  "compatibility_validate c = Ok () \<longleftrightarrow>
     contract_versions c \<noteq> [] \<and> successively (\<lambda>a b. a \<noteq> b) (contract_versions c) \<and>
     compatible_models c \<noteq> [] \<and> sorted_wrt (<) (map compatible_id (compatible_models c)) \<and>
     (\<forall>m\<in>set (compatible_models c). compatible_versions m \<noteq> [])"
proof -
  have "successively (\<lambda>a b. compatible_id a < compatible_id b) (compatible_models c) \<longleftrightarrow>
      sorted_wrt (<) (map compatible_id (compatible_models c))"
    by (subst successively_conv_sorted_wrt) (auto simp: sorted_wrt_map intro!: transpI)
  then show ?thesis
    by (auto simp: compatibility_validate_def not_le find_None_iff find_Some_iff split: option.splits if_splits)
qed

lemma find_unique_key:
  assumes "distinct (map f xs)"
  shows "List.find (\<lambda>x. f x = k) xs = Some x \<longleftrightarrow> x \<in> set xs \<and> f x = k"
  using assms by (induction xs) auto

definition supports :: "CatalogCompatibilityV1 \<Rightarrow> Identifier \<Rightarrow> SemanticVersion \<Rightarrow> bool" where
  "supports c i v \<longleftrightarrow> (\<exists>m\<in>set (compatible_models c). compatible_id m = i \<and> v \<in> set (compatible_versions m))"

lemma compatibility_validate_for_Ok:
  "compatibility_validate_for c mdl version = Ok () \<longleftrightarrow>
     compatibility_validate c = Ok () \<and> version \<in> set (contract_versions c) \<and>
     supports c (artifact_id mdl) (artifact_version mdl)"
proof (cases "compatibility_validate c = Ok ()")
  case True
  then have "distinct (map compatible_id (compatible_models c))"
    by (simp add: compatibility_validate_Ok strict_sorted_iff)
  then show ?thesis
    using True by (auto simp: compatibility_validate_for_def result_simps find_unique_key supports_def)
next
  case False
  then show ?thesis by (auto simp: compatibility_validate_for_def result_simps)
qed

text \<open>A catalog accepts a run exactly when the catalog is well formed, lists the contract version and
  the exact version of the run's model, and its simulation pack is the run's data pack.\<close>

theorem validate_for_run_exact:
  "validate_for_run m c = Ok () \<longleftrightarrow>
     catalog_validate m = Ok () \<and> contract_version c \<in> set (contract_versions (compatibility m)) \<and>
     supports (compatibility m) (artifact_id (contract_model c)) (artifact_version (contract_model c)) \<and>
     pack_identity (simulation_pack m) = contract_data_pack c"
  by (auto simp: validate_for_run_def result_simps compatibility_validate_for_Ok catalog_validate_def
      split: if_splits)

section \<open>Release identities\<close>

lemma single_variant_catalog [simp]:
  "(a :: CatalogReleaseIdentityVersion) = b" "(c :: ResourceCatalogManifestVersion) = d"
  "(e :: CatalogCompatibilityVersion) = f" "(g :: CatalogIndexMediaType) = h"
  by (metis CatalogReleaseIdentityVersion.exhaust, metis ResourceCatalogManifestVersion.exhaust,
      metis CatalogCompatibilityVersion.exhaust, metis CatalogIndexMediaType.exhaust)

lemma contract_version_lists: "length xs = length ys \<longleftrightarrow> xs = ys" for xs ys :: "ContractVersion list"
  by (auto intro: nth_equalityI)

lemma jdoc_catalog_inject [simp]:
  "jdoc_of (serialize_CatalogIndex i) = jdoc_of (serialize_CatalogIndex i') \<longleftrightarrow> i = i'"
  "jdoc_of (serialize_CompatibleModel m) = jdoc_of (serialize_CompatibleModel m') \<longleftrightarrow> m = m'"
  "jdoc_of (serialize_CatalogRelease r) = jdoc_of (serialize_CatalogRelease r') \<longleftrightarrow> r = r'"
  using jdoc_seq_inject [of serialize_SemanticVersion "compatible_versions m" "compatible_versions m'"]
  by (auto simp: serialize_CatalogIndex_def serialize_CompatibleModel_def serialize_CatalogRelease_def
      jdoc_of_struct_inject CatalogPath.expand)

lemma jdoc_pack_inject [simp]:
  "jdoc_of (serialize_CatalogPack p) = jdoc_of (serialize_CatalogPack p') \<longleftrightarrow> p = p'"
  by (auto simp: serialize_CatalogPack_def jdoc_of_struct_inject)

lemma jdoc_compatibility_inject [simp]:
  "jdoc_of (serialize_CatalogCompatibility c) = jdoc_of (serialize_CatalogCompatibility c') \<longleftrightarrow> c = c'"
  using jdoc_seq_inject [of serialize_CompatibleModel "compatible_models c" "compatible_models c'"]
    contract_version_lists [of "contract_versions c" "contract_versions c'"]
  by (auto simp: serialize_CatalogCompatibility_def jdoc_of_struct_inject map_replicate_const)

lemma serialize_manifest_inject:
  "jdoc_of (serialize_manifest m) = jdoc_of (serialize_manifest m') \<longleftrightarrow> m = m'"
  by (auto simp: serialize_manifest_def jdoc_of_struct_inject)

lemma plain_catalog_parts [simp]:
  "plain (serialize_CatalogIndex i)" "plain (serialize_CompatibleModel m)"
  "plain (serialize_CatalogRelease r)"
  unfolding serialize_CatalogIndex_def serialize_CompatibleModel_def serialize_CatalogRelease_def
  by (rule plain_struct; simp add: list_all_iff)+

lemma plain_manifest [simp]: "plain (serialize_manifest m)"
proof -
  have "plain (serialize_CatalogPack p)" for p
    unfolding serialize_CatalogPack_def by (rule plain_struct; simp)
  moreover have "plain (serialize_CatalogCompatibility c)" for c
    unfolding serialize_CatalogCompatibility_def by (rule plain_struct; simp add: list_all_iff)
  ultimately show ?thesis
    unfolding serialize_manifest_def by (intro plain_struct) simp_all
qed

interpretation manifest_content: content_addressed serialize_manifest
  by unfold_locales (simp_all add: serialize_manifest_inject)

text \<open>A resolved scenario backed by a catalog names a release identity that identifies its manifest:
  two manifests accepted under one identity are equal or their canonical bytes collide.\<close>

theorem release_identity_binds_manifest:
  assumes "jcs_faithful ext" "catalog_backed ext c m release inp res = Ok s"
    and "catalog_backed ext c' m' release inp' res' = Ok s'" "m \<noteq> m'"
  shows "validate_for_run m c = Ok () \<and> resolved_release s = Some release \<and>
    (\<exists>b b'. canonical_json_bytes ext (Inr (serialize_manifest m)) = Ok b
      \<and> canonical_json_bytes ext (Inr (serialize_manifest m')) = Ok b'
      \<and> b \<noteq> b' \<and> ext_sha256 ext b = ext_sha256 ext b')"
proof -
  have d: "canonical_json_digest ext (Inr (serialize_manifest m)) = Ok (manifest_digest release)"
    "canonical_json_digest ext (Inr (serialize_manifest m')) = Ok (manifest_digest release)"
    using assms(2,3)
    by (auto simp: catalog_backed_def result_simps verify_release_identity_def release_identity_def
        split: if_splits)
  then show ?thesis
    using assms(2) manifest_content.digest_identify [OF assms(1) d assms(4)]
    by (auto simp: catalog_backed_def result_simps)
qed

definition sample_catalog :: "string \<Rightarrow> ResourceCatalogManifestV1" where
  "sample_catalog path =
     (let pack = \<lparr>pack_identity = sample_artifact ''pack'' 2,
            pack_index = \<lparr>index_path_of = CatalogPath path, index_media_type = IndexJson,
              index_digest = sample_digest 2\<rparr>\<rparr> in
      \<lparr>catalog_schema_version = ResourceCatalogV1,
       catalog_release = \<lparr>release_id = Identifier ''racing'', release_version = SemanticVersion ''1.0.0''\<rparr>,
       simulation_pack = pack, presentation_pack = pack,
       compatibility = \<lparr>compatibility_schema_version = CatalogCompatibilityVersionV1,
         contract_versions = [ContractV1],
         compatible_models = [\<lparr>compatible_id = Identifier ''model'',
           compatible_versions = [SemanticVersion ''1.0.0'']\<rparr>]\<rparr>\<rparr>)"

definition sample_release :: CatalogReleaseIdentityV1 where
  "sample_release = \<lparr>identity_schema_version = ReleaseIdentityV1, identity_id = Identifier ''racing'',
     identity_version = SemanticVersion ''1.0.0'', manifest_digest = sample_digest 0\<rparr>"

lemma sample_catalog_valid: "validate_for_run (sample_catalog path) (sample_contract s b) = Ok ()"
  by (simp add: validate_for_run_def catalog_validate_def sample_catalog_def validate_pack_def sample_artifact_def
      compatibility_validate_def compatibility_validate_for_def sample_contract_def Let_def)

lemma sample_catalog_backed:
  "catalog_backed weak_ext (sample_contract 0 3) (sample_catalog path) sample_release () ()
     = Ok \<lparr>resolved_contract = sample_contract 0 3, resolved_release = Some sample_release,
           resolved_input = (), resolved_resources = ()\<rparr>"
proof -
  have "profile weak_ext (serialize_ArtifactIdentity (sample_artifact x y))" for x y
    by (simp add: serialize_ArtifactIdentity_def profile_struct serialize_defs)
  then have "profile weak_ext (serialize_manifest (sample_catalog path))"
    by (simp add: serialize_manifest_def sample_catalog_def serialize_CatalogPack_def serialize_CatalogIndex_def
        serialize_CatalogCompatibility_def serialize_CompatibleModel_def serialize_CatalogRelease_def
        profile_struct serialize_defs Let_def)
  then have "canonical_json_digest weak_ext (Inr (serialize_manifest (sample_catalog path))) = Ok (sample_digest 0)"
    by (simp add: canonical_json_digest_def canonical_json_bytes_def validate_serializable_Ok(1) [THEN iffD2]
        from_bytes_def sample_digest_def)
  moreover have "catalog_validate (sample_catalog path) = Ok ()"
    using sample_catalog_valid [of path 0 3] by (simp add: validate_for_run_def and_also_Ok)
  ultimately have "verify_release_identity weak_ext (sample_catalog path) sample_release = Ok ()"
    by (simp add: verify_release_identity_def release_identity_def sample_release_def)
      (simp add: sample_catalog_def Let_def)
  then show ?thesis
    by (simp add: catalog_backed_def sample_catalog_valid)
qed

theorem release_identity_binds_manifest_witness:
  "validate_for_run (sample_catalog ''a.json'') (sample_contract 0 3) = Ok () \<and>
    (\<exists>b b'. canonical_json_bytes weak_ext (Inr (serialize_manifest (sample_catalog ''a.json''))) = Ok b
      \<and> canonical_json_bytes weak_ext (Inr (serialize_manifest (sample_catalog ''b.json''))) = Ok b'
      \<and> b \<noteq> b' \<and> ext_sha256 weak_ext b = ext_sha256 weak_ext b')"
proof -
  have "sample_catalog ''a.json'' \<noteq> sample_catalog ''b.json''"
    by (simp add: sample_catalog_def Let_def)
  then show ?thesis
    using release_identity_binds_manifest [OF jcs_faithful_weak sample_catalog_backed [of "''a.json''"]
        sample_catalog_backed [of "''b.json''"]] by blast
qed

end
