(* ===== verification/Racing_Workload.thy ===== *)
theory Racing_Workload
  imports Experiment_Profile Runtime_Exec Catalog
begin

text \<open>
  \<open>crates/pitgun-racing-simulator/src/evidence.rs\<close>, the linked workload of \<open>workload.rs\<close> and
  \<open>execute_authorized_race\<close> of \<open>lib.rs\<close>: the execution lineage of a catalog, the canonical evidence of a
  race, the choice of the model and the browser side of an authorized execution.

  The numeric race engine is the parameter \<open>sim\<close>: its run functions, the JSON form of its input, and
  the input fields the contract code reads. The resources that only the engine reads are the type
  \<open>'res\<close>, and its diagnostics the type \<open>'diag\<close>.
\<close>

section \<open>Execution lineage\<close>

datatype RacingExecutionResolutionVersion = ResolutionV1 | ResolutionV2 | ResolutionV3 | ResolutionV4

record RacingExecutionResolutionV1 =
  resolution_schema_version :: RacingExecutionResolutionVersion
  resolution_catalog_release :: CatalogReleaseIdentityV1
  resolution_simulation_pack :: ArtifactIdentity
  resolution_model :: ArtifactIdentity
  resolution_model_parameters :: "ArtifactIdentity option"
  resolution_thermal_family_profile :: "ArtifactIdentity option"
  resolution_power_unit_thermal_profile :: "ArtifactIdentity option"
  resolution_component_capability_profile :: "ArtifactIdentity option"
  resolution_fuel_contract :: "ArtifactIdentity option"

text \<open>The fields of a validated catalog snapshot that the contract code reads.\<close>

record 'res RacingCatalogSnapshot =
  snapshot_manifest :: ResourceCatalogManifestV1
  snapshot_release_identity :: CatalogReleaseIdentityV1
  snapshot_resources :: 'res
  model_parameters_identity :: "ArtifactIdentity option"
  thermal_family_profile :: "'res option"
  thermal_family_profile_identity :: "ArtifactIdentity option"
  power_unit_thermal_profile :: "'res option"
  power_unit_thermal_profile_identity :: "ArtifactIdentity option"
  component_capability_profile_identity :: "ArtifactIdentity option"
  driver_instruction_profile :: "RacingDriverInstructionProfileV1 option"
  driver_instruction_profile_identity :: "ArtifactIdentity option"
  fuel_contract_identity :: "ArtifactIdentity option"
  catalog_driver_control_profile :: "RacingDriverControlProfileV1 option"
  drivers_v2 :: "(string \<times> RacingDriverResourceV2) list"
  fuel_contract :: "RacingFuelContractV1 option"

definition from_catalog ::
    "'res RacingCatalogSnapshot \<Rightarrow> ArtifactIdentity \<Rightarrow> RacingExecutionResolutionV1 option" where
  "from_catalog catalog model =
     (if model_parameters_identity catalog = None \<and> thermal_family_profile_identity catalog = None \<and>
         power_unit_thermal_profile_identity catalog = None \<and>
         component_capability_profile_identity catalog = None \<and> fuel_contract_identity catalog = None
      then None
      else Some
       \<lparr>resolution_schema_version =
          (if fuel_contract_identity catalog \<noteq> None then ResolutionV4
           else if power_unit_thermal_profile_identity catalog \<noteq> None \<or>
                   component_capability_profile_identity catalog \<noteq> None then ResolutionV3
           else if thermal_family_profile_identity catalog \<noteq> None then ResolutionV2
           else ResolutionV1),
        resolution_catalog_release = snapshot_release_identity catalog,
        resolution_simulation_pack = pack_identity (simulation_pack (snapshot_manifest catalog)),
        resolution_model = model,
        resolution_model_parameters = model_parameters_identity catalog,
        resolution_thermal_family_profile = thermal_family_profile_identity catalog,
        resolution_power_unit_thermal_profile = power_unit_thermal_profile_identity catalog,
        resolution_component_capability_profile = component_capability_profile_identity catalog,
        resolution_fuel_contract = fuel_contract_identity catalog\<rparr>)"

section \<open>Race output and evidence\<close>

datatype StandingStatus = StandingFinished | StandingDnf string | StandingDsq string

record StandingEntry =
  entry_competitor_id :: string
  entry_position :: u32
  entry_total_time_ms :: u64
  entry_best_lap_ms :: u64
  entry_laps_completed :: u16
  entry_gap_to_leader_ms :: u64
  entry_status :: StandingStatus

record 'diag RaceOutput =
  race_standings :: "StandingEntry list"
  race_total_time_ms :: u64
  race_player_pit_laps :: "u16 list"
  race_player_lap_times_ms :: "u64 list"
  race_player_batches :: "TelemetryFrame list list"
  race_diagnostics :: 'diag

datatype RacingOutputVersion = RacingOutputVersionV1

datatype RacingStandingStatusV1 = Finished | Dnf string | Dsq string

record RacingStandingV1 =
  standing_competitor_id :: string
  standing_position :: u32
  standing_total_time_ms :: u64
  standing_best_lap_ms :: u64
  standing_laps_completed :: u16
  standing_gap_to_leader_ms :: u64
  standing_status :: RacingStandingStatusV1

record RacingOutputV1 =
  output_schema_version :: RacingOutputVersion
  output_standings :: "RacingStandingV1 list"
  output_total_time_ms :: u64
  output_player_pit_laps :: "u16 list"
  output_player_lap_times_ms :: "u64 list"

record RacingRunEvidenceV1 =
  run_output :: RacingOutputV1
  run_telemetry_summary :: TelemetrySummaryV1

datatype RacingEvidenceError =
    BatchCountOverflow
  | EvidenceTelemetrySummary TelemetrySummaryError
  | EvidenceCanonicalJson CanonicalJsonError

fun status_of :: "StandingStatus \<Rightarrow> RacingStandingStatusV1" where
  "status_of StandingFinished = Finished"
| "status_of (StandingDnf reason) = Dnf reason"
| "status_of (StandingDsq reason) = Dsq reason"

definition standing_of :: "StandingEntry \<Rightarrow> RacingStandingV1" where
  "standing_of s =
     \<lparr>standing_competitor_id = entry_competitor_id s, standing_position = entry_position s,
      standing_total_time_ms = entry_total_time_ms s, standing_best_lap_ms = entry_best_lap_ms s,
      standing_laps_completed = entry_laps_completed s, standing_gap_to_leader_ms = entry_gap_to_leader_ms s,
      standing_status = status_of (entry_status s)\<rparr>"

definition from_race_output :: "'diag RaceOutput \<Rightarrow> RacingEvidenceError + RacingRunEvidenceV1" where
  "from_race_output out =
     (if 2 ^ 64 \<le> length (race_player_batches out) then Err BatchCountOverflow
      else and_then (map_err EvidenceTelemetrySummary
        (from_ordered_frames (of_nat (length (race_player_batches out))) (concat (race_player_batches out)) 0))
       (\<lambda>summary. Ok
         \<lparr>run_output = \<lparr>output_schema_version = RacingOutputVersionV1,
            output_standings = map standing_of (race_standings out),
            output_total_time_ms = race_total_time_ms out,
            output_player_pit_laps = race_player_pit_laps out,
            output_player_lap_times_ms = race_player_lap_times_ms out\<rparr>,
          run_telemetry_summary = summary\<rparr>))"

fun serialize_status :: "RacingStandingStatusV1 \<Rightarrow> serde_value" where
  "serialize_status Finished = serde_struct [(''type'', SString ''finished'')]"
| "serialize_status (Dnf reason) = serde_struct [(''type'', SString ''dnf''), (''reason'', SString reason)]"
| "serialize_status (Dsq reason) = serde_struct [(''type'', SString ''dsq''), (''reason'', SString reason)]"

definition serialize_standing :: "RacingStandingV1 \<Rightarrow> serde_value" where
  "serialize_standing s = serde_struct
     [(''competitor_id'', SString (standing_competitor_id s)),
      (''position'', SU32 (standing_position s)),
      (''total_time_ms'', SU64 (standing_total_time_ms s)),
      (''best_lap_ms'', SU64 (standing_best_lap_ms s)),
      (''laps_completed'', SU16 (standing_laps_completed s)),
      (''gap_to_leader_ms'', SU64 (standing_gap_to_leader_ms s)),
      (''status'', serialize_status (standing_status s))]"

definition serialize_racing_output :: "RacingOutputV1 \<Rightarrow> serde_value" where
  "serialize_racing_output out = serde_struct
     [(''schema_version'', SString ''pitgun.racing-output/v1''),
      (''standings'', SSeq (map serialize_standing (output_standings out))),
      (''total_time_ms'', SU64 (output_total_time_ms out)),
      (''player_pit_laps'', SSeq (map SU16 (output_player_pit_laps out))),
      (''player_lap_times_ms'', SSeq (map SU64 (output_player_lap_times_ms out)))]"

definition evidence_digest_output :: "externals \<Rightarrow> RacingRunEvidenceV1 \<Rightarrow> CanonicalJsonError + Digest" where
  "evidence_digest_output ext ev = canonical_json_digest ext (Inr (serialize_racing_output (run_output ev)))"

definition evidence_digest_telemetry :: "externals \<Rightarrow> RacingRunEvidenceV1 \<Rightarrow> CanonicalJsonError + Digest" where
  "evidence_digest_telemetry ext ev = canonical_json_digest ext (Inr (serialize_summary (run_telemetry_summary ev)))"

definition execution_receipt ::
    "externals \<Rightarrow> RacingRunEvidenceV1 \<Rightarrow> DeterministicRunContractV1 \<Rightarrow> ExecutionId \<Rightarrow> RuntimeIdentity
       \<Rightarrow> CanonicalJsonError + ExecutionReceiptV1" where
  "execution_receipt ext ev contract execution runtime_identity =
     and_then (evidence_digest_output ext ev) (\<lambda>o_digest.
     and_then (evidence_digest_telemetry ext ev) (\<lambda>t_digest.
     receipt_for_contract ext contract execution runtime_identity o_digest t_digest))"

section \<open>The linked workload\<close>

datatype CurvatureAeroResponse = LegacyBinary | ContinuousV1

record 'input RunRaceRequest =
  request_input :: 'input
  request_seed :: u64
  request_era :: "32 word option"
  request_hz :: "64 word option"

text \<open>The race engine. The engine's error texts are strings.\<close>

record ('input, 'res, 'diag) racing_simulator =
  sim_input_json :: "'input \<Rightarrow> string + serde_value"
  sim_era :: "'input \<Rightarrow> 32 word"
  sim_hz :: "'input \<Rightarrow> 64 word"
  sim_run_race :: "'input RunRaceRequest \<Rightarrow> string + 'diag RaceOutput"
  sim_run_thermal_family :: "'input RunRaceRequest \<Rightarrow> 'res RacingCatalogSnapshot \<Rightarrow> 'res \<Rightarrow> string + 'diag RaceOutput"
  sim_run_power_unit :: "'input RunRaceRequest \<Rightarrow> 'res RacingCatalogSnapshot \<Rightarrow> 'res \<Rightarrow> string + 'diag RaceOutput"
  sim_run_timeline :: "'input RunRaceRequest \<Rightarrow> 'res RacingCatalogSnapshot
      \<Rightarrow> RacingDriverInstructionTimelineV1 \<Rightarrow> string + 'diag RaceOutput"
  sim_run_fuel_contract :: "'input RunRaceRequest \<Rightarrow> 'res RacingCatalogSnapshot
      \<Rightarrow> RacingDriverInstructionTimelineV1 \<Rightarrow> string + 'diag RaceOutput"
  sim_tuning_response :: "'res RacingCatalogSnapshot \<Rightarrow> ArtifactIdentity option \<Rightarrow> string + 'res"
  sim_run_model_response :: "'input RunRaceRequest \<Rightarrow> 'res RacingCatalogSnapshot \<Rightarrow> 'res
      \<Rightarrow> CurvatureAeroResponse \<Rightarrow> string + 'diag RaceOutput"

record 'res RacingWorkload =
  workload_model :: ArtifactIdentity
  workload_catalog :: "'res RacingCatalogSnapshot option"
  workload_curvature :: CurvatureAeroResponse

text \<open>The messages of \<open>RacingWorkloadError::Simulation\<close> and of \<open>for_model\<close>; a message that renders
  another error carries that error.\<close>

datatype RacingWorkloadError =
    Simulation string
  | SimulationCatalog CatalogContractError
  | MissingThermalFamilyProfile
  | MissingPowerUnitThermalProfile
  | WorkloadEvidenceError RacingEvidenceError

datatype RacingWorkloadSelectionError =
    ModelCatalogIncompatibility CatalogContractError
  | UnsupportedModelIdentity ArtifactIdentity

definition v1 :: "externals \<Rightarrow> 'res RacingWorkload" where
  "v1 ext = \<lparr>workload_model = racing_model_v1_identity ext, workload_catalog = None,
     workload_curvature = LegacyBinary\<rparr>"

definition with_catalog :: "externals \<Rightarrow> 'res RacingCatalogSnapshot \<Rightarrow> 'res RacingWorkload" where
  "with_catalog ext catalog = \<lparr>workload_model = racing_model_v1_identity ext, workload_catalog = Some catalog,
     workload_curvature = LegacyBinary\<rparr>"

definition v2_with_catalog :: "externals \<Rightarrow> 'res RacingCatalogSnapshot \<Rightarrow> 'res RacingWorkload" where
  "v2_with_catalog ext catalog = \<lparr>workload_model = racing_model_v2_identity ext, workload_catalog = Some catalog,
     workload_curvature = ContinuousV1\<rparr>"

definition v3_thermal_with_catalog :: "externals \<Rightarrow> 'res RacingCatalogSnapshot \<Rightarrow> 'res RacingWorkload" where
  "v3_thermal_with_catalog ext catalog =
     \<lparr>workload_model = racing_model_v3_thermal_candidate_identity ext, workload_catalog = Some catalog,
      workload_curvature = ContinuousV1\<rparr>"

definition v3_component_with_catalog :: "externals \<Rightarrow> 'res RacingCatalogSnapshot \<Rightarrow> 'res RacingWorkload" where
  "v3_component_with_catalog ext catalog =
     \<lparr>workload_model = racing_model_v3_component_candidate_identity ext, workload_catalog = Some catalog,
      workload_curvature = ContinuousV1\<rparr>"

definition v3_timeline_with_catalog :: "externals \<Rightarrow> 'res RacingCatalogSnapshot \<Rightarrow> 'res RacingWorkload" where
  "v3_timeline_with_catalog ext catalog =
     \<lparr>workload_model = racing_model_v3_timeline_candidate_identity ext, workload_catalog = Some catalog,
      workload_curvature = ContinuousV1\<rparr>"

definition v3_fuel_contract_with_catalog :: "externals \<Rightarrow> 'res RacingCatalogSnapshot \<Rightarrow> 'res RacingWorkload" where
  "v3_fuel_contract_with_catalog ext catalog =
     \<lparr>workload_model = racing_model_v3_fuel_contract_candidate_identity ext, workload_catalog = Some catalog,
      workload_curvature = ContinuousV1\<rparr>"

definition for_model ::
    "externals \<Rightarrow> ArtifactIdentity \<Rightarrow> 'res RacingCatalogSnapshot
       \<Rightarrow> RacingWorkloadSelectionError + 'res RacingWorkload" where
  "for_model ext model catalog =
     and_also (map_err ModelCatalogIncompatibility
       (compatibility_validate_for (compatibility (snapshot_manifest catalog)) model ContractV1))
     (if model = racing_model_v1_identity ext then Ok (with_catalog ext catalog)
      else if model = racing_model_v2_identity ext then Ok (v2_with_catalog ext catalog)
      else if model = racing_model_v3_thermal_candidate_identity ext then Ok (v3_thermal_with_catalog ext catalog)
      else if model = racing_model_v3_component_candidate_identity ext then Ok (v3_component_with_catalog ext catalog)
      else if model = racing_model_v3_timeline_candidate_identity ext then Ok (v3_timeline_with_catalog ext catalog)
      else if model = racing_model_v3_fuel_contract_candidate_identity ext
      then Ok (v3_fuel_contract_with_catalog ext catalog)
      else Err (UnsupportedModelIdentity model))"

definition empty_timeline :: RacingDriverInstructionTimelineV1 where
  "empty_timeline = \<lparr>timeline_schema_version = InstructionTimelineV1, timeline_events = []\<rparr>"

definition run_request ::
    "('i, 'res, 'diag) racing_simulator \<Rightarrow> DeterministicRunContractV1 \<Rightarrow> 'i \<Rightarrow> 'i RunRaceRequest" where
  "run_request sim contract inp =
     \<lparr>request_input = inp, request_seed = seed_get (random_seed (contract_random contract)),
      request_era = Some (sim_era sim inp), request_hz = Some (sim_hz sim inp)\<rparr>"

definition racing_execute ::
    "externals \<Rightarrow> ('i, 'res, 'diag) racing_simulator \<Rightarrow> 'res RacingWorkload \<Rightarrow> DeterministicRunContractV1 \<Rightarrow> 'i
       \<Rightarrow> RacingWorkloadError + ('diag RaceOutput \<times> RacingRunEvidenceV1)" where
  "racing_execute ext sim w contract inp =
     (let request = run_request sim contract inp in
      and_then
       (case workload_catalog w of
          None \<Rightarrow> map_err Simulation (sim_run_race sim request)
        | Some catalog \<Rightarrow>
            and_also (map_err SimulationCatalog
              (compatibility_validate_for (compatibility (snapshot_manifest catalog)) (workload_model w) ContractV1))
            (if workload_model w = racing_model_v3_thermal_candidate_identity ext
             then and_then (ok_or (thermal_family_profile catalog) MissingThermalFamilyProfile) (\<lambda>thermal.
                    map_err Simulation (sim_run_thermal_family sim request catalog thermal))
             else if workload_model w = racing_model_v3_component_candidate_identity ext
             then and_then (ok_or (power_unit_thermal_profile catalog) MissingPowerUnitThermalProfile) (\<lambda>thermal.
                    map_err Simulation (sim_run_power_unit sim request catalog thermal))
             else if workload_model w = racing_model_v3_timeline_candidate_identity ext
             then map_err Simulation (sim_run_timeline sim request catalog empty_timeline)
             else if workload_model w = racing_model_v3_fuel_contract_candidate_identity ext
             then map_err Simulation (sim_run_fuel_contract sim request catalog empty_timeline)
             else and_then (map_err Simulation (sim_tuning_response sim catalog (Some (workload_model w)))) (\<lambda>tuning.
                    map_err Simulation
                      (sim_run_model_response sim request catalog tuning (workload_curvature w)))))
       (\<lambda>out. and_then (map_err WorkloadEvidenceError (from_race_output out)) (\<lambda>ev. Ok (out, ev))))"

definition racing_workload ::
    "externals \<Rightarrow> ('i, 'res, 'diag) racing_simulator \<Rightarrow> 'res RacingWorkload
       \<Rightarrow> ('i, 'diag RaceOutput, RacingRunEvidenceV1, RacingWorkloadError) LinkedWorkload" where
  "racing_workload ext sim w =
     \<lparr>serialize_input = sim_input_json sim, model_identity = workload_model w,
      workload_execute = racing_execute ext sim w,
      evidence_output = evidence_digest_output ext, evidence_telemetry_summary = evidence_digest_telemetry ext\<rparr>"

section \<open>Authorized execution\<close>

datatype RacingHostedExecutionRequestVersion = HostedExecutionRequestV1

record 'input RacingHostedExecutionRequestV1 =
  hosted_schema_version :: RacingHostedExecutionRequestVersion
  hosted_authorization :: SignedRunAuthorizationV1
  hosted_input :: 'input
  hosted_execution_id :: ExecutionId
  hosted_wasm_digest :: Digest

record 'input RacingVerificationSubmissionV1 =
  submission_authorization :: SignedRunAuthorizationV1
  submission_input :: 'input
  submission_receipt :: RunBundleReceiptV1
  submission_output :: RacingOutputV1
  submission_telemetry_summary :: TelemetrySummaryV1
  submission_resolution :: "RacingExecutionResolutionV1 option"

datatype RacingAuthorizedApplicationResultVersion = AuthorizedApplicationResultV1

record ('input, 'diag) RacingAuthorizedApplicationResultV1 =
  application_schema_version :: RacingAuthorizedApplicationResultVersion
  application_evidence :: "'input RacingVerificationSubmissionV1"
  application_output :: "'diag RaceOutput"

datatype AuthorizedRaceError =
    InvalidSignedAuthorization RunAuthorizationError
  | AuthorizedCatalogUnavailable CatalogContractError
  | WorkloadSelection RacingWorkloadSelectionError
  | AuthorizedExecutionFailed "RacingWorkloadError LinkedWorkloadError"
  | ReceiptCreation CanonicalJsonError

text \<open>\<open>env!("CARGO_PKG_VERSION")\<close> is the version of the crate.\<close>

definition wasm_runtime :: "Digest \<Rightarrow> RuntimeIdentity" where
  "wasm_runtime wasm_digest =
     \<lparr>runtime_engine = Identifier ''pitgun-wasm'', runtime_engine_version = SemanticVersion ''0.1.0'',
      runtime_target = Identifier ''wasm32-unknown-unknown'', runtime_artifact_digest = wasm_digest\<rparr>"

definition execute_authorized_race_application ::
    "externals \<Rightarrow> ('i, 'res, 'diag) racing_simulator \<Rightarrow> 'i RacingHostedExecutionRequestV1
       \<Rightarrow> 'res RacingCatalogSnapshot \<Rightarrow> AuthorizedRaceError + ('i, 'diag) RacingAuthorizedApplicationResultV1" where
  "execute_authorized_race_application ext sim request catalog =
     (let auth = authorization (hosted_authorization request); contract = auth_contract auth in
      and_also (map_err InvalidSignedAuthorization (auth_validate_integrity ext auth))
     (and_also (map_err AuthorizedCatalogUnavailable (validate_for_run (snapshot_manifest catalog) contract))
     (and_then (map_err WorkloadSelection (for_model ext (contract_model contract) catalog)) (\<lambda>workload.
      and_then (map_err AuthorizedExecutionFailed
        (execute_linked ext (racing_workload ext sim workload) contract (hosted_input request))) (\<lambda>execution.
      and_then (map_err ReceiptCreation
        (execution_receipt ext (executed_evidence execution) contract (hosted_execution_id request)
          (wasm_runtime (hosted_wasm_digest request)))) (\<lambda>receipt.
      Ok \<lparr>application_schema_version = AuthorizedApplicationResultV1,
           application_evidence =
             \<lparr>submission_authorization = hosted_authorization request, submission_input = hosted_input request,
              submission_receipt = \<lparr>bundle_receipt_version = BundleReceiptV1, bundle_receipt = receipt\<rparr>,
              submission_output = run_output (executed_evidence execution),
              submission_telemetry_summary = run_telemetry_summary (executed_evidence execution),
              submission_resolution = from_catalog catalog (contract_model contract)\<rparr>,
           application_output = executed_output execution\<rparr>))))))"

definition execute_authorized_race ::
    "externals \<Rightarrow> ('i, 'res, 'diag) racing_simulator \<Rightarrow> 'i RacingHostedExecutionRequestV1
       \<Rightarrow> 'res RacingCatalogSnapshot \<Rightarrow> AuthorizedRaceError + 'i RacingVerificationSubmissionV1" where
  "execute_authorized_race ext sim request catalog =
     map_ok application_evidence (execute_authorized_race_application ext sim request catalog)"

section \<open>Racing outputs are content addressed\<close>

lemma single_variant_racing_output [simp]: "(a :: RacingOutputVersion) = b"
  by (metis RacingOutputVersion.exhaust)

lemma jdoc_status [simp]: "jdoc_of (serialize_status a) = jdoc_of (serialize_status b) \<longleftrightarrow> a = b"
  by (cases a; cases b) (simp_all add: jdoc_of_struct btree_of_def)

lemma jdoc_standing [simp]: "jdoc_of (serialize_standing a) = jdoc_of (serialize_standing b) \<longleftrightarrow> a = b"
  by (auto simp: serialize_standing_def jdoc_of_struct_inject)

lemma serialize_racing_output_inject:
  "jdoc_of (serialize_racing_output a) = jdoc_of (serialize_racing_output b) \<longleftrightarrow> a = b"
  using jdoc_seq_inject [of serialize_standing "output_standings a" "output_standings b"]
    jdoc_seq_inject [of SU16 "output_player_pit_laps a" "output_player_pit_laps b"]
    jdoc_seq_inject [of SU64 "output_player_lap_times_ms a" "output_player_lap_times_ms b"]
  by (auto simp: serialize_racing_output_def jdoc_of_struct_inject)

lemma plain_racing_output [simp]: "plain (serialize_racing_output out)"
proof -
  have "plain (serialize_status st)" for st
    by (cases st) (simp_all add: plain_struct)
  then have "plain (serialize_standing s)" for s
    unfolding serialize_standing_def by (intro plain_struct) simp_all
  then show ?thesis
    unfolding serialize_racing_output_def by (intro plain_struct) (simp_all add: list_all_iff)
qed

interpretation racing_output_content: content_addressed serialize_racing_output
  by unfold_locales (simp_all add: serialize_racing_output_inject)

text \<open>The workload that \<open>for_model\<close> returns runs the requested model on the given catalog.\<close>

lemma for_model_model:
  "for_model ext model catalog = Ok w \<Longrightarrow> workload_model w = model \<and> workload_catalog w = Some catalog"
  by (auto simp: for_model_def result_simps with_catalog_def v2_with_catalog_def v3_thermal_with_catalog_def
      v3_component_with_catalog_def v3_timeline_with_catalog_def v3_fuel_contract_with_catalog_def split: if_splits)

end
