(* ===== verification/Incremental_Session.thy ===== *)
theory Incremental_Session
  imports Solver_Session Execution_Stream Racing_Workload
begin

text \<open>
  The incremental racing session of \<open>crates/pitgun-racing-simulator/src/lib.rs\<close>: one solver session per
  competitor, advanced together lap by lap, with a stream record for everything that happens and a race
  output at the end.

  The telemetry of a lap and of a race, the diagnostics of the output and the completion of a result with a
  top speed are numeric code of the solver and of the catalog; they are components of the parameter record
  \<open>race_engine\<close>, beside the lap physics.
\<close>

section \<open>Progress\<close>

datatype RacingCompetitorProgressStatusV1 = ProgressRunning | ProgressFinished

record RacingCompetitorProgressV1 =
  progress_competitor_id :: string
  progress_distance_m :: "64 word"
  progress_lap :: u16
  progress_position :: u32
  progress_cumulative_time_ms :: u64
  progress_trajectory :: "(64 word \<times> 64 word) list"
  progress_status :: RacingCompetitorProgressStatusV1

datatype RacingSessionEventV1 =
    LapCompleted string u16
  | PitStopCompleted string u16
  | DriverInstructionApplied string u16

datatype RacingSessionProgressV1 =
    Grid u16 "RacingCompetitorProgressV1 list"
  | PlayerTelemetry u16 u32 "TelemetryFrame list"
  | SessionEvent RacingSessionEventV1

type_synonym 'diag RacingSessionStreamRecordV1 = "(RacingSessionProgressV1, 'diag RaceOutput) StreamRecord"
type_synonym 'diag RacingSessionStreamBatchV1 = "(RacingSessionProgressV1, 'diag RaceOutput) StreamBatch"

section \<open>State\<close>

text \<open>What the session reads of a solver result; \<open>result_rest\<close> is the solution, the applied vehicle and the
  diagnostics.\<close>

record 'rx SimulationResult =
  result_lap_times_s :: "64 word list"
  result_final_fuel_mass_kg :: "64 word option"
  result_rest :: 'rx

text \<open>\<open>racer_schedule\<close> are the transitions of the resolved instruction schedule, the baseline first;
  \<open>racer_static\<close> is the resolved vehicle and driver.\<close>

record ('phys, 'tire, 'ch, 'acc, 'rx, 'st) IncrementalV3Competitor =
  racer_id :: string
  racer_is_player :: bool
  racer_static :: 'st
  racer_has_transmission :: bool
  racer_plan :: ResolvedStintPlan
  racer_schedule :: "ResolvedDriverControlLapV3 list option"
  racer_solver :: "('phys, 'tire, 'ch, 'acc) SolverSession"
  racer_latest_lap :: "'ch ResolvedSimulationLapV3 option"
  racer_result :: "'rx SimulationResult option"

record ('phys, 'tire, 'ch, 'acc, 'rx, 'st) IncrementalRacingSession =
  race_session_track_id :: string
  race_session_vehicle_id :: string
  race_session_laps :: u16
  race_session_seed :: u64
  race_session_pit_loss_ms :: u64
  race_session_player_pit_laps :: "u16 list"
  racers :: "('phys, 'tire, 'ch, 'acc, 'rx, 'st) IncrementalV3Competitor list"
  race_next_sequence :: u64
  race_next_frame_sequence :: u64
  race_include_trajectories :: bool
  race_completed :: bool
  race_minimum_finish_reserve_kg :: "64 word option"

text \<open>What the telemetry of the player is labelled with: seed, track and vehicle.\<close>

record RaceHeader =
  header_seed :: u64
  header_track_id :: string
  header_vehicle_id :: string

definition race_header :: "('phys, 'tire, 'ch, 'acc, 'rx, 'st) IncrementalRacingSession \<Rightarrow> RaceHeader" where
  "race_header s = \<lparr>header_seed = race_session_seed s, header_track_id = race_session_track_id s,
     header_vehicle_id = race_session_vehicle_id s\<rparr>"

record ('phys, 'tire, 'ch, 'acc, 'rx, 'st, 'diag) race_engine =
  engine_solver :: "('phys, 'tire, 'ch, 'acc, 'rx SimulationResult) lap_solver"
  with_top_speed :: "'rx SimulationResult \<Rightarrow> string + 'rx SimulationResult"
  lap_frames :: "RaceHeader \<Rightarrow> ('phys, 'tire, 'ch, 'acc, 'rx, 'st) IncrementalV3Competitor \<Rightarrow> 'ch ResolvedSimulationLapV3 \<Rightarrow>
    64 word \<times> 64 word \<Rightarrow> string + TelemetryFrame list"
  race_frames :: "RaceHeader \<Rightarrow> ('phys, 'tire, 'ch, 'acc, 'rx, 'st) IncrementalV3Competitor \<Rightarrow> 'rx SimulationResult \<Rightarrow>
    string + TelemetryFrame list"
  output_diagnostics :: "('phys, 'tire, 'ch, 'acc, 'rx, 'st) IncrementalV3Competitor list \<Rightarrow> 'diag"

datatype IncrementalError =
    IncrementalSequenceExhausted
  | InvalidRecord StreamError
  | InvalidBatch StreamError
  | IncrementalAlreadyCompleted
  | SimulationFailed string SolverError
  | TopSpeedFailed string
  | DifferentBoundaries
  | NoCompetitors
  | DifferentLaps
  | PlayerHasNoLap
  | TelemetryFailed string
  | NoTerminalResult string
  | NoFuelDiagnostics
  | FinishReserveViolated "64 word" "64 word"

text \<open>Methods that take \<open>&mut self\<close> and return a result: the state after the call, on an error too.\<close>

definition st_then :: "'s \<times> ('e + 'a) \<Rightarrow> ('s \<Rightarrow> 'a \<Rightarrow> 's \<times> ('e + 'b)) \<Rightarrow> 's \<times> ('e + 'b)" where
  "st_then m f = (case m of (s, Inl e) \<Rightarrow> (s, Inl e) | (s, Inr x) \<Rightarrow> f s x)"

section \<open>Records\<close>

text \<open>\<open>progress_record\<close> and \<open>completion_record\<close>.\<close>

definition next_record ::
  "('phys, 'tire, 'ch, 'acc, 'rx, 'st) IncrementalRacingSession \<Rightarrow> u64 \<Rightarrow>
     (RacingSessionProgressV1, 'diag RaceOutput) StreamEvent \<Rightarrow>
     ('phys, 'tire, 'ch, 'acc, 'rx, 'st) IncrementalRacingSession \<times> (IncrementalError + 'diag RacingSessionStreamRecordV1)" where
  "next_record s tick event =
     (case checked_add (race_next_sequence s) 1 of
        None \<Rightarrow> (s, Inl IncrementalSequenceExhausted)
      | Some next \<Rightarrow> (s\<lparr>race_next_sequence := next\<rparr>,
          map_err InvalidRecord (record_new (race_next_sequence s) tick event)))"

fun progress_records ::
  "('phys, 'tire, 'ch, 'acc, 'rx, 'st) IncrementalRacingSession \<Rightarrow> u64 \<Rightarrow> RacingSessionProgressV1 list \<Rightarrow>
     ('phys, 'tire, 'ch, 'acc, 'rx, 'st) IncrementalRacingSession \<times> (IncrementalError + 'diag RacingSessionStreamRecordV1 list)" where
  "progress_records s tick [] = (s, Inr [])"
| "progress_records s tick (p # ps) =
     st_then (next_record s tick (Progress p)) (\<lambda>s r.
     st_then (progress_records s tick ps) (\<lambda>s rs. (s, Inr (r # rs))))"

section \<open>The grid of a lap\<close>

text \<open>The field by cumulative time and then by identity; positions count from 1. A hash map collected from
  pairs keeps the last value of a key.\<close>

definition rank_field :: "(string \<times> 'ch ResolvedSimulationLapV3) list \<Rightarrow> (string \<times> u64) list" where
  "rank_field laps = sort_key (\<lambda>(competitor_id, ms). (ms, competitor_id))
     (map (\<lambda>(competitor_id, lap). (competitor_id, f64_millis (cumulative_time_s lap))) laps)"

definition position_map :: "(string \<times> u64) list \<Rightarrow> (string \<rightharpoonup> u32)" where
  "position_map ranked = map_of (rev (map (\<lambda>(index, competitor_id, _). (competitor_id, of_nat (index + 1))) (enumerate 0 ranked)))"

definition racer_offset :: "('phys, 'tire, 'ch, 'acc, 'rx, 'st) IncrementalV3Competitor \<Rightarrow> 64 word \<times> 64 word" where
  "racer_offset c = (case racer_latest_lap c of
     None \<Rightarrow> (F64_ZERO, F64_ZERO)
   | Some lap \<Rightarrow> (cumulative_time_s lap, cumulative_distance_m lap))"

definition offset_map :: "('phys, 'tire, 'ch, 'acc, 'rx, 'st) IncrementalV3Competitor list \<Rightarrow> (string \<rightharpoonup> 64 word \<times> 64 word)" where
  "offset_map cs = map_of (rev (map (\<lambda>c. (racer_id c, racer_offset c)) cs))"

definition trajectory_of :: "'ch ResolvedSimulationLapV3 \<Rightarrow> 64 word \<times> 64 word \<Rightarrow> (64 word \<times> 64 word) list" where
  "trajectory_of lap offset =
     map (\<lambda>(t, d). (f64_add t (fst offset), f64_add d (snd offset)))
       (zip (solution_t (lap_solution lap)) (solution_s (lap_solution lap)))
     @ [(cumulative_time_s lap, cumulative_distance_m lap)]"

definition grid_of ::
  "('phys, 'tire, 'ch, 'acc, 'rx, 'st) IncrementalRacingSession \<Rightarrow> (string \<rightharpoonup> 64 word \<times> 64 word) \<Rightarrow>
     (string \<times> 'ch ResolvedSimulationLapV3) list \<Rightarrow> u16 \<Rightarrow> RacingCompetitorProgressV1 list" where
  "grid_of s offsets laps lap =
     map (\<lambda>(competitor_id, step).
       \<lparr>progress_competitor_id = competitor_id, progress_distance_m = cumulative_distance_m step, progress_lap = lap,
        progress_position = the (position_map (rank_field laps) competitor_id),
        progress_cumulative_time_ms = f64_millis (cumulative_time_s step),
        progress_trajectory = (if race_include_trajectories s then trajectory_of step (the (offsets competitor_id)) else []),
        progress_status = (if lap = race_session_laps s then ProgressFinished else ProgressRunning)\<rparr>) laps"

section \<open>Advancing the field\<close>

text \<open>The loop over the competitors: each solver is advanced once; an error stops the loop and leaves the
  later competitors untouched.\<close>

fun step_racers ::
  "('phys, 'tire, 'ch, 'acc, 'rx, 'st, 'diag) race_engine \<Rightarrow>
     ('phys, 'tire, 'ch, 'acc, 'rx, 'st) IncrementalV3Competitor list \<Rightarrow>
     (('phys, 'tire, 'ch, 'acc, 'rx, 'st) IncrementalV3Competitor list \<times>
        (IncrementalError + (string \<times> 'ch ResolvedSimulationLapV3) list \<times> nat)) option" where
  "step_racers E [] = Some ([], Inr ([], 0))"
| "step_racers E (c # cs) =
     (case session_advance (engine_solver E) (racer_solver c) of
        None \<Rightarrow> None
      | Some (solver, Inl e) \<Rightarrow> Some (c\<lparr>racer_solver := solver\<rparr> # cs, Inl (SimulationFailed (racer_id c) e))
      | Some (solver, Inr (LapStep lap)) \<Rightarrow>
          (case step_racers E cs of
             None \<Rightarrow> None
           | Some (cs', r) \<Rightarrow> Some (c\<lparr>racer_solver := solver, racer_latest_lap := Some lap\<rparr> # cs',
               map_ok (\<lambda>(laps, n). ((racer_id c, lap) # laps, n)) r))
      | Some (solver, Inr (CompleteStep result)) \<Rightarrow>
          (case (if racer_has_transmission c then with_top_speed E result else Inr result) of
             Inl e \<Rightarrow> Some (c\<lparr>racer_solver := solver\<rparr> # cs, Inl (TopSpeedFailed e))
           | Inr result' \<Rightarrow>
               (case step_racers E cs of
                  None \<Rightarrow> None
                | Some (cs', r) \<Rightarrow> Some (c\<lparr>racer_solver := solver, racer_result := Some result'\<rparr> # cs',
                    map_ok (\<lambda>(laps, n). (laps, Suc n)) r))))"

text \<open>The player of the field: the first competitor that is a player.\<close>

definition player_of ::
  "('phys, 'tire, 'ch, 'acc, 'rx, 'st) IncrementalV3Competitor list \<Rightarrow>
     ('phys, 'tire, 'ch, 'acc, 'rx, 'st) IncrementalV3Competitor option" where
  "player_of cs = find racer_is_player cs"

definition number_frames :: "u64 \<Rightarrow> TelemetryFrame list \<Rightarrow> TelemetryFrame list" where
  "number_frames start frames = map (\<lambda>(index, frame). frame\<lparr>frame_sequence := start + of_nat index\<rparr>) (enumerate 0 frames)"

definition telemetry_progress :: "u16 \<Rightarrow> TelemetryFrame list \<Rightarrow> RacingSessionProgressV1 list" where
  "telemetry_progress lap frames =
     map (\<lambda>(batch_index, batch). PlayerTelemetry lap (of_nat batch_index) batch)
       (enumerate 0 (chunks TELEMETRY_BATCH_SIZE frames))"

definition lap_telemetry ::
  "('phys, 'tire, 'ch, 'acc, 'rx, 'st, 'diag) race_engine \<Rightarrow> 64 word \<times> 64 word \<Rightarrow>
     ('phys, 'tire, 'ch, 'acc, 'rx, 'st) IncrementalRacingSession \<Rightarrow> u16 \<Rightarrow>
     ('phys, 'tire, 'ch, 'acc, 'rx, 'st) IncrementalRacingSession \<times> (IncrementalError + 'diag RacingSessionStreamRecordV1 list)" where
  "lap_telemetry E offset s lap =
     (case player_of (racers s) of
        None \<Rightarrow> (s, Inr [])
      | Some player \<Rightarrow>
          (case racer_latest_lap player of
             None \<Rightarrow> (s, Inl PlayerHasNoLap)
           | Some player_lap \<Rightarrow>
               (case lap_frames E (race_header s) player player_lap offset of
                  Inl e \<Rightarrow> (s, Inl (TelemetryFailed e))
                | Inr frames \<Rightarrow>
                    progress_records (s\<lparr>race_next_frame_sequence := race_next_frame_sequence s + of_nat (length frames)\<rparr>)
                      (ucast lap) (telemetry_progress lap (number_frames (race_next_frame_sequence s) frames)))))"

definition racer_events :: "u16 \<Rightarrow> ('phys, 'tire, 'ch, 'acc, 'rx, 'st) IncrementalV3Competitor \<Rightarrow> RacingSessionEventV1 list" where
  "racer_events lap c =
     LapCompleted (racer_id c) lap #
     (case racer_latest_lap c of
        Some progress \<Rightarrow> (if pit_stop_completed progress then [PitStopCompleted (racer_id c) lap] else [])
      | None \<Rightarrow> []) @
     (case racer_schedule c of
        Some transitions \<Rightarrow>
          (if list_ex (\<lambda>transition. control_lap_index transition + 1 = lap) (drop 1 transitions)
           then [DriverInstructionApplied (racer_id c) lap] else [])
      | None \<Rightarrow> [])"

definition emit_lap ::
  "('phys, 'tire, 'ch, 'acc, 'rx, 'st, 'diag) race_engine \<Rightarrow>
     ('phys, 'tire, 'ch, 'acc, 'rx, 'st) IncrementalV3Competitor list \<Rightarrow>
     ('phys, 'tire, 'ch, 'acc, 'rx, 'st) IncrementalRacingSession \<Rightarrow> (string \<times> 'ch ResolvedSimulationLapV3) list \<Rightarrow> u16 \<Rightarrow>
     ('phys, 'tire, 'ch, 'acc, 'rx, 'st) IncrementalRacingSession \<times> (IncrementalError + 'diag RacingSessionStreamBatchV1)" where
  "emit_lap E before s laps lap =
     (let player_offset = (case player_of before of None \<Rightarrow> (F64_ZERO, F64_ZERO) | Some c \<Rightarrow> racer_offset c)
      in st_then (progress_records s (ucast lap) [Grid lap (grid_of s (offset_map before) laps lap)]) (\<lambda>s grid.
         st_then (lap_telemetry E player_offset s lap) (\<lambda>s telemetry.
         st_then (progress_records s (ucast lap) (map SessionEvent (concat (map (racer_events lap) (racers s))))) (\<lambda>s events.
           (s, map_err InvalidBatch (batch_new (grid @ telemetry @ events)))))))"

section \<open>The race output\<close>

record SimulatedCompetitor =
  row_competitor_id :: string
  row_total_time_ms :: u64
  row_best_lap_ms :: u64
  row_laps_completed :: u16

text \<open>What the loop of \<open>finalize_output\<close> gathers about the player.\<close>

record PlayerOutput =
  player_frames :: "TelemetryFrame list"
  player_lap_times_ms :: "u64 list"
  player_resolved_pit_laps :: "u16 list"
  player_final_fuel_mass_kg :: "64 word option"

definition no_player_output :: PlayerOutput where
  "no_player_output = \<lparr>player_frames = [], player_lap_times_ms = [], player_resolved_pit_laps = [],
     player_final_fuel_mass_kg = None\<rparr>"

definition row_of ::
  "('phys, 'tire, 'ch, 'acc, 'rx, 'st) IncrementalRacingSession \<Rightarrow>
     ('phys, 'tire, 'ch, 'acc, 'rx, 'st) IncrementalV3Competitor \<Rightarrow> 'rx SimulationResult \<Rightarrow> SimulatedCompetitor" where
  "row_of s c result =
     (let ms = lap_times_ms (result_lap_times_s result) (racer_plan c) (race_session_pit_loss_ms s)
      in \<lparr>row_competitor_id = racer_id c, row_total_time_ms = sum_list ms,
          row_best_lap_ms = (if ms = [] then 0 else Min (set ms)), row_laps_completed = race_session_laps s\<rparr>)"

definition player_output_of ::
  "('phys, 'tire, 'ch, 'acc, 'rx, 'st, 'diag) race_engine \<Rightarrow> ('phys, 'tire, 'ch, 'acc, 'rx, 'st) IncrementalRacingSession \<Rightarrow>
     ('phys, 'tire, 'ch, 'acc, 'rx, 'st) IncrementalV3Competitor \<Rightarrow> 'rx SimulationResult \<Rightarrow> IncrementalError + PlayerOutput" where
  "player_output_of E s c result =
     map_ok (\<lambda>frames. \<lparr>player_frames = frames,
         player_lap_times_ms = lap_times_ms (result_lap_times_s result) (racer_plan c) (race_session_pit_loss_ms s),
         player_resolved_pit_laps = pit_laps (racer_plan c),
         player_final_fuel_mass_kg = result_final_fuel_mass_kg result\<rparr>)
       (map_err TelemetryFailed (race_frames E (race_header s) c result))"

fun finalize_rows ::
  "('phys, 'tire, 'ch, 'acc, 'rx, 'st, 'diag) race_engine \<Rightarrow> ('phys, 'tire, 'ch, 'acc, 'rx, 'st) IncrementalRacingSession \<Rightarrow>
     ('phys, 'tire, 'ch, 'acc, 'rx, 'st) IncrementalV3Competitor list \<Rightarrow> PlayerOutput \<Rightarrow>
     IncrementalError + SimulatedCompetitor list \<times> PlayerOutput" where
  "finalize_rows E s [] player = Inr ([], player)"
| "finalize_rows E s (c # cs) player =
     and_then (ok_or (racer_result c) (NoTerminalResult (racer_id c))) (\<lambda>result.
     and_then (if racer_is_player c then player_output_of E s c result else Inr player) (\<lambda>player.
     map_ok (\<lambda>(rows, player). (row_of s c result # rows, player)) (finalize_rows E s cs player)))"

definition leader_time :: "SimulatedCompetitor list \<Rightarrow> u64" where
  "leader_time rows = (case rows of [] \<Rightarrow> 0 | row # _ \<Rightarrow> row_total_time_ms row)"

definition standings_of :: "SimulatedCompetitor list \<Rightarrow> StandingEntry list" where
  "standings_of rows =
     map (\<lambda>(index, row).
       \<lparr>entry_competitor_id = row_competitor_id row, entry_position = of_nat (index + 1),
        entry_total_time_ms = row_total_time_ms row, entry_best_lap_ms = row_best_lap_ms row,
        entry_laps_completed = row_laps_completed row,
        entry_gap_to_leader_ms = saturating_sub (row_total_time_ms row) (leader_time rows),
        entry_status = StandingFinished\<rparr>) (enumerate 0 rows)"

definition F64_NANO :: "64 word" where "F64_NANO = 0x3E112E0BE826D695"

definition check_finish_reserve :: "64 word option \<Rightarrow> 64 word option \<Rightarrow> IncrementalError + unit" where
  "check_finish_reserve reserve fuel =
     (case reserve of
        None \<Rightarrow> Inr ()
      | Some minimum \<Rightarrow>
          and_then (ok_or fuel NoFuelDiagnostics) (\<lambda>final.
            ensure (\<not> f64_lt (f64_add final F64_NANO) minimum) (FinishReserveViolated minimum final)))"

definition finalize_output ::
  "('phys, 'tire, 'ch, 'acc, 'rx, 'st, 'diag) race_engine \<Rightarrow>
     ('phys, 'tire, 'ch, 'acc, 'rx, 'st) IncrementalRacingSession \<Rightarrow> IncrementalError + 'diag RaceOutput" where
  "finalize_output E s =
     and_then (finalize_rows E s (racers s) no_player_output) (\<lambda>(unsorted, player).
       let rows = sort_key row_total_time_ms unsorted
       in and_also (check_finish_reserve (race_minimum_finish_reserve_kg s) (player_final_fuel_mass_kg player))
            (Inr \<lparr>race_standings = standings_of rows, race_total_time_ms = leader_time rows,
               race_player_pit_laps = (if player_resolved_pit_laps player = [] then race_session_player_pit_laps s
                  else player_resolved_pit_laps player),
               race_player_lap_times_ms = player_lap_times_ms player,
               race_player_batches = telemetry_batches (player_frames player),
               race_diagnostics = output_diagnostics E (racers s)\<rparr>))"

section \<open>\<open>advance\<close> and \<open>collect\<close>\<close>

definition complete_race ::
  "('phys, 'tire, 'ch, 'acc, 'rx, 'st, 'diag) race_engine \<Rightarrow> ('phys, 'tire, 'ch, 'acc, 'rx, 'st) IncrementalRacingSession \<Rightarrow>
     ('phys, 'tire, 'ch, 'acc, 'rx, 'st) IncrementalRacingSession \<times> (IncrementalError + 'diag RacingSessionStreamBatchV1)" where
  "complete_race E s =
     (case finalize_output E s of
        Inl e \<Rightarrow> (s, Inl e)
      | Inr output \<Rightarrow>
          st_then (next_record s (ucast (race_session_laps s)) (Complete output)) (\<lambda>s final.
            (s\<lparr>race_completed := True\<rparr>, map_err InvalidBatch (batch_new [final]))))"

definition race_advance ::
  "('phys, 'tire, 'ch, 'acc, 'rx, 'st, 'diag) race_engine \<Rightarrow> ('phys, 'tire, 'ch, 'acc, 'rx, 'st) IncrementalRacingSession \<Rightarrow>
     (('phys, 'tire, 'ch, 'acc, 'rx, 'st) IncrementalRacingSession \<times>
        (IncrementalError + 'diag RacingSessionStreamBatchV1)) option" where
  "race_advance E s =
     (if race_completed s then Some (s, Inl IncrementalAlreadyCompleted)
      else case step_racers E (racers s) of
          None \<Rightarrow> None
        | Some (cs, Inl e) \<Rightarrow> Some (s\<lparr>racers := cs\<rparr>, Inl e)
        | Some (cs, Inr (laps, completions)) \<Rightarrow>
            (let s' = s\<lparr>racers := cs\<rparr>
             in Some (if completions = length cs then complete_race E s'
                else if completions \<noteq> 0 \<or> length laps \<noteq> length cs then (s', Inl DifferentBoundaries)
                else case laps of
                    [] \<Rightarrow> (s', Inl NoCompetitors)
                  | (_, first) # _ \<Rightarrow>
                      if list_ex (\<lambda>(_, step). lap_index step \<noteq> lap_index first) laps then (s', Inl DifferentLaps)
                      else emit_lap E (racers s) s' laps (lap_index first))))"

fun output_of_records :: "('p, 'c) StreamRecord list \<Rightarrow> 'c option" where
  "output_of_records [] = None"
| "output_of_records (r # rs) = (case rec_event r of Complete output \<Rightarrow> Some output | Progress _ \<Rightarrow> output_of_records rs)"

partial_function (option) race_collect ::
  "('phys, 'tire, 'ch, 'acc, 'rx, 'st, 'diag) race_engine \<Rightarrow> ('phys, 'tire, 'ch, 'acc, 'rx, 'st) IncrementalRacingSession \<Rightarrow>
     (IncrementalError + 'diag RaceOutput) option" where
  "race_collect E s =
     (case race_advance E s of
        None \<Rightarrow> None
      | Some (s', Inl e) \<Rightarrow> Some (Inl e)
      | Some (s', Inr batch) \<Rightarrow>
          (case output_of_records (batch_records batch) of
             Some output \<Rightarrow> Some (Inr output)
           | None \<Rightarrow> race_collect E s'))"

section \<open>Starting a race\<close>

record PitStrategyConfig =
  strategy_player_pit_laps :: "u16 list"
  strategy_pit_loss_ms :: "u64 option"

datatype StartError =
    SetupFailed string
  | StintPlanInvalid StintPlanError
  | NoInitialTire
  | SolverRejected string SolverError

text \<open>What \<open>new_v3\<close> takes from the catalog and the V3 profile, in the order it asks for it: the track with its
  identity, sample count and pit loss, the checks on the component selections and on the instruction
  timeline; then for each competitor the vehicle with its default tire, the driver controls with the
  instruction transitions, and the physical request, whose lap count, pit stops and control schedule the
  session fills in.\<close>

record ('phys, 'tire, 'track, 'veh, 'ctl, 'st) race_setup =
  setup_track :: "string \<Rightarrow> string + 'track"
  setup_track_id :: "string \<Rightarrow> string"
  setup_track_pit_loss :: "'track \<Rightarrow> u64"
  setup_check_components :: "RaceInput \<Rightarrow> string + unit"
  setup_check_instructions :: "RaceInput \<Rightarrow> u16 \<Rightarrow> 'track \<Rightarrow> string + unit"
  setup_vehicle :: "CompetitorSpec \<Rightarrow> string + 'veh"
  setup_default_tire :: "'veh \<Rightarrow> string"
  setup_controls :: "CompetitorSpec \<Rightarrow> 'veh \<Rightarrow> string \<Rightarrow> string + 'ctl"
  setup_transitions :: "'ctl \<Rightarrow> ResolvedDriverControlLapV3 list option"
  setup_tires :: "string \<Rightarrow> 'tire option"
  setup_request :: "CompetitorSpec \<Rightarrow> 'track \<Rightarrow> 'veh \<Rightarrow> 'ctl \<Rightarrow> u64 \<Rightarrow> u64 \<Rightarrow> string + ('phys, 'tire) ResolvedSimulationRequestV3"
  setup_static :: "CompetitorSpec \<Rightarrow> 'track \<Rightarrow> 'veh \<Rightarrow> 'ctl \<Rightarrow> 'st"
  setup_has_transmission :: "'veh \<Rightarrow> bool"

definition new_racer ::
  "('phys, 'tire, 'ch, 'acc, 'rx, 'st, 'diag) race_engine \<Rightarrow> ('phys, 'tire, 'track, 'veh, 'ctl, 'st) race_setup \<Rightarrow>
     'track \<Rightarrow> u16 \<Rightarrow> u64 \<Rightarrow> u64 \<Rightarrow> u16 list \<Rightarrow> CompetitorSpec \<Rightarrow>
     StartError + ('phys, 'tire, 'ch, 'acc, 'rx, 'st) IncrementalV3Competitor" where
  "new_racer E S track laps seed pit_loss_ms player_pits spec =
     and_then (map_err SetupFailed (setup_vehicle S spec)) (\<lambda>vehicle.
     and_then (map_err StintPlanInvalid (resolve_stint_plan spec laps (setup_default_tire S vehicle) player_pits)) (\<lambda>plan.
     and_then (case tire_by_lap plan of [] \<Rightarrow> Inl NoInitialTire | tire # _ \<Rightarrow> Inr tire) (\<lambda>tire_id.
     and_then (map_err SetupFailed (setup_controls S spec vehicle tire_id)) (\<lambda>controls.
     and_then (map_err StintPlanInvalid (build_pit_plan (setup_tires S) plan)) (\<lambda>stops.
     and_then (map_err SetupFailed (setup_request S spec track vehicle controls seed pit_loss_ms)) (\<lambda>physical.
     let request = physical\<lparr>request_lap_count := max laps 1, request_pit_stops := stops,
           request_control_schedule := (case setup_transitions S controls of None \<Rightarrow> [] | Some ts \<Rightarrow> drop 1 ts)\<rparr>
     in map_ok (\<lambda>solver. \<lparr>racer_id = competitor_spec_id spec, racer_is_player = is_player_spec spec,
            racer_static = setup_static S spec track vehicle controls,
            racer_has_transmission = setup_has_transmission S vehicle, racer_plan = plan,
            racer_schedule = setup_transitions S controls, racer_solver = solver, racer_latest_lap = None,
            racer_result = None\<rparr>)
          (map_err (SolverRejected (competitor_spec_id spec)) (session_new (engine_solver E) request))))))))"

definition new_v3 ::
  "('phys, 'tire, 'ch, 'acc, 'rx, 'st, 'diag) race_engine \<Rightarrow> ('phys, 'tire, 'track, 'veh, 'ctl, 'st) race_setup \<Rightarrow>
     RaceInput \<Rightarrow> string \<Rightarrow> PitStrategyConfig option \<Rightarrow> u16 \<Rightarrow> u64 \<Rightarrow>
     StartError + ('phys, 'tire, 'ch, 'acc, 'rx, 'st) IncrementalRacingSession" where
  "new_v3 E S race vehicle_id pit_strategy laps seed =
     (let track_id = setup_track_id S (race_track_id race)
      in and_then (map_err SetupFailed (setup_track S track_id)) (\<lambda>track.
         and_also (map_err SetupFailed (setup_check_components S race))
         (let pit_loss_ms = (case Option.bind pit_strategy strategy_pit_loss_ms of
                None \<Rightarrow> setup_track_pit_loss S track | Some loss \<Rightarrow> max loss 1000);
              player_pits = sanitize_pit_laps
                (case pit_strategy of None \<Rightarrow> [] | Some strategy \<Rightarrow> strategy_player_pit_laps strategy) laps
          in and_also (map_err SetupFailed (setup_check_instructions S race laps track))
             (map_ok (\<lambda>cs. \<lparr>race_session_track_id = track_id, race_session_vehicle_id = vehicle_id,
                  race_session_laps = max laps 1, race_session_seed = seed, race_session_pit_loss_ms = pit_loss_ms,
                  race_session_player_pit_laps = player_pits, racers = cs, race_next_sequence = 0,
                  race_next_frame_sequence = 0, race_include_trajectories = False, race_completed = False,
                  race_minimum_finish_reserve_kg = None\<rparr>)
                (try_map (new_racer E S track laps seed pit_loss_ms player_pits) (race_competitors race))))))"

section \<open>The field moves in step\<close>

text \<open>A competitor whose solver is about to run lap \<open>n\<close> of a race of \<open>laps\<close> laps.\<close>

definition racer_at ::
  "('phys, 'tire, 'ch, 'acc, 'rx, 'st, 'diag) race_engine \<Rightarrow> u16 \<Rightarrow> nat \<Rightarrow>
     ('phys, 'tire, 'ch, 'acc, 'rx, 'st) IncrementalV3Competitor \<Rightarrow> bool" where
  "racer_at E laps n c \<longleftrightarrow>
     (\<exists>k. session_open (engine_solver E) (racer_solver c) k \<and> kernel_next_lap k = n) \<and>
     effective_lap_count (session_request (racer_solver c)) = laps"

definition same_racer ::
  "('phys, 'tire, 'ch, 'acc, 'rx, 'st) IncrementalV3Competitor \<Rightarrow>
     ('phys, 'tire, 'ch, 'acc, 'rx, 'st) IncrementalV3Competitor \<Rightarrow> bool" where
  "same_racer c c' \<longleftrightarrow> racer_id c' = racer_id c \<and> racer_is_player c' = racer_is_player c \<and>
     racer_plan c' = racer_plan c \<and> racer_schedule c' = racer_schedule c \<and>
     session_request (racer_solver c') = session_request (racer_solver c)"

lemma racer_lap:
  assumes "racer_at E laps n c" "n \<le> unat laps"
  shows "\<exists>solver r. session_advance (engine_solver E) (racer_solver c) = Some (solver, r) \<and>
    (case r of Inl e \<Rightarrow> True
     | Inr (LapStep lap) \<Rightarrow> racer_at E laps (Suc n) (c\<lparr>racer_solver := solver, racer_latest_lap := Some lap\<rparr>) \<and>
         session_request solver = session_request (racer_solver c) \<and>
         lap_faithful (session_request (racer_solver c)) n lap
     | Inr (CompleteStep _) \<Rightarrow> False)"
proof -
  obtain k where k: "session_open (engine_solver E) (racer_solver c) k" "kernel_next_lap k = n"
    and laps: "effective_lap_count (session_request (racer_solver c)) = laps"
    using assms(1) by (auto simp: racer_at_def)
  have "0 < laps_left (racer_solver c) k" using assms(2) k(2) laps by (simp add: laps_left_def)
  note step = session_advance_lap [OF k(1) this]
  show ?thesis
  proof (cases "kernel_lap (engine_solver E) (session_request (racer_solver c)) k")
    case (Inl e) then show ?thesis using step by auto
  next
    case (Inr p)
    obtain lap k' where p: "p = (lap, k')" by force
    show ?thesis using step laps k(2) unfolding Inr p racer_at_def by fastforce
  qed
qed

lemma racer_finish:
  assumes "racer_at E laps n c" "n = Suc (unat laps)"
  shows "\<exists>solver r. session_advance (engine_solver E) (racer_solver c) = Some (solver, r) \<and>
    (case r of Inl e \<Rightarrow> True | Inr (LapStep lap) \<Rightarrow> False | Inr (CompleteStep _) \<Rightarrow> True)"
proof -
  obtain k where k: "session_open (engine_solver E) (racer_solver c) k" "laps_left (racer_solver c) k = 0"
    using assms by (auto simp: racer_at_def laps_left_def)
  obtain solver where "session_advance (engine_solver E) (racer_solver c) = Some (solver, map_ok CompleteStep
      (map_err SolverFailed (finish_kernel (engine_solver E) (session_request (racer_solver c)) k)))"
    using session_advance_finish [OF k] by blast
  then show ?thesis
    by (cases "finish_kernel (engine_solver E) (session_request (racer_solver c)) k") auto
qed

text \<open>The answer of the field on a lap: either the first failure, or one lap of every competitor.\<close>

lemma step_racers_lap:
  assumes "list_all (racer_at E laps n) cs" "n \<le> unat laps"
  shows "\<exists>cs' r. step_racers E cs = Some (cs', r) \<and>
    (case r of Inl e \<Rightarrow> (\<exists>id d. e = SimulationFailed id d)
     | Inr (steps, m) \<Rightarrow> m = 0 \<and> map fst steps = map racer_id cs \<and> list_all2 same_racer cs cs' \<and>
         list_all (racer_at E laps (Suc n)) cs' \<and> map racer_latest_lap cs' = map (\<lambda>p. Some (snd p)) steps \<and>
         list_all2 (\<lambda>c p. lap_faithful (session_request (racer_solver c)) n (snd p)) cs steps)"
  using assms(1)
proof (induction cs)
  case Nil then show ?case by simp
next
  case (Cons c cs)
  obtain solver r where adv: "session_advance (engine_solver E) (racer_solver c) = Some (solver, r)"
    and r: "case r of Inl e \<Rightarrow> True
     | Inr (LapStep lap) \<Rightarrow> racer_at E laps (Suc n) (c\<lparr>racer_solver := solver, racer_latest_lap := Some lap\<rparr>) \<and>
         session_request solver = session_request (racer_solver c) \<and>
         lap_faithful (session_request (racer_solver c)) n lap
     | Inr (CompleteStep _) \<Rightarrow> False"
    using racer_lap [of E laps n c] Cons.prems assms(2) by auto
  show ?case
  proof (cases r)
    case (Inl e) then show ?thesis by (simp add: adv)
  next
    case (Inr step)
    then obtain lap where step: "step = LapStep lap" using r by (cases step) auto
    obtain cs' q where IH: "step_racers E cs = Some (cs', q)" "case q of Inl e \<Rightarrow> (\<exists>id d. e = SimulationFailed id d)
     | Inr (steps, m) \<Rightarrow> m = 0 \<and> map fst steps = map racer_id cs \<and> list_all2 same_racer cs cs' \<and>
         list_all (racer_at E laps (Suc n)) cs' \<and> map racer_latest_lap cs' = map (\<lambda>p. Some (snd p)) steps \<and>
         list_all2 (\<lambda>c p. lap_faithful (session_request (racer_solver c)) n (snd p)) cs steps"
      using Cons by auto
    show ?thesis
      using IH(2) r by (cases q) (auto simp: adv Inr step IH(1) same_racer_def)
  qed
qed

lemma step_racers_finish:
  assumes "list_all (racer_at E laps n) cs" "n = Suc (unat laps)"
  shows "\<exists>cs' r. step_racers E cs = Some (cs', r) \<and>
    (case r of Inl e \<Rightarrow> (\<exists>id d. e = SimulationFailed id d) \<or> (\<exists>d. e = TopSpeedFailed d)
     | Inr (steps, m) \<Rightarrow> m = length cs' \<and> steps = [] \<and> map racer_id cs' = map racer_id cs \<and>
         list_all (\<lambda>c. racer_result c \<noteq> None) cs')"
  using assms(1)
proof (induction cs)
  case Nil then show ?case by simp
next
  case (Cons c cs)
  obtain solver r where adv: "session_advance (engine_solver E) (racer_solver c) = Some (solver, r)"
    and r: "case r of Inl e \<Rightarrow> True | Inr (LapStep lap) \<Rightarrow> False | Inr (CompleteStep _) \<Rightarrow> True"
    using racer_finish [of E laps n c] Cons.prems assms(2) by auto
  show ?case
  proof (cases r)
    case (Inl e) then show ?thesis by (simp add: adv)
  next
    case (Inr step)
    then obtain result where step: "step = CompleteStep result" using r by (cases step) auto
    obtain cs' q where IH: "step_racers E cs = Some (cs', q)" "case q of Inl e \<Rightarrow> (\<exists>id d. e = SimulationFailed id d) \<or> (\<exists>d. e = TopSpeedFailed d)
     | Inr (steps, m) \<Rightarrow> m = length cs' \<and> steps = [] \<and> map racer_id cs' = map racer_id cs \<and>
         list_all (\<lambda>c. racer_result c \<noteq> None) cs'"
      using Cons by auto
    show ?thesis
    proof (cases "if racer_has_transmission c then with_top_speed E result else Inr result")
      case (Inl e) then show ?thesis by (simp add: adv Inr step)
    next
      case top: (Inr result')
      show ?thesis using IH(2) by (cases q) (auto simp: adv Inr step IH(1) top)
    qed
  qed
qed

section \<open>The records of a call\<close>

fun records_from :: "u64 \<Rightarrow> u64 \<Rightarrow> RacingSessionProgressV1 list \<Rightarrow> 'diag RacingSessionStreamRecordV1 list" where
  "records_from start tick [] = []"
| "records_from start tick (p # ps) =
     \<lparr>rec_sequence = start, rec_tick = tick, rec_event = Progress p\<rparr> # records_from (start + 1) tick ps"

lemma records_from_append:
  "records_from start tick (ps @ qs) = records_from start tick ps @ records_from (start + of_nat (length ps)) tick qs"
  by (induction ps arbitrary: start) (simp_all add: algebra_simps)

lemma length_records_from [simp]: "length (records_from start tick ps) = length ps"
  by (induction ps arbitrary: start) simp_all

lemma output_of_records_from [simp]: "output_of_records (records_from start tick ps) = None"
  by (induction ps arbitrary: start) simp_all

lemma records_from_ticks: "r \<in> set (records_from start tick ps) \<Longrightarrow> rec_tick r = tick \<and> \<not> is_complete (rec_event r)"
  by (induction ps arbitrary: start) auto

lemma records_from_last:
  "ps \<noteq> [] \<Longrightarrow> rec_sequence (last (records_from start tick ps)) = start + of_nat (length ps - 1)"
  by (cases ps rule: rev_cases) (simp_all add: records_from_append)

lemma records_from_hd: "ps \<noteq> [] \<Longrightarrow> rec_sequence (hd (records_from start tick ps)) = start"
  by (cases ps) simp_all

lemma st_then_Ok: "st_then m f = (s', Inr y) \<longleftrightarrow> (\<exists>s x. m = (s, Inr x) \<and> f s x = (s', Inr y))"
  by (cases m) (auto simp: st_then_def split: sum.splits)

lemma next_record_Ok:
  "next_record s tick event = (s', Inr r) \<Longrightarrow>
     s' = s\<lparr>race_next_sequence := race_next_sequence s + 1\<rparr> \<and>
     r = \<lparr>rec_sequence = race_next_sequence s, rec_tick = tick, rec_event = event\<rparr>"
  by (auto simp: next_record_def record_new_def result_simps checked_add_Some split: option.splits)

lemma progress_records_Ok:
  "progress_records s tick ps = (s', Inr rs) \<Longrightarrow>
     s' = s\<lparr>race_next_sequence := race_next_sequence s + of_nat (length ps)\<rparr> \<and>
     rs = records_from (race_next_sequence s) tick ps"
proof (induction ps arbitrary: s rs)
  case (Cons p ps)
  then obtain s1 r rs' where "next_record s tick (Progress p) = (s1, Inr r)"
      "progress_records s1 tick ps = (s', Inr rs')" "rs = r # rs'"
    by (auto simp: st_then_Ok)
  with Cons.IH [of s1 rs'] next_record_Ok [of s tick "Progress p" s1 r]
  show ?case by (simp add: algebra_simps)
qed simp

lemma lap_telemetry_Ok:
  "lap_telemetry E offset s lap = (s', Inr rs) \<Longrightarrow>
     \<exists>ps frame. rs = records_from (race_next_sequence s) (ucast lap) ps \<and>
       s' = s\<lparr>race_next_sequence := race_next_sequence s + of_nat (length ps), race_next_frame_sequence := frame\<rparr>"
proof (cases "player_of (racers s)")
  case None
  assume "lap_telemetry E offset s lap = (s', Inr rs)"
  with None show ?thesis
    by (intro exI [of _ "[]"] exI [of _ "race_next_frame_sequence s"]) (simp add: lap_telemetry_def)
next
  case (Some player)
  assume "lap_telemetry E offset s lap = (s', Inr rs)"
  with Some obtain frame ps where "progress_records (s\<lparr>race_next_frame_sequence := frame\<rparr>) (ucast lap) ps = (s', Inr rs)"
    by (fastforce simp: lap_telemetry_def split: option.splits sum.splits)
  from progress_records_Ok [OF this] show ?thesis by (intro exI [of _ ps] exI [of _ frame]) simp
qed

lemma batch_new_Ok: "batch_new rs = Inr b \<longleftrightarrow> batch_ok rs \<and> b = \<lparr>batch_schema_version = StreamV1, batch_records = rs\<rparr>"
  by (auto simp: batch_new_def result_simps validate_batch_structure_Ok)

lemma emit_lap_Ok:
  assumes "emit_lap E before s laps lap = (s', Inr batch)"
  obtains ps frame where "ps \<noteq> []"
    "hd ps = Grid lap (grid_of s (offset_map before) laps lap)"
    "batch_records batch = records_from (race_next_sequence s) (ucast lap) ps" "batch_ok (batch_records batch)"
    "s' = s\<lparr>race_next_sequence := race_next_sequence s + of_nat (length ps), race_next_frame_sequence := frame\<rparr>"
proof -
  let ?offset = "case player_of before of None \<Rightarrow> (F64_ZERO, F64_ZERO) | Some c \<Rightarrow> racer_offset c"
  obtain s1 grid s2 telemetry events where
    1: "progress_records s (ucast lap) [Grid lap (grid_of s (offset_map before) laps lap)] = (s1, Inr grid)" and
    2: "lap_telemetry E ?offset s1 lap = (s2, Inr telemetry)" and
    3: "progress_records s2 (ucast lap) (map SessionEvent (concat (map (racer_events lap) (racers s2)))) = (s', Inr events)" and
    4: "batch_new (grid @ telemetry @ events) = Inr batch"
    using assms by (simp only: emit_lap_def Let_def st_then_Ok prod.inject map_err_Ok) blast
  obtain ps frame where tele: "telemetry = records_from (race_next_sequence s1) (ucast lap) ps"
      "s2 = s1\<lparr>race_next_sequence := race_next_sequence s1 + of_nat (length ps), race_next_frame_sequence := frame\<rparr>"
    using lap_telemetry_Ok [OF 2] by blast
  let ?es = "map SessionEvent (concat (map (racer_events lap) (racers s2)))"
  let ?ps = "Grid lap (grid_of s (offset_map before) laps lap) # ps @ ?es"
  note g = progress_records_Ok [OF 1] and e = progress_records_Ok [OF 3]
  have "grid @ telemetry @ events = records_from (race_next_sequence s) (ucast lap) ?ps"
    using g e tele by (simp add: records_from_append algebra_simps)
  moreover have "s' = s\<lparr>race_next_sequence := race_next_sequence s + of_nat (length ?ps), race_next_frame_sequence := frame\<rparr>"
    using g e tele by (simp add: algebra_simps)
  ultimately show ?thesis using 4 that [of ?ps frame] by (simp add: batch_new_Ok)
qed

section \<open>The session as a state machine\<close>

text \<open>A session before lap \<open>n\<close>. The sequence number counts at most 256 records per lap.\<close>

definition race_at ::
  "('phys, 'tire, 'ch, 'acc, 'rx, 'st, 'diag) race_engine \<Rightarrow> nat \<Rightarrow>
     ('phys, 'tire, 'ch, 'acc, 'rx, 'st) IncrementalRacingSession \<Rightarrow> bool" where
  "race_at E n s \<longleftrightarrow> \<not> race_completed s \<and> 0 < n \<and> n \<le> Suc (unat (race_session_laps s)) \<and> 0 < race_session_laps s \<and>
     list_all (racer_at E (race_session_laps s) n) (racers s) \<and> unat (race_next_sequence s) \<le> 256 * (n - 1)"

lemma race_at_laps: "race_at E n s \<Longrightarrow> n \<le> 65536"
  using unat_u16_bound [of "race_session_laps s"] by (simp add: race_at_def)

lemma new_racer_at:
  assumes "new_racer E S track laps seed loss pits spec = Inr c"
  shows "racer_at E (max laps 1) 1 c"
proof -
  obtain request where "session_new (engine_solver E) request = Inr (racer_solver c)" "request_lap_count request = max laps 1"
    using assms by (auto simp: new_racer_def result_simps Let_def)
  moreover obtain k where "session_open (engine_solver E) (racer_solver c) k" "kernel_next_lap k = 1"
      "session_request (racer_solver c) = request"
    using calculation(1) by (rule session_new_open)
  ultimately show ?thesis by (auto simp: racer_at_def effective_lap_count_def max.commute)
qed

lemma new_v3_at:
  assumes "new_v3 E S race vehicle_id strategy laps seed = Inr s"
  shows "race_at E 1 s" "race_next_sequence s = 0"
proof -
  obtain track loss pits where cs: "try_map (new_racer E S track laps seed loss pits) (race_competitors race) = Inr (racers s)"
    and s: "race_session_laps s = max laps 1" "\<not> race_completed s" "race_next_sequence s = 0"
    using assms by (auto simp: new_v3_def result_simps Let_def)
  have "list_all (racer_at E (max laps 1) 1) (racers s)"
    unfolding list_all_iff
  proof
    fix c
    assume "c \<in> set (racers s)"
    then obtain spec where "new_racer E S track laps seed loss pits spec = Inr c"
      using cs unfolding try_map_Ok by (auto simp: list_all2_conv_all_nth in_set_conv_nth)
    then show "racer_at E (max laps 1) 1 c" by (rule new_racer_at)
  qed
  moreover have "0 < max laps 1" by (auto simp: max_def word_less_nat_alt word_le_nat_alt)
  ultimately show "race_at E 1 s" "race_next_sequence s = 0" by (simp_all add: race_at_def s)
qed

text \<open>The failures of a record, of the telemetry and of a batch.\<close>

definition emission_error :: "IncrementalError \<Rightarrow> bool" where
  "emission_error e \<longleftrightarrow> e = IncrementalSequenceExhausted \<or> e = PlayerHasNoLap \<or> (\<exists>d. e = InvalidRecord d) \<or>
     (\<exists>d. e = InvalidBatch d) \<or> (\<exists>d. e = TelemetryFailed d)"

lemma st_then_Err: "st_then m f = (s', Inl e) \<longleftrightarrow> m = (s', Inl e) \<or> (\<exists>s x. m = (s, Inr x) \<and> f s x = (s', Inl e))"
  by (cases m) (auto simp: st_then_def split: sum.splits)

lemma next_record_Err: "next_record s tick event = (s', Inl e) \<Longrightarrow> emission_error e"
  by (auto simp: next_record_def emission_error_def result_simps split: option.splits)

lemma progress_records_Err: "progress_records s tick ps = (s', Inl e) \<Longrightarrow> emission_error e"
  by (induction ps arbitrary: s) (auto simp: st_then_Err dest: next_record_Err)

lemma lap_telemetry_Err: "lap_telemetry E offset s lap = (s', Inl e) \<Longrightarrow> emission_error e"
  by (auto simp: lap_telemetry_def emission_error_def split: option.splits sum.splits
      dest!: progress_records_Err)

lemma emit_lap_Err: "emit_lap E before s laps lap = (s', Inl e) \<Longrightarrow> emission_error e"
  unfolding emit_lap_def Let_def st_then_Err
  by (auto simp: result_simps emission_error_def [of "InvalidBatch _"] simp del: progress_records.simps
      dest: progress_records_Err lap_telemetry_Err)

text \<open>A call on a lap gives a failure, or the batch of that lap and a session before the next one.\<close>

lemma race_advance_lap:
  assumes "race_at E n s" "n \<le> unat (race_session_laps s)" "racers s \<noteq> []"
  shows "\<exists>s' r. race_advance E s = Some (s', r) \<and>
    (case r of Inl e \<Rightarrow> e \<notin> {DifferentBoundaries, NoCompetitors, DifferentLaps, IncrementalAlreadyCompleted}
     | Inr batch \<Rightarrow> race_at E (Suc n) s' \<and> race_session_laps s' = race_session_laps s \<and>
         map racer_id (racers s') = map racer_id (racers s) \<and>
         (\<exists>ps. ps \<noteq> [] \<and> batch_records batch = records_from (race_next_sequence s) (of_nat n) ps \<and>
            batch_ok (batch_records batch) \<and> race_next_sequence s' = race_next_sequence s + of_nat (length ps)))"
proof -
  have at: "list_all (racer_at E (race_session_laps s) n) (racers s)" "\<not> race_completed s" "0 < n"
    "unat (race_next_sequence s) \<le> 256 * (n - 1)" "0 < race_session_laps s"
    using assms(1) by (simp_all add: race_at_def)
  have small: "n \<le> 65535" using assms(2) unat_u16_bound [of "race_session_laps s"] by simp
  obtain cs r where step: "step_racers E (racers s) = Some (cs, r)" and r: "case r of Inl e \<Rightarrow> (\<exists>id d. e = SimulationFailed id d)
     | Inr (steps, m) \<Rightarrow> m = 0 \<and> map fst steps = map racer_id (racers s) \<and> list_all2 same_racer (racers s) cs \<and>
         list_all (racer_at E (race_session_laps s) (Suc n)) cs \<and> map racer_latest_lap cs = map (\<lambda>p. Some (snd p)) steps \<and>
         list_all2 (\<lambda>c p. lap_faithful (session_request (racer_solver c)) n (snd p)) (racers s) steps"
    using step_racers_lap [OF at(1) assms(2)] by blast
  show ?thesis
  proof (cases r)
    case (Inl e)
    then show ?thesis using r at(2) by (auto simp: race_advance_def step)
  next
    case (Inr p)
    obtain steps where p: "p = (steps, 0)" and ids: "map fst steps = map racer_id (racers s)"
      and cs: "list_all2 same_racer (racers s) cs" "list_all (racer_at E (race_session_laps s) (Suc n)) cs"
      and laps: "list_all2 (\<lambda>c p. lap_faithful (session_request (racer_solver c)) n (snd p)) (racers s) steps"
      using r Inr by (cases p) auto
    have len: "length cs = length (racers s)" "length steps = length (racers s)"
      using cs(1) arg_cong [OF ids, of length] by (simp_all add: list_all2_lengthD)
    have idx: "lap_index (snd q) = of_nat n" if "q \<in> set steps" for q
      using laps that small
      by (auto simp: list_all2_conv_all_nth in_set_conv_nth lap_faithful_def)
    obtain first rest where steps: "steps = first # rest" using len assms(3) by (cases steps) auto
    have same: "\<not> list_ex (\<lambda>(_, step). lap_index step \<noteq> lap_index (snd first)) steps"
    proof -
      have "lap_index (snd q) = lap_index (snd first)" if "q \<in> set steps" for q
        using idx [OF that] idx [of first] steps by simp
      then show ?thesis by (fastforce simp: list_ex_iff split_beta)
    qed
    let ?s = "s\<lparr>racers := cs\<rparr>" and ?lap = "of_nat n :: u16"
    have first: "lap_index (snd first) = ?lap" using idx steps by simp
    have adv: "race_advance E s = Some (emit_lap E (racers s) ?s steps ?lap)"
      using at(2) same len assms(3) first
      by (cases first) (simp add: race_advance_def step Inr p steps Let_def)
    have tick: "ucast ?lap = (of_nat n :: u64)"
      using small by (simp add: word_unat_eq_iff unsigned_ucast_eq unat_of_nat_16 take_bit_nat_eq_self
          unsigned_of_nat)
    have ids': "map racer_id cs = map racer_id (racers s)"
      using cs(1) by (simp add: list_eq_iff_nth_eq list_all2_conv_all_nth same_racer_def)
    obtain s' q where e: "emit_lap E (racers s) ?s steps ?lap = (s', q)" by force
    show ?thesis
    proof (cases q)
      case (Inl err)
      have "err \<notin> {DifferentBoundaries, NoCompetitors, DifferentLaps, IncrementalAlreadyCompleted}"
        using emit_lap_Err [OF e [unfolded Inl]] by (auto simp: emission_error_def)
      then show ?thesis by (simp add: adv e Inl)
    next
      case (Inr batch)
      obtain ps frame where ps: "ps \<noteq> []"
          "batch_records batch = records_from (race_next_sequence ?s) (ucast ?lap) ps" "batch_ok (batch_records batch)"
          "s' = ?s\<lparr>race_next_sequence := race_next_sequence ?s + of_nat (length ps), race_next_frame_sequence := frame\<rparr>"
        using e [unfolded Inr] by (rule emit_lap_Ok)
      have "length ps \<le> 256" using ps(2,3) by (simp add: batch_ok_def)
      moreover have "256 * n \<le> 256 * 65535" using small by simp
      ultimately have "unat (race_next_sequence s + of_nat (length ps)) \<le> 256 * n"
        using at(3,4) by (subst unat_plus_no_overflow) (cases n; simp add: unsigned_of_nat take_bit_nat_eq_self)+
      then have "race_at E (Suc n) s'"
        using at cs(2) assms(2) by (simp add: race_at_def ps(4))
      then show ?thesis using ps tick ids' by (auto simp: adv e Inr)
    qed
  qed
qed

lemma finalize_rows_Err: "finalize_rows E s cs player = Inl e \<Longrightarrow> (\<exists>id. e = NoTerminalResult id) \<or> (\<exists>d. e = TelemetryFailed d)"
  by (induction cs arbitrary: player)
    (auto simp: result_simps player_output_of_def split: if_splits)

lemma finalize_output_Err:
  "finalize_output E s = Inl e \<Longrightarrow> (\<exists>id. e = NoTerminalResult id) \<or> (\<exists>d. e = TelemetryFailed d) \<or>
     e = NoFuelDiagnostics \<or> (\<exists>a b. e = FinishReserveViolated a b)"
  by (auto simp: finalize_output_def result_simps Let_def check_finish_reserve_def dest: finalize_rows_Err split: option.splits)

lemma ucast_u16_of_nat: "ucast (w :: u16) = (of_nat (unat w) :: u64)"
  by (simp add: word_unat_eq_iff unsigned_ucast_eq unsigned_of_nat)

lemma race_advance_finish:
  assumes "race_at E n s" "n = Suc (unat (race_session_laps s))" "racers s \<noteq> []"
  shows "\<exists>s' r. race_advance E s = Some (s', r) \<and>
    (case r of Inl e \<Rightarrow> e \<notin> {DifferentBoundaries, NoCompetitors, DifferentLaps, IncrementalAlreadyCompleted}
     | Inr batch \<Rightarrow> race_completed s' \<and>
         (\<exists>output cs. batch_records batch = [\<lparr>rec_sequence = race_next_sequence s,
              rec_tick = of_nat (unat (race_session_laps s)), rec_event = Complete output\<rparr>] \<and>
            batch_ok (batch_records batch) \<and> finalize_output E (s\<lparr>racers := cs\<rparr>) = Inr output \<and>
            map racer_id cs = map racer_id (racers s)))"
proof -
  have at: "list_all (racer_at E (race_session_laps s) n) (racers s)" "\<not> race_completed s"
    using assms(1) by (simp_all add: race_at_def)
  obtain cs r where step: "step_racers E (racers s) = Some (cs, r)" and r:
    "case r of Inl e \<Rightarrow> (\<exists>id d. e = SimulationFailed id d) \<or> (\<exists>d. e = TopSpeedFailed d)
     | Inr (steps, m) \<Rightarrow> m = length cs \<and> steps = [] \<and> map racer_id cs = map racer_id (racers s) \<and>
         list_all (\<lambda>c. racer_result c \<noteq> None) cs"
    using step_racers_finish [OF at(1) assms(2)] by blast
  show ?thesis
  proof (cases r)
    case (Inl e)
    then show ?thesis using r at(2) by (auto simp: race_advance_def step)
  next
    case (Inr p)
    then have p: "p = ([], length cs)" and ids: "map racer_id cs = map racer_id (racers s)" using r by auto
    have adv: "race_advance E s = Some (complete_race E (s\<lparr>racers := cs\<rparr>))"
      using at(2) by (simp add: race_advance_def step Inr p Let_def)
    show ?thesis
    proof (cases "finalize_output E (s\<lparr>racers := cs\<rparr>)")
      case (Inl e)
      then have "e \<notin> {DifferentBoundaries, NoCompetitors, DifferentLaps, IncrementalAlreadyCompleted}"
        by (auto dest: finalize_output_Err)
      then show ?thesis by (simp add: adv complete_race_def Inl)
    next
      case (Inr out)
      obtain s1 q where q: "next_record (s\<lparr>racers := cs\<rparr>) (ucast (race_session_laps s)) (Complete out) = (s1, q)"
        by force
      show ?thesis
      proof (cases q)
        case (Inl e)
        then show ?thesis using next_record_Err [OF q [unfolded Inl]] Inr q
          by (auto simp: adv complete_race_def st_then_def emission_error_def)
      next
        case rec: (Inr r)
        note r = next_record_Ok [OF q [unfolded rec]]
        have run: "race_advance E s = Some (s1\<lparr>race_completed := True\<rparr>, map_err InvalidBatch (batch_new [r]))"
          using Inr q rec by (simp add: adv complete_race_def st_then_def)
        show ?thesis
        proof (cases "batch_new [r]")
          case (Inl e) then show ?thesis by (simp add: run)
        next
          case batch: (Inr batch)
          then have "batch_records batch = [r]" "batch_ok [r]" by (simp_all add: batch_new_Ok)
          moreover have "r = \<lparr>rec_sequence = race_next_sequence s, rec_tick = of_nat (unat (race_session_laps s)),
              rec_event = Complete out\<rparr>"
            unfolding ucast_u16_of_nat [symmetric] using r by simp
          ultimately have "batch_records batch = [\<lparr>rec_sequence = race_next_sequence s,
                rec_tick = of_nat (unat (race_session_laps s)), rec_event = Complete out\<rparr>] \<and>
              batch_ok (batch_records batch) \<and> finalize_output E (s\<lparr>racers := cs\<rparr>) = Inr out \<and>
              map racer_id cs = map racer_id (racers s)"
            using Inr ids by (simp only: simp_thms)
          then have "race_completed (s1\<lparr>race_completed := True\<rparr>) \<and> (\<exists>output cs. batch_records batch =
                [\<lparr>rec_sequence = race_next_sequence s, rec_tick = of_nat (unat (race_session_laps s)),
                  rec_event = Complete output\<rparr>] \<and>
              batch_ok (batch_records batch) \<and> finalize_output E (s\<lparr>racers := cs\<rparr>) = Inr output \<and>
              map racer_id cs = map racer_id (racers s))"
            by (intro conjI exI [of _ out] exI [of _ cs]) (simp, blast+)
          then show ?thesis unfolding run batch map_err_simps
            by (intro exI [of _ "s1\<lparr>race_completed := True\<rparr>"] exI [of _ "Inr batch"]) (simp only: sum.case simp_thms)
        qed
      qed
    qed
  qed
qed

text \<open>The batches that a consumer has pulled from a session.\<close>

inductive race_run ::
  "('phys, 'tire, 'ch, 'acc, 'rx, 'st, 'diag) race_engine \<Rightarrow> ('phys, 'tire, 'ch, 'acc, 'rx, 'st) IncrementalRacingSession \<Rightarrow>
     'diag RacingSessionStreamBatchV1 list \<Rightarrow> ('phys, 'tire, 'ch, 'acc, 'rx, 'st) IncrementalRacingSession \<Rightarrow> bool"
  for E s0 where
  race_run_start: "race_run E s0 [] s0"
| race_run_pull: "race_run E s0 bs s \<Longrightarrow> race_advance E s = Some (s', Inr b) \<Longrightarrow> race_run E s0 (bs @ [b]) s'"

definition race_started ::
  "('phys, 'tire, 'ch, 'acc, 'rx, 'st, 'diag) race_engine \<Rightarrow> ('phys, 'tire, 'ch, 'acc, 'rx, 'st) IncrementalRacingSession \<Rightarrow> bool" where
  "race_started E s \<longleftrightarrow> race_at E 1 s \<and> racers s \<noteq> [] \<and> race_next_sequence s = 0"

text \<open>The state after the batches of \<open>n - 1\<close> laps, or after the completion.\<close>

definition cursor_at :: "('phys, 'tire, 'ch, 'acc, 'rx, 'st) IncrementalRacingSession \<Rightarrow> nat \<Rightarrow> StreamCursor \<Rightarrow> bool" where
  "cursor_at s n c \<longleftrightarrow> \<not> completed c \<and> next_sequence c = race_next_sequence s \<and>
     (case last_logical_tick c of None \<Rightarrow> True | Some t \<Rightarrow> unat t \<le> n)"

lemma batch_accepted:
  assumes "cursor_at s n c" "batch_ok rs" "rs = records_from (race_next_sequence s) (of_nat n) ps" "ps \<noteq> []"
    "n \<le> 65535" "unat (race_next_sequence s) \<le> 256 * 65535"
  shows "check_next c \<lparr>batch_schema_version = StreamV1, batch_records = rs\<rparr> = Inr (cursor_after (last rs))"
    and "cursor_after (last rs) = \<lparr>next_sequence = race_next_sequence s + of_nat (length ps),
      last_logical_tick = Some (of_nat n), completed = False\<rparr>"
proof -
  have len: "length ps \<le> 256" using assms(2,3) by (simp add: batch_ok_def)
  have mem: "last rs \<in> set rs" "hd rs \<in> set rs" using assms(2) by (simp_all add: batch_ok_def)
  have each: "rec_tick r = of_nat n \<and> \<not> is_complete (rec_event r)" if "r \<in> set rs" for r
    using records_from_ticks that assms(3) by blast
  have last: "rec_sequence (last rs) = race_next_sequence s + of_nat (length ps - 1)" "rec_tick (last rs) = of_nat n"
      "\<not> is_complete (rec_event (last rs))"
    using records_from_last [OF assms(4)] each [OF mem(1)] assms(3) by simp_all
  have "unat (of_nat (length ps - 1) :: u64) \<le> 255" using len by (simp add: unsigned_of_nat take_bit_nat_eq_self)
  then have "unat (rec_sequence (last rs)) \<le> 256 * 65535 + 255"
    unfolding last(1) using assms(6) by (subst unat_plus_no_overflow) simp_all
  then have follow: "can_follow (last rs)" by (simp add: can_follow_def)
  have tick: "t \<le> of_nat n" if "unat t \<le> n" for t :: u64
    using that assms(5) by (simp add: word_le_nat_alt unsigned_of_nat take_bit_nat_eq_self)
  have hd: "rec_sequence (hd rs) = race_next_sequence s" "rec_tick (hd rs) = of_nat n"
    using records_from_hd [OF assms(4)] each [OF mem(2)] assms(3) by simp_all
  show "check_next c \<lparr>batch_schema_version = StreamV1, batch_records = rs\<rparr> = Inr (cursor_after (last rs))"
    using assms(1,2) follow hd tick by (auto simp: check_next_Ok cursor_at_def split: option.splits)
  have "of_nat (length ps - 1) + 1 = (of_nat (length ps) :: u64)" using assms(4) by (cases ps) simp_all
  then show "cursor_after (last rs) = \<lparr>next_sequence = race_next_sequence s + of_nat (length ps),
      last_logical_tick = Some (of_nat n), completed = False\<rparr>"
    using last by (simp add: cursor_after_def add.assoc)
qed

lemma batch_of_advance: "race_advance E s = Some (s', Inr b) \<Longrightarrow> batch_schema_version b = StreamV1"
  by (cases "batch_schema_version b") simp

lemma batch_eta: "b = \<lparr>batch_schema_version = StreamV1, batch_records = batch_records b\<rparr>"
  by (cases b; cases "batch_schema_version b") simp

text \<open>The simulation between the session and the cursor of its consumer.\<close>

lemma race_run_cursor:
  assumes "race_run E s0 bs s" "race_started E s0"
  shows "\<exists>c. run_batches cursor_new bs = Inr c \<and>
    (if race_completed s then completed c
     else racers s \<noteq> [] \<and> race_session_laps s = race_session_laps s0 \<and>
       map racer_id (racers s) = map racer_id (racers s0) \<and>
       race_at E (Suc (length bs)) s \<and> cursor_at s (length bs) c)"
  using assms(1)
proof induction
  case race_run_start
  then show ?case
    using assms(2) by (auto simp: race_started_def cursor_at_def cursor_new_def run_batches_def race_at_def)
next
  case (race_run_pull bs s s' b)
  then obtain c where c: "run_batches cursor_new bs = Inr c" and inv: "if race_completed s then completed c
     else racers s \<noteq> [] \<and> race_session_laps s = race_session_laps s0 \<and> map racer_id (racers s) = map racer_id (racers s0) \<and>
       race_at E (Suc (length bs)) s \<and> cursor_at s (length bs) c" by blast
  have "\<not> race_completed s" using race_run_pull.hyps(2) by (auto simp: race_advance_def)
  with inv have at: "racers s \<noteq> []" "race_session_laps s = race_session_laps s0"
      "map racer_id (racers s) = map racer_id (racers s0)"
      "race_at E (Suc (length bs)) s" "cursor_at s (length bs) c" by simp_all
  have cur: "cursor_at s (Suc (length bs)) c"
    using at(5) by (auto simp: cursor_at_def split: option.splits)
  have small: "unat (race_next_sequence s) \<le> 256 * 65535"
    using at(4) race_at_laps [OF at(4)] by (simp add: race_at_def)
  have run: "run_batches cursor_new (bs @ [b]) = check_next c b" by (simp add: run_batches_snoc c)
  show ?case
  proof (cases "Suc (length bs) \<le> unat (race_session_laps s)")
    case True
    then obtain ps where ps: "race_at E (Suc (Suc (length bs))) s'" "race_session_laps s' = race_session_laps s"
        "map racer_id (racers s') = map racer_id (racers s)" "ps \<noteq> []"
        "batch_records b = records_from (race_next_sequence s) (of_nat (Suc (length bs))) ps"
        "batch_ok (batch_records b)" "race_next_sequence s' = race_next_sequence s + of_nat (length ps)"
      using race_advance_lap [OF at(4) _ at(1)] race_run_pull.hyps(2) by auto
    have "Suc (length bs) \<le> 65535" using True unat_u16_bound [of "race_session_laps s"] by simp
    note acc = batch_accepted [OF cur ps(6,5,4) this small]
    have "check_next c b = Inr (cursor_after (last (batch_records b)))"
      by (subst batch_eta [of b]) (rule acc(1))
    moreover have "racers s' \<noteq> []" using ps(3) at(1) by (metis map_is_Nil_conv)
    moreover have "cursor_at s' (Suc (length bs)) (cursor_after (last (batch_records b)))"
      using \<open>Suc (length bs) \<le> 65535\<close> unfolding acc(2)
      by (simp add: cursor_at_def ps(7) unsigned_of_nat take_bit_nat_eq_self del: of_nat_Suc)
    moreover have "\<not> race_completed s'" using ps(1) by (simp add: race_at_def)
    ultimately show ?thesis using ps at by (simp add: run)
  next
    case False
    then have last: "Suc (length bs) = Suc (unat (race_session_laps s))" using at(4) by (simp add: race_at_def)
    then obtain out where out: "race_completed s'" "batch_ok (batch_records b)"
        "batch_records b = [\<lparr>rec_sequence = race_next_sequence s, rec_tick = of_nat (unat (race_session_laps s)),
           rec_event = Complete out\<rparr>]"
      using race_advance_finish [OF at(4) last at(1)] race_run_pull.hyps(2) by auto
    have "case last_logical_tick c of None \<Rightarrow> True | Some t \<Rightarrow> t \<le> of_nat (unat (race_session_laps s))"
      using at(5) last unat_u16_bound [of "race_session_laps s"]
      by (auto simp: cursor_at_def word_le_nat_alt unsigned_of_nat take_bit_nat_eq_self simp del: of_nat_unat split: option.splits)
    then have "check_next c b = Inr (cursor_after (last (batch_records b)))"
      using at(5) out by (auto simp: check_next_Ok cursor_at_def can_follow_def simp del: of_nat_unat split: option.splits)
    then show ?thesis using out by (simp add: run cursor_after_def)
  qed
qed

section \<open>Standings and grids\<close>

lemma finalize_rows_ids: "finalize_rows E s cs player = Inr (rows, player') \<Longrightarrow> map row_competitor_id rows = map racer_id cs"
proof (induction cs arbitrary: rows player)
  case (Cons c cs)
  then show ?case by (auto simp: result_simps row_of_def Let_def)
qed simp

text \<open>Standings: ordered by time, positions from 1, the gap of each competitor to the first.\<close>

definition standings_ok :: "string list \<Rightarrow> StandingEntry list \<Rightarrow> u64 \<Rightarrow> bool" where
  "standings_ok ids entries leader \<longleftrightarrow>
     mset (map entry_competitor_id entries) = mset ids \<and> sorted (map entry_total_time_ms entries) \<and>
     map entry_position entries = map (\<lambda>i. of_nat (Suc i)) [0..<length ids] \<and>
     (entries \<noteq> [] \<longrightarrow> leader = entry_total_time_ms (hd entries)) \<and>
     (\<forall>e\<in>set entries. leader \<le> entry_total_time_ms e \<and>
        unat (entry_gap_to_leader_ms e) = unat (entry_total_time_ms e) - unat leader)"

lemma standings_of_ok:
  assumes "sorted (map row_total_time_ms rows)"
  shows "standings_ok (map row_competitor_id rows) (standings_of rows) (leader_time rows)"
proof -
  have parts: "map entry_competitor_id (standings_of rows) = map row_competitor_id rows"
    "map entry_total_time_ms (standings_of rows) = map row_total_time_ms rows"
    "map entry_position (standings_of rows) = map (\<lambda>i. of_nat (Suc i)) [0..<length rows]"
    by (rule nth_equalityI; simp add: standings_of_def nth_enumerate_eq)+
  have least: "leader_time rows \<le> row_total_time_ms row" if "row \<in> set rows" for row
    using assms that by (cases rows) (auto simp: leader_time_def)
  have "leader_time rows \<le> entry_total_time_ms e \<and>
      unat (entry_gap_to_leader_ms e) = unat (entry_total_time_ms e) - unat (leader_time rows)"
    if e: "e \<in> set (standings_of rows)" for e
  proof -
    obtain i where i: "i < length rows" "e = standings_of rows ! i"
      using e by (metis in_set_conv_nth length_map parts(1))
    have "entry_total_time_ms e = row_total_time_ms (rows ! i)"
      "entry_gap_to_leader_ms e = saturating_sub (row_total_time_ms (rows ! i)) (leader_time rows)"
      using i by (simp_all add: standings_of_def nth_enumerate_eq)
    then show ?thesis using least [of "rows ! i"] i by (simp add: unat_saturating_sub)
  qed
  moreover have "leader_time rows = entry_total_time_ms (hd (standings_of rows))" if "standings_of rows \<noteq> []"
    using that by (cases rows) (simp_all add: leader_time_def standings_of_def)
  ultimately show ?thesis using assms parts by (simp add: standings_ok_def)
qed

lemma standings_ok_mset: "mset ids = mset ids' \<Longrightarrow> standings_ok ids es l \<Longrightarrow> standings_ok ids' es l"
  by (auto simp: standings_ok_def dest: mset_eq_length)

lemma finalize_standings:
  assumes "finalize_output E s = Inr out"
  shows "standings_ok (map racer_id (racers s)) (race_standings out) (race_total_time_ms out)"
proof -
  obtain rows player where rows: "finalize_rows E s (racers s) no_player_output = Inr (rows, player)"
      "race_standings out = standings_of (sort_key row_total_time_ms rows)"
      "race_total_time_ms out = leader_time (sort_key row_total_time_ms rows)"
    using assms by (auto simp: finalize_output_def result_simps Let_def)
  have "standings_ok (map row_competitor_id (sort_key row_total_time_ms rows)) (race_standings out) (race_total_time_ms out)"
    unfolding rows by (rule standings_of_ok) simp
  then show ?thesis
    unfolding finalize_rows_ids [OF rows(1), symmetric] by (rule standings_ok_mset [rotated]) simp
qed

text \<open>The place of a key in a sorted list of distinct keys is the number of smaller keys.\<close>

lemma strict_sorted_index:
  fixes f :: "'a \<Rightarrow> 'b::linorder"
  assumes "sorted_wrt (\<lambda>a b. f a < f b) xs" "i < length xs"
  shows "length (filter (\<lambda>x. f x < f (xs ! i)) xs) = i"
  using assms
proof (induction xs arbitrary: i)
  case (Cons x xs)
  show ?case
  proof (cases i)
    case 0
    then show ?thesis using Cons.prems by (auto simp: filter_empty_conv)
  next
    case (Suc j)
    then show ?thesis using Cons by auto
  qed
qed simp

definition field_key :: "string \<times> 'ch ResolvedSimulationLapV3 \<Rightarrow> u64 \<times> string" where
  "field_key p = (f64_millis (cumulative_time_s (snd p)), fst p)"

lemma grid_position:
  assumes "distinct (map fst laps)" "p \<in> set laps"
  shows "position_map (rank_field laps) (fst p) =
    Some (of_nat (Suc (length (filter (\<lambda>q. field_key q < field_key p) laps))))"
proof -
  let ?key = "\<lambda>(competitor_id :: string, ms :: u64). (ms, competitor_id)"
  let ?f = "\<lambda>(competitor_id, lap). (competitor_id, f64_millis (cumulative_time_s lap))"
  let ?ranked = "rank_field laps"
  have key: "?key (?f q) = field_key q" for q by (cases q) (simp add: field_key_def)
  have ids: "map fst (map ?f laps) = map fst laps" by (rule nth_equalityI) (simp_all add: split_beta)
  have mset: "mset ?ranked = mset (map ?f laps)" by (simp add: rank_field_def)
  have "mset (map fst ?ranked) = mset (map fst (map ?f laps))" by (simp only: mset_map mset)
  then have dist: "distinct (map fst ?ranked)"
    unfolding ids using assms(1) mset_eq_imp_distinct_iff by blast
  have "sorted (map ?key ?ranked)" by (simp add: rank_field_def)
  moreover have "distinct (map ?key ?ranked)"
    using dist by (auto simp: distinct_conv_nth split_beta)
  ultimately have "sorted_wrt (<) (map ?key ?ranked)" by (simp only: strict_sorted_iff simp_thms)
  then have strict: "sorted_wrt (\<lambda>a b. ?key a < ?key b) ?ranked" by (simp only: sorted_wrt_map)
  have "set ?ranked = set (map ?f laps)" using arg_cong [OF mset, of set_mset] by (simp only: set_mset_mset)
  then have "?f p \<in> set ?ranked" using assms(2) by auto
  then obtain i where i: "i < length ?ranked" "?ranked ! i = ?f p" by (auto simp: in_set_conv_nth)
  have "i = length (filter (\<lambda>x. ?key x < ?key (?f p)) ?ranked)"
    using strict_sorted_index [OF strict i(1)] i(2) by simp
  also have "\<dots> = size (filter_mset (\<lambda>x. ?key x < ?key (?f p)) (mset ?ranked))" by (simp only: mset_filter [symmetric] size_mset)
  also have "\<dots> = length (filter (\<lambda>q. field_key q < field_key p) laps)"
    unfolding mset mset_filter [symmetric] size_mset filter_map length_map o_def key ..
  finally have len: "i = length (filter (\<lambda>q. field_key q < field_key p) laps)" .
  let ?pairs = "map (\<lambda>(index, competitor_id, _). (competitor_id, of_nat (index + 1) :: u32)) (enumerate 0 ?ranked)"
  have "map fst ?pairs = map fst ?ranked" by (rule nth_equalityI) (simp_all add: nth_enumerate_eq split_beta)
  then have "distinct (map fst (rev ?pairs))" using dist by (simp add: rev_map [symmetric])
  moreover have "?pairs ! i = (fst p, of_nat (Suc i))" using i by (simp add: nth_enumerate_eq split_beta)
  then have "(fst p, of_nat (Suc i)) \<in> set (rev ?pairs)"
    using i(1) by (metis length_enumerate length_map nth_mem set_rev)
  ultimately show ?thesis unfolding position_map_def len [symmetric] by (rule map_of_is_SomeI)
qed

section \<open>Collecting a race\<close>

text \<open>Every call of a started session returns, with a failure of the simulation, of a record or of the output,
  or with a batch; the session is then before the next lap, or completed.\<close>

lemma race_advance_cases:
  assumes "race_at E n s" "racers s \<noteq> []"
  obtains (failed) s' e where "race_advance E s = Some (s', Inl e)"
      "e \<notin> {DifferentBoundaries, NoCompetitors, DifferentLaps, IncrementalAlreadyCompleted}"
  | (lap) s' b where "race_advance E s = Some (s', Inr b)" "race_at E (Suc n) s'" "racers s' \<noteq> []"
      "race_session_laps s' = race_session_laps s" "n \<le> unat (race_session_laps s)"
      "map racer_id (racers s') = map racer_id (racers s)" "output_of_records (batch_records b) = None"
  | (finish) s' b out cs where "race_advance E s = Some (s', Inr b)" "race_completed s'"
      "output_of_records (batch_records b) = Some out" "finalize_output E (s\<lparr>racers := cs\<rparr>) = Inr out"
      "map racer_id cs = map racer_id (racers s)"
proof (cases "n \<le> unat (race_session_laps s)")
  case True
  obtain s' r where adv: "race_advance E s = Some (s', r)" and
    r: "case r of Inl e \<Rightarrow> e \<notin> {DifferentBoundaries, NoCompetitors, DifferentLaps, IncrementalAlreadyCompleted}
     | Inr batch \<Rightarrow> race_at E (Suc n) s' \<and> race_session_laps s' = race_session_laps s \<and>
         map racer_id (racers s') = map racer_id (racers s) \<and>
         (\<exists>ps. ps \<noteq> [] \<and> batch_records batch = records_from (race_next_sequence s) (of_nat n) ps \<and>
            batch_ok (batch_records batch) \<and> race_next_sequence s' = race_next_sequence s + of_nat (length ps))"
    using race_advance_lap [OF assms(1) True assms(2)] by blast
  show ?thesis
  proof (cases r)
    case (Inl e) then show ?thesis using r adv failed by simp
  next
    case (Inr b)
    have at: "race_at E (Suc n) s'" "race_session_laps s' = race_session_laps s" "map racer_id (racers s') = map racer_id (racers s)"
      and rs: "\<exists>ps. batch_records b = records_from (race_next_sequence s) (of_nat n) ps" using r Inr by auto
    show ?thesis
    proof (rule lap)
      show "race_advance E s = Some (s', Inr b)" using adv Inr by simp
      show "racers s' \<noteq> []" using at(3) assms(2) by (metis map_is_Nil_conv)
      show "output_of_records (batch_records b) = None" using rs by auto
    qed (use at True in simp_all)
  qed
next
  case False
  then have n: "n = Suc (unat (race_session_laps s))" using assms(1) by (simp add: race_at_def)
  obtain s' r where adv: "race_advance E s = Some (s', r)" and
    r: "case r of Inl e \<Rightarrow> e \<notin> {DifferentBoundaries, NoCompetitors, DifferentLaps, IncrementalAlreadyCompleted}
     | Inr batch \<Rightarrow> race_completed s' \<and>
         (\<exists>output cs. batch_records batch = [\<lparr>rec_sequence = race_next_sequence s,
              rec_tick = of_nat (unat (race_session_laps s)), rec_event = Complete output\<rparr>] \<and>
            batch_ok (batch_records batch) \<and> finalize_output E (s\<lparr>racers := cs\<rparr>) = Inr output \<and>
            map racer_id cs = map racer_id (racers s))"
    using race_advance_finish [OF assms(1) n assms(2)] by blast
  show ?thesis
  proof (cases r)
    case (Inl e) then show ?thesis using r adv failed by simp
  next
    case (Inr b)
    then show ?thesis using r adv finish by (fastforce simp del: of_nat_unat)
  qed
qed

lemma race_collect_step:
  "race_advance E s = Some (s', Inr b) \<Longrightarrow> race_collect E s =
     (case output_of_records (batch_records b) of Some out \<Rightarrow> Some (Inr out) | None \<Rightarrow> race_collect E s')"
  by (subst race_collect.simps) simp

lemma race_collect_total:
  "race_at E n s \<Longrightarrow> racers s \<noteq> [] \<Longrightarrow> \<exists>r. race_collect E s = Some r \<and>
     (\<forall>e. r = Inl e \<longrightarrow> e \<notin> {DifferentBoundaries, NoCompetitors, DifferentLaps, IncrementalAlreadyCompleted}) \<and>
     (\<forall>out. r = Inr out \<longrightarrow> standings_ok (map racer_id (racers s)) (race_standings out) (race_total_time_ms out))"
proof (induction "Suc (unat (race_session_laps s)) - n" arbitrary: n s rule: less_induct)
  case less
  show ?case
    using less.prems(1,2)
  proof (cases rule: race_advance_cases)
    case (failed s' e)
    then show ?thesis by (subst race_collect.simps) simp
  next
    case (lap s' b)
    have "Suc (unat (race_session_laps s')) - Suc n < Suc (unat (race_session_laps s)) - n" using lap by simp
    from less.hyps [OF this lap(2,3)] show ?thesis using lap by (simp add: race_collect_step [OF lap(1)])
  next
    case (finish s' b out cs)
    then show ?thesis
      using finalize_standings [OF finish(4)] by (simp add: race_collect_step [OF finish(1)])
  qed
qed

lemma race_run_Cons:
  assumes "race_advance E s = Some (s1, Inr b)" "race_run E s1 bs s'"
  shows "race_run E s (b # bs) s'"
  using assms(2)
proof induction
  case race_run_start
  show ?case using race_run_pull [OF race_run.race_run_start assms(1)] by simp
next
  case (race_run_pull bs s s')
  then show ?case using race_run.race_run_pull [of E _ "b # bs"] by simp
qed

text \<open>A consumer that pulls the batches sees the output that \<open>collect\<close> returns.\<close>

lemma race_collect_run:
  assumes "race_at E n s" "racers s \<noteq> []" "race_collect E s = Some (Inr out)"
  shows "\<exists>bs b s'. race_run E s (bs @ [b]) s' \<and> race_completed s' \<and> output_of_records (batch_records b) = Some out \<and>
    (\<forall>b'\<in>set bs. output_of_records (batch_records b') = None)"
  using assms
proof (induction "Suc (unat (race_session_laps s)) - n" arbitrary: n s rule: less_induct)
  case less
  show ?case
    using less.prems(1,2)
  proof (cases rule: race_advance_cases)
    case (failed s' e)
    then show ?thesis using less.prems(3) by (subst (asm) race_collect.simps) simp
  next
    case (lap s' b)
    have "Suc (unat (race_session_laps s')) - Suc n < Suc (unat (race_session_laps s)) - n" using lap by simp
    moreover have "race_collect E s' = Some (Inr out)" using less.prems(3) lap by (simp add: race_collect_step [OF lap(1)])
    ultimately obtain bs b' s'' where "race_run E s' (bs @ [b']) s''" "race_completed s''"
        "output_of_records (batch_records b') = Some out" "\<forall>b'\<in>set bs. output_of_records (batch_records b') = None"
      using less.hyps lap(2,3) by blast
    then show ?thesis
      using race_run_Cons [OF lap(1)] lap(7) by (intro exI [of _ "b # bs"] exI [of _ b'] exI [of _ s'']) auto
  next
    case (finish s' b out' cs)
    have "out' = out" using less.prems(3) finish by (simp add: race_collect_step [OF finish(1)])
    then show ?thesis
      using race_run_Cons [OF finish(1) race_run_start] finish by (intro exI [of _ "[]"] exI [of _ b] exI [of _ s']) auto
  qed
qed

section \<open>Properties\<close>

lemma new_v3_started:
  assumes "new_v3 E S race vehicle_id strategy laps seed = Inr s" "race_competitors race \<noteq> []"
  shows "race_started E s" "race_session_laps s = max laps 1" "map racer_id (racers s) = map competitor_spec_id (race_competitors race)"
proof -
  obtain track loss pits where cs: "try_map (new_racer E S track laps seed loss pits) (race_competitors race) = Inr (racers s)"
    and s: "race_session_laps s = max laps 1"
    using assms(1) by (auto simp: new_v3_def result_simps Let_def)
  have "racer_id c = competitor_spec_id spec" if "new_racer E S track laps seed loss pits spec = Inr c" for spec c
    using that by (auto simp: new_racer_def result_simps Let_def)
  then show ids: "map racer_id (racers s) = map competitor_spec_id (race_competitors race)"
    using cs unfolding try_map_Ok by (auto simp: list_all2_conv_all_nth intro!: nth_equalityI)
  then have "racers s \<noteq> []" using assms(2) by (metis map_is_Nil_conv)
  then show "race_started E s" using new_v3_at [OF assms(1)] by (simp add: race_started_def)
  show "race_session_laps s = max laps 1" by (rule s)
qed

text \<open>C5: whatever batches a consumer pulls from a new racing session, its stream cursor accepts all of them:
  the sequence numbers count from 0 without a gap, the ticks do not decrease, and the cursor is completed
  exactly when the session is.\<close>

theorem race_stream_accepted:
  assumes "new_v3 E S race vehicle_id strategy laps seed = Inr s0" "race_competitors race \<noteq> []"
    "race_run E s0 bs s"
  shows "\<exists>c. run_batches cursor_new bs = Inr c \<and> (completed c \<longleftrightarrow> race_completed s) \<and>
    (\<not> race_completed s \<longrightarrow> next_sequence c = race_next_sequence s \<and> length bs \<le> unat (max laps 1))"
proof -
  note started = new_v3_started [OF assms(1,2)]
  obtain c where "run_batches cursor_new bs = Inr c" "if race_completed s then completed c
     else racers s \<noteq> [] \<and> race_session_laps s = race_session_laps s0 \<and> map racer_id (racers s) = map racer_id (racers s0) \<and>
       race_at E (Suc (length bs)) s \<and> cursor_at s (length bs) c"
    using race_run_cursor [OF assms(3) started(1)] by blast
  then show ?thesis using started(2) by (intro exI [of _ c]) (auto simp: cursor_at_def race_at_def split: if_splits)
qed

text \<open>C9: collecting a new racing session always ends. It never fails because the competitors are at
  different boundaries or laps. When it gives an output, pulling the batches one by one ends with that same
  output in the last batch and none before, and its standings are those of the race: ordered by time,
  positions from 1, gaps to the first.\<close>

theorem race_collect_exact:
  assumes "new_v3 E S race vehicle_id strategy laps seed = Inr s" "race_competitors race \<noteq> []"
  shows "\<exists>r. race_collect E s = Some r \<and>
    (case r of
       Inl e \<Rightarrow> e \<notin> {DifferentBoundaries, NoCompetitors, DifferentLaps, IncrementalAlreadyCompleted}
     | Inr out \<Rightarrow>
         standings_ok (map competitor_spec_id (race_competitors race)) (race_standings out) (race_total_time_ms out) \<and>
         (\<exists>bs b s'. race_run E s (bs @ [b]) s' \<and> race_completed s' \<and> output_of_records (batch_records b) = Some out \<and>
            (\<forall>b'\<in>set bs. output_of_records (batch_records b') = None)))"
proof -
  note started = new_v3_started [OF assms]
  have at: "race_at E 1 s" "racers s \<noteq> []" using started(1) by (simp_all add: race_started_def)
  obtain r where r: "race_collect E s = Some r"
    "\<And>e. r = Inl e \<Longrightarrow> e \<notin> {DifferentBoundaries, NoCompetitors, DifferentLaps, IncrementalAlreadyCompleted}"
    "\<And>out. r = Inr out \<Longrightarrow> standings_ok (map racer_id (racers s)) (race_standings out) (race_total_time_ms out)"
    using race_collect_total [OF at] by blast
  show ?thesis
  proof (cases r)
    case (Inl e) then show ?thesis using r(1,2) by simp
  next
    case (Inr out)
    then show ?thesis using r(1,3) race_collect_run [OF at, of out] by (simp add: started(3))
  qed
qed

text \<open>The grid that is sent after a lap gives each competitor the position one more than the number of
  competitors that are ahead by cumulative time in milliseconds, then by identity.\<close>

theorem grid_positions_exact:
  assumes "distinct (map fst laps)" "i < length laps"
  shows "progress_competitor_id (grid_of s offsets laps lap ! i) = fst (laps ! i) \<and>
    progress_position (grid_of s offsets laps lap ! i) =
      of_nat (Suc (length (filter (\<lambda>q. field_key q < field_key (laps ! i)) laps)))"
  using grid_position [OF assms(1) nth_mem [OF assms(2)]] assms(2)
  by (simp add: grid_of_def split_beta)

section \<open>Playback data does not reach the output\<close>

text \<open>Sessions that differ in the playback flag only. Their records differ in the payload of a progress
  record only.\<close>

abbreviation with_playback :: "bool \<Rightarrow> ('phys, 'tire, 'ch, 'acc, 'rx, 'st) IncrementalRacingSession \<Rightarrow>
    ('phys, 'tire, 'ch, 'acc, 'rx, 'st) IncrementalRacingSession" where
  "with_playback b s \<equiv> s\<lparr>race_include_trajectories := b\<rparr>"

definition same_record :: "('p, 'c) StreamRecord \<Rightarrow> ('p, 'c) StreamRecord \<Rightarrow> bool" where
  "same_record r r' \<longleftrightarrow> rec_sequence r' = rec_sequence r \<and> rec_tick r' = rec_tick r \<and>
     (case rec_event r of Complete out \<Rightarrow> rec_event r' = Complete out | Progress _ \<Rightarrow> \<exists>p. rec_event r' = Progress p)"

definition same_call ::
  "bool \<Rightarrow> ('a \<Rightarrow> 'b \<Rightarrow> bool) \<Rightarrow> ('phys, 'tire, 'ch, 'acc, 'rx, 'st) IncrementalRacingSession \<times> ('e + 'a) \<Rightarrow>
     ('phys, 'tire, 'ch, 'acc, 'rx, 'st) IncrementalRacingSession \<times> ('e + 'b) \<Rightarrow> bool" where
  "same_call b R m m' \<longleftrightarrow> fst m' = with_playback b (fst m) \<and> rel_sum (=) R (snd m) (snd m')"

lemma same_call_then:
  assumes "same_call b R m m'" "\<And>s x x'. R x x' \<Longrightarrow> same_call b Q (f s x) (f' (with_playback b s) x')"
  shows "same_call b Q (st_then m f) (st_then m' f')"
proof -
  obtain s r s' r' where m: "m = (s, r)" "m' = (s', r')" by (metis surj_pair)
  with assms(1) have s': "s' = with_playback b s" and r: "rel_sum (=) R r r'" by (simp_all add: same_call_def)
  show ?thesis
    using r assms(2) by (cases r; cases r') (auto simp: m s' st_then_def same_call_def)
qed

lemma same_record_complete: "same_record r r' \<Longrightarrow> is_complete (rec_event r') = is_complete (rec_event r)"
  by (auto simp: same_record_def split: StreamEvent.splits)

lemma same_records_output: "list_all2 same_record rs rs' \<Longrightarrow> output_of_records rs' = output_of_records rs"
  by (induction rule: list_all2_induct) (auto simp: same_record_def split: StreamEvent.splits)

lemma same_records_pairs: "list_all2 same_record rs rs' \<Longrightarrow> validate_pairs rs' = validate_pairs rs"
proof (induction rs arbitrary: rs' rule: validate_pairs.induct)
  case (1 x y zs)
  then obtain x' y' zs' where rs': "rs' = x' # y' # zs'" "same_record x x'" "same_record y y'" "list_all2 same_record zs zs'"
    by (auto simp: list_all2_Cons1)
  have "validate_pairs (y' # zs') = validate_pairs (y # zs)" if "checked_add (rec_sequence x) 1 = Some n"
      "rec_sequence y = n" "\<not> rec_tick y < rec_tick x" "\<not> is_complete (rec_event x)" for n
    using "1.IH" [of n "y' # zs'"] that rs' by simp
  then show ?case
    using rs' same_record_complete [OF rs'(2)]
    by (cases "checked_add (rec_sequence x) 1") (auto simp: same_record_def)
qed (auto simp: list_all2_Cons1)

lemma same_records_batch:
  assumes "list_all2 same_record rs rs'"
  shows "rel_sum (=) (\<lambda>a b. list_all2 same_record (batch_records a) (batch_records b)) (batch_new rs) (batch_new rs')"
proof -
  have each: "try_each (\<lambda>r. and_also (validate_portable_integer ''sequence'' (rec_sequence r))
      (validate_portable_integer ''logical_tick'' (rec_tick r))) rs' =
     try_each (\<lambda>r. and_also (validate_portable_integer ''sequence'' (rec_sequence r))
      (validate_portable_integer ''logical_tick'' (rec_tick r))) rs"
    using assms by (induction rule: list_all2_induct) (simp_all add: same_record_def)
  have "rs' = [] \<longleftrightarrow> rs = []" "length rs' = length rs" using assms by (auto dest: list_all2_lengthD)
  then have "validate_batch_structure rs' = validate_batch_structure rs"
    by (simp add: validate_batch_structure_def each same_records_pairs [OF assms])
  then show ?thesis
    using assms by (cases "validate_batch_structure rs") (simp_all add: batch_new_def)
qed

lemma same_next_record:
  "same_call b same_record (next_record s tick (Progress p)) (next_record (with_playback b s) tick (Progress p'))"
  by (auto simp: next_record_def same_call_def record_new_def same_record_def validate_portable_integer_def
      split: option.splits)

lemma same_progress_records:
  fixes s :: "('phys, 'tire, 'ch, 'acc, 'rx, 'st) IncrementalRacingSession"
  shows "length ps' = length ps \<Longrightarrow>
   same_call b (list_all2 (same_record :: 'diag RacingSessionStreamRecordV1 \<Rightarrow> _)) (progress_records s tick ps)
     (progress_records (with_playback b s) tick ps')"
proof (induction ps arbitrary: s ps')
  case (Cons p ps)
  then obtain p' qs where ps': "ps' = p' # qs" "length qs = length ps" by (cases ps') auto
  have tail: "same_call b (list_all2 (same_record :: 'diag RacingSessionStreamRecordV1 \<Rightarrow> _))
      (st_then (progress_records s1 tick ps) (\<lambda>s rs. (s, Inr (r # rs))))
      (st_then (progress_records (with_playback b s1) tick qs) (\<lambda>s rs. (s, Inr (r' # rs))))"
    if "same_record r r'" for s1 :: "('phys, 'tire, 'ch, 'acc, 'rx, 'st) IncrementalRacingSession" and r r'
    using that by (intro same_call_then [OF Cons.IH [OF ps'(2)]]) (simp add: same_call_def)
  show ?case unfolding ps' progress_records.simps by (rule same_call_then [OF same_next_record]) (rule tail)
qed (simp add: same_call_def)

lemma same_lap_telemetry:
  fixes s :: "('phys, 'tire, 'ch, 'acc, 'rx, 'st) IncrementalRacingSession" and E :: "('phys, 'tire, 'ch, 'acc, 'rx, 'st, 'diag) race_engine"
  shows "same_call b (list_all2 same_record) (lap_telemetry E offset s lap) (lap_telemetry E offset (with_playback b s) lap)"
proof -
  have "race_header (with_playback b s) = race_header s" by (simp add: race_header_def)
  moreover have "same_call b (list_all2 (same_record :: 'diag RacingSessionStreamRecordV1 \<Rightarrow> _))
      (progress_records (s\<lparr>race_next_frame_sequence := n\<rparr>) tick ps)
      (progress_records (with_playback b s\<lparr>race_next_frame_sequence := n\<rparr>) tick ps)" for n tick ps
  proof -
    have commute: "with_playback b s\<lparr>race_next_frame_sequence := n\<rparr> = with_playback b (s\<lparr>race_next_frame_sequence := n\<rparr>)"
      by (cases s) simp
    show ?thesis unfolding commute by (rule same_progress_records) simp
  qed
  ultimately show ?thesis
    by (auto simp: lap_telemetry_def same_call_def split: option.splits sum.splits)
qed

lemma same_emit_lap:
  fixes s :: "('phys, 'tire, 'ch, 'acc, 'rx, 'st) IncrementalRacingSession" and E :: "('phys, 'tire, 'ch, 'acc, 'rx, 'st, 'diag) race_engine"
  shows "same_call b (\<lambda>x y. list_all2 same_record (batch_records x) (batch_records y))
     (emit_lap E before s laps lap) (emit_lap E before (with_playback b s) laps lap)"
  unfolding emit_lap_def Let_def
proof (rule same_call_then [OF same_progress_records])
  fix s1 :: "('phys, 'tire, 'ch, 'acc, 'rx, 'st) IncrementalRacingSession" and grid grid' :: "'diag RacingSessionStreamRecordV1 list"
  assume grid: "list_all2 same_record grid grid'"
  let ?offset = "case player_of before of None \<Rightarrow> (F64_ZERO, F64_ZERO) | Some c \<Rightarrow> racer_offset c"
  show "same_call b (\<lambda>x y. list_all2 same_record (batch_records x) (batch_records y))
     (st_then (lap_telemetry E ?offset s1 lap) (\<lambda>s telemetry.
      st_then (progress_records s (ucast lap) (map SessionEvent (concat (map (racer_events lap) (racers s))))) (\<lambda>s events.
        (s, map_err InvalidBatch (batch_new (grid @ telemetry @ events))))))
     (st_then (lap_telemetry E ?offset (with_playback b s1) lap) (\<lambda>s telemetry.
      st_then (progress_records s (ucast lap) (map SessionEvent (concat (map (racer_events lap) (racers s))))) (\<lambda>s events.
        (s, map_err InvalidBatch (batch_new (grid' @ telemetry @ events))))))"
  proof (rule same_call_then [OF same_lap_telemetry])
    fix s2 :: "('phys, 'tire, 'ch, 'acc, 'rx, 'st) IncrementalRacingSession" and tele tele' :: "'diag RacingSessionStreamRecordV1 list"
    assume tele: "list_all2 same_record tele tele'"
    show "same_call b (\<lambda>x y. list_all2 same_record (batch_records x) (batch_records y))
      (st_then (progress_records s2 (ucast lap) (map SessionEvent (concat (map (racer_events lap) (racers s2))))) (\<lambda>s events.
        (s, map_err InvalidBatch (batch_new (grid @ tele @ events)))))
      (st_then (progress_records (with_playback b s2) (ucast lap) (map SessionEvent (concat (map (racer_events lap)
          (racers (with_playback b s2)))))) (\<lambda>s events.
        (s, map_err InvalidBatch (batch_new (grid' @ tele' @ events)))))"
    proof (rule same_call_then [OF same_progress_records])
      fix s3 :: "('phys, 'tire, 'ch, 'acc, 'rx, 'st) IncrementalRacingSession" and ev ev' :: "'diag RacingSessionStreamRecordV1 list"
      assume "list_all2 same_record ev ev'"
      then have "list_all2 same_record (grid @ tele @ ev) (grid' @ tele' @ ev')"
        using grid tele by (intro list_all2_appendI)
      from same_records_batch [OF this]
      show "same_call b (\<lambda>x y. list_all2 same_record (batch_records x) (batch_records y))
          (s3, map_err InvalidBatch (batch_new (grid @ tele @ ev)))
          (with_playback b s3, map_err InvalidBatch (batch_new (grid' @ tele' @ ev')))"
        by (cases "batch_new (grid @ tele @ ev)"; cases "batch_new (grid' @ tele' @ ev')") (simp_all add: same_call_def)
    qed simp
  qed
qed simp

lemma same_next_complete:
  "same_call b (=) (next_record s tick (Complete out)) (next_record (with_playback b s) tick (Complete out))"
  by (auto simp: next_record_def same_call_def record_new_def validate_portable_integer_def map_err_def
      split: option.splits sum.splits)

lemma same_finalize_rows: "finalize_rows E (with_playback b s) cs p = finalize_rows E s cs p"
  by (induction cs arbitrary: p) (simp_all add: row_of_def player_output_of_def race_header_def cong: if_cong)

lemma same_finalize_output: "finalize_output E (with_playback b s) = finalize_output E s"
  by (simp add: finalize_output_def same_finalize_rows cong: if_cong)

lemma same_complete_race:
  fixes E :: "('a, 'b, 'c, 'd, 'e, 'f, 'g) race_engine"
  shows "same_call b (\<lambda>x y. list_all2 same_record (batch_records x) (batch_records y)) (complete_race E s) (complete_race E (with_playback b s))"
proof (cases "finalize_output E s")
  case (Inr out)
  have refl: "list_all2 same_record rs rs" for rs :: "'g RacingSessionStreamRecordV1 list"
    by (simp add: list_all2_conv_all_nth same_record_def split: StreamEvent.split)
  have "same_call b (\<lambda>x y. list_all2 same_record (batch_records x) (batch_records y))
     (s1\<lparr>race_completed := True\<rparr>, map_err InvalidBatch (batch_new [r :: 'g RacingSessionStreamRecordV1]))
     ((with_playback b s1)\<lparr>race_completed := True\<rparr>, map_err InvalidBatch (batch_new [r]))"
    for s1 :: "('a, 'b, 'c, 'd, 'e, 'f) IncrementalRacingSession" and r
    by (cases "batch_new [r]") (simp_all add: same_call_def refl)
  with Inr show ?thesis
    unfolding complete_race_def same_finalize_output
    by (auto intro!: same_call_then [OF same_next_complete])
qed (simp add: complete_race_def same_finalize_output same_call_def)

lemma same_race_advance:
  "rel_option (same_call b (\<lambda>x y. list_all2 same_record (batch_records x) (batch_records y)))
     (race_advance E s) (race_advance E (with_playback b s))"
proof -
  have commute: "(with_playback b s)\<lparr>racers := cs\<rparr> = with_playback b (s\<lparr>racers := cs\<rparr>)" for cs by simp
  have failed: "same_call b R (t, Inl e) (with_playback b t, Inl e)" for R t e by (simp add: same_call_def)
  show ?thesis
    unfolding race_advance_def commute
    by (auto simp: Let_def same_complete_race same_emit_lap failed
        split: option.split sum.split list.split prod.split)
qed

lemma same_race_collect:
  "race_at E n s \<Longrightarrow> racers s \<noteq> [] \<Longrightarrow> race_collect E (with_playback b s) = race_collect E s"
proof (induction "Suc (unat (race_session_laps s)) - n" arbitrary: n s rule: less_induct)
  case less
  note same = same_race_advance [of b E s]
  have step: "\<exists>b'. race_advance E (with_playback b s) = Some (with_playback b s', Inr b') \<and>
      output_of_records (batch_records b') = output_of_records (batch_records c)"
    if "race_advance E s = Some (s', Inr c)" for s' c
    using same that same_records_output by (fastforce simp: same_call_def option_rel_Some1 rel_sum.simps)
  show ?case
    using less.prems(1,2)
  proof (cases rule: race_advance_cases)
    case (failed s' e)
    then have "race_advance E (with_playback b s) = Some (with_playback b s', Inl e)"
      using same by (auto simp: same_call_def option_rel_Some1 rel_sum.simps)
    with failed show ?thesis by (subst (1 2) race_collect.simps) simp
  next
    case (lap s' c)
    have "Suc (unat (race_session_laps s')) - Suc n < Suc (unat (race_session_laps s)) - n" using lap by simp
    from less.hyps [OF this lap(2,3)] show ?thesis
      using step [OF lap(1)] lap(7) race_collect_step [OF lap(1)] race_collect_step by fastforce
  next
    case (finish s' c out cs)
    then show ?thesis
      using step [OF finish(1)] race_collect_step [OF finish(1)] race_collect_step by fastforce
  qed
qed

section \<open>A race of one competitor\<close>

definition sample_engine :: "(unit, nat, unit, unit, unit, unit, unit) race_engine" where
  "sample_engine = \<lparr>engine_solver = \<lparr>validate_physics = (\<lambda>_. Inr ()), validate_options = (\<lambda>_. Inr ()), sqrt_recip = (\<lambda>x. x),
       no_totals = (),
       solve_lap = (\<lambda>req k tire lap. Inr \<lparr>numbers_t = [F64_ONE], numbers_state = Inr (kernel_state k),
          numbers_end_speed = None, numbers_end_gear = None, numbers_shift_remaining = F64_ZERO,
          numbers_channels = (), numbers_totals = ()\<rparr>),
       finish_kernel = (\<lambda>req k. Inr \<lparr>result_lap_times_s = kernel_lap_times k, result_final_fuel_mass_kg = None, result_rest = ()\<rparr>)\<rparr>,
     with_top_speed = Inr, lap_frames = (\<lambda>_ _ _ _. Inr []), race_frames = (\<lambda>_ _ _. Inr []), output_diagnostics = (\<lambda>_. ())\<rparr>"

definition sample_setup :: "(unit, nat, unit, unit, unit, unit) race_setup" where
  "sample_setup = \<lparr>setup_track = (\<lambda>_. Inr ()), setup_track_id = (\<lambda>name. name), setup_track_pit_loss = (\<lambda>_. 22000),
     setup_check_components = (\<lambda>_. Inr ()), setup_check_instructions = (\<lambda>_ _ _. Inr ()), setup_vehicle = (\<lambda>_. Inr ()),
     setup_default_tire = (\<lambda>_. ''soft''), setup_controls = (\<lambda>_ _ _. Inr ()), setup_transitions = (\<lambda>_. None),
     setup_tires = map_of [(''soft'', 1), (''hard'', 2)], setup_request = (\<lambda>_ _ _ _ _ _. Inr sample_request),
     setup_static = (\<lambda>_ _ _ _. ()), setup_has_transmission = (\<lambda>_. False)\<rparr>"

definition sample_race :: RaceInput where
  "sample_race = \<lparr>race_track_id = ''monza'', race_laps = 5, race_competitors = [sample_competitor]\<rparr>"

definition sample_race_request :: "(unit, nat) ResolvedSimulationRequestV3" where
  "sample_race_request = sample_request\<lparr>request_lap_count := 5, request_pit_stops := [\<lparr>stop_lap = 2, stop_tire = 2\<rparr>],
     request_control_schedule := []\<rparr>"

definition sample_solver_session :: "(unit, nat, unit, unit) SolverSession" where
  "sample_solver_session = \<lparr>session_request = sample_race_request, session_future = NotStarted, session_lap_slot = None,
     session_complete = False\<rparr>"

definition sample_race_session :: "(unit, nat, unit, unit, unit, unit) IncrementalRacingSession" where
  "sample_race_session = \<lparr>race_session_track_id = ''monza'', race_session_vehicle_id = ''v'', race_session_laps = 5,
     race_session_seed = 7, race_session_pit_loss_ms = 22000, race_session_player_pit_laps = [],
     racers = [\<lparr>racer_id = ''player'', racer_is_player = True, racer_static = (), racer_has_transmission = False,
        racer_plan = \<lparr>tire_by_lap = [''soft'', ''soft'', ''hard'', ''hard'', ''hard''], pit_laps = [2]\<rparr>, racer_schedule = None,
        racer_solver = sample_solver_session, racer_latest_lap = None, racer_result = None\<rparr>],
     race_next_sequence = 0, race_next_frame_sequence = 0, race_include_trajectories = False, race_completed = False,
     race_minimum_finish_reserve_kg = None\<rparr>"

lemma sample_solver_new: "session_new (engine_solver sample_engine) sample_race_request = Inr sample_solver_session"
  by (simp add: session_new_def validate_resolved_simulation_request_v3_def sample_engine_def sample_race_request_def
      sample_request_def sample_control_valid validate_driver_correction_workload_v3_def
      validate_driver_control_schedule_v3_def sample_solver_session_def)

lemma sample_new_v3: "new_v3 sample_engine sample_setup sample_race ''v'' None 5 7 = Inr sample_race_session"
proof -
  have plan: "resolve_stint_plan sample_competitor 5 ''soft'' [] =
      Inr \<lparr>tire_by_lap = [''soft'', ''soft'', ''hard'', ''hard'', ''hard''], pit_laps = [2]\<rparr>"
    using sample_plan by (simp add: resolve_stint_plan_def sample_competitor_def)
  have five: "max 5 1 = (5 :: u16)" "\<not> (5 :: u16) \<le> 1" by (simp_all add: max_def word_le_nat_alt)
  have who: "competitor_spec_id sample_competitor = ''player''" "is_player_spec sample_competitor"
    by (simp_all add: sample_competitor_def is_player_spec_def)
  have "new_racer sample_engine sample_setup () 5 7 22000 [] sample_competitor = Inr (hd (racers sample_race_session))"
    using sample_solver_new
    by (simp add: new_racer_def sample_setup_def plan build_pit_plan_def pit_stop_for_def sample_race_session_def
        sample_race_request_def five who Let_def)
  then show ?thesis
    by (simp add: new_v3_def sample_setup_def sample_race_def sanitize_pit_laps_def sample_race_session_def five)
qed

lemma sample_race_nonempty: "race_competitors sample_race \<noteq> []"
  by (simp add: sample_race_def)

lemma sample_first_lap: "\<exists>s b. race_advance sample_engine sample_race_session = Some (s, Inr b)"
proof -
  let ?L = "engine_solver sample_engine"
  obtain k where k: "session_open ?L sample_solver_session k" "kernel_next_lap k = 1"
      "session_request sample_solver_session = sample_race_request"
    using session_new_open [OF sample_solver_new] by metis
  have v: "schedule_ok sample_race_request" "kernel_inv ?L sample_race_request k"
    using k by (simp_all add: session_open_def)
  have left: "0 < laps_left sample_solver_session k"
    by (simp add: laps_left_def k(2,3) effective_lap_count_bounds)
  have "is_ok (kernel_lap ?L sample_race_request k)"
    unfolding kernel_lap_def apply_control_schedule_Ok [OF v] by (simp add: Let_def sample_engine_def)
  then obtain lap k' where lap: "kernel_lap ?L sample_race_request k = Inr (lap, k')"
    by (auto simp: is_ok_iff)
  obtain solver where adv: "session_advance ?L sample_solver_session = Some (solver, Inr (LapStep lap))"
      "lap_faithful sample_race_request 1 lap"
    using session_advance_lap [OF k(1) left] unfolding k(3) lap by (auto simp: k(2))
  then have idx: "lap_index lap = 1" "\<not> pit_stop_completed lap"
    by (auto simp: lap_faithful_def sample_race_request_def word_unat_eq_iff)
  have frames: "lap_frames sample_engine s c l off = Inr []" for s c l off by (simp add: sample_engine_def)
  show ?thesis
    by (simp add: race_advance_def sample_race_session_def adv emit_lap_def idx st_then_def next_record_def
        checked_add_def record_new_def validate_portable_integer_def MAX_SAFE_JSON_INTEGER_def lap_telemetry_def
        player_of_def frames telemetry_progress_def number_frames_def racer_events_def batch_new_Ok batch_ok_def
        batch_new_def validate_batch_structure_def MAX_INCREMENTAL_STREAM_BATCH_RECORDS_def Let_def)
qed

theorem race_stream_accepted_witness:
  "\<exists>b s c. race_run sample_engine sample_race_session [b] s \<and> run_batches cursor_new [b] = Inr c \<and>
     (completed c \<longleftrightarrow> race_completed s)"
proof -
  obtain b s where "race_run sample_engine sample_race_session [b] s"
    using sample_first_lap race_run_Cons race_run_start by metis
  then show ?thesis using race_stream_accepted [OF sample_new_v3 sample_race_nonempty] by blast
qed

theorem race_collect_exact_witness: "\<exists>r. race_collect sample_engine sample_race_session = Some r"
  using race_collect_exact [OF sample_new_v3 sample_race_nonempty] by blast

definition sample_lap :: "64 word \<Rightarrow> unit ResolvedSimulationLapV3" where
  "sample_lap time = \<lparr>lap_index = 1, lap_time_s = time, cumulative_time_s = time, cumulative_distance_m = F64_ONE,
     state_after_lap = \<lparr>fuel_mass = 0, tire_wear = 0, tire_temp = 0, engine_temp = 0\<rparr>, end_speed_mps = None, end_gear = None,
     shift_time_remaining_s = F64_ZERO, active_driver_control = sample_control, correction_workload_multiplier = None,
     pit_stop_completed = False, lap_solution = \<lparr>solution_s = [], solution_t = []\<rparr>, lap_channels = ()\<rparr>"

theorem grid_positions_exact_witness:
  "progress_position (grid_of sample_race_session Map.empty [(''b'', sample_lap F64_ZERO), (''a'', sample_lap F64_ZERO)] 1 ! 0) = 2"
proof -
  let ?laps = "[(''b'', sample_lap F64_ZERO), (''a'', sample_lap F64_ZERO)]"
  have key: "field_key (id, sample_lap F64_ZERO) = (f64_millis F64_ZERO, id)" for id
    by (simp add: field_key_def sample_lap_def)
  have less: "\<not> ''b'' < ''b''" "''a'' < ''b''" by (simp_all add: less_char_def)
  show ?thesis
    using grid_positions_exact [of ?laps 0 sample_race_session Map.empty 1] by (simp add: key less)
qed

end
