(* ===== verification/Race_Start.thy ===== *)
theory Race_Start
  imports Incremental_Session
begin

text \<open>
  How a published V3 race is started: \<open>normalize_and_validate_race_input\<close> of
  \<open>crates/pitgun-racing-policy/src/lib.rs\<close>, and the timeline and fuel-contract candidates of
  \<open>crates/pitgun-racing-simulator/src/lib.rs\<close> with their common start and their one-shot run.

  The tuning policy engine, the resource tables and the physical resolution of a race are
  the parameter \<open>race_host\<close>; the checks on the request and on the catalog, and their order, are
  modelled.
\<close>

section \<open>Race input\<close>

record 'rest RunRaceInput =
  input_race :: RaceInput
  input_vehicle_id :: "string option"
  input_pit_strategy :: "PitStrategyConfig option"
  input_era :: "32 word"
  input_hz :: "64 word"
  input_initial_fuel_mass_kg :: "64 word option"
  input_rest :: 'rest

datatype PolicyError =
    InvalidTrackId string
  | InvalidLapCount u16 u16
  | CompetitorError string string
  | PolicyLoad string

text \<open>\<open>tuning\<close> stands for the canonicalization of a tuning by the policy engine in an era and under a budget.\<close>

definition normalize_competitor ::
    "(u32 \<Rightarrow> 64 word \<Rightarrow> TuningSpec \<Rightarrow> string + TuningSpec) \<Rightarrow> CompetitorSpec \<Rightarrow> u32 \<Rightarrow> string + CompetitorSpec" where
  "normalize_competitor tuning spec era =
     (if \<not> is_finite64 (competitor_budget_cap spec) \<or> f64_lt (competitor_budget_cap spec) F64_ZERO
      then Err ''budget_cap must be finite and >= 0''
      else map_ok (\<lambda>canonical. spec\<lparr>competitor_tuning := canonical\<rparr>)
        (tuning era (competitor_budget_cap spec) (competitor_tuning spec)))"

definition normalize_and_validate_race_input_with_policy ::
    "(u32 \<Rightarrow> 64 word \<Rightarrow> TuningSpec \<Rightarrow> string + TuningSpec) \<Rightarrow> RaceInput \<Rightarrow> u32 \<Rightarrow> PolicyError + RaceInput" where
  "normalize_and_validate_race_input_with_policy tuning race era =
     (if race_laps race = 0 \<or> 100 < race_laps race then Err (InvalidLapCount (race_laps race) 100)
      else if trim (race_track_id race) = [] then Err (InvalidTrackId ''empty'')
      else map_ok (\<lambda>cs. race\<lparr>race_competitors := cs\<rparr>)
        (try_map (\<lambda>spec. map_err (CompetitorError (competitor_spec_id spec)) (normalize_competitor tuning spec era))
          (race_competitors race)))"

section \<open>The host of a race\<close>

record V3DriverControlExperimentV1 =
  control_drivers :: "(string \<times> RacingDriverResourceV2) list"
  competitor_modes :: "(string \<times> RacingDrivingMode) list"

record V3DriverInstructionExperimentV1 =
  experiment_drivers :: "(string \<times> RacingDriverResourceV2) list"
  experiment_instruction_profile :: RacingDriverInstructionProfileV1
  experiment_timeline :: RacingDriverInstructionTimelineV1

datatype V3DriverExperiment = ControlExperiment V3DriverControlExperimentV1 | InstructionExperiment V3DriverInstructionExperimentV1

text \<open>The model of a session: \<open>SessionExecution\<close> with the parts of the input that only the resolution reads.\<close>

record ('res, 'rest) SessionExecution =
  execution_profile :: V3CandidateExperimentProfile
  execution_thermal :: 'res
  execution_driver_experiment :: "V3DriverExperiment option"
  execution_initial_fuel_mass_kg :: "64 word"
  execution_rest :: 'rest

record ('phys, 'tire, 'ch, 'acc, 'rx, 'st, 'diag, 'track, 'veh, 'ctl, 'pol, 'cat, 'res, 'rest) race_host =
  host_engine :: "('phys, 'tire, 'ch, 'acc, 'rx, 'st, 'diag) race_engine"
  host_policy :: "string + 'pol"
  host_tuning :: "'pol \<Rightarrow> u32 \<Rightarrow> 64 word \<Rightarrow> TuningSpec \<Rightarrow> string + TuningSpec"
  host_catalog :: "'res RacingCatalogSnapshot \<Rightarrow> string + 'cat"
  host_setup :: "'cat \<Rightarrow> ('res, 'rest) SessionExecution \<Rightarrow> ('phys, 'tire, 'track, 'veh, 'ctl, 'st) race_setup"

datatype RaceStartError =
    InvalidExperimentProfile ProfileError
  | ProfileRejectsDriverExperiment
  | ProfileRequiresDriverExperiment
  | ThermalSelectionRequiresProfile
  | PreResolvedThermalProfile
  | NoRaceCompetitors
  | InvalidRaceInput PolicyError
  | VehicleIdRequired
  | EmbeddedCatalogInvalid string
  | InitialFuelOutOfRange
  | SessionRejected StartError
  | CandidateCatalogIncompatible CatalogContractError
  | NoPowerUnitThermalProfile
  | NoDriverControlProfile
  | NoInstructionProfile
  | NoV2Drivers
  | FuelOverrideForbidden
  | NoFuelContract

section \<open>Starting a race\<close>

definition normalize_and_validate_race_input ::
    "('phys, 'tire, 'ch, 'acc, 'rx, 'st, 'diag, 'track, 'veh, 'ctl, 'pol, 'cat, 'res, 'rest) race_host \<Rightarrow>
       RaceInput \<Rightarrow> u32 \<Rightarrow> PolicyError + RaceInput" where
  "normalize_and_validate_race_input H race era =
     and_then (map_err PolicyLoad (host_policy H)) (\<lambda>pol.
       normalize_and_validate_race_input_with_policy (host_tuning H pol) race era)"

definition resolve_vehicle_id :: "string option \<Rightarrow> RaceStartError + string" where
  "resolve_vehicle_id vehicle_id =
     (case vehicle_id of
        None \<Rightarrow> Err VehicleIdRequired
      | Some v \<Rightarrow> if trim v = [] then Err VehicleIdRequired else Ok (trim v))"

text \<open>\<open>request.era.unwrap_or(request.input.era)\<close>, with eras that are not positive mapped to zero.\<close>

definition validation_era :: "'rest RunRaceInput RunRaceRequest \<Rightarrow> u32" where
  "validation_era request =
     (let era = (case request_era request of None \<Rightarrow> input_era (request_input request) | Some e \<Rightarrow> e)
      in if 0 < sint era then era else 0)"

definition check_driver_experiment ::
    "V3CandidateExperimentProfileVersion \<Rightarrow> V3DriverExperiment option \<Rightarrow> RaceStartError + unit" where
  "check_driver_experiment version experiment =
     (if version = ProfileV9
      then ensure (experiment = None) ProfileRejectsDriverExperiment
      else if version \<in> {ProfileV10, ProfileV11}
      then ensure (experiment \<noteq> None) ProfileRequiresDriverExperiment
      else Err ThermalSelectionRequiresProfile)"

definition start_incremental_race_with_catalog_and_v3_component_profile ::
    "('phys, 'tire, 'ch, 'acc, 'rx, 'st, 'diag, 'track, 'veh, 'ctl, 'pol, 'cat, 'res, 'rest) race_host \<Rightarrow>
       'rest RunRaceInput RunRaceRequest \<Rightarrow> 'res RacingCatalogSnapshot \<Rightarrow> V3CandidateExperimentProfile \<Rightarrow> 'res \<Rightarrow>
       V3DriverExperiment option \<Rightarrow>
       RaceStartError + ('phys, 'tire, 'ch, 'acc, 'rx, 'st) IncrementalRacingSession" where
  "start_incremental_race_with_catalog_and_v3_component_profile H request snapshot prof candidate experiment =
     (let inp = request_input request in
      and_also (map_err InvalidExperimentProfile (profile_validate prof))
     (and_also (check_driver_experiment (profile_schema_version prof) experiment)
     (and_also (ensure (profile_engine_thermal_resolution prof = None) PreResolvedThermalProfile)
     (and_also (ensure (race_competitors (input_race inp) \<noteq> []) NoRaceCompetitors)
     (and_then (map_err InvalidRaceInput
        (normalize_and_validate_race_input H (input_race inp) (validation_era request))) (\<lambda>race.
      and_then (resolve_vehicle_id (input_vehicle_id inp)) (\<lambda>vehicle_id.
      and_then (map_err EmbeddedCatalogInvalid (host_catalog H snapshot)) (\<lambda>catalog.
      let fuel = (case input_initial_fuel_mass_kg inp of None \<Rightarrow> F64_100 | Some f \<Rightarrow> f) in
      and_also (ensure (finite_in F64_ONE F64_200 fuel) InitialFuelOutOfRange)
      (map_err SessionRejected
        (new_v3 (host_engine H)
          (host_setup H catalog \<lparr>execution_profile = prof, execution_thermal = candidate,
             execution_driver_experiment = experiment, execution_initial_fuel_mass_kg = fuel,
             execution_rest = input_rest inp\<rparr>)
          race vehicle_id (input_pit_strategy inp) (race_laps race) (request_seed request)))))))))))"

definition start_incremental_race_with_catalog_and_v3_timeline_candidate ::
    "externals \<Rightarrow> ('phys, 'tire, 'ch, 'acc, 'rx, 'st, 'diag, 'track, 'veh, 'ctl, 'pol, 'cat, 'res, 'rest) race_host \<Rightarrow>
       'rest RunRaceInput RunRaceRequest \<Rightarrow> 'res RacingCatalogSnapshot \<Rightarrow> RacingDriverInstructionTimelineV1 \<Rightarrow>
       RaceStartError + ('phys, 'tire, 'ch, 'acc, 'rx, 'st) IncrementalRacingSession" where
  "start_incremental_race_with_catalog_and_v3_timeline_candidate ext H request snapshot timeline =
     and_also (map_err CandidateCatalogIncompatible
       (compatibility_validate_for (compatibility (snapshot_manifest snapshot))
         (racing_model_v3_timeline_candidate_identity ext) ContractV1))
    (and_then (ok_or (power_unit_thermal_profile snapshot) NoPowerUnitThermalProfile) (\<lambda>thermal.
     and_then (ok_or (catalog_driver_control_profile snapshot) NoDriverControlProfile) (\<lambda>control.
     and_then (ok_or (driver_instruction_profile snapshot) NoInstructionProfile) (\<lambda>instructions.
     and_also (ensure (drivers_v2 snapshot \<noteq> []) NoV2Drivers)
     (start_incremental_race_with_catalog_and_v3_component_profile H request snapshot
       (default_profile\<lparr>profile_schema_version := ProfileV11, profile_driver_control_profile := Some control\<rparr>) thermal
       (Some (InstructionExperiment \<lparr>experiment_drivers = drivers_v2 snapshot,
          experiment_instruction_profile = instructions, experiment_timeline = timeline\<rparr>)))))))"

definition start_incremental_race_with_catalog_and_v3_fuel_contract_candidate ::
    "externals \<Rightarrow> ('phys, 'tire, 'ch, 'acc, 'rx, 'st, 'diag, 'track, 'veh, 'ctl, 'pol, 'cat, 'res, 'rest) race_host \<Rightarrow>
       'rest RunRaceInput RunRaceRequest \<Rightarrow> 'res RacingCatalogSnapshot \<Rightarrow> RacingDriverInstructionTimelineV1 \<Rightarrow>
       RaceStartError + ('phys, 'tire, 'ch, 'acc, 'rx, 'st) IncrementalRacingSession" where
  "start_incremental_race_with_catalog_and_v3_fuel_contract_candidate ext H request snapshot timeline =
     and_also (map_err CandidateCatalogIncompatible
       (compatibility_validate_for (compatibility (snapshot_manifest snapshot))
         (racing_model_v3_fuel_contract_candidate_identity ext) ContractV1))
    (and_also (ensure (input_initial_fuel_mass_kg (request_input request) = None) FuelOverrideForbidden)
    (and_then (ok_or (fuel_contract snapshot) NoFuelContract) (\<lambda>contract.
     and_then (ok_or (power_unit_thermal_profile snapshot) NoPowerUnitThermalProfile) (\<lambda>thermal.
     and_then (ok_or (catalog_driver_control_profile snapshot) NoDriverControlProfile) (\<lambda>control.
     and_then (ok_or (driver_instruction_profile snapshot) NoInstructionProfile) (\<lambda>instructions.
     and_also (ensure (drivers_v2 snapshot \<noteq> []) NoV2Drivers)
     (map_ok (\<lambda>session. session\<lparr>race_minimum_finish_reserve_kg := Some (minimum_finish_reserve_kg contract)\<rparr>)
       (start_incremental_race_with_catalog_and_v3_component_profile H
         (request\<lparr>request_input := (request_input request)\<lparr>input_initial_fuel_mass_kg :=
            Some (default_initial_fuel_mass_kg contract)\<rparr>\<rparr>) snapshot
         (default_profile\<lparr>profile_schema_version := ProfileV11, profile_driver_control_profile := Some control,
            profile_fuel_mass := Some (consumption contract)\<rparr>) thermal
         (Some (InstructionExperiment \<lparr>experiment_drivers = drivers_v2 snapshot,
            experiment_instruction_profile = instructions, experiment_timeline = timeline\<rparr>))))))))))"

section \<open>Running a race to its end\<close>

datatype RaceRunError = RaceNotStarted RaceStartError | RaceFailed IncrementalError

definition collect_started ::
    "('phys, 'tire, 'ch, 'acc, 'rx, 'st, 'diag) race_engine \<Rightarrow>
       RaceStartError + ('phys, 'tire, 'ch, 'acc, 'rx, 'st) IncrementalRacingSession \<Rightarrow> (RaceRunError + 'diag RaceOutput) option" where
  "collect_started E start =
     (case start of
        Inl e \<Rightarrow> Some (Err (RaceNotStarted e))
      | Inr session \<Rightarrow> map_option (map_err RaceFailed) (race_collect E session))"

definition run_race_with_catalog_and_v3_timeline_candidate where
  "run_race_with_catalog_and_v3_timeline_candidate ext H request snapshot timeline =
     collect_started (host_engine H)
       (start_incremental_race_with_catalog_and_v3_timeline_candidate ext H request snapshot timeline)"

definition run_race_with_catalog_and_v3_fuel_contract_candidate where
  "run_race_with_catalog_and_v3_fuel_contract_candidate ext H request snapshot timeline =
     collect_started (host_engine H)
       (start_incremental_race_with_catalog_and_v3_fuel_contract_candidate ext H request snapshot timeline)"

section \<open>Accepted input\<close>

text \<open>A race input is accepted exactly when it has between 1 and 100 laps, a track name that is not blank, and every
  competitor has a finite budget that is not negative and a tuning the policy accepts; the only change is that
  each tuning becomes canonical.\<close>

theorem race_input_exact:
  "normalize_and_validate_race_input_with_policy tuning race era = Ok normalized \<longleftrightarrow>
     1 \<le> unat (race_laps race) \<and> unat (race_laps race) \<le> 100 \<and> trim (race_track_id race) \<noteq> [] \<and>
     (\<exists>specs. normalized = race\<lparr>race_competitors := specs\<rparr> \<and>
        list_all2 (\<lambda>spec spec'. is_finite64 (competitor_budget_cap spec) \<and> 0 \<le> f64_scaled (competitor_budget_cap spec) \<and>
            (\<exists>canonical. tuning era (competitor_budget_cap spec) (competitor_tuning spec) = Ok canonical \<and>
               spec' = spec\<lparr>competitor_tuning := canonical\<rparr>))
          (race_competitors race) specs)"
proof -
  have laps: "\<not> (race_laps race = 0 \<or> 100 < race_laps race) \<longleftrightarrow> 1 \<le> unat (race_laps race) \<and> unat (race_laps race) \<le> 100"
    by (auto simp: word_less_nat_alt unat_eq_0 [symmetric] Suc_le_eq)
  have "f64_lt b F64_ZERO \<longleftrightarrow> f64_scaled b < 0" if "is_finite64 b" for b
    using that by (simp add: f64_lt_def finite_not_nan f64_constants_not_nan f64_constant_values)
  then have spec: "normalize_competitor tuning spec era = Ok spec' \<longleftrightarrow>
      is_finite64 (competitor_budget_cap spec) \<and> 0 \<le> f64_scaled (competitor_budget_cap spec) \<and>
      (\<exists>canonical. tuning era (competitor_budget_cap spec) (competitor_tuning spec) = Ok canonical \<and>
         spec' = spec\<lparr>competitor_tuning := canonical\<rparr>)" for spec spec'
    by (auto simp: normalize_competitor_def result_simps)
  show ?thesis
  proof (cases "race_laps race = 0 \<or> 100 < race_laps race")
    case True
    with laps show ?thesis by (auto simp: normalize_and_validate_race_input_with_policy_def)
  next
    case False
    with laps show ?thesis
      by (auto simp: normalize_and_validate_race_input_with_policy_def result_simps spec)
  qed
qed

lemma normalized_race:
  assumes "normalize_and_validate_race_input H race era = Ok normalized"
  shows "map competitor_spec_id (race_competitors normalized) = map competitor_spec_id (race_competitors race)"
    "race_laps normalized = race_laps race" "race_laps race \<noteq> 0" "unat (race_laps race) \<le> 100"
proof -
  obtain pol specs where specs: "normalized = race\<lparr>race_competitors := specs\<rparr>"
      "list_all2 (\<lambda>spec spec'. normalize_competitor (host_tuning H pol) spec era = Ok spec') (race_competitors race) specs"
      and "\<not> (race_laps race = 0 \<or> 100 < race_laps race)"
    using assms
    by (auto simp: normalize_and_validate_race_input_def normalize_and_validate_race_input_with_policy_def result_simps
        split: if_splits)
  then show "race_laps normalized = race_laps race" "race_laps race \<noteq> 0" "unat (race_laps race) \<le> 100"
    by (simp_all add: word_less_nat_alt)
  have "competitor_spec_id spec' = competitor_spec_id spec"
    if "normalize_competitor (host_tuning H pol) spec era = Ok spec'" for spec spec'
    using that by (auto simp: normalize_competitor_def result_simps split: if_splits)
  then show "map competitor_spec_id (race_competitors normalized) = map competitor_spec_id (race_competitors race)"
    using specs by (auto simp: list_all2_conv_all_nth intro!: nth_equalityI)
qed

section \<open>Started races\<close>

lemma component_started:
  assumes "start_incremental_race_with_catalog_and_v3_component_profile H request snapshot prof candidate experiment = Ok s"
  shows "race_started (host_engine H) s" "race_session_laps s = race_laps (input_race (request_input request))"
    "map racer_id (racers s) = map competitor_spec_id (race_competitors (input_race (request_input request)))"
    "unat (race_session_laps s) \<le> 100"
proof -
  let ?race = "input_race (request_input request)"
  obtain race v cat model where n: "normalize_and_validate_race_input H ?race (validation_era request) = Ok race"
      and s: "new_v3 (host_engine H) (host_setup H cat model) race v (input_pit_strategy (request_input request)) (race_laps race)
        (request_seed request) = Ok s" and "race_competitors ?race \<noteq> []"
    using assms
    by (auto simp: start_incremental_race_with_catalog_and_v3_component_profile_def result_simps Let_def)
  note race = normalized_race [OF n]
  then have "race_competitors race \<noteq> []" using \<open>race_competitors ?race \<noteq> []\<close> by (metis map_is_Nil_conv)
  note start = new_v3_started [OF s this]
  show "race_started (host_engine H) s" by (rule start)
  have "max (race_laps ?race) 1 = race_laps ?race" using race(3) by (intro max_absorb1) (simp add: word_le_nat_alt Suc_le_eq unat_gt_0)
  then show laps: "race_session_laps s = race_laps ?race" using start(2) race(2) by simp
  show "map racer_id (racers s) = map competitor_spec_id (race_competitors ?race)" using start(3) race(1) by simp
  show "unat (race_session_laps s) \<le> 100" unfolding laps by (rule race(4))
qed

lemma timeline_started:
  assumes "start_incremental_race_with_catalog_and_v3_timeline_candidate ext H request snapshot timeline = Ok s"
  shows "race_started (host_engine H) s" "unat (race_session_laps s) \<le> 100"
    "map racer_id (racers s) = map competitor_spec_id (race_competitors (input_race (request_input request)))"
  using assms component_started
  by (auto simp: start_incremental_race_with_catalog_and_v3_timeline_candidate_def result_simps)

text \<open>The finish reserve plays no role before the end of the race.\<close>

lemma reserve_started: "race_started E (s\<lparr>race_minimum_finish_reserve_kg := r\<rparr>) \<longleftrightarrow> race_started E s"
  by (simp add: race_started_def race_at_def)

lemma fuel_contract_started:
  assumes "start_incremental_race_with_catalog_and_v3_fuel_contract_candidate ext H request snapshot timeline = Ok s"
  shows "race_started (host_engine H) s" "unat (race_session_laps s) \<le> 100"
    "map racer_id (racers s) = map competitor_spec_id (race_competitors (input_race (request_input request)))"
    "input_initial_fuel_mass_kg (request_input request) = None"
    "\<exists>contract. fuel_contract snapshot = Some contract \<and>
       race_minimum_finish_reserve_kg s = Some (minimum_finish_reserve_kg contract)"
proof -
  obtain contract s1 prof thermal drivers where parts:
      "start_incremental_race_with_catalog_and_v3_component_profile H
         (request\<lparr>request_input := (request_input request)\<lparr>input_initial_fuel_mass_kg :=
            Some (default_initial_fuel_mass_kg contract)\<rparr>\<rparr>) snapshot prof thermal drivers = Ok s1"
      "s = s1\<lparr>race_minimum_finish_reserve_kg := Some (minimum_finish_reserve_kg contract)\<rparr>"
      "fuel_contract snapshot = Some contract" "input_initial_fuel_mass_kg (request_input request) = None"
    using assms by (auto simp: start_incremental_race_with_catalog_and_v3_fuel_contract_candidate_def result_simps)
  note started = component_started [OF parts(1)]
  show "race_started (host_engine H) s" using started(1) by (simp add: parts(2) reserve_started)
  show "unat (race_session_laps s) \<le> 100"
    "map racer_id (racers s) = map competitor_spec_id (race_competitors (input_race (request_input request)))"
    "input_initial_fuel_mass_kg (request_input request) = None"
    "\<exists>contract. fuel_contract snapshot = Some contract \<and>
       race_minimum_finish_reserve_kg s = Some (minimum_finish_reserve_kg contract)"
    using started(3,4) by (simp_all add: parts)
qed

section \<open>The finish reserve\<close>

lemma next_record_reserve: "race_minimum_finish_reserve_kg (fst (next_record s tick ev)) = race_minimum_finish_reserve_kg s"
  by (simp add: next_record_def split: option.splits)

lemma st_then_reserve:
  assumes "race_minimum_finish_reserve_kg (fst m) = x" "\<And>s y. race_minimum_finish_reserve_kg s = x \<Longrightarrow>
     race_minimum_finish_reserve_kg (fst (f s y)) = x"
  shows "race_minimum_finish_reserve_kg (fst (st_then m f)) = x"
  using assms by (auto simp: st_then_def split: prod.splits sum.splits)

lemma progress_records_reserve:
  "race_minimum_finish_reserve_kg (fst (progress_records s tick ps)) = race_minimum_finish_reserve_kg s"
  by (induction ps arbitrary: s) (auto intro!: st_then_reserve simp: next_record_reserve)

lemma lap_telemetry_reserve:
  "race_minimum_finish_reserve_kg (fst (lap_telemetry E offset s lap)) = race_minimum_finish_reserve_kg s"
  by (simp add: lap_telemetry_def progress_records_reserve split: option.splits sum.splits)

lemma race_advance_reserve:
  assumes "race_advance E s = Some (s', r)"
  shows "race_minimum_finish_reserve_kg s' = race_minimum_finish_reserve_kg s"
proof -
  have emit: "race_minimum_finish_reserve_kg (fst (emit_lap E before t laps lap)) = race_minimum_finish_reserve_kg t" for before t laps lap
    unfolding emit_lap_def Let_def
    by (intro st_then_reserve) (simp_all add: progress_records_reserve lap_telemetry_reserve del: progress_records.simps)
  have complete: "race_minimum_finish_reserve_kg (fst (complete_race E t)) = race_minimum_finish_reserve_kg t" for t
    by (auto simp: complete_race_def next_record_reserve intro!: st_then_reserve split: sum.splits)
  have "pred_option (\<lambda>m. race_minimum_finish_reserve_kg (fst m) = race_minimum_finish_reserve_kg s) (race_advance E s)"
    by (simp add: race_advance_def Let_def emit complete split: option.split sum.split list.split prod.split)
  then show ?thesis by (simp add: assms)
qed

lemma race_run_reserve: "race_run E s bs s' \<Longrightarrow> race_minimum_finish_reserve_kg s' = race_minimum_finish_reserve_kg s"
  by (induction rule: race_run.induct) (simp_all add: race_advance_reserve)

section \<open>Which races start\<close>

text \<open>The races a policy accepts, with their normal form.\<close>

definition race_accepted ::
    "(u32 \<Rightarrow> 64 word \<Rightarrow> TuningSpec \<Rightarrow> string + TuningSpec) \<Rightarrow> RaceInput \<Rightarrow> u32 \<Rightarrow> RaceInput \<Rightarrow> bool" where
  "race_accepted tuning race era normalized \<longleftrightarrow>
     1 \<le> unat (race_laps race) \<and> unat (race_laps race) \<le> 100 \<and> trim (race_track_id race) \<noteq> [] \<and>
     (\<exists>specs. normalized = race\<lparr>race_competitors := specs\<rparr> \<and>
        list_all2 (\<lambda>spec spec'. is_finite64 (competitor_budget_cap spec) \<and> 0 \<le> f64_scaled (competitor_budget_cap spec) \<and>
            (\<exists>canonical. tuning era (competitor_budget_cap spec) (competitor_tuning spec) = Ok canonical \<and>
               spec' = spec\<lparr>competitor_tuning := canonical\<rparr>))
          (race_competitors race) specs)"

text \<open>What both workloads ask of a request, besides their profile: competitors, an accepted race, a vehicle that is named, a
  catalog that resolves, a fuel load of 1 to 200 kilograms, and a session that the engine opens on exactly these.\<close>

definition session_opens ::
    "('phys, 'tire, 'ch, 'acc, 'rx, 'st, 'diag, 'track, 'veh, 'ctl, 'pol, 'cat, 'res, 'rest) race_host \<Rightarrow>
       'rest RunRaceInput RunRaceRequest \<Rightarrow> 'res RacingCatalogSnapshot \<Rightarrow> V3CandidateExperimentProfile \<Rightarrow> 'res \<Rightarrow>
       V3DriverExperiment \<Rightarrow> 64 word \<Rightarrow> ('phys, 'tire, 'ch, 'acc, 'rx, 'st) IncrementalRacingSession \<Rightarrow> bool" where
  "session_opens H request snapshot prof thermal experiment fuel s \<longleftrightarrow>
     (\<exists>pol race vehicle catalog. let inp = request_input request in
        race_competitors (input_race inp) \<noteq> [] \<and> host_policy H = Ok pol \<and>
        race_accepted (host_tuning H pol) (input_race inp) (validation_era request) race \<and>
        input_vehicle_id inp = Some vehicle \<and> trim vehicle \<noteq> [] \<and> host_catalog H snapshot = Ok catalog \<and>
        is_finite64 fuel \<and> f64_le F64_ONE fuel \<and> f64_le fuel F64_200 \<and>
        new_v3 (host_engine H)
          (host_setup H catalog \<lparr>execution_profile = prof, execution_thermal = thermal,
             execution_driver_experiment = Some experiment, execution_initial_fuel_mass_kg = fuel, execution_rest = input_rest inp\<rparr>)
          race (trim vehicle) (input_pit_strategy inp) (race_laps race) (request_seed request) = Ok s)"

text \<open>The catalog lists the contract version and this very version of the model.\<close>

definition model_published :: "'res RacingCatalogSnapshot \<Rightarrow> ArtifactIdentity \<Rightarrow> bool" where
  "model_published snapshot model \<longleftrightarrow>
     (let c = compatibility (snapshot_manifest snapshot) in
      compatibility_validate c = Ok () \<and> ContractV1 \<in> set (contract_versions c) \<and>
      supports c (artifact_id model) (artifact_version model))"

definition timeline_starts ::
    "externals \<Rightarrow> ('phys, 'tire, 'ch, 'acc, 'rx, 'st, 'diag, 'track, 'veh, 'ctl, 'pol, 'cat, 'res, 'rest) race_host \<Rightarrow>
       'rest RunRaceInput RunRaceRequest \<Rightarrow> 'res RacingCatalogSnapshot \<Rightarrow> RacingDriverInstructionTimelineV1 \<Rightarrow>
       ('phys, 'tire, 'ch, 'acc, 'rx, 'st) IncrementalRacingSession \<Rightarrow> bool" where
  "timeline_starts ext H request snapshot timeline s \<longleftrightarrow>
     model_published snapshot (racing_model_v3_timeline_candidate_identity ext) \<and> drivers_v2 snapshot \<noteq> [] \<and>
     (\<exists>thermal control instructions. power_unit_thermal_profile snapshot = Some thermal \<and>
        catalog_driver_control_profile snapshot = Some control \<and> control_profile_validate control = Ok () \<and>
        driver_instruction_profile snapshot = Some instructions \<and>
        session_opens H request snapshot
          (default_profile\<lparr>profile_schema_version := ProfileV11, profile_driver_control_profile := Some control\<rparr>) thermal
          (InstructionExperiment \<lparr>experiment_drivers = drivers_v2 snapshot, experiment_instruction_profile = instructions,
             experiment_timeline = timeline\<rparr>)
          (case input_initial_fuel_mass_kg (request_input request) of None \<Rightarrow> F64_100 | Some f \<Rightarrow> f) s)"

text \<open>A fuel-contract race takes its fuel load, its consumption and its finish reserve from the catalog, never from the request.\<close>

definition fuel_contract_starts ::
    "externals \<Rightarrow> ('phys, 'tire, 'ch, 'acc, 'rx, 'st, 'diag, 'track, 'veh, 'ctl, 'pol, 'cat, 'res, 'rest) race_host \<Rightarrow>
       'rest RunRaceInput RunRaceRequest \<Rightarrow> 'res RacingCatalogSnapshot \<Rightarrow> RacingDriverInstructionTimelineV1 \<Rightarrow>
       ('phys, 'tire, 'ch, 'acc, 'rx, 'st) IncrementalRacingSession \<Rightarrow> bool" where
  "fuel_contract_starts ext H request snapshot timeline s \<longleftrightarrow>
     model_published snapshot (racing_model_v3_fuel_contract_candidate_identity ext) \<and> drivers_v2 snapshot \<noteq> [] \<and>
     input_initial_fuel_mass_kg (request_input request) = None \<and>
     (\<exists>contract thermal control instructions session. fuel_contract snapshot = Some contract \<and>
        fuel_mass_validate (consumption contract) = Ok () \<and> power_unit_thermal_profile snapshot = Some thermal \<and>
        catalog_driver_control_profile snapshot = Some control \<and> control_profile_validate control = Ok () \<and>
        driver_instruction_profile snapshot = Some instructions \<and>
        session_opens H request snapshot
          (default_profile\<lparr>profile_schema_version := ProfileV11, profile_driver_control_profile := Some control,
             profile_fuel_mass := Some (consumption contract)\<rparr>) thermal
          (InstructionExperiment \<lparr>experiment_drivers = drivers_v2 snapshot, experiment_instruction_profile = instructions,
             experiment_timeline = timeline\<rparr>)
          (default_initial_fuel_mass_kg contract) session \<and>
        s = session\<lparr>race_minimum_finish_reserve_kg := Some (minimum_finish_reserve_kg contract)\<rparr>)"

lemma component_start_Ok:
  assumes "profile_schema_version prof = ProfileV11" "profile_engine_thermal_resolution prof = None"
  shows "start_incremental_race_with_catalog_and_v3_component_profile H request snapshot prof thermal (Some experiment) = Ok s \<longleftrightarrow>
     profile_validate prof = Ok () \<and> session_opens H request snapshot prof thermal experiment
       (case input_initial_fuel_mass_kg (request_input request) of None \<Rightarrow> F64_100 | Some f \<Rightarrow> f) s"
proof -
  have vehicle: "resolve_vehicle_id v = Ok w \<longleftrightarrow> (\<exists>x. v = Some x \<and> trim x \<noteq> [] \<and> w = trim x)" for v w
    by (auto simp: resolve_vehicle_id_def split: option.splits if_splits)
  have race: "normalize_and_validate_race_input H r era = Ok n \<longleftrightarrow>
      (\<exists>pol. host_policy H = Ok pol \<and> race_accepted (host_tuning H pol) r era n)" for r era n
    by (auto simp: normalize_and_validate_race_input_def result_simps race_input_exact race_accepted_def)
  show ?thesis
    unfolding start_incremental_race_with_catalog_and_v3_component_profile_def session_opens_def Let_def
    by (auto simp: result_simps assms check_driver_experiment_def vehicle race finite_in_def f64_in_range_def)
qed

lemma model_published_Ok:
  "compatibility_validate_for (compatibility (snapshot_manifest snapshot)) model ContractV1 = Ok () \<longleftrightarrow> model_published snapshot model"
  by (simp add: compatibility_validate_for_Ok model_published_def Let_def)

lemma default_thermal: "profile_engine_thermal_resolution default_profile = None"
  by (simp add: default_profile_def)

lemma timeline_start_Ok:
  "start_incremental_race_with_catalog_and_v3_timeline_candidate ext H request snapshot timeline = Ok s \<longleftrightarrow>
     timeline_starts ext H request snapshot timeline s"
proof -
  have prof: "profile_validate (default_profile\<lparr>profile_schema_version := ProfileV11, profile_driver_control_profile := Some control\<rparr>)
      = Ok () \<longleftrightarrow> control_profile_validate control = Ok ()" for control
    using v11_profile_valid [where control = control and fuel = default_fuel_mass] by (simp add: default_profile_def default_groups_valid)
  show ?thesis
    unfolding start_incremental_race_with_catalog_and_v3_timeline_candidate_def timeline_starts_def
    by (auto simp: result_simps model_published_Ok component_start_Ok prof default_thermal)
qed

lemma fuel_contract_start_Ok:
  "start_incremental_race_with_catalog_and_v3_fuel_contract_candidate ext H request snapshot timeline = Ok s \<longleftrightarrow>
     fuel_contract_starts ext H request snapshot timeline s"
proof -
  have era: "validation_era (request\<lparr>request_input := (request_input request)\<lparr>input_initial_fuel_mass_kg := f\<rparr>\<rparr>) =
      validation_era request" for f
    by (cases "request_era request") (simp_all add: validation_era_def)
  have opens: "session_opens H (request\<lparr>request_input := (request_input request)\<lparr>input_initial_fuel_mass_kg := f\<rparr>\<rparr>) snapshot =
      session_opens H request snapshot" for f
    by (intro ext) (simp add: session_opens_def era Let_def)
  show ?thesis
    unfolding start_incremental_race_with_catalog_and_v3_fuel_contract_candidate_def fuel_contract_starts_def
    by (auto simp: result_simps model_published_Ok component_start_Ok v11_profile_valid opens default_thermal)
qed

section \<open>Runs end\<close>

text \<open>A race that returns an output has it from the state after its last lap.\<close>

lemma collect_final:
  "race_at E n s \<Longrightarrow> racers s \<noteq> [] \<Longrightarrow> race_collect E s = Some (Ok out) \<Longrightarrow>
     \<exists>bs t cs. race_run E s bs t \<and> map racer_id cs = map racer_id (racers s) \<and> finalize_output E (t\<lparr>racers := cs\<rparr>) = Ok out"
proof (induction "Suc (unat (race_session_laps s)) - n" arbitrary: n s rule: less_induct)
  case less
  show ?case
    using less.prems(1,2)
  proof (cases rule: race_advance_cases)
    case (failed s' e)
    then show ?thesis using less.prems(3) by (subst (asm) race_collect.simps) simp
  next
    case (lap s' b)
    have "Suc (unat (race_session_laps s')) - Suc n < Suc (unat (race_session_laps s)) - n" using lap by simp
    moreover have "race_collect E s' = Some (Ok out)" using less.prems(3) lap(7) by (simp add: race_collect_step [OF lap(1)])
    ultimately obtain bs t cs where "race_run E s' bs t" "map racer_id cs = map racer_id (racers s')"
        "finalize_output E (t\<lparr>racers := cs\<rparr>) = Ok out"
      using less.hyps [OF _ lap(2,3)] by blast
    then show ?thesis using race_run_Cons [OF lap(1)] lap(6) by metis
  next
    case (finish s' b out' cs)
    then have "out' = out" using less.prems(3) by (simp add: race_collect_step [OF finish(1)])
    then show ?thesis using finish(4,5) race_run_start [of E s] by blast
  qed
qed

text \<open>The outcome of a run that starts with the sessions of \<open>starts\<close>: it ends; it is refused exactly where no session starts; it
  fails only for another reason than that the competitors are at different boundaries or laps; and an output ranks the
  requested competitors and is the one of the state that the pulls of the session reach, which is as \<open>kept\<close> says.\<close>

definition race_outcome ::
    "('phys, 'tire, 'ch, 'acc, 'rx, 'st, 'diag) race_engine \<Rightarrow> string list \<Rightarrow>
       (('phys, 'tire, 'ch, 'acc, 'rx, 'st) IncrementalRacingSession \<Rightarrow> bool) \<Rightarrow>
       (('phys, 'tire, 'ch, 'acc, 'rx, 'st) IncrementalRacingSession \<Rightarrow> bool) \<Rightarrow> (RaceRunError + 'diag RaceOutput) option \<Rightarrow> bool" where
  "race_outcome E ids starts kept r \<longleftrightarrow>
     (case r of
        None \<Rightarrow> False
      | Some (Inl (RaceNotStarted _)) \<Rightarrow> \<not> (\<exists>s. starts s)
      | Some (Inl (RaceFailed e)) \<Rightarrow> (\<exists>s. starts s) \<and>
          e \<notin> {DifferentBoundaries, NoCompetitors, DifferentLaps, IncrementalAlreadyCompleted}
      | Some (Inr out) \<Rightarrow>
          standings_ok ids (race_standings out) (race_total_time_ms out) \<and>
          (\<exists>s bs t cs. starts s \<and> race_run E s bs t \<and> map racer_id cs = ids \<and>
             finalize_output E (t\<lparr>racers := cs\<rparr>) = Ok out \<and> kept (t\<lparr>racers := cs\<rparr>)))"

lemma collect_outcome:
  assumes start: "\<And>s. start = Ok s \<longleftrightarrow> starts s"
    and started: "\<And>s. start = Ok s \<Longrightarrow> race_started E s \<and> map racer_id (racers s) = ids"
    and kept: "\<And>s bs t cs out. start = Ok s \<Longrightarrow> race_run E s bs t \<Longrightarrow> finalize_output E (t\<lparr>racers := cs\<rparr>) = Ok out \<Longrightarrow>
      kept (t\<lparr>racers := cs\<rparr>)"
  shows "race_outcome E ids starts kept (collect_started E start)"
proof (cases start)
  case (Inl e)
  then show ?thesis using start by (auto simp: race_outcome_def collect_started_def)
next
  case (Inr s)
  then have at: "race_at E 1 s" "racers s \<noteq> []" "map racer_id (racers s) = ids" using started by (auto simp: race_started_def)
  obtain r where r: "race_collect E s = Some r"
      "\<And>e. r = Inl e \<Longrightarrow> e \<notin> {DifferentBoundaries, NoCompetitors, DifferentLaps, IncrementalAlreadyCompleted}"
      "\<And>out. r = Inr out \<Longrightarrow> standings_ok ids (race_standings out) (race_total_time_ms out)"
    using race_collect_total [OF at(1,2)] at(3) by auto
  show ?thesis
  proof (cases r)
    case r': (Inl e)
    then show ?thesis using r(1,2) start Inr by (auto simp: race_outcome_def collect_started_def)
  next
    case r': (Inr out)
    then obtain bs t cs where fin: "race_run E s bs t" "map racer_id cs = ids" "finalize_output E (t\<lparr>racers := cs\<rparr>) = Ok out"
      using collect_final [OF at(1,2)] r(1) at(3) by auto
    have "starts s" using start [of s] Inr by blast
    then have "\<exists>s bs t cs. starts s \<and> race_run E s bs t \<and> map racer_id cs = ids \<and>
        finalize_output E (t\<lparr>racers := cs\<rparr>) = Ok out \<and> kept (t\<lparr>racers := cs\<rparr>)"
      using fin kept [OF Inr fin(1,3)] by blast
    then show ?thesis using r(1) r(3) [OF r'] r' Inr by (simp add: race_outcome_def collect_started_def)
  qed
qed

text \<open>The fuel the player has left in a final state is, up to a billionth of a kilogram, not below the reserve.\<close>

definition reserve_kept ::
    "('phys, 'tire, 'ch, 'acc, 'rx, 'st, 'diag) race_engine \<Rightarrow> 64 word \<Rightarrow>
       ('phys, 'tire, 'ch, 'acc, 'rx, 'st) IncrementalRacingSession \<Rightarrow> bool" where
  "reserve_kept E reserve s \<longleftrightarrow>
     (\<exists>rows player final. finalize_rows E s (racers s) no_player_output = Ok (rows, player) \<and>
        player_final_fuel_mass_kg player = Some final \<and> \<not> f64_lt (f64_add final F64_NANO) reserve)"

lemma finalize_reserve:
  "finalize_output E s = Ok out \<Longrightarrow> race_minimum_finish_reserve_kg s = Some reserve \<Longrightarrow> reserve_kept E reserve s"
  by (auto simp: finalize_output_def reserve_kept_def check_finish_reserve_def result_simps Let_def)


section \<open>A host with one catalog\<close>

definition sample_host :: "(unit, nat, unit, unit, unit, unit, unit, unit, unit, unit, unit, unit, unit, unit) race_host" where
  "sample_host = \<lparr>host_engine = sample_engine, host_policy = Ok (), host_tuning = (\<lambda>_ _ _ tuning. Ok tuning),
     host_catalog = (\<lambda>_. Ok ()), host_setup = (\<lambda>_ _. sample_setup)\<rparr>"

definition sample_control_profile :: RacingDriverControlProfileV1 where
  "sample_control_profile = (let whole = \<lparr>util_floor = F64_ONE, util_span = F64_ZERO\<rparr> in
     \<lparr>control_schema_version = DriverControlProfileV1,
      mode_commitments = \<lparr>commit_manage = F64_ZERO, commit_balanced = F64_HALF, commit_attack = F64_ONE\<rparr>,
      cornering = whole, braking = whole, traction = whole, base_control_error = F64_ZERO, commitment_error_gain = F64_ZERO,
      commitment_error_exponent = F64_ONE, correction_workload_gain = F64_ZERO\<rparr>)"

definition sample_fuel_contract :: RacingFuelContractV1 where
  "sample_fuel_contract = \<lparr>fuel_contract_schema_version = FuelContractVersionV1, fuel_contract_id = FuelContractId,
     fuel_contract_version = FuelContractSemanticV1, default_initial_fuel_mass_kg = F64_100,
     minimum_finish_reserve_kg = F64_ONE, depletion_behavior = DepletionReject, consumption = default_fuel_mass\<rparr>"

definition sample_driver :: RacingDriverResourceV2 where
  "sample_driver = \<lparr>driver_schema_version = DriverResourceV2, driver_id = ''d'',
     driver_traits = \<lparr>limit_exploitation = F64_HALF, consistency = F64_HALF, tire_management = F64_HALF\<rparr>\<rparr>"

definition sample_snapshot :: "unit RacingCatalogSnapshot" where
  "sample_snapshot = \<lparr>snapshot_manifest = (sample_catalog ''a.json'')\<lparr>compatibility :=
       \<lparr>compatibility_schema_version = CatalogCompatibilityVersionV1, contract_versions = [ContractV1],
        compatible_models = [\<lparr>compatible_id = Identifier ''pitgun.racing-v3-candidate'',
          compatible_versions = [SemanticVersion ''0.14.0'', SemanticVersion ''0.15.0'']\<rparr>]\<rparr>\<rparr>,
     snapshot_release_identity = sample_release,
     snapshot_resources = (), model_parameters_identity = None, thermal_family_profile = None,
     thermal_family_profile_identity = None, power_unit_thermal_profile = Some (), power_unit_thermal_profile_identity = None,
     component_capability_profile_identity = None, driver_instruction_profile = Some sample_profile,
     driver_instruction_profile_identity = None, fuel_contract_identity = None,
     catalog_driver_control_profile = Some sample_control_profile, drivers_v2 = [(''d'', sample_driver)],
     fuel_contract = Some sample_fuel_contract\<rparr>"

definition sample_run_request :: "unit RunRaceInput RunRaceRequest" where
  "sample_run_request = \<lparr>request_input = \<lparr>input_race = sample_race, input_vehicle_id = Some ''v'', input_pit_strategy = None,
       input_era = 1, input_hz = 0, input_initial_fuel_mass_kg = None, input_rest = ()\<rparr>, request_seed = 7, request_era = None, request_hz = None\<rparr>"

lemma sample_control_profile_valid: "control_profile_validate sample_control_profile = Ok ()"
  by (simp add: control_profile_exact unit_commitments_def utilization_ok_def sample_control_profile_def f64_constant_values Let_def)

lemma sample_opens:
  assumes "is_finite64 fuel" "f64_le F64_ONE fuel" "f64_le fuel F64_200"
  shows "session_opens sample_host sample_run_request sample_snapshot prof thermal experiment fuel sample_race_session"
proof -
  have trims: "trim ''monza'' = ''monza''" "trim ''v'' = ''v''"
    by code_simp+
  have zero: "is_finite64 0" "f64_scaled 0 = 0" by code_simp+
  have race: "race_accepted (host_tuning sample_host ()) sample_race era sample_race" for era
    by (simp add: race_accepted_def sample_race_def sample_host_def sample_competitor_def trims zero)
  show ?thesis
    unfolding session_opens_def Let_def
    by (rule exI [of _ "()"], rule exI [of _ sample_race], rule exI [of _ "''v''"], rule exI [of _ "()"])
       (use race sample_new_v3 assms in \<open>simp add: sample_host_def sample_run_request_def sample_race_def trims\<close>)
qed

text \<open>The conditions can be met: with this catalog both workloads start the sample race.\<close>

lemma sample_runs_start:
  "timeline_starts weak_ext sample_host sample_run_request sample_snapshot empty_timeline sample_race_session"
  "fuel_contract_starts weak_ext sample_host sample_run_request sample_snapshot empty_timeline
     (sample_race_session\<lparr>race_minimum_finish_reserve_kg := Some F64_ONE\<rparr>)"
proof -
  have fuel: "is_finite64 F64_100" "f64_le F64_ONE F64_100" "f64_le F64_100 F64_200" by (simp_all add: profile_constants pattern_simps)
  have "model_published sample_snapshot (static_identity weak_ext ''pitgun.racing-v3-candidate'' v m)"
    if "v \<in> {''0.14.0'', ''0.15.0''}" for v m
    using that by (auto simp: model_published_def sample_snapshot_def static_identity_def compatibility_validate_Ok supports_def)
  then have published: "model_published sample_snapshot (racing_model_v3_timeline_candidate_identity weak_ext)"
    "model_published sample_snapshot (racing_model_v3_fuel_contract_candidate_identity weak_ext)"
    unfolding racing_model_v3_timeline_candidate_identity_def racing_model_v3_fuel_contract_candidate_identity_def by simp_all
  have parts: "power_unit_thermal_profile sample_snapshot = Some ()" "drivers_v2 sample_snapshot \<noteq> []"
    "catalog_driver_control_profile sample_snapshot = Some sample_control_profile"
    "driver_instruction_profile sample_snapshot = Some sample_profile" "fuel_contract sample_snapshot = Some sample_fuel_contract"
    "input_initial_fuel_mass_kg (request_input sample_run_request) = None"
    by (simp_all add: sample_snapshot_def sample_run_request_def)
  have contract: "consumption sample_fuel_contract = default_fuel_mass" "default_initial_fuel_mass_kg sample_fuel_contract = F64_100"
    "minimum_finish_reserve_kg sample_fuel_contract = F64_ONE" by (simp_all add: sample_fuel_contract_def)
  show "timeline_starts weak_ext sample_host sample_run_request sample_snapshot empty_timeline sample_race_session"
    using published parts sample_opens [OF fuel] sample_control_profile_valid by (simp add: timeline_starts_def)
  show "fuel_contract_starts weak_ext sample_host sample_run_request sample_snapshot empty_timeline
       (sample_race_session\<lparr>race_minimum_finish_reserve_kg := Some F64_ONE\<rparr>)"
    using published parts sample_opens [OF fuel] sample_control_profile_valid default_groups_valid
    by (auto simp: fuel_contract_starts_def contract)
qed

end
