(* ===== verification/Session_Table.thy ===== *)
theory Session_Table
  imports Pitgun_Prelude
begin

text \<open>
  The process-local tables of pull-based racing sessions: the handle allocation and the pull, complete and release
  operations of \<open>crates/pitgun-racing-simulator/src/lib.rs\<close> (authorized sessions) and of \<open>local_stream.rs\<close> (local
  sessions). Both tables run the same code on different sessions; the operations of a session are arguments here.

  A session operation is partial, since the solver it drives is a loop.
\<close>

section \<open>Tables\<close>

record 's SessionTable =
  table_sessions :: "u32 \<rightharpoonup> 's"
  table_next :: u32

datatype 'e TableError =
    HandleSpaceExhausted
  | UnknownHandle u32
  | HandleCompleted u32
  | HandleNotComplete u32
  | SessionError 'e

definition table_new :: "'s SessionTable" where
  "table_new = \<lparr>table_sessions = Map.empty, table_next = 1\<rparr>"

text \<open>\<open>handle.wrapping_add(1).max(1)\<close>.\<close>

definition next_handle :: "u32 \<Rightarrow> u32" where
  "next_handle h = max (h + 1) 1"

text \<open>How many probes are left before the search is back at \<open>start\<close>.\<close>

definition probes_left :: "u32 \<Rightarrow> u32 \<Rightarrow> nat" where
  "probes_left start h = (if unat h < unat (max start 1) then unat (max start 1) - unat h else 2 ^ 32 + unat (max start 1) - unat h)"

lemma handle_bounds: "0 < unat (max start (1 :: u32))" "unat (h :: u32) < 2 ^ 32"
proof -
  have "unat (1 :: u32) \<le> unat (max start 1)" by (simp only: word_le_nat_alt [symmetric] max.cobounded2)
  then show "0 < unat (max start (1 :: u32))" by simp
  have "unat h < 2 ^ LENGTH(32)" by (rule unsigned_less)
  then show "unat h < 2 ^ 32" by simp
qed

lemma unat_next_handle: "unat (next_handle h) = (if unat h = 2 ^ 32 - 1 then 1 else Suc (unat h))"
proof (cases "unat h = 2 ^ 32 - 1")
  case True
  then have "unat (h + 1) = 0" by (simp add: unat_word_ariths)
  then have "h + 1 = 0" by (simp only: unat_eq_zero)
  then show ?thesis using True by (simp add: next_handle_def max_def)
next
  case False
  moreover have "unat h < 2 ^ 32" by (rule handle_bounds)
  ultimately have "Suc (unat h) < 2 ^ 32" by simp
  then have "unat (h + 1) = Suc (unat h)" by (simp add: unat_word_ariths)
  then show ?thesis using False by (simp add: next_handle_def max_def word_le_nat_alt)
qed

text \<open>The arithmetic of the search, on the numbers of the handles.\<close>

lemma cycle_less:
  fixes h f N :: nat
  assumes "(if h = N - 1 then 1 else Suc h) \<noteq> f" "0 < f" "h < N" "f < N"
  shows "(if (if h = N - 1 then 1 else Suc h) < f then f - (if h = N - 1 then 1 else Suc h)
      else N + f - (if h = N - 1 then 1 else Suc h)) < (if h < f then f - h else N + f - h)"
  using assms by (cases "h = N - 1") auto

lemma cycle_step:
  fixes h f N x :: nat
  assumes "x \<noteq> h" "h \<noteq> 0" "x \<noteq> 0" "0 < f" "h < N" "f < N" "x < N"
    "(if x < f then f - x else N + f - x) \<le> (if h < f then f - h else N + f - h)"
  shows "(if x < f then f - x else N + f - x) \<le>
      (if (if h = N - 1 then 1 else Suc h) < f then f - (if h = N - 1 then 1 else Suc h)
       else N + f - (if h = N - 1 then 1 else Suc h)) \<and> (if h = N - 1 then 1 else Suc h) \<noteq> f"
  using assms by (cases "h = N - 1"; cases "x < f"; cases "h < f") auto

lemma next_handle_less:
  assumes "next_handle h \<noteq> max start 1"
  shows "probes_left start (next_handle h) < probes_left start h"
proof -
  have "unat (next_handle h) \<noteq> unat (max start 1)" using assms by (metis word_unat_eq_iff)
  then show ?thesis
    unfolding probes_left_def unat_next_handle by (intro cycle_less handle_bounds)
qed

lemma probes_left_step:
  assumes "x \<noteq> h" "h \<noteq> 0" "x \<noteq> 0" "probes_left start x \<le> probes_left start h"
  shows "probes_left start x \<le> probes_left start (next_handle h) \<and> next_handle h \<noteq> max start 1"
proof -
  have ne: "unat x \<noteq> unat h" "unat h \<noteq> 0" "unat x \<noteq> 0" using assms by (simp_all add: word_unat_eq_iff)
  show ?thesis
    using cycle_step [OF ne(1,2,3) handle_bounds(1) handle_bounds(2) handle_bounds(2) handle_bounds(2)] assms(4)
    unfolding probes_left_def word_unat_eq_iff [of "next_handle h"] unat_next_handle .
qed

function probe :: "(u32 \<Rightarrow> bool) \<Rightarrow> u32 \<Rightarrow> u32 \<Rightarrow> u32 option" where
  "probe occupied start h =
     (if \<not> occupied h then Some h
      else if next_handle h = max start 1 then None
      else probe occupied start (next_handle h))"
  by auto

termination
  by (relation "measure (\<lambda>(occupied, start, h). probes_left start h)") (auto intro: next_handle_less)

declare probe.simps [simp del]

definition register_session :: "'s SessionTable \<Rightarrow> 's \<Rightarrow> 's SessionTable \<times> (unit TableError + u32)" where
  "register_session t session =
     (case probe (\<lambda>h. table_sessions t h \<noteq> None) (table_next t) (max (table_next t) 1) of
        None \<Rightarrow> (t, Err HandleSpaceExhausted)
      | Some h \<Rightarrow> (\<lparr>table_sessions = (table_sessions t)(h \<mapsto> session), table_next = next_handle h\<rparr>, Ok h))"

definition pull_session ::
    "('s \<Rightarrow> bool) \<Rightarrow> ('s \<Rightarrow> ('s \<times> ('e + 'b)) option) \<Rightarrow> 's SessionTable \<Rightarrow> u32 \<Rightarrow>
       ('s SessionTable \<times> ('e TableError + bool \<times> 'b)) option" where
  "pull_session is_done advance t h =
     (case table_sessions t h of
        None \<Rightarrow> Some (t, Err (UnknownHandle h))
      | Some session \<Rightarrow>
          if is_done session then Some (t, Err (HandleCompleted h))
          else map_option (\<lambda>(session', r).
              (t\<lparr>table_sessions := (table_sessions t)(h \<mapsto> session')\<rparr>,
               case r of Inl e \<Rightarrow> Err (SessionError e) | Inr batch \<Rightarrow> Ok (is_done session', batch)))
            (advance session))"

definition complete_session ::
    "('s \<Rightarrow> bool) \<Rightarrow> ('s \<Rightarrow> 'e + 'r) \<Rightarrow> 's SessionTable \<Rightarrow> u32 \<Rightarrow> 's SessionTable \<times> ('e TableError + 'r)" where
  "complete_session is_done finish t h =
     (case table_sessions t h of
        None \<Rightarrow> (t, Err (UnknownHandle h))
      | Some session \<Rightarrow>
          if \<not> is_done session then (t, Err (HandleNotComplete h))
          else (t\<lparr>table_sessions := (table_sessions t)(h := None)\<rparr>, map_err SessionError (finish session)))"

definition release_session :: "'s SessionTable \<Rightarrow> u32 \<Rightarrow> 's SessionTable \<times> (unit TableError + unit)" where
  "release_session t h =
     (case table_sessions t h of
        None \<Rightarrow> (t, Err (UnknownHandle h))
      | Some _ \<Rightarrow> (t\<lparr>table_sessions := (table_sessions t)(h := None)\<rparr>, Ok ()))"

text \<open>\<open>while !self.is_complete() { self.advance()?; }\<close>.\<close>

partial_function (option) drive ::
    "('s \<Rightarrow> bool) \<Rightarrow> ('s \<Rightarrow> ('s \<times> ('e + 'b)) option) \<Rightarrow> 's \<Rightarrow> ('e + 's) option" where
  "drive is_done advance s =
     (if is_done s then Some (Inr s)
      else case advance s of
          None \<Rightarrow> None
        | Some (s', Inl e) \<Rightarrow> Some (Inl e)
        | Some (s', Inr b) \<Rightarrow> drive is_done advance s')"

section \<open>Handle allocation\<close>

lemma next_handle_nonzero: "next_handle h \<noteq> 0"
  by (metis max.cobounded2 next_handle_def word_le_0_iff zero_neq_one)

lemma probe_Some: "probe occupied start h = Some h' \<Longrightarrow> h \<noteq> 0 \<Longrightarrow> \<not> occupied h' \<and> h' \<noteq> 0"
proof (induction occupied start h rule: probe.induct)
  case (1 occupied start h)
  show ?case
  proof (cases "occupied h")
    case True
    with "1.prems"(1) have "next_handle h \<noteq> max start 1" "probe occupied start (next_handle h) = Some h'"
      by (simp_all add: probe.simps [of occupied start h] split: if_splits)
    with "1.IH" True show ?thesis by (simp add: next_handle_nonzero)
  next
    case False
    with "1.prems" show ?thesis by (simp add: probe.simps [of occupied start h])
  qed
qed

text \<open>The handles from \<open>h\<close> up to, and without, the start of the search are the ones a search from \<open>h\<close> can reach.\<close>

lemma probe_None:
  "probe occupied start h = None \<Longrightarrow> h \<noteq> 0 \<Longrightarrow> x \<noteq> 0 \<Longrightarrow> probes_left start x \<le> probes_left start h \<Longrightarrow> occupied x"
proof (induction occupied start h rule: probe.induct)
  case (1 occupied start h)
  have occ: "occupied h" using "1.prems"(1) by (simp add: probe.simps [of occupied start h] split: if_splits)
  show ?case
  proof (cases "x = h")
    case False
    have step: "probes_left start x \<le> probes_left start (next_handle h) \<and> next_handle h \<noteq> max start 1"
      using False "1.prems"(2-4) by (rule probes_left_step)
    then have "probe occupied start (next_handle h) = None"
      using "1.prems"(1) occ by (simp add: probe.simps [of occupied start h])
    then show ?thesis using "1.IH" occ step "1.prems"(3) next_handle_nonzero by simp
  qed (simp add: occ)
qed

lemma probes_left_start: "x \<noteq> 0 \<Longrightarrow> probes_left start x \<le> probes_left start (max start 1)"
  using handle_bounds(2) [of x] handle_bounds(2) [of "max start 1"] by (auto simp: probes_left_def)

lemma first_nonzero: "max start 1 \<noteq> (0 :: u32)"
  using handle_bounds(1) [of start] by (metis less_irrefl unat_0)

lemma register_result:
  "(case register_session t session of
      (t', Ok h) \<Rightarrow> h \<noteq> 0 \<and> table_sessions t h = None \<and> table_sessions t' = (table_sessions t)(h \<mapsto> session) \<and> table_next t' \<noteq> 0
    | (t', Err e) \<Rightarrow> e = HandleSpaceExhausted \<and> t' = t \<and> (\<forall>h. h \<noteq> 0 \<longrightarrow> table_sessions t h \<noteq> None))"
proof (cases "probe (\<lambda>h. table_sessions t h \<noteq> None) (table_next t) (max (table_next t) 1)")
  case None
  then have "table_sessions t h \<noteq> None" if "h \<noteq> 0" for h
    using probe_None [OF None first_nonzero that probes_left_start [OF that]] by simp
  with None show ?thesis by (simp add: register_session_def)
next
  case (Some h)
  with probe_Some [OF Some first_nonzero] show ?thesis by (simp add: register_session_def next_handle_nonzero)
qed

section \<open>Operations touch one handle\<close>

text \<open>The contract of a session: completing it succeeds exactly when it is done.\<close>

locale pull_protocol =
  fixes is_done :: "'s \<Rightarrow> bool"
    and finish :: "'s \<Rightarrow> 'e + 'r"
  assumes finish_done: "is_ok (finish s) \<longleftrightarrow> is_done s"
begin

lemma complete_result:
  "(case complete_session is_done finish t h of
      (t', Ok r) \<Rightarrow> (\<exists>s. table_sessions t h = Some s \<and> finish s = Ok r) \<and> table_sessions t' = (table_sessions t)(h := None)
    | (t', Err e) \<Rightarrow> t' = t \<and> (e = UnknownHandle h \<and> table_sessions t h = None \<or>
         e = HandleNotComplete h \<and> (\<exists>s. table_sessions t h = Some s \<and> \<not> is_done s)))"
proof (cases "table_sessions t h")
  case (Some s)
  show ?thesis
  proof (cases "is_done s")
    case True
    then obtain r where "finish s = Ok r" using finish_done [of s] by (auto simp: is_ok_iff)
    with True Some show ?thesis by (simp add: complete_session_def)
  qed (simp add: complete_session_def Some)
qed (simp add: complete_session_def)

end

datatype 's TableOp = RegisterOp 's | PullOp u32 | CompleteOp u32 | ReleaseOp u32

definition table_op ::
    "('s \<Rightarrow> bool) \<Rightarrow> ('s \<Rightarrow> ('s \<times> ('e + 'b)) option) \<Rightarrow> ('s \<Rightarrow> 'e + 'r) \<Rightarrow> 's TableOp \<Rightarrow> 's SessionTable \<Rightarrow> 's SessionTable option" where
  "table_op is_done advance finish op t =
     (case op of
        RegisterOp s \<Rightarrow> Some (fst (register_session t s))
      | PullOp h \<Rightarrow> map_option fst (pull_session is_done advance t h)
      | CompleteOp h \<Rightarrow> Some (fst (complete_session is_done finish t h))
      | ReleaseOp h \<Rightarrow> Some (fst (release_session t h)))"

inductive table_reachable ::
    "('s \<Rightarrow> bool) \<Rightarrow> ('s \<Rightarrow> ('s \<times> ('e + 'b)) option) \<Rightarrow> ('s \<Rightarrow> 'e + 'r) \<Rightarrow> 's SessionTable \<Rightarrow> bool"
  for is_done advance finish where
  reachable_new: "table_reachable is_done advance finish table_new"
| reachable_step: "table_reachable is_done advance finish t \<Longrightarrow> table_op is_done advance finish op t = Some t' \<Longrightarrow>
    table_reachable is_done advance finish t'"

fun op_handle :: "'s TableOp \<Rightarrow> u32 option" where
  "op_handle (RegisterOp s) = None"
| "op_handle (PullOp h) = Some h"
| "op_handle (CompleteOp h) = Some h"
| "op_handle (ReleaseOp h) = Some h"

lemma register_frame:
  "table_sessions t h' \<noteq> None \<or> h' = 0 \<Longrightarrow> table_sessions (fst (register_session t s)) h' = table_sessions t h'"
  using register_result [of t s] by (auto split: prod.splits sum.splits)

lemma table_op_frame:
  assumes "table_op is_done advance finish op t = Some t'" "op_handle op \<noteq> Some h'" "table_sessions t h' \<noteq> None \<or> h' = 0 \<or> op_handle op \<noteq> None"
  shows "table_sessions t' h' = table_sessions t h'"
proof (cases op)
  case (RegisterOp s)
  then show ?thesis using assms register_frame [of t h' s] by (auto simp: table_op_def)
qed (use assms in \<open>auto simp: table_op_def pull_session_def complete_session_def release_session_def
      split: option.splits if_splits prod.splits\<close>)

lemma table_op_zero:
  assumes "table_op is_done advance finish op t = Some t'" "table_sessions t 0 = None" "table_next t \<noteq> 0" "finite (dom (table_sessions t))"
  shows "table_sessions t' 0 = None \<and> table_next t' \<noteq> 0 \<and> finite (dom (table_sessions t'))"
proof (cases op)
  case (RegisterOp s)
  then show ?thesis using assms register_result [of t s]
    by (auto simp: table_op_def split: prod.splits sum.splits)
next
  case (PullOp h)
  then show ?thesis using assms by (cases "h = 0") (auto simp: table_op_def pull_session_def split: option.splits if_splits)
qed (use assms in \<open>auto simp: table_op_def complete_session_def release_session_def split: option.splits if_splits\<close>)

text \<open>C13: In every reachable table the handle 0 names no session, and an operation changes no session but the one of its
  handle: a pull, a completion or a release of \<open>h\<close> leaves every other handle as it was, and a registration leaves
  every registered session as it was.\<close>

theorem table_isolation:
  assumes "table_reachable is_done advance finish t" "table_op is_done advance finish op t = Some t'"
  shows "table_sessions t 0 = None \<and> finite (dom (table_sessions t)) \<and>
     (\<forall>h s. op_handle op \<noteq> Some h \<longrightarrow> table_sessions t h = Some s \<longrightarrow> table_sessions t' h = Some s)"
proof -
  have "table_sessions t 0 = None \<and> table_next t \<noteq> 0 \<and> finite (dom (table_sessions t))"
    using assms(1)
  proof induction
    case reachable_new
    show ?case by (simp add: table_new_def)
  next
    case (reachable_step t op t')
    then show ?case using table_op_zero by blast
  qed
  then show ?thesis using table_op_frame [OF assms(2)] by simp
qed

section \<open>Pulling is driving\<close>

text \<open>The batches that successful pulls of a handle return.\<close>

inductive pulls ::
    "('s \<Rightarrow> bool) \<Rightarrow> ('s \<Rightarrow> ('s \<times> ('e + 'b)) option) \<Rightarrow> u32 \<Rightarrow> 's SessionTable \<Rightarrow> 'b list \<Rightarrow> 's SessionTable \<Rightarrow> bool"
  for is_done advance h where
  pulls_none: "pulls is_done advance h t [] t"
| pulls_pull: "pull_session is_done advance t h = Some (t1, Ok (fin, b)) \<Longrightarrow> pulls is_done advance h t1 bs t' \<Longrightarrow>
    pulls is_done advance h t (b # bs) t'"

lemma pull_Ok:
  "pull_session is_done advance t h = Some (t', Ok (fin, b)) \<longleftrightarrow>
     (\<exists>s s'. table_sessions t h = Some s \<and> \<not> is_done s \<and> advance s = Some (s', Ok b) \<and> fin = is_done s' \<and>
        t' = t\<lparr>table_sessions := (table_sessions t)(h \<mapsto> s')\<rparr>)"
  by (auto simp: pull_session_def split: option.splits if_splits prod.splits sum.split_asm)

lemma pull_SessionError:
  "table_sessions t h = Some s \<Longrightarrow> \<not> is_done s \<Longrightarrow> advance s = Some (s', Err e) \<Longrightarrow>
     pull_session is_done advance t h = Some (t\<lparr>table_sessions := (table_sessions t)(h \<mapsto> s')\<rparr>, Err (SessionError e))"
  by (simp add: pull_session_def)

lemma drive_induct [consumes 1, case_names finished error step]:
  fixes advance :: "'s \<Rightarrow> ('s \<times> ('e + 'b)) option"
  assumes "drive is_done advance s = Some r"
    and "\<And>s. is_done s \<Longrightarrow> P s (Ok s)"
    and "\<And>s s' e. \<not> is_done s \<Longrightarrow> advance s = Some (s', Err e) \<Longrightarrow> P s (Err e)"
    and "\<And>s s' b r. \<not> is_done s \<Longrightarrow> advance s = Some (s', Ok b) \<Longrightarrow> drive is_done advance s' = Some r \<Longrightarrow> P s' r \<Longrightarrow> P s r"
  shows "P s r"
proof -
  have "is_done = is_done \<and> advance = advance \<longrightarrow> drive is_done advance s = Some r \<and> P s r"
  proof (rule drive.raw_induct [of "\<lambda>d a s r. d = is_done \<and> a = advance \<longrightarrow> drive is_done advance s = Some r \<and> P s r",
        OF _ assms(1)])
    fix drv :: "('s \<Rightarrow> bool) \<Rightarrow> ('s \<Rightarrow> ('s \<times> ('e + 'b)) option) \<Rightarrow> 's \<Rightarrow> ('e + 's) option" and d a s r
    assume IH: "\<And>d a s r. drv d a s = Some r \<Longrightarrow> d = is_done \<and> a = advance \<longrightarrow> drive is_done advance s = Some r \<and> P s r"
      and body: "(if d s then Some (Ok s) else case a s of None \<Rightarrow> None | Some (s', Inl e) \<Rightarrow> Some (Err e)
          | Some (s', Inr b) \<Rightarrow> drv d a s') = Some r"
    show "d = is_done \<and> a = advance \<longrightarrow> drive is_done advance s = Some r \<and> P s r"
    proof (clarify)
      assume "d = is_done" "a = advance"
      with body IH assms(2-4) show "drive is_done advance s = Some r \<and> P s r"
        by (subst drive.simps) (auto split: if_splits option.splits sum.splits)
    qed
  qed
  then show ?thesis by simp
qed

lemma drive_pulls:
  "drive is_done advance s = Some r \<Longrightarrow> table_sessions t h = Some s \<Longrightarrow>
     (case r of
        Ok s' \<Rightarrow> is_done s' \<and> (\<exists>bs. pulls is_done advance h t bs (t\<lparr>table_sessions := (table_sessions t)(h \<mapsto> s')\<rparr>))
      | Err e \<Rightarrow> \<exists>bs t' t''. pulls is_done advance h t bs t' \<and> pull_session is_done advance t' h = Some (t'', Err (SessionError e)))"
proof (induction arbitrary: t rule: drive_induct)
  case (finished s)
  have "t\<lparr>table_sessions := (table_sessions t)(h \<mapsto> s)\<rparr> = t" using finished(2) by (simp add: fun_upd_idem)
  then show ?case using finished(1) pulls_none [of is_done advance h t] by auto
next
  case (error s s' e)
  from pull_SessionError [where is_done = is_done and advance = advance, OF error(3,1,2)] show ?case using pulls_none by fastforce
next
  case (step s s' b r)
  let ?t1 = "t\<lparr>table_sessions := (table_sessions t)(h \<mapsto> s')\<rparr>"
  have pull: "pull_session is_done advance t h = Some (?t1, Ok (is_done s', b))"
    unfolding pull_Ok using step(1,2,5) by blast
  from step(4) [of ?t1] show ?case
    using pulls_pull [OF pull] by (cases r) fastforce+
qed

lemma pulls_drive:
  "pulls is_done advance h t bs t' \<Longrightarrow> table_sessions t h = Some s \<Longrightarrow> table_sessions t' h = Some s' \<Longrightarrow> is_done s' \<Longrightarrow>
     drive is_done advance s = Some (Ok s')"
proof (induction arbitrary: s rule: pulls.induct)
  case (pulls_none t)
  then show ?case by (subst drive.simps) simp
next
  case (pulls_pull t t1 fin b bs t')
  then obtain s1 where s1: "\<not> is_done s" "advance s = Some (s1, Ok b)" "table_sessions t1 h = Some s1"
    by (auto simp: pull_Ok)
  then show ?case using pulls_pull.IH [OF s1(3)] pulls_pull.prems(2,3) by (subst drive.simps) simp
qed

text \<open>An execution fails exactly with the error of the first pull that fails.\<close>

lemma pulls_to_error:
  "pulls is_done advance h t bs t' \<Longrightarrow> table_sessions t h = Some s \<Longrightarrow>
     pull_session is_done advance t' h = Some (t'', Err (SessionError e)) \<Longrightarrow> drive is_done advance s = Some (Err e)"
proof (induction arbitrary: s rule: pulls.induct)
  case (pulls_none t)
  then obtain s' r where "\<not> is_done s" "advance s = Some (s', r)"
    by (auto simp: pull_session_def split: if_splits)
  with pulls_none show ?case by (subst drive.simps, cases r) (simp_all add: pull_session_def)
next
  case (pulls_pull t t1 fin b bs t')
  then obtain s1 where s1: "\<not> is_done s" "advance s = Some (s1, Ok b)" "table_sessions t1 h = Some s1"
    by (auto simp: pull_Ok)
  then show ?case using pulls_pull.IH [OF s1(3)] pulls_pull.prems(2) by (subst drive.simps) simp
qed

lemma drive_error_iff:
  assumes "table_sessions t h = Some s"
  shows "drive is_done advance s = Some (Err e) \<longleftrightarrow>
    (\<exists>bs t' t''. pulls is_done advance h t bs t' \<and> pull_session is_done advance t' h = Some (t'', Err (SessionError e)))"
  using drive_pulls [of is_done advance s "Err e" t h, OF _ assms] pulls_to_error [OF _ assms] by auto

theorem table_isolation_witness:
  "table_sessions (fst (release_session (fst (register_session table_new True)) 2)) 1 = Some True"
proof -
  let ?op = "table_op (\<lambda>s. s) (\<lambda>s. Some (True, Ok () :: unit + unit)) (\<lambda>s. Ok ())"
  let ?reach = "table_reachable (\<lambda>s. s) (\<lambda>s. Some (True, Ok () :: unit + unit)) (\<lambda>s. Ok ())"
  have one: "register_session table_new True = (\<lparr>table_sessions = [1 \<mapsto> True], table_next = 2\<rparr>, Ok 1)"
    by (simp add: register_session_def table_new_def probe.simps next_handle_def max_def word_le_nat_alt)
  have "?op (RegisterOp True) table_new = Some (fst (register_session table_new True))" by (simp add: table_op_def)
  from reachable_step [OF reachable_new this] have reach: "?reach (fst (register_session table_new True))" .
  have step: "?op (ReleaseOp 2) (fst (register_session table_new True)) =
      Some (fst (release_session (fst (register_session table_new True)) 2))" by (simp add: table_op_def)
  show ?thesis using table_isolation [OF reach step] by (simp add: one)
qed

end
