(* ===== verification/Signing.thy ===== *)
theory Signing
  imports Authorization
begin

text \<open>
  \<open>crates/pitgun-signing/src/lib.rs\<close>: signing keys, the verification keyring and the fail-closed
  checks on signed authorizations. HMAC-SHA-256 and the hex codec are third-party crates and appear
  as the fields of \<open>crypto\<close>; the environment and the file system are arguments.
\<close>

section \<open>Keys\<close>

record crypto =
  hmac_sha256 :: "bytes \<Rightarrow> bytes \<Rightarrow> bytes"
  hex_encode :: "bytes \<Rightarrow> string"
  hex_decode :: "string \<Rightarrow> bytes option"

datatype SigningError =
    MissingSecret
  | ConflictingSecretSources
  | EmptySecret
  | SecretFile string string

datatype SigningKey = SigningKey (key_secret: bytes)

definition is_ascii_whitespace_byte :: "u8 \<Rightarrow> bool" where
  "is_ascii_whitespace_byte b \<longleftrightarrow> b \<in> {32, 9, 10, 12, 13}"

fun trim_front :: "bytes \<Rightarrow> bytes" where
  "trim_front [] = []"
| "trim_front (b # bs) = (if is_ascii_whitespace_byte b then trim_front bs else b # bs)"

function trim_back :: "bytes \<Rightarrow> bytes" where
  "trim_back bs =
     (if bs \<noteq> [] \<and> is_ascii_whitespace_byte (last bs) then trim_back (butlast bs) else bs)"
  by pat_completeness auto
termination by (relation "measure length") auto

declare trim_back.simps [simp del]

definition trim_ascii_whitespace :: "bytes \<Rightarrow> bytes" where
  "trim_ascii_whitespace bs = trim_back (trim_front bs)"

definition from_secret :: "bytes \<Rightarrow> SigningError + SigningKey" where
  "from_secret secret = (if secret = [] then Err EmptySecret else Ok (SigningKey secret))"

text \<open>\<open>fs::read\<close> is the argument \<open>read_file\<close>.\<close>

definition from_secret_file :: "(string \<Rightarrow> string + bytes) \<Rightarrow> string \<Rightarrow> SigningError + SigningKey" where
  "from_secret_file read_file path =
     and_then (map_err (SecretFile path) (read_file path)) (\<lambda>secret.
     from_secret (trim_ascii_whitespace secret))"

definition from_sources ::
    "(string \<Rightarrow> string + bytes) \<Rightarrow> bytes option \<Rightarrow> string option \<Rightarrow> SigningError + SigningKey" where
  "from_sources read_file inline_secret secret_file =
     (case (inline_secret, secret_file) of
        (Some _, Some _) \<Rightarrow> Err ConflictingSecretSources
      | (Some secret, None) \<Rightarrow> from_secret (trim_ascii_whitespace secret)
      | (None, Some path) \<Rightarrow> from_secret_file read_file path
      | (None, None) \<Rightarrow> Err MissingSecret)"

definition key_sign :: "crypto \<Rightarrow> SigningKey \<Rightarrow> bytes \<Rightarrow> string" where
  "key_sign cr key bs = hex_encode cr (hmac_sha256 cr (key_secret key) bs)"

definition key_verify :: "crypto \<Rightarrow> SigningKey \<Rightarrow> bytes \<Rightarrow> string \<Rightarrow> bool" where
  "key_verify cr key bs sig =
     (case hex_decode cr sig of
        None \<Rightarrow> False
      | Some expected \<Rightarrow> hmac_sha256 cr (key_secret key) bs = expected)"

section \<open>The keyring\<close>

record VerificationKeyring =
  ring_keys :: "(Identifier \<times> SigningKey) list"

datatype AuthorizationVerificationError =
    UnsupportedAlgorithm
  | AudienceMismatch
  | UnknownKey
  | InvalidSignature
  | AuthorizationFailed RunAuthorizationError
  | AttemptAuthorizationFailed RunAttemptAuthorizationError

definition keyring_new :: VerificationKeyring where
  "keyring_new = \<lparr>ring_keys = []\<rparr>"

definition keyring_insert :: "VerificationKeyring \<Rightarrow> Identifier \<Rightarrow> SigningKey \<Rightarrow> VerificationKeyring" where
  "keyring_insert ring key_id key = ring\<lparr>ring_keys := btree_insert key_id key (ring_keys ring)\<rparr>"

definition keyring_get :: "VerificationKeyring \<Rightarrow> Identifier \<Rightarrow> SigningKey option" where
  "keyring_get ring key_id = map_of (ring_keys ring) key_id"

definition verify_signature_and_audience ::
    "externals \<Rightarrow> crypto \<Rightarrow> VerificationKeyring \<Rightarrow> SignedRunAuthorizationV1 \<Rightarrow> Identifier
       \<Rightarrow> AuthorizationVerificationError + unit" where
  "verify_signature_and_audience ext cr ring tok expected_audience =
     (if auth_algorithm tok \<noteq> HmacSha256 then Err UnsupportedAlgorithm
      else if audience (authorization tok) \<noteq> expected_audience then Err AudienceMismatch
      else and_then (ok_or (keyring_get ring (signing_key_id (authorization tok))) UnknownKey) (\<lambda>key.
           and_then (map_err AuthorizationFailed (auth_signing_bytes ext (authorization tok))) (\<lambda>bs.
           if \<not> key_verify cr key bs (signature tok) then Err InvalidSignature else Ok ())))"

definition verify_execution ::
    "externals \<Rightarrow> crypto \<Rightarrow> VerificationKeyring \<Rightarrow> SignedRunAuthorizationV1 \<Rightarrow> Identifier \<Rightarrow> i64
       \<Rightarrow> AuthorizationVerificationError + unit" where
  "verify_execution ext cr ring tok expected_audience now_ms =
     and_also (verify_signature_and_audience ext cr ring tok expected_audience)
       (map_err AuthorizationFailed (validity_execution_time (validity (authorization tok)) now_ms))"

definition verify_submission ::
    "externals \<Rightarrow> crypto \<Rightarrow> VerificationKeyring \<Rightarrow> SignedRunAuthorizationV1 \<Rightarrow> Identifier \<Rightarrow> i64
       \<Rightarrow> AuthorizationVerificationError + unit" where
  "verify_submission ext cr ring tok expected_audience now_ms =
     and_also (verify_signature_and_audience ext cr ring tok expected_audience)
       (map_err AuthorizationFailed (validity_submission_time (validity (authorization tok)) now_ms))"

definition verify_attempt_signature_and_audience ::
    "externals \<Rightarrow> crypto \<Rightarrow> VerificationKeyring \<Rightarrow> SignedRunAttemptAuthorizationV1 \<Rightarrow> Identifier
       \<Rightarrow> AuthorizationVerificationError + unit" where
  "verify_attempt_signature_and_audience ext cr ring tok expected_audience =
     (if attempt_algorithm tok \<noteq> HmacSha256 then Err UnsupportedAlgorithm
      else if attempt_audience (attempt_authorization tok) \<noteq> expected_audience then Err AudienceMismatch
      else and_then (ok_or (keyring_get ring (attempt_signing_key_id (attempt_authorization tok))) UnknownKey) (\<lambda>key.
           and_then (map_err AttemptAuthorizationFailed
             (attempt_signing_bytes ext (attempt_authorization tok))) (\<lambda>bs.
           if \<not> key_verify cr key bs (attempt_signature tok) then Err InvalidSignature else Ok ())))"

definition verify_attempt_execution ::
    "externals \<Rightarrow> crypto \<Rightarrow> VerificationKeyring \<Rightarrow> SignedRunAttemptAuthorizationV1 \<Rightarrow> Identifier \<Rightarrow> i64
       \<Rightarrow> AuthorizationVerificationError + unit" where
  "verify_attempt_execution ext cr ring tok expected_audience now_ms =
     and_also (verify_attempt_signature_and_audience ext cr ring tok expected_audience)
       (map_err AttemptAuthorizationFailed (attempt_execution_time ext (attempt_authorization tok) now_ms))"

definition verify_attempt_submission ::
    "externals \<Rightarrow> crypto \<Rightarrow> VerificationKeyring \<Rightarrow> SignedRunAttemptAuthorizationV1 \<Rightarrow> Identifier \<Rightarrow> i64
       \<Rightarrow> AuthorizationVerificationError + unit" where
  "verify_attempt_submission ext cr ring tok expected_audience now_ms =
     and_also (verify_attempt_signature_and_audience ext cr ring tok expected_audience)
       (map_err AttemptAuthorizationFailed (attempt_submission_time ext (attempt_authorization tok) now_ms))"

section \<open>Keys and secrets\<close>

lemma trim_front_dropWhile: "trim_front bs = dropWhile is_ascii_whitespace_byte bs"
  by (induction bs) auto

lemma trim_back_dropWhile: "trim_back bs = rev (dropWhile is_ascii_whitespace_byte (rev bs))"
proof (induction bs rule: trim_back.induct)
  case (1 bs)
  show ?case
  proof (cases bs rule: rev_cases)
    case (snoc cs c)
    then show ?thesis using 1 trim_back.simps [of "cs @ [c]"] by simp
  qed (simp add: trim_back.simps)
qed

lemma trim_ends:
  assumes "trim_ascii_whitespace bs \<noteq> []"
  shows "\<not> is_ascii_whitespace_byte (hd (trim_ascii_whitespace bs))
     \<and> \<not> is_ascii_whitespace_byte (last (trim_ascii_whitespace bs))"
proof -
  let ?w = is_ascii_whitespace_byte
  let ?f = "dropWhile ?w bs"
  let ?r = "dropWhile ?w (rev ?f)"
  have t: "trim_ascii_whitespace bs = rev ?r"
    by (simp add: trim_ascii_whitespace_def trim_front_dropWhile trim_back_dropWhile)
  have r: "?r \<noteq> []" using assms unfolding t by blast
  then have "\<not> ?w (hd ?r)" by (rule hd_dropWhile)
  moreover have "last ?r = last (rev ?f)"
    using r by (metis last_append takeWhile_dropWhile_id)
  moreover have "?f \<noteq> []" using r by fastforce
  moreover from this have "\<not> ?w (hd ?f)" by (rule hd_dropWhile)
  ultimately show ?thesis
    using t r by (simp add: hd_rev last_rev del: dropWhile_eq_Nil_conv)
qed

section \<open>Signatures\<close>

text \<open>The documented behaviour of the hex crate: decoding undoes encoding.\<close>

definition hex_roundtrip :: "crypto \<Rightarrow> bool" where
  "hex_roundtrip cr \<longleftrightarrow> (\<forall>bs. hex_decode cr (hex_encode cr bs) = Some bs)"

lemma key_verify_iff:
  "key_verify cr key bs sig \<longleftrightarrow> hex_decode cr sig = Some (hmac_sha256 cr (key_secret key) bs)"
  by (auto simp: key_verify_def split: option.splits)

lemma sign_verifies: "hex_roundtrip cr \<Longrightarrow> key_verify cr key bs (key_sign cr key bs)"
  by (simp add: key_verify_iff key_sign_def hex_roundtrip_def)

lemma signature_and_audience_Ok:
  "verify_signature_and_audience ext cr ring tok aud = Ok () \<longleftrightarrow>
     audience (authorization tok) = aud \<and>
     (\<exists>key bs. keyring_get ring (signing_key_id (authorization tok)) = Some key \<and>
        auth_signing_bytes ext (authorization tok) = Ok bs \<and> key_verify cr key bs (signature tok))"
  by (auto simp: verify_signature_and_audience_def result_simps)

lemma attempt_signature_and_audience_Ok:
  "verify_attempt_signature_and_audience ext cr ring tok aud = Ok () \<longleftrightarrow>
     attempt_audience (attempt_authorization tok) = aud \<and>
     (\<exists>key bs. keyring_get ring (attempt_signing_key_id (attempt_authorization tok)) = Some key \<and>
        attempt_signing_bytes ext (attempt_authorization tok) = Ok bs \<and>
        key_verify cr key bs (attempt_signature tok))"
  by (auto simp: verify_attempt_signature_and_audience_def result_simps)

text \<open>C7: a submission passes exactly when its authorization names this audience, is intact, is signed by
  a retained key over its canonical bytes, and the current time lies in the submission window.\<close>

theorem verify_submission_exact:
  "verify_submission ext cr ring tok aud now = Ok () \<longleftrightarrow>
     audience (authorization tok) = aud \<and>
     window_ok (validity (authorization tok)) \<and>
     run_id ext (auth_contract (authorization tok)) = Ok (auth_run_id (authorization tok)) \<and>
     (\<exists>key bs. keyring_get ring (signing_key_id (authorization tok)) = Some key \<and>
        canonical_json_bytes ext (Inr (serialize_authorization (authorization tok))) = Ok bs \<and>
        hex_decode cr (signature tok) = Some (hmac_sha256 cr (key_secret key) bs)) \<and>
     sint (issued_at_ms (validity (authorization tok))) \<le> sint now \<and>
     sint now \<le> sint (expires_at_ms (validity (authorization tok)))
       + sint (late_submission_grace_ms (validity (authorization tok)))"
  using submission_window_Ok [of "validity (authorization tok)" now]
  by (auto simp: verify_submission_def result_simps signature_and_audience_Ok auth_signing_bytes_def
      auth_integrity_Ok key_verify_iff)

text \<open>C12: one signature cannot serve two authorizations: if both pass with the same signature under the
  same key, they are equal or their different canonical bytes have the same HMAC.\<close>

theorem signature_binds_authorization:
  assumes "jcs_faithful ext" "signature tok = signature tok'" "authorization tok \<noteq> authorization tok'"
    and "signing_key_id (authorization tok) = signing_key_id (authorization tok')"
    and "verify_signature_and_audience ext cr ring tok aud = Ok ()"
    and "verify_signature_and_audience ext cr ring tok' aud' = Ok ()"
  shows "\<exists>key b b'. keyring_get ring (signing_key_id (authorization tok)) = Some key \<and>
    auth_signing_bytes ext (authorization tok) = Ok b \<and> auth_signing_bytes ext (authorization tok') = Ok b' \<and>
    b \<noteq> b' \<and> hmac_sha256 cr (key_secret key) b = hmac_sha256 cr (key_secret key) b'"
proof -
  obtain key b where b: "keyring_get ring (signing_key_id (authorization tok)) = Some key"
      "auth_signing_bytes ext (authorization tok) = Ok b" "key_verify cr key b (signature tok)"
    using assms(5) by (auto simp: signature_and_audience_Ok)
  obtain b' where b': "auth_signing_bytes ext (authorization tok') = Ok b'" "key_verify cr key b' (signature tok')"
    using assms(4,6) b(1) by (auto simp: signature_and_audience_Ok)
  have "b \<noteq> b'"
    using signing_bytes_identify [OF assms(1) b(2)] b'(1) assms(3) by blast
  then show ?thesis
    using b b' assms(2) by (auto simp: key_verify_iff)
qed

text \<open>What an authority signs with a key, a verifier that holds the key accepts during the execution
  window, and goes on accepting after keys with other identifiers have been added to its ring.\<close>

theorem issued_authorization_accepted:
  assumes "hex_roundtrip cr" "auth_signing_bytes ext a = Ok bs"
    and "sint (issued_at_ms (validity a)) \<le> sint now" "sint now \<le> sint (expires_at_ms (validity a))"
    and "signing_key_id a \<notin> set (map fst later)"
  shows "verify_execution ext cr
      (fold (\<lambda>(i, k) ring. keyring_insert ring i k) later (keyring_insert ring (signing_key_id a) key))
      \<lparr>authorization = a, auth_algorithm = HmacSha256, signature = key_sign cr key bs\<rparr> (audience a) now = Ok ()"
proof -
  have "keyring_get (fold (\<lambda>(i, k) ring. keyring_insert ring i k) later r) i = keyring_get r i"
    if "i \<notin> set (map fst later)" for i r
    using that by (induction later arbitrary: r) (auto simp: keyring_insert_def keyring_get_def)
  moreover have "keyring_get (keyring_insert ring (signing_key_id a) key) (signing_key_id a) = Some key"
    by (simp add: keyring_insert_def keyring_get_def)
  moreover have "window_ok (validity a)"
    using assms(2) by (auto simp: auth_signing_bytes_def result_simps auth_integrity_Ok)
  ultimately show ?thesis
    using assms execution_window_Ok [of "validity a" now]
    by (auto simp: verify_execution_def result_simps signature_and_audience_Ok sign_verifies)
qed

section \<open>Witnesses\<close>

definition sample_crypto :: crypto where
  "sample_crypto = \<lparr>hmac_sha256 = \<lambda>k bs. k @ bs, hex_encode = from_utf8_bytes, hex_decode = \<lambda>s. Some (as_bytes s)\<rparr>"

definition weak_crypto :: crypto where
  "weak_crypto = \<lparr>hmac_sha256 = \<lambda>k bs. k, hex_encode = from_utf8_bytes, hex_decode = \<lambda>s. Some (as_bytes s)\<rparr>"

definition sample_authorization :: "u8 \<Rightarrow> RunAuthorizationV1" where
  "sample_authorization n = \<lparr>authorization_version = RunAuthorizationVersionV1, nonce = sample_digest n,
     subject = Identifier ''player'', audience = Identifier ''verifier'', auth_contract = sample_contract 0 3,
     auth_run_id = sample_digest 0, policy = sample_artifact ''policy'' 9,
     signing_key_id = Identifier ''key-1'', validity = sample_validity\<rparr>"

lemma sample_signing_bytes:
  "auth_signing_bytes weak_ext (sample_authorization n) =
     Ok (doc_code (jdoc_of (serialize_authorization (sample_authorization n))))"
proof -
  have "profile weak_ext (serialize_validity sample_validity)"
    by (simp add: serialize_validity_def profile_struct sample_validity_def safe_signed_def)
  moreover have "profile weak_ext (serialize_ArtifactIdentity (sample_artifact x y))" for x y
    by (simp add: serialize_ArtifactIdentity_def profile_struct serialize_defs)
  ultimately have "profile weak_ext (serialize_authorization (sample_authorization n))"
    by (simp add: serialize_authorization_def sample_authorization_def profile_struct serialize_defs
        profile_sample_contract)
  moreover have "auth_validate_integrity weak_ext (sample_authorization n) = Ok ()"
    by (simp add: auth_integrity_Ok sample_authorization_def sample_window sample_run_id)
  ultimately show ?thesis
    by (simp add: auth_signing_bytes_def canonical_json_bytes_def validate_serializable_Ok(1) [THEN iffD2])
qed

theorem issued_authorization_accepted_witness:
  "verify_execution weak_ext sample_crypto
      (fold (\<lambda>(i, k) ring. keyring_insert ring i k) [(Identifier ''key-2'', SigningKey [7])]
        (keyring_insert keyring_new (Identifier ''key-1'') (SigningKey [5])))
      \<lparr>authorization = sample_authorization 1, auth_algorithm = HmacSha256,
       signature = key_sign sample_crypto (SigningKey [5])
         (doc_code (jdoc_of (serialize_authorization (sample_authorization 1))))\<rparr> (Identifier ''verifier'') 1500 = Ok ()"
proof -
  have "hex_roundtrip sample_crypto" by (simp add: hex_roundtrip_def sample_crypto_def)
  from issued_authorization_accepted [OF this sample_signing_bytes [of 1], of 1500 "[(Identifier ''key-2'', SigningKey [7])]"
      keyring_new "SigningKey [5]"]
  show ?thesis by (simp add: sample_authorization_def sample_validity_def)
qed

theorem signature_binds_authorization_witness:
  "\<exists>key b b'. keyring_get (keyring_insert keyring_new (Identifier ''key-1'') (SigningKey [5])) (Identifier ''key-1'') = Some key \<and>
    auth_signing_bytes weak_ext (sample_authorization 1) = Ok b \<and>
    auth_signing_bytes weak_ext (sample_authorization 2) = Ok b' \<and>
    b \<noteq> b' \<and> hmac_sha256 weak_crypto (key_secret key) b = hmac_sha256 weak_crypto (key_secret key) b'"
proof -
  let ?tok = "\<lambda>n. \<lparr>authorization = sample_authorization n, auth_algorithm = HmacSha256, signature = from_utf8_bytes [5]\<rparr>"
  let ?ring = "keyring_insert keyring_new (Identifier ''key-1'') (SigningKey [5])"
  have id: "signing_key_id (sample_authorization n) = Identifier ''key-1''"
    "audience (sample_authorization n) = Identifier ''verifier''" for n
    by (simp_all add: sample_authorization_def)
  have ok: "verify_signature_and_audience weak_ext weak_crypto ?ring (?tok n) (Identifier ''verifier'') = Ok ()" for n
    by (simp add: signature_and_audience_Ok id sample_signing_bytes keyring_insert_def keyring_get_def
        key_verify_def weak_crypto_def)
  have "sample_authorization 1 \<noteq> sample_authorization 2"
    by (simp add: sample_authorization_def sample_digest_def)
  then show ?thesis
    using signature_binds_authorization [OF jcs_faithful_weak _ _ _ ok [of 1] ok [of 2]] id by simp
qed

end
