(* ===== verification/Verdict.thy ===== *)
theory Verdict
  imports Authorization
begin

text \<open>
  \<open>crates/pitgun-contract/src/verification.rs\<close>: the verdict a verifier records about a submitted
  execution, and its state-dependent validation.
\<close>

datatype VerificationVerdictVersion = VerdictV1

datatype VerificationStatus = Pending | Verified | Rejected

datatype VerificationReasonCode =
    VerificationQueued | CatalogUnavailable | ModelUnavailable | DependencyUnavailable
  | InvalidAuthorization | AuthorizationExpired | AuthorizationReplayed | RunIdMismatchReason
  | UnknownModel | UnknownDataPack | UnknownPolicy | EvidenceMalformed | ArtifactDigestMismatch
  | ReceiptMismatch | OutputMismatch | TelemetryMismatch | ReplayMismatch

definition is_pending :: "VerificationReasonCode \<Rightarrow> bool" where
  "is_pending r \<longleftrightarrow>
     r \<in> {VerificationQueued, CatalogUnavailable, ModelUnavailable, DependencyUnavailable}"

definition is_rejection :: "VerificationReasonCode \<Rightarrow> bool" where
  "is_rejection r \<longleftrightarrow> \<not> is_pending r"

record SubmittedEvidenceV1 =
  evidence_receipt_digest :: Digest
  evidence_output_digest :: Digest
  evidence_telemetry_summary_digest :: Digest

record VerifiedResolutionV1 =
  resolved_model :: ArtifactIdentity
  resolved_data_pack :: ArtifactIdentity
  resolved_policy :: ArtifactIdentity

record VerificationVerdictV1 =
  verdict_schema_version :: VerificationVerdictVersion
  verdict_run_id :: Digest
  verdict_execution_id :: ExecutionId
  verdict_status :: VerificationStatus
  verdict_reason_code :: "VerificationReasonCode option"
  submitted_evidence :: SubmittedEvidenceV1
  verified_resolution :: "VerifiedResolutionV1 option"
  verifier_identity :: ArtifactIdentity
  recorded_at_ms :: i64

datatype VerificationVerdictError =
    InvalidRecordedAt
  | MissingReason VerificationStatus
  | UnexpectedReason VerificationStatus
  | ReasonDoesNotMatchStatus VerificationStatus VerificationReasonCode
  | MissingVerifiedResolution
  | UnexpectedVerifiedResolution VerificationStatus

definition verdict_validate :: "VerificationVerdictV1 \<Rightarrow> VerificationVerdictError + unit" where
  "verdict_validate v =
     (if recorded_at_ms v <s 0 \<or> MAX_SAFE_JSON_I64 <s recorded_at_ms v then Err InvalidRecordedAt
      else case verdict_status v of
        Pending \<Rightarrow>
          and_then (ok_or (verdict_reason_code v) (MissingReason Pending)) (\<lambda>reason.
          if \<not> is_pending reason then Err (ReasonDoesNotMatchStatus (verdict_status v) reason)
          else if verified_resolution v \<noteq> None then Err (UnexpectedVerifiedResolution (verdict_status v))
          else Ok ())
      | Verified \<Rightarrow>
          (if verdict_reason_code v \<noteq> None then Err (UnexpectedReason (verdict_status v))
           else if verified_resolution v = None then Err MissingVerifiedResolution
           else Ok ())
      | Rejected \<Rightarrow>
          and_then (ok_or (verdict_reason_code v) (MissingReason Rejected)) (\<lambda>reason.
          if \<not> is_rejection reason then Err (ReasonDoesNotMatchStatus (verdict_status v) reason)
          else if verified_resolution v \<noteq> None then Err (UnexpectedVerifiedResolution (verdict_status v))
          else Ok ()))"

text \<open>The shape of a verdict, one line per state.\<close>

fun verdict_shape :: "VerificationStatus \<Rightarrow> VerificationReasonCode option \<Rightarrow> bool \<Rightarrow> bool" where
  "verdict_shape Verified None resolved = resolved"
| "verdict_shape Pending (Some r) resolved \<longleftrightarrow> is_pending r \<and> \<not> resolved"
| "verdict_shape Rejected (Some r) resolved \<longleftrightarrow> \<not> is_pending r \<and> \<not> resolved"
| "verdict_shape _ _ _ = False"

lemma verdict_validate_Ok:
  "verdict_validate v = Ok () \<longleftrightarrow>
     0 \<le> sint (recorded_at_ms v) \<and> sint (recorded_at_ms v) \<le> 2 ^ 53 - 1 \<and>
     verdict_shape (verdict_status v) (verdict_reason_code v) (verified_resolution v \<noteq> None)"
  by (cases "verdict_status v"; cases "verdict_reason_code v")
    (auto simp: verdict_validate_def word_sless_alt sint_MAX_SAFE is_rejection_def)

text \<open>A verdict is valid exactly when its time is an exact non-negative JSON integer and its
  reason and resolution fit its state: only a verified verdict has a resolution and only a pending
  or rejected one has a reason, of the matching kind.\<close>

theorem verdict_validate_exact:
  "verdict_validate v = Ok () \<longleftrightarrow>
     0 \<le> sint (recorded_at_ms v) \<and> sint (recorded_at_ms v) \<le> 2 ^ 53 - 1 \<and>
     verdict_shape (verdict_status v) (verdict_reason_code v) (verified_resolution v \<noteq> None)"
  by (rule verdict_validate_Ok)

end
