(* ===== verification/Verifier.thy ===== *)
theory Verifier
  imports Racing_Workload Signing Verdict
begin

text \<open>
  \<open>services/pitgun-verifier/src/lib.rs\<close>: the hosted racing verification engine. It checks a submission
  against retained keys, the expected model, policy and catalog, replays the execution with the race
  engine \<open>sim\<close>, and issues a verdict.
\<close>

section \<open>State and results\<close>

definition RACING_SCENARIO_ID :: string where "RACING_SCENARIO_ID = ''racing.race''"
definition RACING_DYNAMIC_SCENARIO_ID :: string where "RACING_DYNAMIC_SCENARIO_ID = ''racing.dynamic-session''"
definition RACING_SCENARIO_VERSION :: string where "RACING_SCENARIO_VERSION = ''1.0.0''"

record 'res RacingVerifier =
  authorization_keys :: VerificationKeyring
  expected_audience :: Identifier
  expected_model :: ArtifactIdentity
  verifier_policy :: ArtifactIdentity
  verifier_catalog :: "'res RacingCatalogSnapshot option"
  verifier_self :: ArtifactIdentity

definition verifier_new ::
    "VerificationKeyring \<Rightarrow> Identifier \<Rightarrow> ArtifactIdentity \<Rightarrow> ArtifactIdentity
       \<Rightarrow> 'res RacingCatalogSnapshot option \<Rightarrow> ArtifactIdentity \<Rightarrow> 'res RacingVerifier" where
  "verifier_new keys audience_id model pol catalog self =
     \<lparr>authorization_keys = keys, expected_audience = audience_id, expected_model = model,
      verifier_policy = pol, verifier_catalog = catalog, verifier_self = self\<rparr>"

datatype RacingVerifierError =
    VerifierCanonicalJson CanonicalJsonError
  | InvalidVerdict VerificationVerdictError

record 'input RacingDynamicVerificationSubmissionV1 =
  dynamic_authorization :: SignedRunAttemptAuthorizationV1
  dynamic_envelope :: RacingDriverInstructionAuthorizationV1
  dynamic_input :: 'input
  dynamic_completed :: RacingCompletedRunInputV1
  dynamic_receipt :: RunBundleReceiptV1
  dynamic_output :: RacingOutputV1
  dynamic_telemetry_summary :: TelemetrySummaryV1
  dynamic_resolution :: RacingExecutionResolutionV1

section \<open>Helpers\<close>

definition serialize_bundle_receipt :: "RunBundleReceiptV1 \<Rightarrow> serde_value" where
  "serialize_bundle_receipt r = serde_struct
     [(''schema_version'', SString ''pitgun.run-bundle-receipt/v1''),
      (''receipt'', serialize_receipt (bundle_receipt r))]"

text \<open>\<open>submitted_evidence\<close> and \<open>submitted_dynamic_evidence\<close>, which differ in the type of the submission.\<close>

definition evidence_of ::
    "externals \<Rightarrow> RunBundleReceiptV1 \<Rightarrow> RacingOutputV1 \<Rightarrow> TelemetrySummaryV1 \<Rightarrow> CanonicalJsonError + SubmittedEvidenceV1" where
  "evidence_of ext receipt out summary =
     and_then (canonical_json_digest ext (Inr (serialize_bundle_receipt receipt))) (\<lambda>r.
     and_then (canonical_json_digest ext (Inr (serialize_racing_output out))) (\<lambda>o_digest.
     and_then (canonical_json_digest ext (Inr (serialize_summary summary))) (\<lambda>t.
     Ok \<lparr>evidence_receipt_digest = r, evidence_output_digest = o_digest, evidence_telemetry_summary_digest = t\<rparr>)))"

definition submission_evidence :: "externals \<Rightarrow> 'i RacingVerificationSubmissionV1 \<Rightarrow> CanonicalJsonError + SubmittedEvidenceV1" where
  "submission_evidence ext s =
     evidence_of ext (submission_receipt s) (submission_output s) (submission_telemetry_summary s)"

definition submitted_dynamic_evidence ::
    "externals \<Rightarrow> 'i RacingDynamicVerificationSubmissionV1 \<Rightarrow> CanonicalJsonError + SubmittedEvidenceV1" where
  "submitted_dynamic_evidence ext s =
     evidence_of ext (dynamic_receipt s) (dynamic_output s) (dynamic_telemetry_summary s)"

text \<open>\<open>LogicalClockV1::new(..).ok()\<close> on the sampling rate of the input.\<close>

definition expected_clock :: "64 word \<Rightarrow> LogicalClockV1 option" where
  "expected_clock hz =
     (if \<not> is_finite64 hz \<or> f64_le hz F64_ZERO \<or> f64_has_fract hz \<or> f64_lt F64_MILLION hz then None
      else let rate = f64_to_u64 hz; divisor = greatest_common_divisor 1000000 rate
        in case clock_new 0 (1000000 div divisor) (rate div divisor) of Inl _ \<Rightarrow> None | Inr c \<Rightarrow> Some c)"

definition has_supported_contract_semantics :: "DeterministicRunContractV1 \<Rightarrow> 64 word \<Rightarrow> bool" where
  "has_supported_contract_semantics contract hz =
     (case expected_clock hz of
        None \<Rightarrow> False
      | Some clk \<Rightarrow>
          contract_version contract = ContractV1 \<and>
          contract_runtime_profile contract = PortableExactV1 \<and>
          random_algorithm (contract_random contract) = PitgunSplitMix64V1 \<and>
          stream_derivation (contract_random contract) = Sha256LabelV1 \<and>
          contract_clock contract = clk \<and>
          contract_event_ordering contract = event_ordering_v1 \<and>
          media_type (contract_input contract) = ApplicationJson \<and>
          canonicalization (contract_input contract) = JcsRfc8785)"

definition has_supported_contract_shape ::
    "externals \<Rightarrow> DeterministicRunContractV1 \<Rightarrow> 64 word \<Rightarrow> bool" where
  "has_supported_contract_shape ext contract hz =
     (case (identifier_new RACING_SCENARIO_ID, semantic_version_new ext RACING_SCENARIO_VERSION, expected_clock hz) of
        (Inr sid, Inr version, Some clk) \<Rightarrow>
          contract_version contract = ContractV1 \<and>
          scenario_id (contract_scenario contract) = sid \<and>
          scenario_version (contract_scenario contract) = version \<and>
          contract_runtime_profile contract = PortableExactV1 \<and>
          random_algorithm (contract_random contract) = PitgunSplitMix64V1 \<and>
          stream_derivation (contract_random contract) = Sha256LabelV1 \<and>
          contract_clock contract = clk \<and>
          contract_event_ordering contract = event_ordering_v1 \<and>
          media_type (contract_input contract) = ApplicationJson \<and>
          canonicalization (contract_input contract) = JcsRfc8785
      | _ \<Rightarrow> False)"

text \<open>The \<open>expect\<close> on the static version panics only if the version parser refuses \<open>1.0.0\<close>; that case
  counts as unsupported.\<close>

definition has_supported_dynamic_contract_shape ::
    "externals \<Rightarrow> DeterministicRunContractV1 \<Rightarrow> 64 word \<Rightarrow> bool" where
  "has_supported_dynamic_contract_shape ext contract hz =
     (case (identifier_new RACING_DYNAMIC_SCENARIO_ID, semantic_version_new ext RACING_SCENARIO_VERSION) of
        (Inr sid, Inr version) \<Rightarrow>
          has_supported_contract_semantics contract hz \<and>
          scenario_id (contract_scenario contract) = sid \<and>
          scenario_version (contract_scenario contract) = version
      | _ \<Rightarrow> False)"

fun authorization_reason :: "AuthorizationVerificationError \<Rightarrow> VerificationReasonCode" where
  "authorization_reason (AuthorizationFailed (AuthRunIdMismatch _ _)) = RunIdMismatchReason"
| "authorization_reason (AuthorizationFailed Expired) = AuthorizationExpired"
| "authorization_reason (AuthorizationFailed SubmissionGraceExpired) = AuthorizationExpired"
| "authorization_reason (AuthorizationFailed NotYetValid) = AuthorizationExpired"
| "authorization_reason (AttemptAuthorizationFailed (AttemptAuthorizationInvalid Expired)) = AuthorizationExpired"
| "authorization_reason (AttemptAuthorizationFailed (AttemptAuthorizationInvalid SubmissionGraceExpired)) = AuthorizationExpired"
| "authorization_reason (AttemptAuthorizationFailed (AttemptAuthorizationInvalid NotYetValid)) = AuthorizationExpired"
| "authorization_reason (AttemptAuthorizationFailed (InitialRunIdMismatch _ _)) = RunIdMismatchReason"
| "authorization_reason _ = InvalidAuthorization"

fun replay_reason :: "'e LinkedWorkloadError \<Rightarrow> VerificationReasonCode" where
  "replay_reason (ModelMismatch _ _) = UnknownModel"
| "replay_reason (InputDigestMismatch _ _) = ArtifactDigestMismatch"
| "replay_reason (Canonicalization _) = ReplayMismatch"
| "replay_reason (WorkloadFailed _) = ReplayMismatch"

section \<open>Verdicts\<close>

definition attempt_verdict ::
    "'res RacingVerifier \<Rightarrow> Digest \<Rightarrow> ExecutionId \<Rightarrow> SubmittedEvidenceV1 \<Rightarrow> VerificationStatus
       \<Rightarrow> VerificationReasonCode option \<Rightarrow> VerifiedResolutionV1 option \<Rightarrow> i64
       \<Rightarrow> RacingVerifierError + VerificationVerdictV1" where
  "attempt_verdict vf run execution ev status reason resolution now_ms =
     (let v = \<lparr>verdict_schema_version = VerdictV1, verdict_run_id = run, verdict_execution_id = execution,
               verdict_status = status, verdict_reason_code = reason, submitted_evidence = ev,
               verified_resolution = resolution, verifier_identity = verifier_self vf, recorded_at_ms = now_ms\<rparr>
      in and_also (map_err InvalidVerdict (verdict_validate v)) (Ok v))"

definition rejected_attempt ::
    "'res RacingVerifier \<Rightarrow> Digest \<Rightarrow> ExecutionId \<Rightarrow> SubmittedEvidenceV1 \<Rightarrow> VerificationReasonCode \<Rightarrow> i64
       \<Rightarrow> RacingVerifierError + VerificationVerdictV1" where
  "rejected_attempt vf run execution ev reason now_ms =
     attempt_verdict vf run execution ev Rejected (Some reason) None now_ms"

text \<open>\<open>verdict\<close> and \<open>rejected\<close> of the static path take the ids from the submission.\<close>

definition verdict ::
    "'res RacingVerifier \<Rightarrow> 'i RacingVerificationSubmissionV1 \<Rightarrow> SubmittedEvidenceV1 \<Rightarrow> VerificationStatus
       \<Rightarrow> VerificationReasonCode option \<Rightarrow> VerifiedResolutionV1 option \<Rightarrow> i64
       \<Rightarrow> RacingVerifierError + VerificationVerdictV1" where
  "verdict vf s ev status reason resolution now_ms =
     (let v = \<lparr>verdict_schema_version = VerdictV1,
               verdict_run_id = auth_run_id (authorization (submission_authorization s)),
               verdict_execution_id = receipt_execution_id (bundle_receipt (submission_receipt s)),
               verdict_status = status, verdict_reason_code = reason, submitted_evidence = ev,
               verified_resolution = resolution, verifier_identity = verifier_self vf, recorded_at_ms = now_ms\<rparr>
      in and_also (map_err InvalidVerdict (verdict_validate v)) (Ok v))"

definition rejected ::
    "'res RacingVerifier \<Rightarrow> 'i RacingVerificationSubmissionV1 \<Rightarrow> SubmittedEvidenceV1
       \<Rightarrow> VerificationReasonCode \<Rightarrow> i64 \<Rightarrow> RacingVerifierError + VerificationVerdictV1" where
  "rejected vf s ev reason now_ms = verdict vf s ev Rejected (Some reason) None now_ms"

section \<open>Verification of a run\<close>

text \<open>\<open>RacingVerifier::verify\<close> in three parts: authorization and policy, identities and receipt, replay.\<close>

definition verify_replay ::
    "externals \<Rightarrow> ('i, 'res, 'diag) racing_simulator \<Rightarrow> 'res RacingVerifier \<Rightarrow> 'i RacingVerificationSubmissionV1
       \<Rightarrow> SubmittedEvidenceV1 \<Rightarrow> 'res RacingCatalogSnapshot \<Rightarrow> i64 \<Rightarrow> RacingVerifierError + VerificationVerdictV1" where
  "verify_replay ext sim vf s ev catalog now_ms =
     (let auth = authorization (submission_authorization s); contract = auth_contract auth in
      case for_model ext (expected_model vf) catalog of
        Inl _ \<Rightarrow> rejected vf s ev UnknownModel now_ms
      | Inr workload \<Rightarrow>
         (case execute_linked ext (racing_workload ext sim workload) contract (submission_input s) of
            Inl failure \<Rightarrow> rejected vf s ev (replay_reason failure) now_ms
          | Inr replay \<Rightarrow>
              if executed_output_digest replay \<noteq> evidence_output_digest ev \<or>
                 run_output (executed_evidence replay) \<noteq> submission_output s
              then rejected vf s ev OutputMismatch now_ms
              else if executed_telemetry_summary_digest replay \<noteq> evidence_telemetry_summary_digest ev \<or>
                 run_telemetry_summary (executed_evidence replay) \<noteq> submission_telemetry_summary s
              then rejected vf s ev TelemetryMismatch now_ms
              else verdict vf s ev Verified None
                (Some \<lparr>resolved_model = contract_model contract, resolved_data_pack = contract_data_pack contract,
                       resolved_policy = policy auth\<rparr>) now_ms))"

definition verify_identity ::
    "externals \<Rightarrow> ('i, 'res, 'diag) racing_simulator \<Rightarrow> 'res RacingVerifier \<Rightarrow> 'i RacingVerificationSubmissionV1
       \<Rightarrow> SubmittedEvidenceV1 \<Rightarrow> 'res RacingCatalogSnapshot \<Rightarrow> i64 \<Rightarrow> RacingVerifierError + VerificationVerdictV1" where
  "verify_identity ext sim vf s ev catalog now_ms =
     (let auth = authorization (submission_authorization s); contract = auth_contract auth;
          receipt = bundle_receipt (submission_receipt s) in
      if contract_data_pack contract \<noteq> pack_identity (simulation_pack (snapshot_manifest catalog))
      then rejected vf s ev UnknownDataPack now_ms
      else if \<not> is_ok (validate_for_run (snapshot_manifest catalog) contract)
      then rejected vf s ev UnknownDataPack now_ms
      else if submission_resolution s \<noteq> from_catalog catalog (contract_model contract)
      then rejected vf s ev ArtifactDigestMismatch now_ms
      else and_then (map_err VerifierCanonicalJson (canonical_json_digest ext (sim_input_json sim (submission_input s))))
       (\<lambda>digest.
        if digest \<noteq> input_digest (contract_input contract) then rejected vf s ev ArtifactDigestMismatch now_ms
        else if \<not> is_ok (verify_receipt ext contract receipt) \<or> receipt_run_id receipt \<noteq> auth_run_id auth
        then rejected vf s ev ReceiptMismatch now_ms
        else if receipt_output_digest receipt \<noteq> evidence_output_digest ev
        then rejected vf s ev OutputMismatch now_ms
        else if receipt_telemetry_summary_digest receipt \<noteq> evidence_telemetry_summary_digest ev
        then rejected vf s ev TelemetryMismatch now_ms
        else verify_replay ext sim vf s ev catalog now_ms))"

definition verify ::
    "externals \<Rightarrow> crypto \<Rightarrow> ('i, 'res, 'diag) racing_simulator \<Rightarrow> 'res RacingVerifier
       \<Rightarrow> 'i RacingVerificationSubmissionV1 \<Rightarrow> i64 \<Rightarrow> RacingVerifierError + VerificationVerdictV1" where
  "verify ext cr sim vf s now_ms =
     (let auth = authorization (submission_authorization s); contract = auth_contract auth in
      and_then (map_err VerifierCanonicalJson (submission_evidence ext s)) (\<lambda>ev.
      case verify_submission ext cr (authorization_keys vf) (submission_authorization s) (expected_audience vf) now_ms of
        Inl failure \<Rightarrow> verdict vf s ev Rejected (Some (authorization_reason failure)) None now_ms
      | Inr _ \<Rightarrow>
          if \<not> has_supported_contract_shape ext contract (sim_hz sim (submission_input s))
          then rejected vf s ev InvalidAuthorization now_ms
          else if contract_model contract \<noteq> expected_model vf then rejected vf s ev UnknownModel now_ms
          else if policy auth \<noteq> verifier_policy vf then rejected vf s ev UnknownPolicy now_ms
          else (case verifier_catalog vf of
             None \<Rightarrow> verdict vf s ev Pending (Some CatalogUnavailable) None now_ms
           | Some catalog \<Rightarrow> verify_identity ext sim vf s ev catalog now_ms)))"

section \<open>Every verdict is well formed\<close>

lemma verdict_Ok:
  "verdict vf s ev status reason resolution now_ms = Ok v \<longleftrightarrow>
     verdict_shape status reason (resolution \<noteq> None) \<and> 0 \<le> sint now_ms \<and> sint now_ms \<le> 2 ^ 53 - 1 \<and>
     v = \<lparr>verdict_schema_version = VerdictV1,
          verdict_run_id = auth_run_id (authorization (submission_authorization s)),
          verdict_execution_id = receipt_execution_id (bundle_receipt (submission_receipt s)),
          verdict_status = status, verdict_reason_code = reason, submitted_evidence = ev,
          verified_resolution = resolution, verifier_identity = verifier_self vf, recorded_at_ms = now_ms\<rparr>"
  by (auto simp: verdict_def Let_def result_simps verdict_validate_Ok)

lemma rejected_Ok:
  "rejected vf s ev reason now_ms = Ok v \<Longrightarrow> verdict_status v = Rejected \<and> verdict_validate v = Ok ()"
  by (auto simp: rejected_def verdict_Ok verdict_validate_Ok)

lemmas verify_parts = verify_def verify_identity_def verify_replay_def

lemma rejected_not_verified [simp]: "rejected vf s ev reason now_ms = Ok v \<Longrightarrow> verdict_status v \<noteq> Verified"
  by (auto simp: rejected_def verdict_Ok)

definition echoes :: "'res RacingVerifier \<Rightarrow> 'i RacingVerificationSubmissionV1 \<Rightarrow> SubmittedEvidenceV1 \<Rightarrow> i64 \<Rightarrow> VerificationVerdictV1 \<Rightarrow> bool" where
  "echoes vf s ev now_ms v \<longleftrightarrow>
     verdict_validate v = Ok () \<and> verdict_run_id v = auth_run_id (authorization (submission_authorization s)) \<and>
     verdict_execution_id v = receipt_execution_id (bundle_receipt (submission_receipt s)) \<and>
     submitted_evidence v = ev \<and> verifier_identity v = verifier_self vf \<and> recorded_at_ms v = now_ms"

lemma verdict_echoes: "verdict vf s ev status reason resolution now_ms = Ok v \<Longrightarrow> echoes vf s ev now_ms v"
  by (auto simp: verdict_Ok echoes_def verdict_validate_Ok)

lemma rejected_echoes: "rejected vf s ev reason now_ms = Ok v \<Longrightarrow> echoes vf s ev now_ms v"
  unfolding rejected_def by (rule verdict_echoes)

lemma replay_echoes: "verify_replay ext sim vf s ev catalog now_ms = Ok v \<Longrightarrow> echoes vf s ev now_ms v"
  by (auto simp: verify_replay_def Let_def split: sum.splits if_splits intro: verdict_echoes rejected_echoes)

lemma identity_echoes: "verify_identity ext sim vf s ev catalog now_ms = Ok v \<Longrightarrow> echoes vf s ev now_ms v"
  by (auto simp: verify_identity_def Let_def result_simps split: if_splits intro: rejected_echoes replay_echoes)

lemma authorization_reason_terminal [simp]: "\<not> is_pending (authorization_reason e)"
  by (cases e rule: authorization_reason.cases) (simp_all add: is_pending_def)

lemma replay_reason_terminal [simp]: "\<not> is_pending (replay_reason e)"
  by (cases e) (simp_all add: is_pending_def)

definition time_ok :: "i64 \<Rightarrow> bool" where
  "time_ok now_ms \<longleftrightarrow> 0 \<le> sint now_ms \<and> sint now_ms \<le> 2 ^ 53 - 1"

lemma verdict_is_ok:
  "is_ok (verdict vf s ev status reason resolution now_ms) \<longleftrightarrow>
     time_ok now_ms \<and> verdict_shape status reason (resolution \<noteq> None)"
  by (auto simp: is_ok_iff verdict_Ok time_ok_def)

lemma rejected_is_ok: "is_ok (rejected vf s ev reason now_ms) \<longleftrightarrow> time_ok now_ms \<and> \<not> is_pending reason"
  by (simp add: rejected_def verdict_is_ok)

lemma terminal_reasons [simp]:
  "\<not> is_pending UnknownModel" "\<not> is_pending OutputMismatch" "\<not> is_pending TelemetryMismatch"
  "\<not> is_pending UnknownDataPack" "\<not> is_pending ArtifactDigestMismatch" "\<not> is_pending ReceiptMismatch"
  "\<not> is_pending InvalidAuthorization" "\<not> is_pending UnknownPolicy" "is_pending CatalogUnavailable"
  by (simp_all add: is_pending_def)

lemma replay_is_ok: "time_ok now_ms \<Longrightarrow> is_ok (verify_replay ext sim vf s ev catalog now_ms)"
  by (simp add: verify_replay_def Let_def verdict_is_ok rejected_is_ok split: sum.splits)

lemma identity_is_ok:
  assumes "time_ok now_ms" "canonical_json_digest ext (sim_input_json sim (submission_input s)) = Ok d"
  shows "is_ok (verify_identity ext sim vf s ev catalog now_ms)"
  using assms by (simp add: verify_identity_def Let_def rejected_is_ok replay_is_ok result_simps)

text \<open>Whatever the submission contains, an issued verdict is valid, names the authorized run, the submitted
  execution, the digests of the submitted evidence, the verifier and the time; and with a usable clock value
  and evidence and input that canonicalize, a verdict is always issued.\<close>

theorem verify_total:
  "(\<forall>v. verify ext cr sim vf s now_ms = Ok v \<longrightarrow>
      (\<exists>ev. submission_evidence ext s = Ok ev \<and> echoes vf s ev now_ms v)) \<and>
   (time_ok now_ms \<and> is_ok (submission_evidence ext s) \<and>
      is_ok (canonical_json_digest ext (sim_input_json sim (submission_input s)))
    \<longrightarrow> is_ok (verify ext cr sim vf s now_ms))"
proof (intro conjI allI impI)
  fix v
  assume "verify ext cr sim vf s now_ms = Ok v"
  then show "\<exists>ev. submission_evidence ext s = Ok ev \<and> echoes vf s ev now_ms v"
    by (cases "submission_evidence ext s";
        cases "verify_submission ext cr (authorization_keys vf) (submission_authorization s) (expected_audience vf) now_ms")
       (auto simp: verify_def Let_def result_simps split: if_splits option.splits
          intro: verdict_echoes rejected_echoes identity_echoes)
next
  assume "time_ok now_ms \<and> is_ok (submission_evidence ext s) \<and>
      is_ok (canonical_json_digest ext (sim_input_json sim (submission_input s)))"
  then obtain ev d where "time_ok now_ms" "submission_evidence ext s = Ok ev"
      "canonical_json_digest ext (sim_input_json sim (submission_input s)) = Ok d"
    by (auto simp: is_ok_iff)
  then show "is_ok (verify ext cr sim vf s now_ms)"
    by (simp add: verify_def Let_def result_simps verdict_is_ok rejected_is_ok identity_is_ok
        split: sum.splits option.splits)
qed

section \<open>What a verified verdict means\<close>

text \<open>A submission agrees with a replay of its contract on a catalog.\<close>

definition replay_agrees ::
    "externals \<Rightarrow> ('i, 'res, 'diag) racing_simulator \<Rightarrow> 'res RacingCatalogSnapshot \<Rightarrow> 'i RacingVerificationSubmissionV1
       \<Rightarrow> bool" where
  "replay_agrees ext sim catalog s \<longleftrightarrow>
     (let contract = auth_contract (authorization (submission_authorization s)) in
      \<exists>w out. for_model ext (contract_model contract) catalog = Ok w \<and>
        canonical_json_digest ext (sim_input_json sim (submission_input s)) = Ok (input_digest (contract_input contract)) \<and>
        racing_execute ext sim w contract (submission_input s) =
          Ok (out, \<lparr>run_output = submission_output s, run_telemetry_summary = submission_telemetry_summary s\<rparr>))"

text \<open>The receipt and the lineage of a submission fit its authorization, its evidence and the catalog.\<close>

definition receipt_agrees ::
    "externals \<Rightarrow> 'res RacingCatalogSnapshot \<Rightarrow> 'i RacingVerificationSubmissionV1 \<Rightarrow> SubmittedEvidenceV1 \<Rightarrow> bool" where
  "receipt_agrees ext catalog s ev \<longleftrightarrow>
     (let auth = authorization (submission_authorization s); receipt = bundle_receipt (submission_receipt s) in
      validate_for_run (snapshot_manifest catalog) (auth_contract auth) = Ok () \<and>
      submission_resolution s = from_catalog catalog (contract_model (auth_contract auth)) \<and>
      run_id ext (auth_contract auth) = Ok (auth_run_id auth) \<and> receipt_run_id receipt = auth_run_id auth \<and>
      receipt_output_digest receipt = evidence_output_digest ev \<and>
      receipt_telemetry_summary_digest receipt = evidence_telemetry_summary_digest ev)"

definition verified_verdict ::
    "'res RacingVerifier \<Rightarrow> 'i RacingVerificationSubmissionV1 \<Rightarrow> SubmittedEvidenceV1 \<Rightarrow> i64 \<Rightarrow> VerificationVerdictV1" where
  "verified_verdict vf s ev now_ms =
     (let auth = authorization (submission_authorization s) in
      \<lparr>verdict_schema_version = VerdictV1, verdict_run_id = auth_run_id auth,
       verdict_execution_id = receipt_execution_id (bundle_receipt (submission_receipt s)),
       verdict_status = Verified, verdict_reason_code = None, submitted_evidence = ev,
       verified_resolution = Some \<lparr>resolved_model = expected_model vf,
         resolved_data_pack = contract_data_pack (auth_contract auth), resolved_policy = verifier_policy vf\<rparr>,
       verifier_identity = verifier_self vf, recorded_at_ms = now_ms\<rparr>)"

lemma evidence_digests:
  assumes "submission_evidence ext s = Ok ev"
  shows "canonical_json_digest ext (Inr (serialize_racing_output (submission_output s))) = Ok (evidence_output_digest ev)"
    "canonical_json_digest ext (Inr (serialize_summary (submission_telemetry_summary s))) =
       Ok (evidence_telemetry_summary_digest ev)"
  using assms by (auto simp: submission_evidence_def evidence_of_def result_simps)

lemma verify_replay_verified:
  assumes ev: "submission_evidence ext s = Ok ev"
    and model: "contract_model (auth_contract (authorization (submission_authorization s))) = expected_model vf"
    and pol: "policy (authorization (submission_authorization s)) = verifier_policy vf"
    and run: "run_id ext (auth_contract (authorization (submission_authorization s))) = Ok r"
    and digest: "canonical_json_digest ext (sim_input_json sim (submission_input s)) =
      Ok (input_digest (contract_input (auth_contract (authorization (submission_authorization s)))))"
  shows "verify_replay ext sim vf s ev catalog now_ms = Ok v \<and> verdict_status v = Verified \<longleftrightarrow>
    replay_agrees ext sim catalog s \<and> time_ok now_ms \<and> v = verified_verdict vf s ev now_ms"
proof (cases "for_model ext (expected_model vf) catalog")
  case (Inl e)
  then show ?thesis by (auto simp: verify_replay_def replay_agrees_def Let_def model)
next
  case (Inr w)
  note sel = Inr
  let ?contract = "auth_contract (authorization (submission_authorization s))"
  have wm: "model_identity (racing_workload ext sim w) = contract_model ?contract"
    using for_model_model [OF sel] model by (simp add: racing_workload_def)
  show ?thesis
  proof (cases "racing_execute ext sim w ?contract (submission_input s)")
    case (Inl e)
    then have "execute_linked ext (racing_workload ext sim w) ?contract (submission_input s) = Err (WorkloadFailed e)"
      using wm digest run by (simp add: execute_linked_def racing_workload_def result_simps)
    then show ?thesis using sel Inl by (auto simp: verify_replay_def replay_agrees_def Let_def model)
  next
    case (Inr oe)
    obtain out ev' where oe: "oe = (out, ev')" by (cases oe)
    define claimed where
      "claimed = \<lparr>run_output = submission_output s, run_telemetry_summary = submission_telemetry_summary s\<rparr>"
    show ?thesis
    proof (cases "ev' = claimed")
      case True
      then have "execute_linked ext (racing_workload ext sim w) ?contract (submission_input s) =
          Ok \<lparr>executed_run_id = r, executed_output_digest = evidence_output_digest ev,
              executed_telemetry_summary_digest = evidence_telemetry_summary_digest ev,
              executed_output = out, executed_evidence = claimed\<rparr>"
        using Inr oe wm digest run evidence_digests [OF ev]
        by (simp add: execute_linked_def racing_workload_def result_simps evidence_digest_output_def
            evidence_digest_telemetry_def claimed_def)
      then show ?thesis
        using sel Inr oe True digest
        by (auto simp: verify_replay_def replay_agrees_def Let_def model pol verdict_Ok verified_verdict_def
            time_ok_def claimed_def)
    next
      case False
      then have "\<not> replay_agrees ext sim catalog s"
        using sel Inr oe by (auto simp: replay_agrees_def Let_def model claimed_def)
      moreover have "run_output ev' = submission_output s \<Longrightarrow> run_telemetry_summary ev' \<noteq> submission_telemetry_summary s"
        using False by (auto simp: claimed_def)
      moreover have "executed_evidence x = ev'"
        if "execute_linked ext (racing_workload ext sim w) ?contract (submission_input s) = Ok x" for x
        using that Inr oe by (auto simp: execute_linked_def racing_workload_def result_simps split: if_splits)
      ultimately show ?thesis
        using sel by (auto simp: verify_replay_def Let_def model split: sum.splits)
    qed
  qed
qed

lemma verify_identity_verified:
  assumes ev: "submission_evidence ext s = Ok ev"
    and model: "contract_model (auth_contract (authorization (submission_authorization s))) = expected_model vf"
    and pol: "policy (authorization (submission_authorization s)) = verifier_policy vf"
    and run: "run_id ext (auth_contract (authorization (submission_authorization s))) =
      Ok (auth_run_id (authorization (submission_authorization s)))"
  shows "verify_identity ext sim vf s ev catalog now_ms = Ok v \<and> verdict_status v = Verified \<longleftrightarrow>
    receipt_agrees ext catalog s ev \<and> replay_agrees ext sim catalog s \<and> time_ok now_ms \<and>
    v = verified_verdict vf s ev now_ms"
proof -
  let ?auth = "authorization (submission_authorization s)"
  let ?receipt = "bundle_receipt (submission_receipt s)"
  have ok_iff: "is_ok r \<longleftrightarrow> r = Ok ()" for r :: "'e + unit" by (auto simp: is_ok_iff)
  have receipt: "verify_receipt ext (auth_contract ?auth) ?receipt = Ok () \<longleftrightarrow> receipt_run_id ?receipt = auth_run_id ?auth"
    using run by (auto simp: verify_receipt_def result_simps split: if_splits)
  have pack: "validate_for_run (snapshot_manifest catalog) (auth_contract ?auth) = Ok () \<Longrightarrow>
      contract_data_pack (auth_contract ?auth) = pack_identity (simulation_pack (snapshot_manifest catalog))"
    by (auto simp: validate_for_run_def result_simps split: if_splits)
  show ?thesis
  proof (cases "receipt_agrees ext catalog s ev \<and> canonical_json_digest ext (sim_input_json sim (submission_input s)) =
      Ok (input_digest (contract_input (auth_contract ?auth)))")
    case True
    then have "verify_identity ext sim vf s ev catalog now_ms = verify_replay ext sim vf s ev catalog now_ms"
      using pack receipt by (simp add: verify_identity_def receipt_agrees_def Let_def result_simps ok_iff)
    then show ?thesis using verify_replay_verified [OF ev model pol run] True by auto
  next
    case False
    then have "\<not> (receipt_agrees ext catalog s ev \<and> replay_agrees ext sim catalog s)"
      by (auto simp: replay_agrees_def Let_def)
    moreover have "verdict_status v \<noteq> Verified" if "verify_identity ext sim vf s ev catalog now_ms = Ok v"
      using that False run receipt
      by (auto simp: verify_identity_def receipt_agrees_def Let_def result_simps ok_iff split: if_splits)
    ultimately show ?thesis by blast
  qed
qed

text \<open>The authorization, the contract and the policy are acceptable to a verifier.\<close>

definition admitted ::
    "externals \<Rightarrow> crypto \<Rightarrow> ('i, 'res, 'diag) racing_simulator \<Rightarrow> 'res RacingVerifier
       \<Rightarrow> 'i RacingVerificationSubmissionV1 \<Rightarrow> i64 \<Rightarrow> bool" where
  "admitted ext cr sim vf s now_ms \<longleftrightarrow>
     (let auth = authorization (submission_authorization s) in
      verify_submission ext cr (authorization_keys vf) (submission_authorization s) (expected_audience vf) now_ms = Ok () \<and>
      has_supported_contract_shape ext (auth_contract auth) (sim_hz sim (submission_input s)) \<and>
      contract_model (auth_contract auth) = expected_model vf \<and> policy auth = verifier_policy vf)"

lemma submission_run_id:
  "verify_submission ext cr ring tok aud now_ms = Ok () \<Longrightarrow>
     run_id ext (auth_contract (authorization tok)) = Ok (auth_run_id (authorization tok))"
  by (auto simp: verify_submission_def verify_signature_and_audience_def auth_signing_bytes_def
      auth_integrity_Ok result_simps split: if_splits)

lemma verify_verified:
  "verify ext cr sim vf s now_ms = Ok v \<and> verdict_status v = Verified \<longleftrightarrow>
   (\<exists>ev catalog. submission_evidence ext s = Ok ev \<and> verifier_catalog vf = Some catalog \<and> time_ok now_ms \<and>
      admitted ext cr sim vf s now_ms \<and> receipt_agrees ext catalog s ev \<and> replay_agrees ext sim catalog s \<and>
      v = verified_verdict vf s ev now_ms)"
proof (cases "admitted ext cr sim vf s now_ms")
  case True
  then have run: "run_id ext (auth_contract (authorization (submission_authorization s))) =
      Ok (auth_run_id (authorization (submission_authorization s)))"
    and model: "contract_model (auth_contract (authorization (submission_authorization s))) = expected_model vf"
    and pol: "policy (authorization (submission_authorization s)) = verifier_policy vf"
    by (auto simp: admitted_def Let_def intro: submission_run_id)
  show ?thesis
  proof (cases "verifier_catalog vf")
    case None
    then show ?thesis using True
      by (auto simp: verify_def admitted_def Let_def result_simps verdict_Ok)
  next
    case (Some catalog)
    then have "verify ext cr sim vf s now_ms =
        and_then (map_err VerifierCanonicalJson (submission_evidence ext s)) (\<lambda>ev.
          verify_identity ext sim vf s ev catalog now_ms)"
      using True by (simp add: verify_def admitted_def Let_def)
    then show ?thesis
      using Some True verify_identity_verified [OF _ model pol run, of _ sim catalog now_ms v]
      by (cases "submission_evidence ext s") (simp_all add: result_simps, blast)
  qed
next
  case False
  then have "verdict_status v \<noteq> Verified" if "verify ext cr sim vf s now_ms = Ok v"
    using that
    by (cases "submission_evidence ext s";
        cases "verify_submission ext cr (authorization_keys vf) (submission_authorization s) (expected_audience vf) now_ms")
       (auto simp: verify_def admitted_def Let_def result_simps verdict_Ok split: if_splits)
  then show ?thesis using False by blast
qed

text \<open>C2: a submission is verified exactly when its evidence canonicalizes, a catalog is present, the time is usable,
  the signed authorization is accepted for this audience and moment, the contract has the racing shape with
  the clock of its input, model and policy are the expected ones, catalog, lineage, run id and receipt agree,
  and the race engine run on the submitted input under the signed contract returns the submitted output and
  telemetry summary.\<close>

theorem verify_verified_exact:
  "verify ext cr sim vf s now_ms = Ok v \<and> verdict_status v = Verified \<longleftrightarrow>
   (\<exists>ev catalog. submission_evidence ext s = Ok ev \<and> verifier_catalog vf = Some catalog \<and> time_ok now_ms \<and>
      admitted ext cr sim vf s now_ms \<and> receipt_agrees ext catalog s ev \<and> replay_agrees ext sim catalog s \<and>
      v = verified_verdict vf s ev now_ms)"
  by (rule verify_verified)

text \<open>C10: two verified submissions with one contract and one input carry the same output and the same telemetry
  summary, whoever executed them and whenever: a verifier never confirms two results for a run.\<close>

theorem verified_result_unique:
  assumes "verify ext cr sim vf s now_ms = Ok v" "verdict_status v = Verified"
    and "verify ext cr sim vf s' now_ms' = Ok v'" "verdict_status v' = Verified"
    and "auth_contract (authorization (submission_authorization s)) = auth_contract (authorization (submission_authorization s'))"
    and "submission_input s = submission_input s'"
  shows "submission_output s = submission_output s' \<and> submission_telemetry_summary s = submission_telemetry_summary s'"
proof -
  obtain catalog where "verifier_catalog vf = Some catalog" "replay_agrees ext sim catalog s"
    using verify_verified [of ext cr sim vf s now_ms v] assms(1,2) by blast
  moreover have "replay_agrees ext sim catalog s'"
    using verify_verified [of ext cr sim vf s' now_ms' v'] assms(3,4) calculation(1) by auto
  ultimately show ?thesis
    using assms(5,6) by (auto simp: replay_agrees_def Let_def)
qed

section \<open>Honest executions are verified\<close>

lemma execute_authorized_race_Ok:
  assumes "execute_authorized_race ext sim request catalog = Ok s"
  obtains w x receipt where
    "submission_authorization s = hosted_authorization request" "submission_input s = hosted_input request"
    "auth_validate_integrity ext (authorization (hosted_authorization request)) = Ok ()"
    "validate_for_run (snapshot_manifest catalog) (auth_contract (authorization (hosted_authorization request))) = Ok ()"
    "for_model ext (contract_model (auth_contract (authorization (hosted_authorization request)))) catalog = Ok w"
    "execute_linked ext (racing_workload ext sim w) (auth_contract (authorization (hosted_authorization request)))
       (hosted_input request) = Ok x"
    "execution_receipt ext (executed_evidence x) (auth_contract (authorization (hosted_authorization request)))
       (hosted_execution_id request) (wasm_runtime (hosted_wasm_digest request)) = Ok receipt"
    "submission_receipt s = \<lparr>bundle_receipt_version = BundleReceiptV1, bundle_receipt = receipt\<rparr>"
    "submission_output s = run_output (executed_evidence x)"
    "submission_telemetry_summary s = run_telemetry_summary (executed_evidence x)"
    "submission_resolution s =
       from_catalog catalog (contract_model (auth_contract (authorization (hosted_authorization request))))"
  using assms
  by (auto simp: execute_authorized_race_def execute_authorized_race_application_def Let_def result_simps)

lemma honest_submission:
  assumes run: "execute_authorized_race ext sim request catalog = Ok s"
    and receipt: "canonical_json_digest ext (Inr (serialize_bundle_receipt (submission_receipt s))) = Ok rd"
  shows "\<exists>ev. submission_evidence ext s = Ok ev \<and> receipt_agrees ext catalog s ev \<and> replay_agrees ext sim catalog s"
  using run
proof (rule execute_authorized_race_Ok)
  fix w x r
  assume s: "submission_authorization s = hosted_authorization request" "submission_input s = hosted_input request"
    "submission_receipt s = \<lparr>bundle_receipt_version = BundleReceiptV1, bundle_receipt = r\<rparr>"
    "submission_output s = run_output (executed_evidence x)"
    "submission_telemetry_summary s = run_telemetry_summary (executed_evidence x)"
    "submission_resolution s =
       from_catalog catalog (contract_model (auth_contract (authorization (hosted_authorization request))))"
    and integrity: "auth_validate_integrity ext (authorization (hosted_authorization request)) = Ok ()"
    and valid: "validate_for_run (snapshot_manifest catalog) (auth_contract (authorization (hosted_authorization request))) = Ok ()"
    and sel: "for_model ext (contract_model (auth_contract (authorization (hosted_authorization request)))) catalog = Ok w"
    and exec: "execute_linked ext (racing_workload ext sim w) (auth_contract (authorization (hosted_authorization request)))
       (hosted_input request) = Ok x"
    and rec: "execution_receipt ext (executed_evidence x) (auth_contract (authorization (hosted_authorization request)))
       (hosted_execution_id request) (wasm_runtime (hosted_wasm_digest request)) = Ok r"
  obtain od td where digests: "evidence_digest_output ext (executed_evidence x) = Ok od"
      "evidence_digest_telemetry ext (executed_evidence x) = Ok td"
    and r: "run_id ext (auth_contract (authorization (hosted_authorization request))) = Ok (receipt_run_id r)"
      "receipt_output_digest r = od" "receipt_telemetry_summary_digest r = td"
    using rec by (auto simp: execution_receipt_def receipt_for_contract_def result_simps)
  have "submission_evidence ext s =
      Ok \<lparr>evidence_receipt_digest = rd, evidence_output_digest = od, evidence_telemetry_summary_digest = td\<rparr>"
    using receipt digests s
    by (simp add: submission_evidence_def evidence_of_def evidence_digest_output_def evidence_digest_telemetry_def result_simps)
  moreover have "receipt_agrees ext catalog s
      \<lparr>evidence_receipt_digest = rd, evidence_output_digest = od, evidence_telemetry_summary_digest = td\<rparr>"
    using s r valid integrity by (auto simp: receipt_agrees_def Let_def auth_integrity_Ok)
  moreover have "replay_agrees ext sim catalog s"
    using exec sel s
    by (auto simp: replay_agrees_def Let_def execute_linked_def racing_workload_def result_simps split: if_splits)
  ultimately show ?thesis by blast
qed

text \<open>C8: what the browser runtime produces for an accepted authorization, the verifier verifies. If
  \<open>execute_authorized_race\<close> succeeds and the verifier holds the same catalog and race engine, admits the
  authorization, contract and policy, and can canonicalize the receipt, then its verdict is verified.\<close>

theorem honest_run_verified:
  assumes "execute_authorized_race ext sim request catalog = Ok s"
    and "verifier_catalog vf = Some catalog" "admitted ext cr sim vf s now_ms" "time_ok now_ms"
    and "canonical_json_digest ext (Inr (serialize_bundle_receipt (submission_receipt s))) = Ok rd"
  shows "\<exists>v. verify ext cr sim vf s now_ms = Ok v \<and> verdict_status v = Verified"
  using honest_submission [OF assms(1,5)] assms(2-4) unfolding verify_verified by blast

section \<open>The expected clock\<close>

definition whole_hertz :: "64 word \<Rightarrow> nat \<Rightarrow> bool" where
  "whole_hertz hz h \<longleftrightarrow> 1 \<le> h \<and> h \<le> 1000000 \<and> f64_scaled hz = int h * 2 ^ 1074"

lemma f64_positive:
  assumes "0 < f64_scaled b"
  shows "\<not> bit b 63" "int (f64_magnitude b) = f64_scaled b"
  using assms by (auto simp: f64_scaled_def split: if_splits)

lemma whole_hertz_rate:
  assumes "whole_hertz hz h"
  shows "f64_magnitude hz = h * 2 ^ 1074" "f64_to_u64 hz = of_nat h" "is_finite64 hz"
proof -
  have pos: "0 < f64_scaled hz" and small: "h \<le> 1000000" and sc: "f64_scaled hz = int h * 2 ^ 1074"
    using assms by (auto simp: whole_hertz_def)
  have "int (f64_magnitude hz) = int (h * 2 ^ 1074)"
    unfolding f64_positive(2) [OF pos] sc by simp
  then show m: "f64_magnitude hz = h * 2 ^ 1074" by (simp only: of_nat_eq_iff)
  have "f64_magnitude hz div 2 ^ 1074 = h" unfolding m by (rule nonzero_mult_div_cancel_right) simp
  then show "f64_to_u64 hz = of_nat h"
    using f64_positive(1) [OF pos] small by (simp add: f64_to_u64_def)
  have "f64_scaled hz \<le> 1000000 * 2 ^ 1074" unfolding sc using small by (intro mult_right_mono) simp_all
  also have "\<dots> < (2::int) ^ 2098" by simp
  finally show "is_finite64 hz" using pos by (intro small_finite) (simp only: abs_of_pos)
qed

lemma hertz_guard:
  "is_finite64 hz \<and> \<not> f64_le hz F64_ZERO \<and> \<not> f64_has_fract hz \<and> \<not> f64_lt F64_MILLION hz \<longleftrightarrow> (\<exists>h. whole_hertz hz h)"
proof (intro iffI; (elim conjE exE)?)
  assume fin: "is_finite64 hz" and pos: "\<not> f64_le hz F64_ZERO" and whole: "\<not> f64_has_fract hz"
    and top: "\<not> f64_lt F64_MILLION hz"
  have "0 < f64_scaled hz" "f64_scaled hz \<le> 1000000 * 2 ^ 1074"
    using fin pos top finite_not_nan [OF fin]
    by (auto simp: f64_le_def f64_lt_def f64_constants_not_nan f64_constant_values simp del: power_numeral)
  moreover define h where "h = f64_magnitude hz div 2 ^ 1074"
  have "f64_magnitude hz = h * 2 ^ 1074"
    using whole by (simp add: f64_has_fract_def h_def mod_eq_0_iff_dvd dvd_div_mult_self del: power_numeral)
  then have "int h * 2 ^ 1074 = int (f64_magnitude hz)" by (simp del: power_numeral)
  ultimately have sc: "f64_scaled hz = int h * 2 ^ 1074" and "0 < int h * (2::int) ^ 1074"
    "int h * 2 ^ 1074 \<le> 1000000 * (2::int) ^ 1074"
    using f64_positive(2) [of hz] by (simp_all only:)
  then have "1 \<le> h" "h \<le> 1000000"
    by (simp_all only: zero_less_mult_iff mult_le_cancel_right) auto
  with sc show "\<exists>h. whole_hertz hz h" by (auto simp: whole_hertz_def)
next
  fix h
  assume w: "whole_hertz hz h"
  have bounds: "0 < f64_scaled hz" "f64_scaled hz \<le> 1000000 * 2 ^ 1074"
    using w by (auto simp: whole_hertz_def simp del: power_numeral intro!: mult_right_mono)
  show "is_finite64 hz \<and> \<not> f64_le hz F64_ZERO \<and> \<not> f64_has_fract hz \<and> \<not> f64_lt F64_MILLION hz"
    using bounds whole_hertz_rate [OF w]
    by (simp add: f64_le_def f64_lt_def f64_has_fract_def f64_constant_values del: power_numeral)
qed

lemma reduced_clock:
  assumes "1 \<le> h" "h \<le> 1000000"
  defines "g \<equiv> greatest_common_divisor 1000000 (of_nat h)"
  shows "clock_new 0 (1000000 div g) (of_nat h div g) = Ok c \<longleftrightarrow>
    c = \<lparr>clock_kind = LogicalFixedStep, clock_epoch = 0, tick_numerator_us = of_nat (1000000 div gcd 1000000 h),
         tick_denominator = of_nat (h div gcd 1000000 h)\<rparr>"
proof -
  have h: "unat (of_nat h :: u64) = h" using assms(2) by (simp add: unsigned_of_nat take_bit_nat_eq_self)
  have g: "unat g = gcd 1000000 h" by (simp add: g_def gcd_loop h)
  have n: "unat (1000000 div g) = 1000000 div gcd 1000000 h" by (simp add: unat_div_distrib g)
  have d: "unat (of_nat h div g) = h div gcd 1000000 h" by (simp add: unat_div_distrib g h)
  have pos: "0 < gcd 1000000 h" by simp
  have le: "1000000 div gcd 1000000 h \<le> 9007199254740991" "h div gcd 1000000 h \<le> 9007199254740991"
    using assms(2) by (auto intro: le_trans [OF div_le_dividend])
  have ge: "0 < 1000000 div gcd 1000000 h" "0 < h div gcd 1000000 h"
    using assms(1) pos by (simp_all only: div_greater_zero_iff) (auto intro: gcd_le1_nat gcd_le2_nat)
  have cop: "coprime (1000000 div gcd 1000000 h) (h div gcd 1000000 h)"
    by (rule div_gcd_coprime) simp
  have words: "1000000 div g = of_nat (1000000 div gcd 1000000 h)" "of_nat h div g = of_nat (h div gcd 1000000 h)"
    by (simp_all only: n [symmetric] d [symmetric] of_nat_unat ucast_id)
  show ?thesis
    unfolding clock_new_iff unfolding n d unfolding words using le ge cop by auto
qed

lemma expected_clock_iff:
  "expected_clock hz = Some c \<longleftrightarrow>
   (\<exists>h. whole_hertz hz h \<and>
      c = \<lparr>clock_kind = LogicalFixedStep, clock_epoch = 0,
           tick_numerator_us = of_nat (1000000 div gcd 1000000 h), tick_denominator = of_nat (h div gcd 1000000 h)\<rparr>)"
proof (cases "\<exists>h. whole_hertz hz h")
  case True
  then obtain h where h: "whole_hertz hz h" by blast
  then have range: "1 \<le> h" "h \<le> 1000000" by (auto simp: whole_hertz_def)
  have unique: "whole_hertz hz k \<Longrightarrow> k = h" for k using h by (simp add: whole_hertz_def)
  have "expected_clock hz = Some c \<longleftrightarrow>
      clock_new 0 (1000000 div greatest_common_divisor 1000000 (of_nat h))
        (of_nat h div greatest_common_divisor 1000000 (of_nat h)) = Ok c"
    using True [folded hertz_guard] whole_hertz_rate(2) [OF h]
    by (auto simp: expected_clock_def Let_def split: sum.splits)
  then show ?thesis unfolding reduced_clock [OF range] using h unique by blast
next
  case False
  then show ?thesis using False [folded hertz_guard] by (auto simp: expected_clock_def)
qed

text \<open>A sampling rate has a clock exactly when it is a whole number of hertz from 1 to 1000000, and the clock then
  ticks every \<open>1000000 / hz\<close> microseconds, as a fraction in lowest terms.\<close>

theorem expected_clock_exact:
  "expected_clock hz = Some c \<longleftrightarrow>
   (\<exists>h. whole_hertz hz h \<and>
      c = \<lparr>clock_kind = LogicalFixedStep, clock_epoch = 0,
           tick_numerator_us = of_nat (1000000 div gcd 1000000 h), tick_denominator = of_nat (h div gcd 1000000 h)\<rparr>)"
  by (rule expected_clock_iff)

section \<open>A sample race\<close>

definition race_contract :: DeterministicRunContractV1 where
  "race_contract = (sample_contract 0 0)
     \<lparr>contract_scenario := \<lparr>scenario_id = Identifier ''racing.race'', scenario_version = SemanticVersion ''1.0.0''\<rparr>,
      contract_model := racing_model_v1_identity weak_ext,
      contract_clock := \<lparr>clock_kind = LogicalFixedStep, clock_epoch = 0, tick_numerator_us = 1000, tick_denominator = 1\<rparr>\<rparr>"

definition race_authorization :: SignedRunAuthorizationV1 where
  "race_authorization = \<lparr>authorization = (sample_authorization 1)\<lparr>auth_contract := race_contract\<rparr>,
     auth_algorithm = HmacSha256, signature = from_utf8_bytes [5]\<rparr>"

definition race_output :: "unit RaceOutput" where
  "race_output = \<lparr>race_standings = [], race_total_time_ms = 0, race_player_pit_laps = [], race_player_lap_times_ms = [],
     race_player_batches = [], race_diagnostics = ()\<rparr>"

definition race_sim :: "(unit, unit, unit) racing_simulator" where
  "race_sim = \<lparr>sim_input_json = \<lambda>_. Inr SUnit, sim_era = \<lambda>_. 0, sim_hz = \<lambda>_. 0x408F400000000000,
     sim_run_race = \<lambda>_. Ok race_output, sim_run_thermal_family = \<lambda>_ _ _. Ok race_output,
     sim_run_power_unit = \<lambda>_ _ _. Ok race_output, sim_run_timeline = \<lambda>_ _ _. Ok race_output,
     sim_run_fuel_contract = \<lambda>_ _ _. Ok race_output, sim_tuning_response = \<lambda>_ _. Ok (),
     sim_run_model_response = \<lambda>_ _ _ _. Ok race_output\<rparr>"

definition race_catalog :: "unit RacingCatalogSnapshot" where
  "race_catalog = \<lparr>snapshot_manifest = (sample_catalog ''a.json'')\<lparr>compatibility :=
       \<lparr>compatibility_schema_version = CatalogCompatibilityVersionV1, contract_versions = [ContractV1],
        compatible_models = [\<lparr>compatible_id = Identifier ''pitgun.racing'',
          compatible_versions = [SemanticVersion ''1.0.0'']\<rparr>]\<rparr>\<rparr>,
     snapshot_release_identity = sample_release, snapshot_resources = (), model_parameters_identity = None,
     thermal_family_profile = None, thermal_family_profile_identity = None, power_unit_thermal_profile = None,
     power_unit_thermal_profile_identity = None, component_capability_profile_identity = None,
     driver_instruction_profile = None, driver_instruction_profile_identity = None, fuel_contract_identity = None,
     catalog_driver_control_profile = None, drivers_v2 = [], fuel_contract = None\<rparr>"

definition race_verifier :: "unit RacingVerifier" where
  "race_verifier = verifier_new (keyring_insert keyring_new (Identifier ''key-1'') (SigningKey [5])) (Identifier ''verifier'')
     (racing_model_v1_identity weak_ext) (sample_artifact ''policy'' 9) (Some race_catalog) (sample_artifact ''verifier'' 1)"

definition race_request :: "Digest \<Rightarrow> unit RacingHostedExecutionRequestV1" where
  "race_request wasm = \<lparr>hosted_schema_version = HostedExecutionRequestV1, hosted_authorization = race_authorization,
     hosted_input = (), hosted_execution_id = ExecutionId ''x'', hosted_wasm_digest = wasm\<rparr>"

definition race_submission :: "Digest \<Rightarrow> unit RacingVerificationSubmissionV1" where
  "race_submission wasm = \<lparr>submission_authorization = race_authorization, submission_input = (),
     submission_receipt = \<lparr>bundle_receipt_version = BundleReceiptV1, bundle_receipt =
       \<lparr>receipt_run_id = sample_digest 0, receipt_execution_id = ExecutionId ''x'', receipt_runtime = wasm_runtime wasm,
        receipt_output_digest = sample_digest 0, receipt_telemetry_summary_digest = sample_digest 0\<rparr>\<rparr>,
     submission_output = \<lparr>output_schema_version = RacingOutputVersionV1, output_standings = [], output_total_time_ms = 0,
       output_player_pit_laps = [], output_player_lap_times_ms = []\<rparr>,
     submission_telemetry_summary = summary_of 0 [] 0, submission_resolution = None\<rparr>"

lemma race_run_id: "run_id weak_ext race_contract = Ok (sample_digest 0)"
proof -
  have "profile weak_ext (serialize_run_contract race_contract)"
    by (rule profile_contract) (simp_all add: race_contract_def safe_signed_def safe_unsigned_def)
  then show ?thesis by (simp add: run_id_def weak_digest)
qed

lemma race_evidence: "from_race_output race_output =
    Ok \<lparr>run_output = submission_output (race_submission w), run_telemetry_summary = summary_of 0 [] 0\<rparr>"
proof -
  have "from_ordered_frames 0 [] 0 = Ok (summary_of 0 [] 0)"
    by (simp add: from_ordered_frames_def summary_start_def summary_of_def validate_summary_u64_def summary_validate_def
        flatten_def observed_ids_def total_events_def result_simps)
  then show ?thesis by (simp add: from_race_output_def race_output_def race_submission_def result_simps)
qed

lemma race_digests:
  "evidence_digest_output weak_ext \<lparr>run_output = submission_output (race_submission w), run_telemetry_summary = t\<rparr> =
     Ok (sample_digest 0)"
  "evidence_digest_telemetry weak_ext \<lparr>run_output = q, run_telemetry_summary = summary_of 0 [] 0\<rparr> = Ok (sample_digest 0)"
  "canonical_json_digest weak_ext (Inr SUnit) = Ok (sample_digest 0)"
  "canonical_json_digest weak_ext (Inr (serialize_bundle_receipt (submission_receipt (race_submission w)))) =
     Ok (sample_digest 0)"
  by (simp_all add: evidence_digest_output_def evidence_digest_telemetry_def weak_digest serialize_racing_output_def
      serialize_summary_def race_submission_def summary_of_def serialize_bundle_receipt_def serialize_receipt_def
      serialize_RuntimeIdentity_def wasm_runtime_def profile_struct serialize_defs safe_unsigned_def
      serialize_option_def observed_ids_def total_events_def)

lemma race_catalog_valid:
  "validate_for_run (snapshot_manifest race_catalog) race_contract = Ok ()"
  "for_model weak_ext (contract_model race_contract) race_catalog = Ok (with_catalog weak_ext race_catalog)"
  "from_catalog race_catalog m = None"
  by (simp_all add: validate_for_run_def catalog_validate_def sample_catalog_def validate_pack_def sample_artifact_def
      compatibility_validate_def compatibility_validate_for_def race_contract_def race_catalog_def Let_def
      racing_model_v1_identity_def for_model_def from_catalog_def sample_contract_def)

lemma race_execute: "racing_execute weak_ext race_sim (with_catalog weak_ext race_catalog) race_contract () =
    Ok (race_output, \<lparr>run_output = submission_output (race_submission w), run_telemetry_summary = summary_of 0 [] 0\<rparr>)"
proof -
  have "compatibility_validate_for (compatibility (snapshot_manifest race_catalog)) (racing_model_v1_identity weak_ext) ContractV1 = Ok ()"
    using race_catalog_valid(2) by (simp add: for_model_def race_contract_def and_also_Ok map_err_Ok)
  moreover have "racing_model_v1_identity weak_ext \<noteq> racing_model_v3_thermal_candidate_identity weak_ext"
    "racing_model_v1_identity weak_ext \<noteq> racing_model_v3_component_candidate_identity weak_ext"
    "racing_model_v1_identity weak_ext \<noteq> racing_model_v3_timeline_candidate_identity weak_ext"
    "racing_model_v1_identity weak_ext \<noteq> racing_model_v3_fuel_contract_candidate_identity weak_ext"
    using racing_models_distinct [of weak_ext] by (auto simp: racing_models_def)
  ultimately show ?thesis
    by (simp add: racing_execute_def with_catalog_def race_sim_def race_evidence [of w] result_simps Let_def)
qed

lemma race_executes: "execute_authorized_race weak_ext race_sim (race_request w) race_catalog = Ok (race_submission w)"
proof -
  have "auth_validate_integrity weak_ext (authorization race_authorization) = Ok ()"
    by (simp add: auth_integrity_Ok race_authorization_def sample_authorization_def sample_window race_run_id)
  moreover have "auth_contract (authorization race_authorization) = race_contract"
    by (simp add: race_authorization_def)
  moreover have "input_digest (contract_input race_contract) = sample_digest 0"
    by (simp add: race_contract_def sample_contract_def)
  moreover have "workload_model (with_catalog weak_ext race_catalog) = contract_model race_contract"
    by (simp add: with_catalog_def race_contract_def)
  moreover have "sim_input_json race_sim () = Inr SUnit" by (simp add: race_sim_def)
  ultimately show ?thesis
    by (simp add: execute_authorized_race_def execute_authorized_race_application_def race_request_def Let_def
        race_catalog_valid execute_linked_def racing_workload_def race_run_id race_execute [of w] race_digests
        execution_receipt_def receipt_for_contract_def result_simps)
       (simp add: race_submission_def)
qed

lemma race_clock: "expected_clock 0x408F400000000000 = Some (contract_clock race_contract)"
proof -
  have "f64_exponent 0x408F400000000000 = 1032" "f64_fraction 0x408F400000000000 = 0xF400000000000"
    "\<not> bit (0x408F400000000000 :: 64 word) 63"
    by (simp_all add: f64_exponent_def f64_fraction_def)
  then have "whole_hertz 0x408F400000000000 1000"
    by (simp add: whole_hertz_def f64_scaled_def f64_magnitude_def)
  moreover have "gcd 1000000 (1000::nat) = 1000" by (simp add: gcd_proj2_iff)
  ultimately show ?thesis by (auto simp: expected_clock_iff race_contract_def intro!: exI [of _ 1000])
qed

lemma race_shape: "has_supported_contract_shape weak_ext race_contract (sim_hz race_sim ())"
proof -
  have "identifier_new RACING_SCENARIO_ID = Ok (Identifier ''racing.race'')" by code_simp
  moreover have "semantic_version_new weak_ext RACING_SCENARIO_VERSION = Ok (SemanticVersion ''1.0.0'')"
    by (simp add: semantic_version_new_def RACING_SCENARIO_VERSION_def weak_ext_def)
  moreover have "sim_hz race_sim () = 0x408F400000000000" by (simp add: race_sim_def)
  ultimately show ?thesis
    by (simp add: has_supported_contract_shape_def race_clock) (simp add: race_contract_def sample_contract_def)
qed

lemma race_accepted:
  "verify_submission weak_ext weak_crypto (authorization_keys race_verifier) race_authorization (Identifier ''verifier'') 1500 = Ok ()"
proof -
  let ?a = "(sample_authorization 1)\<lparr>auth_contract := race_contract\<rparr>"
  have "profile weak_ext (serialize_validity sample_validity)"
    by (simp add: serialize_validity_def profile_struct sample_validity_def safe_signed_def)
  moreover have "profile weak_ext (serialize_run_contract race_contract)"
    by (rule profile_contract) (simp_all add: race_contract_def safe_signed_def safe_unsigned_def)
  ultimately have "profile weak_ext (serialize_authorization ?a)"
    by (simp add: serialize_authorization_def sample_authorization_def profile_struct serialize_defs)
  moreover have "auth_validate_integrity weak_ext ?a = Ok ()"
    by (simp add: auth_integrity_Ok sample_authorization_def sample_window race_run_id)
  ultimately have "is_ok (auth_signing_bytes weak_ext ?a)"
    by (simp add: auth_signing_bytes_def canonical_json_bytes_def validate_serializable_Ok(1) [THEN iffD2])
  moreover have "key_verify weak_crypto (SigningKey [5]) bs (from_utf8_bytes [5])" for bs
    by (simp add: key_verify_def weak_crypto_def)
  moreover have "validity_submission_time sample_validity 1500 = Ok ()"
    using sample_window by (simp add: submission_window_Ok) (simp add: sample_validity_def)
  ultimately show ?thesis
    by (auto simp: verify_submission_def verify_signature_and_audience_def race_authorization_def race_verifier_def
        verifier_new_def keyring_insert_def keyring_new_def keyring_get_def sample_authorization_def result_simps is_ok_iff)
qed

lemma race_admitted: "admitted weak_ext weak_crypto race_sim race_verifier (race_submission w) 1500"
proof -
  have "auth_contract (authorization race_authorization) = race_contract"
    "policy (authorization race_authorization) = sample_artifact ''policy'' 9"
    by (simp_all add: race_authorization_def sample_authorization_def)
  then show ?thesis
    using race_accepted race_shape
    by (simp add: admitted_def race_submission_def race_verifier_def verifier_new_def Let_def)
       (simp add: race_contract_def)
qed

lemma race_time: "time_ok 1500"
  by (simp add: time_ok_def)

theorem honest_run_verified_witness:
  "\<exists>v. verify weak_ext weak_crypto race_sim race_verifier (race_submission (sample_digest 4)) 1500 = Ok v \<and>
     verdict_status v = Verified"
  by (rule honest_run_verified [OF race_executes _ race_admitted race_time race_digests(4)])
     (simp add: race_verifier_def verifier_new_def)

lemma race_verified:
  "\<exists>v. verify weak_ext weak_crypto race_sim race_verifier (race_submission w) 1500 = Ok v \<and> verdict_status v = Verified"
  using honest_submission [OF race_executes race_digests(4) [of w]] race_admitted [of w] race_time
  unfolding verify_verified by (auto simp: race_verifier_def verifier_new_def)

theorem verified_result_unique_witness:
  "submission_receipt (race_submission (sample_digest 4)) \<noteq> submission_receipt (race_submission (sample_digest 5)) \<and>
   submission_output (race_submission (sample_digest 4)) = submission_output (race_submission (sample_digest 5)) \<and>
   submission_telemetry_summary (race_submission (sample_digest 4)) =
     submission_telemetry_summary (race_submission (sample_digest 5))"
proof -
  obtain v v' where
    "verify weak_ext weak_crypto race_sim race_verifier (race_submission (sample_digest 4)) 1500 = Ok v"
    "verdict_status v = Verified"
    "verify weak_ext weak_crypto race_sim race_verifier (race_submission (sample_digest 5)) 1500 = Ok v'"
    "verdict_status v' = Verified"
    using race_verified by metis
  from verified_result_unique [OF this]
  show ?thesis by (simp add: race_submission_def wasm_runtime_def sample_digest_def)
qed

theorem verify_total_witness:
  "\<exists>v. verify weak_ext weak_crypto race_sim race_verifier (race_submission (sample_digest 4)) 1500 = Ok v \<and>
     verdict_validate v = Ok ()"
proof -
  let ?s = "race_submission (sample_digest 4)"
  obtain ev where ev: "submission_evidence weak_ext ?s = Ok ev"
    using honest_submission [OF race_executes race_digests(4)] by blast
  have "canonical_json_digest weak_ext (sim_input_json race_sim (submission_input ?s)) = Ok (sample_digest 0)"
    by (simp add: race_sim_def race_digests)
  then have "is_ok (verify weak_ext weak_crypto race_sim race_verifier ?s 1500)"
    using verify_total [THEN conjunct2, of 1500 weak_ext ?s race_sim weak_crypto race_verifier] ev race_time by simp
  then obtain v where "verify weak_ext weak_crypto race_sim race_verifier ?s 1500 = Ok v" by (auto simp: is_ok_iff)
  with verify_total [THEN conjunct1, of weak_ext weak_crypto race_sim race_verifier ?s 1500]
  show ?thesis by (auto simp: echoes_def)
qed

end
