(* ===== verification/Dynamic_Session.thy ===== *)
theory Dynamic_Session
  imports Race_Start Session_Table Verifier
begin

text \<open>
  The authorized dynamic sessions of \<open>crates/pitgun-racing-simulator/src/lib.rs\<close>: the checks that precede a session, its
  explicit pulls, the evidence made from its terminal output, the one-shot execution, and the handle table through which a
  browser drives it; and the local sessions of \<open>local_stream.rs\<close>.

  \<open>json\<close> is the serialization of a race input, of which only the digest is used.
\<close>

section \<open>Authorized sessions\<close>

datatype RacingDynamicExecutionRequestVersion = DynamicExecutionRequestV1

record 'input RacingDynamicExecutionRequestV1 =
  execution_schema_version :: RacingDynamicExecutionRequestVersion
  execution_authorization :: SignedRunAttemptAuthorizationV1
  execution_envelope :: RacingDriverInstructionAuthorizationV1
  execution_catalog_release :: CatalogReleaseIdentityV1
  execution_input :: 'input
  execution_completed :: RacingCompletedRunInputV1
  execution_wasm_digest :: Digest

datatype RacingDynamicApplicationResultVersion = DynamicApplicationResultV1

record ('input, 'diag) RacingDynamicApplicationResultV1 =
  dynamic_result_version :: RacingDynamicApplicationResultVersion
  dynamic_result_evidence :: "'input RacingDynamicVerificationSubmissionV1"
  dynamic_result_output :: "'diag RaceOutput"

record ('phys, 'tire, 'ch, 'acc, 'rx, 'st, 'diag, 'rest) AuthorizedDynamicRacingSession =
  authorized_session :: "('phys, 'tire, 'ch, 'acc, 'rx, 'st) IncrementalRacingSession"
  authorized_request :: "'rest RunRaceInput RacingDynamicExecutionRequestV1"
  authorized_final_contract :: DeterministicRunContractV1
  authorized_resolution :: RacingExecutionResolutionV1
  authorized_result :: "('rest RunRaceInput, 'diag) RacingDynamicApplicationResultV1 option"

datatype DynamicRaceError =
    InvalidSignedAttempt RunAttemptAuthorizationError
  | UnsupportedSignatureAlgorithm
  | InvalidSignatureShape
  | UnsupportedDynamicModel ArtifactIdentity
  | DynamicCatalogUnavailable CatalogContractError
  | CatalogReleaseMismatch CatalogReleaseIdentityV1 CatalogReleaseIdentityV1
  | DynamicInputNotCanonical CanonicalJsonError
  | DynamicInputDigestMismatch Digest Digest
  | NoInstructionProfileIdentity
  | NoCatalogInstructionProfile
  | InvalidCompletedInput RacingInstructionAuthorizationError
  | DynamicExecutionFailed RaceStartError
  | NoExecutionLineage
  | DynamicAlreadyCompleted
  | DynamicNotComplete
  | DynamicAdvanceFailed IncrementalError
  | DynamicEvidenceFailed RacingEvidenceError
  | DynamicReceiptFailed CanonicalJsonError
  | InvalidDynamicReceipt RunAttemptAuthorizationError

definition validate_attempt_signature_shape :: "AuthorizationSignatureAlgorithm \<Rightarrow> string \<Rightarrow> DynamicRaceError + unit" where
  "validate_attempt_signature_shape algorithm sig =
     (if algorithm \<noteq> HmacSha256 then Err UnsupportedSignatureAlgorithm
      else ensure (length sig = 64 \<and>
          list_all (\<lambda>b. (48 \<le> b \<and> b \<le> 57) \<or> (97 \<le> b \<and> b \<le> 102)) (as_bytes sig)) InvalidSignatureShape)"

definition finalize_authorized_dynamic_race_application ::
    "externals \<Rightarrow> 'rest RunRaceInput RacingDynamicExecutionRequestV1 \<Rightarrow> DeterministicRunContractV1 \<Rightarrow>
       RacingExecutionResolutionV1 \<Rightarrow> 'diag RaceOutput \<Rightarrow>
       DynamicRaceError + ('rest RunRaceInput, 'diag) RacingDynamicApplicationResultV1" where
  "finalize_authorized_dynamic_race_application ext request final resolution out =
     (let auth = attempt_authorization (execution_authorization request) in
      and_then (map_err DynamicEvidenceFailed (from_race_output out)) (\<lambda>ev.
      and_then (map_err DynamicReceiptFailed
        (execution_receipt ext ev final (attempt_execution_id auth) (wasm_runtime (execution_wasm_digest request)))) (\<lambda>receipt.
      and_also (map_err InvalidDynamicReceipt (validate_completed_receipt ext auth final receipt))
      (Ok \<lparr>dynamic_result_version = DynamicApplicationResultV1,
           dynamic_result_evidence =
             \<lparr>dynamic_authorization = execution_authorization request, dynamic_envelope = execution_envelope request,
              dynamic_input = execution_input request, dynamic_completed = execution_completed request,
              dynamic_receipt = \<lparr>bundle_receipt_version = BundleReceiptV1, bundle_receipt = receipt\<rparr>,
              dynamic_output = run_output ev, dynamic_telemetry_summary = run_telemetry_summary ev,
              dynamic_resolution = resolution\<rparr>,
           dynamic_result_output = out\<rparr>))))"

definition dynamic_run_request :: "'rest RunRaceInput \<Rightarrow> DeterministicRunContractV1 \<Rightarrow> 'rest RunRaceInput RunRaceRequest" where
  "dynamic_run_request inp contract =
     \<lparr>request_input = inp, request_seed = seed_get (random_seed (contract_random contract)),
      request_era = Some (input_era inp), request_hz = Some (input_hz inp)\<rparr>"

definition applied_timeline_of :: "RacingCompletedRunInputV1 \<Rightarrow> RacingDriverInstructionTimelineV1" where
  "applied_timeline_of c = applied_timeline (driver_instructions c)"

definition start_dynamic_race ::
    "externals \<Rightarrow> ('phys, 'tire, 'ch, 'acc, 'rx, 'st, 'diag, 'track, 'veh, 'ctl, 'pol, 'cat, 'res, 'rest) race_host \<Rightarrow>
       ArtifactIdentity \<Rightarrow> 'rest RunRaceInput RunRaceRequest \<Rightarrow> 'res RacingCatalogSnapshot \<Rightarrow> RacingDriverInstructionTimelineV1 \<Rightarrow>
       RaceStartError + ('phys, 'tire, 'ch, 'acc, 'rx, 'st) IncrementalRacingSession" where
  "start_dynamic_race ext H model request catalog timeline =
     (if model = racing_model_v3_fuel_contract_candidate_identity ext
      then start_incremental_race_with_catalog_and_v3_fuel_contract_candidate ext H request catalog timeline
      else start_incremental_race_with_catalog_and_v3_timeline_candidate ext H request catalog timeline)"

definition start_authorized_dynamic_racing_session ::
    "externals \<Rightarrow> ('rest RunRaceInput \<Rightarrow> string + serde_value) \<Rightarrow>
       ('phys, 'tire, 'ch, 'acc, 'rx, 'st, 'diag, 'track, 'veh, 'ctl, 'pol, 'cat, 'res, 'rest) race_host \<Rightarrow>
       'rest RunRaceInput RacingDynamicExecutionRequestV1 \<Rightarrow> 'res RacingCatalogSnapshot \<Rightarrow>
       DynamicRaceError + ('phys, 'tire, 'ch, 'acc, 'rx, 'st, 'diag, 'rest) AuthorizedDynamicRacingSession" where
  "start_authorized_dynamic_racing_session ext json H request catalog =
     (let tok = execution_authorization request; auth = attempt_authorization tok; contract = initial_contract auth in
      and_also (map_err InvalidSignedAttempt (attempt_validate_integrity ext auth))
     (and_also (validate_attempt_signature_shape (attempt_algorithm tok) (attempt_signature tok))
     (and_also (ensure (contract_model contract = racing_model_v3_timeline_candidate_identity ext \<or>
         contract_model contract = racing_model_v3_fuel_contract_candidate_identity ext)
        (UnsupportedDynamicModel (contract_model contract)))
     (and_also (map_err DynamicCatalogUnavailable (validate_for_run (snapshot_manifest catalog) contract))
     (and_also (ensure (snapshot_release_identity catalog = execution_catalog_release request)
        (CatalogReleaseMismatch (execution_catalog_release request) (snapshot_release_identity catalog)))
     (and_then (map_err DynamicInputNotCanonical (canonical_json_digest ext (json (execution_input request)))) (\<lambda>actual.
      and_also (ensure (actual = input_digest (contract_input contract))
        (DynamicInputDigestMismatch (input_digest (contract_input contract)) actual))
     (and_then (ok_or (driver_instruction_profile_identity catalog) NoInstructionProfileIdentity) (\<lambda>profile_identity.
      and_then (ok_or (driver_instruction_profile catalog) NoCatalogInstructionProfile) (\<lambda>prof.
      and_then (map_err InvalidCompletedInput (final_contract_for_attempt ext (execution_envelope request) auth
          (execution_completed request) profile_identity prof)) (\<lambda>final.
      and_then (map_err DynamicExecutionFailed
        (start_dynamic_race ext H (contract_model contract) (dynamic_run_request (execution_input request) contract) catalog
          (applied_timeline_of (execution_completed request)))) (\<lambda>session.
      and_then (ok_or (from_catalog catalog (contract_model contract)) NoExecutionLineage) (\<lambda>resolution.
      Ok \<lparr>authorized_session = session\<lparr>race_include_trajectories := True\<rparr>, authorized_request = request,
           authorized_final_contract = final, authorized_resolution = resolution, authorized_result = None\<rparr>)))))))))))))"

definition dynamic_is_complete ::
    "('phys, 'tire, 'ch, 'acc, 'rx, 'st, 'diag, 'rest) AuthorizedDynamicRacingSession \<Rightarrow> bool" where
  "dynamic_is_complete d \<longleftrightarrow> authorized_result d \<noteq> None"

text \<open>The engine moves first: a terminal output whose evidence cannot be made leaves a finished engine without a result.\<close>

definition dynamic_advance ::
    "externals \<Rightarrow> ('phys, 'tire, 'ch, 'acc, 'rx, 'st, 'diag) race_engine \<Rightarrow>
       ('phys, 'tire, 'ch, 'acc, 'rx, 'st, 'diag, 'rest) AuthorizedDynamicRacingSession \<Rightarrow>
       (('phys, 'tire, 'ch, 'acc, 'rx, 'st, 'diag, 'rest) AuthorizedDynamicRacingSession \<times>
          (DynamicRaceError + 'diag RacingSessionStreamBatchV1)) option" where
  "dynamic_advance ext E d =
     (if dynamic_is_complete d then Some (d, Err DynamicAlreadyCompleted)
      else case race_advance E (authorized_session d) of
          None \<Rightarrow> None
        | Some (s, Inl e) \<Rightarrow> Some (d\<lparr>authorized_session := s\<rparr>, Err (DynamicAdvanceFailed e))
        | Some (s, Inr batch) \<Rightarrow>
            Some (case output_of_records (batch_records batch) of
               None \<Rightarrow> (d\<lparr>authorized_session := s\<rparr>, Ok batch)
             | Some out \<Rightarrow>
                 (case finalize_authorized_dynamic_race_application ext (authorized_request d) (authorized_final_contract d)
                    (authorized_resolution d) out of
                    Inl e \<Rightarrow> (d\<lparr>authorized_session := s\<rparr>, Err e)
                  | Inr result \<Rightarrow> (d\<lparr>authorized_session := s, authorized_result := Some result\<rparr>, Ok batch))))"

definition dynamic_complete ::
    "('phys, 'tire, 'ch, 'acc, 'rx, 'st, 'diag, 'rest) AuthorizedDynamicRacingSession \<Rightarrow>
       DynamicRaceError + ('rest RunRaceInput, 'diag) RacingDynamicApplicationResultV1" where
  "dynamic_complete d = ok_or (authorized_result d) DynamicNotComplete"

definition dynamic_collect ::
    "externals \<Rightarrow> ('phys, 'tire, 'ch, 'acc, 'rx, 'st, 'diag) race_engine \<Rightarrow>
       ('phys, 'tire, 'ch, 'acc, 'rx, 'st, 'diag, 'rest) AuthorizedDynamicRacingSession \<Rightarrow>
       (DynamicRaceError + ('rest RunRaceInput, 'diag) RacingDynamicApplicationResultV1) option" where
  "dynamic_collect ext E d =
     map_option (\<lambda>r. and_then r dynamic_complete) (drive dynamic_is_complete (dynamic_advance ext E) d)"

definition execute_authorized_dynamic_race_application where
  "execute_authorized_dynamic_race_application ext json H request catalog =
     (case start_authorized_dynamic_racing_session ext json H request catalog of
        Inl e \<Rightarrow> Some (Err e)
      | Inr session \<Rightarrow> dynamic_collect ext (host_engine H) session)"

definition execute_authorized_dynamic_race where
  "execute_authorized_dynamic_race ext json H request catalog =
     map_option (map_ok dynamic_result_evidence) (execute_authorized_dynamic_race_application ext json H request catalog)"

section \<open>The handles of a browser\<close>

definition start_authorized_dynamic_racing_session_with_catalog where
  "start_authorized_dynamic_racing_session_with_catalog ext json H t request catalog =
     (case start_authorized_dynamic_racing_session ext json H request catalog of
        Inl e \<Rightarrow> (t, Err (SessionError e))
      | Inr session \<Rightarrow>
          (case register_session t session of
             (t', Inl e) \<Rightarrow> (t', Err HandleSpaceExhausted)
           | (t', Inr h) \<Rightarrow> (t', Ok h)))"

definition pull_authorized_dynamic_racing_session where
  "pull_authorized_dynamic_racing_session ext E = pull_session dynamic_is_complete (dynamic_advance ext E)"

definition complete_authorized_dynamic_racing_session where
  "complete_authorized_dynamic_racing_session = complete_session dynamic_is_complete dynamic_complete"

definition release_authorized_dynamic_racing_session where
  "release_authorized_dynamic_racing_session = release_session"

section \<open>Local sessions\<close>

record ('phys, 'tire, 'ch, 'acc, 'rx, 'st, 'diag) LocalSession =
  local_engine :: "('phys, 'tire, 'ch, 'acc, 'rx, 'st) IncrementalRacingSession"
  local_output :: "'diag RaceOutput option"

definition start_local_racing_session where
  "start_local_racing_session H t request catalog candidate =
     (case start_incremental_race_with_catalog_and_v3_component_profile H request catalog
         (default_profile\<lparr>profile_schema_version := ProfileV9, profile_engine_thermal_resolution := None\<rparr>) candidate None of
        Inl e \<Rightarrow> (t, Err (SessionError e))
      | Inr engine \<Rightarrow>
          (case register_session t \<lparr>local_engine = engine\<lparr>race_include_trajectories := True\<rparr>, local_output = None\<rparr> of
             (t', Inl e) \<Rightarrow> (t', Err HandleSpaceExhausted)
           | (t', Inr h) \<Rightarrow> (t', Ok h)))"

definition local_is_done :: "('phys, 'tire, 'ch, 'acc, 'rx, 'st, 'diag) LocalSession \<Rightarrow> bool" where
  "local_is_done l \<longleftrightarrow> local_output l \<noteq> None"

definition local_advance ::
    "('phys, 'tire, 'ch, 'acc, 'rx, 'st, 'diag) race_engine \<Rightarrow> ('phys, 'tire, 'ch, 'acc, 'rx, 'st, 'diag) LocalSession \<Rightarrow>
       (('phys, 'tire, 'ch, 'acc, 'rx, 'st, 'diag) LocalSession \<times> (IncrementalError + 'diag RacingSessionStreamBatchV1)) option" where
  "local_advance E l =
     map_option (\<lambda>(s, r).
       case r of
         Inl e \<Rightarrow> (l\<lparr>local_engine := s\<rparr>, Err e)
       | Inr batch \<Rightarrow> (l\<lparr>local_engine := s, local_output := output_of_records (batch_records batch)\<rparr>, Ok batch))
      (race_advance E (local_engine l))"

text \<open>\<open>expect\<close> panics exactly when the output is missing, which \<open>complete_local_racing_session_json\<close> has excluded.\<close>

datatype LocalPanic = LocalOutputMissing

definition local_finish :: "('phys, 'tire, 'ch, 'acc, 'rx, 'st, 'diag) LocalSession \<Rightarrow> LocalPanic + 'diag RaceOutput" where
  "local_finish l = ok_or (local_output l) LocalOutputMissing"

definition pull_local_racing_session where
  "pull_local_racing_session E = pull_session local_is_done (local_advance E)"

definition complete_local_racing_session where
  "complete_local_racing_session = complete_session local_is_done local_finish"

definition release_local_racing_session where
  "release_local_racing_session = release_session"

section \<open>Sessions keep the pull protocol\<close>

interpretation authorized_protocol: pull_protocol dynamic_is_complete dynamic_complete
  by unfold_locales (simp add: dynamic_is_complete_def dynamic_complete_def ok_or_def is_ok_def split: option.splits)

interpretation local_protocol: pull_protocol local_is_done local_finish
  by unfold_locales (simp add: local_is_done_def local_finish_def ok_or_def is_ok_def split: option.splits)

text \<open>Completing a local handle never reaches the panic of a missing output.\<close>

lemma local_completion_never_panics: "snd (complete_local_racing_session t h) \<noteq> Err (SessionError p)"
  using local_protocol.complete_result [of t h]
  by (auto simp: complete_local_racing_session_def split: prod.splits sum.splits)

section \<open>Pulled executions and the one-shot run\<close>

text \<open>The race a dynamic request asks for, run in one go and without playback data.\<close>

definition run_dynamic_race where
  "run_dynamic_race ext H request catalog =
     (let contract = initial_contract (attempt_authorization (execution_authorization request))
      in collect_started (host_engine H)
        (start_dynamic_race ext H (contract_model contract) (dynamic_run_request (execution_input request) contract) catalog
          (applied_timeline_of (execution_completed request))))"

lemma dynamic_started:
  assumes "start_dynamic_race ext H model request catalog timeline = Ok s"
  shows "race_started (host_engine H) s"
  using assms timeline_started(1) fuel_contract_started(1) by (auto simp: start_dynamic_race_def split: if_splits)

lemma dynamic_drive:
  fixes d :: "('phys, 'tire, 'ch, 'acc, 'rx, 'st, 'diag, 'rest) AuthorizedDynamicRacingSession"
  assumes "race_at E n (authorized_session d)" "racers (authorized_session d) \<noteq> []" "authorized_result d = None"
  shows "dynamic_collect ext E d =
    map_option (\<lambda>r. case r of Err e \<Rightarrow> Err (DynamicAdvanceFailed e)
      | Ok out \<Rightarrow> finalize_authorized_dynamic_race_application ext (authorized_request d) (authorized_final_contract d)
          (authorized_resolution d) out) (race_collect E (authorized_session d))"
  using assms
proof (induction "Suc (unat (race_session_laps (authorized_session d))) - n" arbitrary: n d rule: less_induct)
  case less
  let ?s = "authorized_session d"
  have open_session: "\<not> dynamic_is_complete d" using less.prems(3) by (simp add: dynamic_is_complete_def)
  note step = dynamic_advance_def [of ext E d] drive.simps [of dynamic_is_complete "dynamic_advance ext E" d]
  show ?case
    using less.prems(1,2)
  proof (cases rule: race_advance_cases)
    case (failed s' e)
    then show ?thesis by (subst race_collect.simps) (simp add: dynamic_collect_def step open_session)
  next
    case (lap s' b)
    let ?d = "d\<lparr>authorized_session := s'\<rparr>"
    have "dynamic_collect ext E d = dynamic_collect ext E ?d"
      using lap(1,7) by (simp add: dynamic_collect_def step open_session)
    moreover have "Suc (unat (race_session_laps (authorized_session ?d))) - Suc n < Suc (unat (race_session_laps ?s)) - n"
      using lap by simp
    ultimately show ?thesis
      using less.hyps [of ?d "Suc n"] lap(2,3,7) less.prems(3) by (simp add: race_collect_step [OF lap(1)])
  next
    case (finish s' b out cs)
    have "drive dynamic_is_complete (dynamic_advance ext E) d' = Some (Ok d')" if "dynamic_is_complete d'" for d'
      using that by (subst drive.simps) simp
    note terminal = this
    let ?final = "finalize_authorized_dynamic_race_application ext (authorized_request d) (authorized_final_contract d)
      (authorized_resolution d) out"
    show ?thesis
    proof (cases ?final)
      case (Inl e)
      then show ?thesis
        using finish(1,3) by (simp add: dynamic_collect_def step open_session race_collect_step [OF finish(1)])
    next
      case (Inr result)
      let ?d = "d\<lparr>authorized_session := s', authorized_result := Some result\<rparr>"
      have "drive dynamic_is_complete (dynamic_advance ext E) ?d = Some (Ok ?d)"
        by (rule terminal) (simp add: dynamic_is_complete_def)
      with Inr show ?thesis
        using finish(1,3)
        by (simp add: dynamic_collect_def step open_session race_collect_step [OF finish(1)] dynamic_complete_def ok_or_def)
    qed
  qed
qed


lemma dynamic_collect_error:
  assumes "table_sessions t h = Some d"
  shows "dynamic_collect ext E d = Some (Err e) \<longleftrightarrow>
    (\<exists>bs t' t''. pulls dynamic_is_complete (dynamic_advance ext E) h t bs t' \<and>
       pull_session dynamic_is_complete (dynamic_advance ext E) t' h = Some (t'', Err (SessionError e)))"
proof -
  have "dynamic_collect ext E d = Some (Err e) \<longleftrightarrow> drive dynamic_is_complete (dynamic_advance ext E) d = Some (Err e)"
  proof (cases "drive dynamic_is_complete (dynamic_advance ext E) d")
    case (Some r)
    show ?thesis
    proof (cases r)
      case (Inr d')
      then have "dynamic_is_complete d'" using drive_pulls [OF Some assms] by simp
      then show ?thesis by (auto simp: dynamic_collect_def Some Inr dynamic_is_complete_def dynamic_complete_def ok_or_def)
    qed (simp add: dynamic_collect_def Some)
  qed (simp add: dynamic_collect_def)
  then show ?thesis using drive_error_iff [OF assms, of dynamic_is_complete "dynamic_advance ext E" e] by simp
qed

text \<open>C6: Driving a session through its handle is the one-shot execution: once a start has returned a handle, the execution of
  the request returns a result exactly when pulls of the handle lead to a table in which completing the handle
  returns it; and the execution fails with an error exactly when pulls lead to a pull that fails with it. A start that
  fails leaves the table as it was.\<close>

theorem pull_api_exact:
  "(case start_authorized_dynamic_racing_session_with_catalog ext json H t request catalog of
      (t', Err _) \<Rightarrow> t' = t
    | (t', Ok h) \<Rightarrow>
        h \<noteq> 0 \<and> table_sessions t h = None \<and>
        (\<forall>result. execute_authorized_dynamic_race_application ext json H request catalog = Some (Ok result) \<longleftrightarrow>
           (\<exists>bs t'' t3. pulls dynamic_is_complete (dynamic_advance ext (host_engine H)) h t' bs t'' \<and>
              complete_authorized_dynamic_racing_session t'' h = (t3, Ok result))) \<and>
        (\<forall>e. execute_authorized_dynamic_race_application ext json H request catalog = Some (Err e) \<longleftrightarrow>
           (\<exists>bs t'' t3. pulls dynamic_is_complete (dynamic_advance ext (host_engine H)) h t' bs t'' \<and>
              pull_authorized_dynamic_racing_session ext (host_engine H) t'' h = Some (t3, Err (SessionError e)))))"
proof (cases "start_authorized_dynamic_racing_session ext json H request catalog")
  case (Inl e)
  then show ?thesis by (simp add: start_authorized_dynamic_racing_session_with_catalog_def)
next
  case (Inr d)
  let ?adv = "dynamic_advance ext (host_engine H)"
  let ?exec = "execute_authorized_dynamic_race_application ext json H request catalog"
  have exec: "?exec = dynamic_collect ext (host_engine H) d"
    by (simp add: execute_authorized_dynamic_race_application_def Inr)
  obtain t' r where reg: "register_session t d = (t', r)" by fastforce
  show ?thesis
  proof (cases r)
    case (Inl e)
    then show ?thesis
      using register_result [of t d] by (simp add: start_authorized_dynamic_racing_session_with_catalog_def Inr reg)
  next
    case r: (Inr h)
    have fresh: "h \<noteq> 0" "table_sessions t h = None" and at: "table_sessions t' h = Some d"
      using register_result [of t d] by (simp_all add: reg r)
    have completes: "(\<exists>t3. complete_authorized_dynamic_racing_session t'' h = (t3, Ok result)) \<longleftrightarrow>
        (\<exists>s. table_sessions t'' h = Some s \<and> dynamic_is_complete s \<and> dynamic_complete s = Ok result)" for t'' result
      by (auto simp: complete_authorized_dynamic_racing_session_def complete_session_def result_simps split: option.splits)
    have ok: "?exec = Some (Ok result) \<longleftrightarrow> (\<exists>bs t'' t3. pulls dynamic_is_complete ?adv h t' bs t'' \<and>
        complete_authorized_dynamic_racing_session t'' h = (t3, Ok result))" (is "_ \<longleftrightarrow> ?via") for result
    proof
      assume "?exec = Some (Ok result)"
      then obtain d' where d': "drive dynamic_is_complete ?adv d = Some (Ok d')" "dynamic_complete d' = Ok result"
        by (auto simp: exec dynamic_collect_def result_simps)
      then obtain bs where "dynamic_is_complete d'"
          "pulls dynamic_is_complete ?adv h t' bs (t'\<lparr>table_sessions := (table_sessions t')(h \<mapsto> d')\<rparr>)"
        using drive_pulls [OF d'(1) at] by auto
      then show ?via using completes d'(2) by fastforce
    next
      assume ?via
      then obtain bs t'' s where p: "pulls dynamic_is_complete ?adv h t' bs t''" "table_sessions t'' h = Some s"
          "dynamic_is_complete s" "dynamic_complete s = Ok result"
        using completes by blast
      then show "?exec = Some (Ok result)" using pulls_drive [OF p(1) at p(2,3)] by (simp add: exec dynamic_collect_def)
    qed
    have err: "?exec = Some (Err e) \<longleftrightarrow> (\<exists>bs t'' t3. pulls dynamic_is_complete ?adv h t' bs t'' \<and>
        pull_authorized_dynamic_racing_session ext (host_engine H) t'' h = Some (t3, Err (SessionError e)))" for e
      unfolding exec pull_authorized_dynamic_racing_session_def by (rule dynamic_collect_error [OF at])
    show ?thesis using fresh ok err by (simp add: start_authorized_dynamic_racing_session_with_catalog_def Inr reg r)
  qed
qed

end
