(* ===== verification/Verifier_Attempt.thy ===== *)
theory Verifier_Attempt
  imports Dynamic_Session
begin

text \<open>
  \<open>RacingVerifier::verify_attempt\<close> of \<open>services/pitgun-verifier/src/lib.rs\<close>, the verification of a completed dynamic
  attempt, and its composition with the execution that produces one.
\<close>

section \<open>Verification of an attempt\<close>

text \<open>In three parts: authorization and policy, catalog and final contract, receipt and replay.\<close>

definition replay_attempt ::
    "externals \<Rightarrow> ('i, 'res, 'diag) racing_simulator \<Rightarrow> 'res RacingCatalogSnapshot \<Rightarrow> 'i RacingDynamicVerificationSubmissionV1 \<Rightarrow>
       string + 'diag RaceOutput" where
  "replay_attempt ext sim catalog s =
     (let contract = initial_contract (attempt_authorization (dynamic_authorization s));
          request = run_request sim contract (dynamic_input s);
          timeline = applied_timeline_of (dynamic_completed s)
      in if contract_model contract = racing_model_v3_fuel_contract_candidate_identity ext
         then sim_run_fuel_contract sim request catalog timeline
         else sim_run_timeline sim request catalog timeline)"

definition verify_attempt_replay ::
    "externals \<Rightarrow> ('i, 'res, 'diag) racing_simulator \<Rightarrow> 'res RacingVerifier \<Rightarrow> 'i RacingDynamicVerificationSubmissionV1 \<Rightarrow>
       SubmittedEvidenceV1 \<Rightarrow> 'res RacingCatalogSnapshot \<Rightarrow> DeterministicRunContractV1 \<Rightarrow> Digest \<Rightarrow> i64 \<Rightarrow>
       RacingVerifierError + VerificationVerdictV1" where
  "verify_attempt_replay ext sim vf s ev catalog final run now_ms =
     (let attempt = attempt_authorization (dynamic_authorization s); contract = initial_contract attempt;
          receipt = bundle_receipt (dynamic_receipt s);
          reject = (\<lambda>reason. rejected_attempt vf run (attempt_execution_id attempt) ev reason now_ms) in
      if \<not> is_ok (validate_completed_receipt ext attempt final receipt) then reject ReceiptMismatch
      else if receipt_output_digest receipt \<noteq> evidence_output_digest ev then reject OutputMismatch
      else if receipt_telemetry_summary_digest receipt \<noteq> evidence_telemetry_summary_digest ev then reject TelemetryMismatch
      else case replay_attempt ext sim catalog s of
          Inl _ \<Rightarrow> reject ReplayMismatch
        | Inr out \<Rightarrow>
           (case from_race_output out of
              Inl _ \<Rightarrow> reject ReplayMismatch
            | Inr replayed \<Rightarrow>
                if run_output replayed \<noteq> dynamic_output s then reject OutputMismatch
                else and_then (map_err VerifierCanonicalJson (evidence_digest_output ext replayed)) (\<lambda>o_digest.
                if o_digest \<noteq> evidence_output_digest ev then reject OutputMismatch
                else if run_telemetry_summary replayed \<noteq> dynamic_telemetry_summary s then reject TelemetryMismatch
                else and_then (map_err VerifierCanonicalJson (evidence_digest_telemetry ext replayed)) (\<lambda>t_digest.
                if t_digest \<noteq> evidence_telemetry_summary_digest ev then reject TelemetryMismatch
                else attempt_verdict vf run (attempt_execution_id attempt) ev Verified None
                  (Some \<lparr>resolved_model = contract_model contract, resolved_data_pack = contract_data_pack contract,
                         resolved_policy = attempt_policy attempt\<rparr>) now_ms))))"

definition verify_attempt_contract ::
    "externals \<Rightarrow> ('i, 'res, 'diag) racing_simulator \<Rightarrow> 'res RacingVerifier \<Rightarrow> 'i RacingDynamicVerificationSubmissionV1 \<Rightarrow>
       SubmittedEvidenceV1 \<Rightarrow> 'res RacingCatalogSnapshot \<Rightarrow> i64 \<Rightarrow> RacingVerifierError + VerificationVerdictV1" where
  "verify_attempt_contract ext sim vf s ev catalog now_ms =
     (let attempt = attempt_authorization (dynamic_authorization s); contract = initial_contract attempt;
          reject = (\<lambda>reason. rejected_attempt vf (receipt_run_id (bundle_receipt (dynamic_receipt s)))
            (attempt_execution_id attempt) ev reason now_ms) in
      if contract_data_pack contract \<noteq> pack_identity (simulation_pack (snapshot_manifest catalog)) \<or>
         \<not> is_ok (validate_for_run (snapshot_manifest catalog) contract)
      then reject UnknownDataPack
      else if Some (dynamic_resolution s) \<noteq> from_catalog catalog (contract_model contract)
      then reject ArtifactDigestMismatch
      else and_then (map_err VerifierCanonicalJson (canonical_json_digest ext (sim_input_json sim (dynamic_input s)))) (\<lambda>digest.
        if digest \<noteq> input_digest (contract_input contract) then reject ArtifactDigestMismatch
        else case driver_instruction_profile_identity catalog of
            None \<Rightarrow> reject UnknownDataPack
          | Some profile_identity \<Rightarrow>
             (case driver_instruction_profile catalog of
                None \<Rightarrow> reject UnknownDataPack
              | Some prof \<Rightarrow>
                 (case final_contract_for_attempt ext (dynamic_envelope s) attempt (dynamic_completed s) profile_identity prof of
                    Inl _ \<Rightarrow> reject InvalidAuthorization
                  | Inr final \<Rightarrow>
                      and_then (map_err VerifierCanonicalJson (run_id ext final)) (\<lambda>run.
                        verify_attempt_replay ext sim vf s ev catalog final run now_ms)))))"

definition verify_attempt ::
    "externals \<Rightarrow> crypto \<Rightarrow> ('i, 'res, 'diag) racing_simulator \<Rightarrow> 'res RacingVerifier \<Rightarrow>
       'i RacingDynamicVerificationSubmissionV1 \<Rightarrow> i64 \<Rightarrow> RacingVerifierError + VerificationVerdictV1" where
  "verify_attempt ext cr sim vf s now_ms =
     (let attempt = attempt_authorization (dynamic_authorization s); contract = initial_contract attempt;
          submitted_run_id = receipt_run_id (bundle_receipt (dynamic_receipt s)) in
      and_then (map_err VerifierCanonicalJson (submitted_dynamic_evidence ext s)) (\<lambda>ev.
      let reject = (\<lambda>reason. rejected_attempt vf submitted_run_id (attempt_execution_id attempt) ev reason now_ms) in
      case verify_attempt_submission ext cr (authorization_keys vf) (dynamic_authorization s) (expected_audience vf) now_ms of
        Inl failure \<Rightarrow> attempt_verdict vf submitted_run_id (attempt_execution_id attempt) ev Rejected
          (Some (authorization_reason failure)) None now_ms
      | Inr _ \<Rightarrow>
          if \<not> has_supported_dynamic_contract_shape ext contract (sim_hz sim (dynamic_input s)) then reject InvalidAuthorization
          else if contract_model contract \<noteq> expected_model vf then reject UnknownModel
          else if attempt_policy attempt \<noteq> verifier_policy vf then reject UnknownPolicy
          else (case verifier_catalog vf of
             None \<Rightarrow> attempt_verdict vf submitted_run_id (attempt_execution_id attempt) ev Pending (Some CatalogUnavailable) None now_ms
           | Some catalog \<Rightarrow> verify_attempt_contract ext sim vf s ev catalog now_ms)))"

section \<open>Verdicts of attempts\<close>

lemma attempt_verdict_Ok:
  "attempt_verdict vf run execution ev status reason resolution now_ms = Ok v \<longleftrightarrow>
     time_ok now_ms \<and> verdict_shape status reason (resolution \<noteq> None) \<and>
     v = \<lparr>verdict_schema_version = VerdictV1, verdict_run_id = run, verdict_execution_id = execution,
          verdict_status = status, verdict_reason_code = reason, submitted_evidence = ev,
          verified_resolution = resolution, verifier_identity = verifier_self vf, recorded_at_ms = now_ms\<rparr>"
  by (auto simp: attempt_verdict_def Let_def result_simps verdict_validate_Ok time_ok_def)

lemma rejected_attempt_not_verified [simp]:
  "rejected_attempt vf run execution ev reason now_ms = Ok v \<Longrightarrow> verdict_status v \<noteq> Verified"
  by (auto simp: rejected_attempt_def attempt_verdict_Ok)

text \<open>The verdict that confirms an attempt.\<close>

definition verified_attempt ::
    "'res RacingVerifier \<Rightarrow> 'i RacingDynamicVerificationSubmissionV1 \<Rightarrow> SubmittedEvidenceV1 \<Rightarrow> Digest \<Rightarrow> i64 \<Rightarrow> VerificationVerdictV1" where
  "verified_attempt vf s ev run now_ms =
     (let attempt = attempt_authorization (dynamic_authorization s) in
      \<lparr>verdict_schema_version = VerdictV1, verdict_run_id = run, verdict_execution_id = attempt_execution_id attempt,
       verdict_status = Verified, verdict_reason_code = None, submitted_evidence = ev,
       verified_resolution = Some \<lparr>resolved_model = contract_model (initial_contract attempt),
         resolved_data_pack = contract_data_pack (initial_contract attempt), resolved_policy = attempt_policy attempt\<rparr>,
       verifier_identity = verifier_self vf, recorded_at_ms = now_ms\<rparr>)"

text \<open>The evidence of a submission: the canonical digests of its receipt, its output and its telemetry summary.\<close>

definition attempt_evidence :: "externals \<Rightarrow> 'i RacingDynamicVerificationSubmissionV1 \<Rightarrow> SubmittedEvidenceV1 \<Rightarrow> bool" where
  "attempt_evidence ext s ev \<longleftrightarrow>
     canonical_json_digest ext (Inr (serialize_bundle_receipt (dynamic_receipt s))) = Ok (evidence_receipt_digest ev) \<and>
     canonical_json_digest ext (Inr (serialize_racing_output (dynamic_output s))) = Ok (evidence_output_digest ev) \<and>
     canonical_json_digest ext (Inr (serialize_summary (dynamic_telemetry_summary s))) =
       Ok (evidence_telemetry_summary_digest ev)"

text \<open>The race a submission claims to have run: on its input, with the seed of the signed contract, the era and the rate of the
  input, and the timeline of the instructions it applied, by the engine with the fuel contract for that model and by the
  engine of the timeline for every other.\<close>

definition attempt_race ::
    "externals \<Rightarrow> ('i, 'res, 'diag) racing_simulator \<Rightarrow> 'res RacingCatalogSnapshot \<Rightarrow> 'i RacingDynamicVerificationSubmissionV1 \<Rightarrow>
       'diag RaceOutput \<Rightarrow> bool" where
  "attempt_race ext sim catalog s out \<longleftrightarrow>
     (let contract = initial_contract (attempt_authorization (dynamic_authorization s));
          request = \<lparr>request_input = dynamic_input s, request_seed = seed_get (random_seed (contract_random contract)),
            request_era = Some (sim_era sim (dynamic_input s)), request_hz = Some (sim_hz sim (dynamic_input s))\<rparr>;
          timeline = applied_timeline (driver_instructions (dynamic_completed s)) in
      contract_model contract = racing_model_v3_fuel_contract_candidate_identity ext \<and>
        sim_run_fuel_contract sim request catalog timeline = Ok out \<or>
      contract_model contract \<noteq> racing_model_v3_fuel_contract_candidate_identity ext \<and>
        sim_run_timeline sim request catalog timeline = Ok out)"

lemma replay_attempt_race: "replay_attempt ext sim catalog s = Ok out \<longleftrightarrow> attempt_race ext sim catalog s out"
  by (simp add: attempt_race_def replay_attempt_def run_request_def applied_timeline_of_def Let_def)

text \<open>The receipt is one of the final contract and of this execution and states the digests of the evidence, and the race gives
  the submitted output and telemetry summary.\<close>

definition attempt_replayed ::
    "externals \<Rightarrow> ('i, 'res, 'diag) racing_simulator \<Rightarrow> 'res RacingCatalogSnapshot \<Rightarrow> 'i RacingDynamicVerificationSubmissionV1 \<Rightarrow>
       SubmittedEvidenceV1 \<Rightarrow> DeterministicRunContractV1 \<Rightarrow> bool" where
  "attempt_replayed ext sim catalog s ev final \<longleftrightarrow>
     (let receipt = bundle_receipt (dynamic_receipt s); attempt = attempt_authorization (dynamic_authorization s) in
      window_ok (attempt_validity attempt) \<and> run_id ext (initial_contract attempt) = Ok (initial_run_id attempt) \<and>
      (\<exists>d. final = with_input_digest (initial_contract attempt) d) \<and>
      receipt_execution_id receipt = attempt_execution_id attempt \<and> run_id ext final = Ok (receipt_run_id receipt) \<and>
      receipt_output_digest receipt = evidence_output_digest ev \<and>
      receipt_telemetry_summary_digest receipt = evidence_telemetry_summary_digest ev \<and>
      (\<exists>out. attempt_race ext sim catalog s out \<and>
         from_race_output out = Ok \<lparr>run_output = dynamic_output s, run_telemetry_summary = dynamic_telemetry_summary s\<rparr>))"

lemma attempt_replayed_code:
  "attempt_replayed ext sim catalog s ev final \<longleftrightarrow>
     (let receipt = bundle_receipt (dynamic_receipt s) in
      validate_completed_receipt ext (attempt_authorization (dynamic_authorization s)) final receipt = Ok () \<and>
      receipt_output_digest receipt = evidence_output_digest ev \<and>
      receipt_telemetry_summary_digest receipt = evidence_telemetry_summary_digest ev \<and>
      (\<exists>out. replay_attempt ext sim catalog s = Ok out \<and>
         from_race_output out = Ok \<lparr>run_output = dynamic_output s, run_telemetry_summary = dynamic_telemetry_summary s\<rparr>))"
  by (simp add: attempt_replayed_def replay_attempt_race completed_receipt_exact Let_def conj_assoc)

lemma attempt_evidence_code: "attempt_evidence ext s ev \<longleftrightarrow> submitted_dynamic_evidence ext s = Ok ev"
  by (cases ev) (auto simp: attempt_evidence_def submitted_dynamic_evidence_def evidence_of_def result_simps)

definition attempt_contracted ::
    "externals \<Rightarrow> ('i, 'res, 'diag) racing_simulator \<Rightarrow> 'res RacingCatalogSnapshot \<Rightarrow> 'i RacingDynamicVerificationSubmissionV1 \<Rightarrow>
       DeterministicRunContractV1 \<Rightarrow> bool" where
  "attempt_contracted ext sim catalog s final \<longleftrightarrow>
     (let attempt = attempt_authorization (dynamic_authorization s); contract = initial_contract attempt in
      validate_for_run (snapshot_manifest catalog) contract = Ok () \<and>
      from_catalog catalog (contract_model contract) = Some (dynamic_resolution s) \<and>
      canonical_json_digest ext (sim_input_json sim (dynamic_input s)) = Ok (input_digest (contract_input contract)) \<and>
      (\<exists>profile_identity prof. driver_instruction_profile_identity catalog = Some profile_identity \<and>
         driver_instruction_profile catalog = Some prof \<and>
         final_contract_for_attempt ext (dynamic_envelope s) attempt (dynamic_completed s) profile_identity prof = Ok final))"

definition attempt_admitted ::
    "externals \<Rightarrow> crypto \<Rightarrow> ('i, 'res, 'diag) racing_simulator \<Rightarrow> 'res RacingVerifier \<Rightarrow>
       'i RacingDynamicVerificationSubmissionV1 \<Rightarrow> i64 \<Rightarrow> bool" where
  "attempt_admitted ext cr sim vf s now_ms \<longleftrightarrow>
     (let attempt = attempt_authorization (dynamic_authorization s) in
      verify_attempt_submission ext cr (authorization_keys vf) (dynamic_authorization s) (expected_audience vf) now_ms = Ok () \<and>
      has_supported_dynamic_contract_shape ext (initial_contract attempt) (sim_hz sim (dynamic_input s)) \<and>
      contract_model (initial_contract attempt) = expected_model vf \<and> attempt_policy attempt = verifier_policy vf)"

lemma dynamic_evidence_digests:
  assumes "submitted_dynamic_evidence ext s = Ok ev"
  shows "evidence_digest_output ext \<lparr>run_output = dynamic_output s, run_telemetry_summary = x\<rparr> = Ok (evidence_output_digest ev)"
    "evidence_digest_telemetry ext \<lparr>run_output = y, run_telemetry_summary = dynamic_telemetry_summary s\<rparr> =
       Ok (evidence_telemetry_summary_digest ev)"
  using assms
  by (auto simp: submitted_dynamic_evidence_def evidence_of_def result_simps evidence_digest_output_def evidence_digest_telemetry_def)

lemma is_ok_unit: "is_ok r \<longleftrightarrow> r = Ok ()" for r :: "'e + unit"
  by (auto simp: is_ok_iff)

lemma attempt_replay_verified:
  assumes ev: "submitted_dynamic_evidence ext s = Ok ev"
  shows "verify_attempt_replay ext sim vf s ev catalog final run now_ms = Ok v \<and> verdict_status v = Verified \<longleftrightarrow>
    attempt_replayed ext sim catalog s ev final \<and> time_ok now_ms \<and> v = verified_attempt vf s ev run now_ms"
proof (cases "attempt_replayed ext sim catalog s ev final")
  case True
  then have "verify_attempt_replay ext sim vf s ev catalog final run now_ms =
      attempt_verdict vf run (attempt_execution_id (attempt_authorization (dynamic_authorization s))) ev Verified None
        (verified_resolution (verified_attempt vf s ev run now_ms)) now_ms"
    using dynamic_evidence_digests [OF ev]
    by (auto simp: verify_attempt_replay_def attempt_replayed_code Let_def is_ok_unit verified_attempt_def)
  then show ?thesis using True by (auto simp: attempt_verdict_Ok verified_attempt_def Let_def)
next
  case False
  have "verdict_status v \<noteq> Verified" if v: "verify_attempt_replay ext sim vf s ev catalog final run now_ms = Ok v"
  proof (cases "replay_attempt ext sim catalog s")
    case (Inl e)
    then show ?thesis using v by (auto simp: verify_attempt_replay_def Let_def split: if_splits)
  next
    case (Inr out)
    note replay = Inr
    show ?thesis
    proof (cases "from_race_output out")
      case (Inl e)
      then show ?thesis using v replay by (auto simp: verify_attempt_replay_def Let_def split: if_splits)
    next
      case (Inr replayed)
      have "replayed = \<lparr>run_output = dynamic_output s, run_telemetry_summary = dynamic_telemetry_summary s\<rparr>"
        if "run_output replayed = dynamic_output s" "run_telemetry_summary replayed = dynamic_telemetry_summary s"
        using that by simp
      then show ?thesis
        using v replay Inr False
        by (auto simp: verify_attempt_replay_def attempt_replayed_code Let_def is_ok_unit result_simps split: if_splits)
    qed
  qed
  then show ?thesis using False by blast
qed

lemma attempt_contract_verified:
  assumes ev: "submitted_dynamic_evidence ext s = Ok ev"
  shows "verify_attempt_contract ext sim vf s ev catalog now_ms = Ok v \<and> verdict_status v = Verified \<longleftrightarrow>
    (\<exists>final run. attempt_contracted ext sim catalog s final \<and> run_id ext final = Ok run \<and>
       attempt_replayed ext sim catalog s ev final \<and> time_ok now_ms \<and> v = verified_attempt vf s ev run now_ms)"
proof (cases "\<exists>final. attempt_contracted ext sim catalog s final")
  case True
  then obtain final where final: "attempt_contracted ext sim catalog s final" by blast
  have unique: "attempt_contracted ext sim catalog s final' \<longleftrightarrow> final' = final" for final'
    using final by (auto simp: attempt_contracted_def Let_def)
  have pack: "validate_for_run m c = Ok () \<Longrightarrow> contract_data_pack c = pack_identity (simulation_pack m)" for m c
    by (auto simp: validate_for_run_def result_simps split: if_splits)
  have "verify_attempt_contract ext sim vf s ev catalog now_ms =
      and_then (map_err VerifierCanonicalJson (run_id ext final)) (\<lambda>run.
        verify_attempt_replay ext sim vf s ev catalog final run now_ms)"
    using final by (auto simp: verify_attempt_contract_def attempt_contracted_def Let_def is_ok_unit dest: pack)
  then show ?thesis
    unfolding unique
    by (cases "run_id ext final") (auto simp: attempt_replay_verified [OF ev, of sim vf catalog final _ now_ms v, simplified])
next
  case False
  have "verdict_status v \<noteq> Verified" if "verify_attempt_contract ext sim vf s ev catalog now_ms = Ok v"
    using that False
    by (auto simp: verify_attempt_contract_def attempt_contracted_def Let_def is_ok_unit result_simps
        split: if_splits option.splits sum.splits)
  then show ?thesis using False by blast
qed

lemma verify_attempt_verified:
  "verify_attempt ext cr sim vf s now_ms = Ok v \<and> verdict_status v = Verified \<longleftrightarrow>
   (\<exists>ev catalog final run. submitted_dynamic_evidence ext s = Ok ev \<and> verifier_catalog vf = Some catalog \<and> time_ok now_ms \<and>
      attempt_admitted ext cr sim vf s now_ms \<and> attempt_contracted ext sim catalog s final \<and> run_id ext final = Ok run \<and>
      attempt_replayed ext sim catalog s ev final \<and> v = verified_attempt vf s ev run now_ms)"
proof (cases "attempt_admitted ext cr sim vf s now_ms")
  case True
  then have "verify_attempt ext cr sim vf s now_ms =
      and_then (map_err VerifierCanonicalJson (submitted_dynamic_evidence ext s)) (\<lambda>ev.
        case verifier_catalog vf of
          None \<Rightarrow> attempt_verdict vf (receipt_run_id (bundle_receipt (dynamic_receipt s)))
            (attempt_execution_id (attempt_authorization (dynamic_authorization s))) ev Pending (Some CatalogUnavailable) None now_ms
        | Some catalog \<Rightarrow> verify_attempt_contract ext sim vf s ev catalog now_ms)"
    by (simp add: verify_attempt_def attempt_admitted_def Let_def)
  then show ?thesis
    using True attempt_contract_verified [of ext s _ sim vf _ now_ms v]
    by (cases "submitted_dynamic_evidence ext s"; cases "verifier_catalog vf") (auto simp: attempt_verdict_Ok)
next
  case False
  have "verdict_status v \<noteq> Verified" if "verify_attempt ext cr sim vf s now_ms = Ok v"
    using that False
    by (cases "submitted_dynamic_evidence ext s";
        cases "verify_attempt_submission ext cr (authorization_keys vf) (dynamic_authorization s) (expected_audience vf) now_ms")
       (auto simp: verify_attempt_def attempt_admitted_def Let_def attempt_verdict_Ok split: if_splits)
  then show ?thesis using False by blast
qed

text \<open>C1: A dynamic attempt is verified exactly when its receipt, output and summary have canonical digests, a catalog is
  present, the time is usable, the signed attempt is accepted for this audience and moment with the dynamic racing shape, the expected model and policy,
  the catalog, the lineage and the input digest agree and the decisions lie inside the signed envelope, the receipt
  states the execution and the run id of the final contract and those digests, and the race of the submitted input with the
  seed of the signed contract and the applied timeline, run by the engine of the signed model, returns the submitted output
  and telemetry summary. The verdict then names the final run.\<close>

theorem verify_attempt_exact:
  "verify_attempt ext cr sim vf s now_ms = Ok v \<and> verdict_status v = Verified \<longleftrightarrow>
   (\<exists>ev catalog final run. attempt_evidence ext s ev \<and> verifier_catalog vf = Some catalog \<and> time_ok now_ms \<and>
      attempt_admitted ext cr sim vf s now_ms \<and> attempt_contracted ext sim catalog s final \<and> run_id ext final = Ok run \<and>
      attempt_replayed ext sim catalog s ev final \<and> v = verified_attempt vf s ev run now_ms)"
  unfolding attempt_evidence_code by (rule verify_attempt_verified)

end
