(* ===== verification/Authority.thy ===== *)
theory Authority
  imports Verifier_Attempt
begin

text \<open>
  \<open>services/pitgun-authority/src/main.rs\<close>: the issue of signed run authorizations and of signed dynamic attempts.

  The clock and the 32 random bytes of a nonce are arguments. \<open>racing_view\<close> names what the authority reads of an input and a
  catalog that the model leaves abstract: the component selections, the track profile, the serialized form, the component
  profile and the circuits, and the policy engine. A refusal carries its cause in place of its message. \<open>Panicked\<close> stands for
  the two \<open>expect\<close> on the static scenario name and version, and for the one on the release of an attempt.
\<close>

section \<open>Requests, state and errors\<close>

datatype VehicleComponentKind = AerodynamicPackage | Chassis | PowerUnit | TireSpecification

record VehicleComponentSelectionV1 =
  aero_id :: "string option"
  chassis_id :: "string option"
  engine_id :: "string option"
  tire_id :: "string option"

record ('rest, 'res) racing_view =
  view_components :: "'rest \<Rightarrow> (string \<times> VehicleComponentSelectionV1) list"
  view_track_profile :: "'rest \<Rightarrow> nat option"
  view_serialize :: "'rest RunRaceInput \<Rightarrow> string + serde_value"
  view_capabilities :: "'res RacingCatalogSnapshot \<Rightarrow> (VehicleComponentKind \<times> string) list option"
  view_circuit :: "'res RacingCatalogSnapshot \<Rightarrow> string \<Rightarrow> string + nat"
  view_tuning :: "u32 \<Rightarrow> 64 word \<Rightarrow> TuningSpec \<Rightarrow> string + TuningSpec"

record ServiceConfig =
  simulation_contract_ttl_secs :: u64
  late_submission_grace_secs :: u64
  allow_catalog_free :: bool
  config_signing_key_id :: Identifier
  config_audience :: Identifier

record 'res AppState =
  signing_key :: "SigningKey option"
  policy_identity :: ArtifactIdentity
  racing_model :: ArtifactIdentity
  racing_catalog :: "'res RacingCatalogSnapshot option"
  config :: ServiceConfig

datatype refusal =
    NegativeEra | HertzOutOfRange | PolicyRefused PolicyError | ComponentsUnsupported | UnknownCompetitor string
  | NoComponentOverride string | NonCanonicalComponent string string | UnknownComponent string string
  | InputNotCanonical CanonicalJsonError | ClockRefused RunContractError | CatalogRefused CatalogContractError
  | ReleaseAndPack | NoReleaseOrPack | EnvelopeRefused RacingInstructionAuthorizationError | CircuitUnknown string | NoSegments

datatype ContractError =
    BadRequest refusal | Forbidden string | Unavailable string | InternalError string | Panicked

record 'rest RacingRunAuthorizationRequestV1 =
  run_subject :: Identifier
  run_seed :: Seed
  run_input :: "'rest RunRaceInput"
  run_catalog_release :: "CatalogReleaseIdentityV1 option"
  run_data_pack :: "ArtifactIdentity option"

record 'rest RacingRunAuthorizationResponseV1 =
  response_signed :: SignedRunAuthorizationV1
  response_input :: "'rest RunRaceInput"
  response_release :: "CatalogReleaseIdentityV1 option"

record 'rest RacingRunAttemptAuthorizationRequestV1 =
  try_subject :: Identifier
  try_execution_id :: ExecutionId
  try_seed :: Seed
  try_input :: "'rest RunRaceInput"
  try_catalog_release :: CatalogReleaseIdentityV1

record 'rest RacingRunAttemptAuthorizationResponseV1 =
  issued_signed :: SignedRunAttemptAuthorizationV1
  issued_input :: "'rest RunRaceInput"
  issued_envelope :: RacingDriverInstructionAuthorizationV1
  issued_release :: CatalogReleaseIdentityV1

record 'rest PreparedRacingRunV1 =
  prepared_input :: "'rest RunRaceInput"
  prepared_contract :: DeterministicRunContractV1
  prepared_release :: "CatalogReleaseIdentityV1 option"

section \<open>Durations\<close>

definition milliseconds :: "u64 \<Rightarrow> ContractError + i64" where
  "milliseconds seconds =
     (if unat seconds * 1000 < 2 ^ 63 then Ok (seconds * 1000) else Err (InternalError ''configured duration is too large''))"

definition add_seconds :: "i64 \<Rightarrow> u64 \<Rightarrow> ContractError + i64" where
  "add_seconds now_ms seconds =
     and_then (milliseconds seconds) (\<lambda>ms.
     if sint now_ms + sint ms < 2 ^ 63 then Ok (now_ms + ms) else Err (InternalError ''configured validity deadline overflowed''))"

definition authorization_validity :: "i64 \<Rightarrow> 'res AppState \<Rightarrow> ContractError + AuthorizationValidityV1" where
  "authorization_validity now_ms st =
     and_then (add_seconds now_ms (simulation_contract_ttl_secs (config st))) (\<lambda>expires.
     and_then (milliseconds (late_submission_grace_secs (config st))) (\<lambda>grace.
     Ok \<lparr>issued_at_ms = now_ms, expires_at_ms = expires, late_submission_grace_ms = grace\<rparr>))"

section \<open>Component selections\<close>

definition selection_parts :: "VehicleComponentSelectionV1 \<Rightarrow> (VehicleComponentKind \<times> string \<times> string option) list" where
  "selection_parts s =
     [(AerodynamicPackage, ''aero'', aero_id s), (Chassis, ''chassis'', chassis_id s), (PowerUnit, ''engine'', engine_id s),
      (TireSpecification, ''tire'', tire_id s)]"

definition validate_governed_component_selection ::
    "(VehicleComponentKind \<times> string) list \<Rightarrow> string \<Rightarrow> VehicleComponentSelectionV1 \<Rightarrow> ContractError + unit" where
  "validate_governed_component_selection prof competitor s =
     (if list_all (\<lambda>(_, _, v). v = None) (selection_parts s) then Err (BadRequest (NoComponentOverride competitor))
      else try_each (\<lambda>(kind, label, v).
        case v of
          None \<Rightarrow> Ok ()
        | Some i \<Rightarrow>
            if i = [] \<or> i \<noteq> trim i then Err (BadRequest (NonCanonicalComponent label i))
            else if (kind, i) \<notin> set prof then Err (BadRequest (UnknownComponent label i))
            else Ok ()) (selection_parts s))"

definition validate_governed_component_selections ::
    "('rest, 'res) racing_view \<Rightarrow> 'res RacingCatalogSnapshot option \<Rightarrow> 'rest RunRaceInput \<Rightarrow> ContractError + unit" where
  "validate_governed_component_selections V catalog inp =
     (if view_components V (input_rest inp) = [] then Ok ()
      else and_then (ok_or (Option.bind catalog (view_capabilities V)) (BadRequest ComponentsUnsupported)) (\<lambda>prof.
        try_each (\<lambda>(competitor, selection).
          if competitor \<notin> competitor_spec_id ` set (race_competitors (input_race inp))
          then Err (BadRequest (UnknownCompetitor competitor))
          else validate_governed_component_selection prof competitor selection) (view_components V (input_rest inp))))"

section \<open>The contract of a run\<close>

definition resolve_data_pack ::
    "externals \<Rightarrow> 'res AppState \<Rightarrow> CatalogReleaseIdentityV1 option \<Rightarrow> ArtifactIdentity option \<Rightarrow>
       ContractError + ArtifactIdentity \<times> CatalogReleaseIdentityV1 option" where
  "resolve_data_pack ext st release pack =
     (case (release, pack) of
        (Some release, None) \<Rightarrow>
          and_then (ok_or (racing_catalog st) (Unavailable ''catalog-backed issuance is unavailable on this authority'')) (\<lambda>catalog.
          and_also (map_err (\<lambda>e. BadRequest (CatalogRefused e)) (verify_release_identity ext (snapshot_manifest catalog) release))
            (Ok (pack_identity (simulation_pack (snapshot_manifest catalog)), Some release)))
      | (None, Some pack) \<Rightarrow>
          if allow_catalog_free (config st) then Ok (pack, None)
          else Err (Forbidden ''catalog-free issuance is disabled by authority policy'')
      | (Some _, Some _) \<Rightarrow> Err (BadRequest ReleaseAndPack)
      | (None, None) \<Rightarrow> Err (BadRequest NoReleaseOrPack))"

definition static_scenario :: "externals \<Rightarrow> string \<Rightarrow> ContractError + ScenarioIdentity" where
  "static_scenario ext name =
     and_then (map_err (\<lambda>_. Panicked) (identifier_new name)) (\<lambda>i.
     and_then (map_err (\<lambda>_. Panicked) (semantic_version_new ext ''1.0.0'')) (\<lambda>v.
     Ok \<lparr>scenario_id = i, scenario_version = v\<rparr>))"

definition prepare_racing_run ::
    "externals \<Rightarrow> ('rest, 'res) racing_view \<Rightarrow> 'res AppState \<Rightarrow> Seed \<Rightarrow> 'rest RunRaceInput \<Rightarrow>
       CatalogReleaseIdentityV1 option \<Rightarrow> ArtifactIdentity option \<Rightarrow> string \<Rightarrow> ContractError + 'rest PreparedRacingRunV1" where
  "prepare_racing_run ext V st seed inp release pack name =
     (let hz = input_hz inp in
      if input_era inp <s 0 then Err (BadRequest NegativeEra)
      else if \<not> is_finite64 hz \<or> f64_le hz F64_ZERO \<or> f64_has_fract hz \<or> f64_lt F64_MILLION hz
      then Err (BadRequest HertzOutOfRange)
      else and_then (map_err (\<lambda>e. BadRequest (PolicyRefused e))
             (normalize_and_validate_race_input_with_policy (view_tuning V) (input_race inp) (input_era inp))) (\<lambda>race.
           let canonical = inp\<lparr>input_race := race\<rparr> in
           and_also (validate_governed_component_selections V (racing_catalog st) canonical)
          (and_then (map_err (\<lambda>e. BadRequest (InputNotCanonical e)) (canonical_json_digest ext (view_serialize V canonical))) (\<lambda>digest.
           and_then (resolve_data_pack ext st release pack) (\<lambda>(data_pack, resolved).
           let rate = f64_to_u64 hz; divisor = greatest_common_divisor 1000000 rate in
           and_then (static_scenario ext name) (\<lambda>scenario.
           and_then (map_err (\<lambda>e. BadRequest (ClockRefused e)) (clock_new 0 (1000000 div divisor) (rate div divisor))) (\<lambda>clock.
           let contract = \<lparr>contract_version = ContractV1, contract_scenario = scenario, contract_model = racing_model st,
                 contract_data_pack = data_pack, contract_runtime_profile = PortableExactV1,
                 contract_random = \<lparr>random_seed = seed, random_algorithm = PitgunSplitMix64V1, stream_derivation = Sha256LabelV1\<rparr>,
                 contract_clock = clock, contract_event_ordering = event_ordering_v1,
                 contract_input = \<lparr>media_type = ApplicationJson, canonicalization = JcsRfc8785, input_digest = digest\<rparr>\<rparr> in
           and_also (case (racing_catalog st, resolved) of
               (Some catalog, Some _) \<Rightarrow> map_err (\<lambda>e. BadRequest (CatalogRefused e)) (validate_for_run (snapshot_manifest catalog) contract)
             | _ \<Rightarrow> Ok ())
            (Ok \<lparr>prepared_input = canonical, prepared_contract = contract, prepared_release = resolved\<rparr>))))))))"

section \<open>Authorizations\<close>

definition key_unavailable :: ContractError where
  "key_unavailable = Unavailable ''authority signing material is unavailable''"

definition build_signed_racing_run_authorization ::
    "externals \<Rightarrow> crypto \<Rightarrow> ('rest, 'res) racing_view \<Rightarrow> i64 \<Rightarrow> bytes \<Rightarrow> 'res AppState \<Rightarrow> 'rest RacingRunAuthorizationRequestV1 \<Rightarrow>
       ContractError + 'rest RacingRunAuthorizationResponseV1" where
  "build_signed_racing_run_authorization ext cr V now_ms nonce_bytes st req =
     and_then (ok_or (signing_key st) key_unavailable) (\<lambda>key.
     and_then (prepare_racing_run ext V st (run_seed req) (run_input req) (run_catalog_release req) (run_data_pack req)
        ''racing.race'') (\<lambda>prepared.
     and_then (map_err (\<lambda>_. InternalError ''failed to derive deterministic run identity'') (run_id ext (prepared_contract prepared))) (\<lambda>run.
     and_then (authorization_validity now_ms st) (\<lambda>window.
     let a = \<lparr>authorization_version = RunAuthorizationVersionV1, nonce = from_bytes ext nonce_bytes, subject = run_subject req,
           audience = config_audience (config st), auth_contract = prepared_contract prepared, auth_run_id = run,
           policy = policy_identity st, signing_key_id = config_signing_key_id (config st), validity = window\<rparr> in
     and_then (map_err (\<lambda>_. InternalError ''failed to canonicalize run authorization'') (auth_signing_bytes ext a)) (\<lambda>bs.
     Ok \<lparr>response_signed = \<lparr>authorization = a, auth_algorithm = HmacSha256, signature = key_sign cr key bs\<rparr>,
          response_input = prepared_input prepared, response_release = prepared_release prepared\<rparr>)))))"

definition resolved_segment_count ::
    "('rest, 'res) racing_view \<Rightarrow> 'res RacingCatalogSnapshot \<Rightarrow> 'rest RunRaceInput \<Rightarrow> ContractError + u32" where
  "resolved_segment_count V catalog inp =
     and_then (case view_track_profile V (input_rest inp) of
         Some n \<Rightarrow> Ok n
       | None \<Rightarrow> map_err (\<lambda>e. BadRequest (CircuitUnknown e)) (view_circuit V catalog (race_track_id (input_race inp)))) (\<lambda>n.
     if n < 2 ^ 32 \<and> 0 < n then Ok (word_of_nat n) else Err (BadRequest NoSegments))"

definition build_signed_racing_run_attempt_authorization ::
    "externals \<Rightarrow> crypto \<Rightarrow> ('rest, 'res) racing_view \<Rightarrow> i64 \<Rightarrow> bytes \<Rightarrow> 'res AppState \<Rightarrow>
       'rest RacingRunAttemptAuthorizationRequestV1 \<Rightarrow> ContractError + 'rest RacingRunAttemptAuthorizationResponseV1" where
  "build_signed_racing_run_attempt_authorization ext cr V now_ms nonce_bytes st req =
     and_then (ok_or (signing_key st) key_unavailable) (\<lambda>key.
     and_then (prepare_racing_run ext V st (try_seed req) (try_input req) (Some (try_catalog_release req)) None
        ''racing.dynamic-session'') (\<lambda>prepared.
     and_then (ok_or (prepared_release prepared) Panicked) (\<lambda>release.
     and_then (ok_or (racing_catalog st) (Unavailable ''catalog-backed issuance is unavailable on this authority'')) (\<lambda>catalog.
     and_then (ok_or (driver_instruction_profile catalog)
        (Unavailable ''configured Racing catalog does not provide a driver-instruction profile'')) (\<lambda>prof.
     and_then (ok_or (driver_instruction_profile_identity catalog)
        (InternalError ''configured Racing instruction profile has no resolved identity'')) (\<lambda>prof_identity.
     and_then (resolved_segment_count V catalog (prepared_input prepared)) (\<lambda>segments.
     let envelope = \<lparr>envelope_schema_version = InstructionAuthorizationV1,
           envelope_authorized_input = contract_input (prepared_contract prepared), envelope_profile = prof_identity,
           allowed_modes = [Manage, Balanced, Attack], envelope_granularity = profile_granularity prof,
           envelope_max_events = profile_max_events prof,
           envelope_competitors = sort (map competitor_spec_id (race_competitors (input_race (prepared_input prepared)))),
           envelope_lap_count = race_laps (input_race (prepared_input prepared)), envelope_segment_count = segments\<rparr> in
     and_also (map_err (\<lambda>e. BadRequest (EnvelopeRefused e)) (envelope_validate envelope (prepared_contract prepared) prof_identity prof))
    (and_then (map_err (\<lambda>_. InternalError ''failed to derive initial run identity'') (run_id ext (prepared_contract prepared))) (\<lambda>run.
     and_then (map_err (\<lambda>_. InternalError ''failed to derive Racing decision-envelope identity'') (artifact_identity ext envelope)) (\<lambda>identity.
     and_then (authorization_validity now_ms st) (\<lambda>window.
     let a = \<lparr>attempt_version = RunAttemptAuthorizationVersionV1, attempt_nonce = from_bytes ext nonce_bytes,
           attempt_execution_id = try_execution_id req, attempt_subject = try_subject req,
           attempt_audience = config_audience (config st), initial_contract = prepared_contract prepared, initial_run_id = run,
           decision_envelope = identity, attempt_policy = policy_identity st,
           attempt_signing_key_id = config_signing_key_id (config st), attempt_validity = window\<rparr> in
     and_then (map_err (\<lambda>_. InternalError ''failed to canonicalize dynamic attempt authorization'') (attempt_signing_bytes ext a)) (\<lambda>bs.
     Ok \<lparr>issued_signed = \<lparr>attempt_authorization = a, attempt_algorithm = HmacSha256, attempt_signature = key_sign cr key bs\<rparr>,
          issued_input = prepared_input prepared, issued_envelope = envelope, issued_release = release\<rparr>))))))))))))"

section \<open>Handlers\<close>

text \<open>A response is its status with an error name or a body. A handler that panics gives no response.\<close>

definition into_response :: "ContractError \<Rightarrow> (nat \<times> (string + 'b)) option" where
  "into_response e =
     (case e of
        BadRequest _ \<Rightarrow> Some (400, Err ''invalid request'')
      | Forbidden _ \<Rightarrow> Some (403, Err ''forbidden'')
      | Unavailable _ \<Rightarrow> Some (503, Err ''unavailable'')
      | InternalError _ \<Rightarrow> Some (500, Err ''internal error'')
      | Panicked \<Rightarrow> None)"

definition readyz :: "'res AppState \<Rightarrow> nat" where
  "readyz st = (if signing_key st \<noteq> None then 200 else 503)"

definition create_racing_run_authorization ::
    "externals \<Rightarrow> crypto \<Rightarrow> ('rest, 'res) racing_view \<Rightarrow> i64 \<Rightarrow> bytes \<Rightarrow> 'res AppState \<Rightarrow> 'rest RacingRunAuthorizationRequestV1 \<Rightarrow>
       (nat \<times> (string + 'rest RacingRunAuthorizationResponseV1)) option" where
  "create_racing_run_authorization ext cr V now_ms nonce_bytes st req =
     (case build_signed_racing_run_authorization ext cr V now_ms nonce_bytes st req of
        Inr response \<Rightarrow> Some (200, Ok response)
      | Inl e \<Rightarrow> into_response e)"

definition create_racing_run_attempt_authorization ::
    "externals \<Rightarrow> crypto \<Rightarrow> ('rest, 'res) racing_view \<Rightarrow> i64 \<Rightarrow> bytes \<Rightarrow> 'res AppState \<Rightarrow>
       'rest RacingRunAttemptAuthorizationRequestV1 \<Rightarrow> (nat \<times> (string + 'rest RacingRunAttemptAuthorizationResponseV1)) option" where
  "create_racing_run_attempt_authorization ext cr V now_ms nonce_bytes st req =
     (case build_signed_racing_run_attempt_authorization ext cr V now_ms nonce_bytes st req of
        Inr response \<Rightarrow> Some (200, Ok response)
      | Inl e \<Rightarrow> into_response e)"

section \<open>What an issued contract says\<close>

lemma milliseconds_Ok: "milliseconds s = Ok m \<Longrightarrow> sint m = 1000 * int (unat s)"
proof -
  assume ok: "milliseconds s = Ok m"
  then have small: "unat s * 1000 < 2 ^ 63" and m: "m = s * 1000" by (auto simp: milliseconds_def split: if_splits)
  have "unat m = unat s * 1000" using small by (simp add: m unat_word_ariths)
  moreover have "uint m = int (unat m)" by simp
  ultimately have u: "uint m = 1000 * int (unat s)" by linarith
  moreover have "int (unat s * 1000) < int (2 ^ 63)" using small by (simp only: of_nat_less_iff)
  moreover have "- (2 ^ 63) \<le> sint m" using sint_ge [of m] by simp
  ultimately show ?thesis using sint_cases [of m] by (auto simp: mult.commute)
qed

lemma authorization_validity_Ok:
  assumes "authorization_validity now st = Ok w"
  shows "issued_at_ms w = now"
    "sint (expires_at_ms w) = sint now + 1000 * int (unat (simulation_contract_ttl_secs (config st)))"
    "sint (late_submission_grace_ms w) = 1000 * int (unat (late_submission_grace_secs (config st)))"
proof -
  obtain ms grace where ms: "milliseconds (simulation_contract_ttl_secs (config st)) = Ok ms" "sint now + sint ms < 2 ^ 63"
      and grace: "milliseconds (late_submission_grace_secs (config st)) = Ok grace"
      and w: "w = \<lparr>issued_at_ms = now, expires_at_ms = now + ms, late_submission_grace_ms = grace\<rparr>"
    using assms by (auto simp: authorization_validity_def add_seconds_def result_simps split: if_splits)
  have "0 \<le> sint ms" unfolding milliseconds_Ok [OF ms(1)] by (rule mult_nonneg_nonneg) simp_all
  then have "- (2 ^ 63) \<le> sint now + sint ms" using sint_ge [of now] by simp
  then have "sint (now + ms) = sint now + sint ms" using ms(2) by (intro sint_add_no_overflow) simp_all
  then show "issued_at_ms w = now"
    "sint (expires_at_ms w) = sint now + 1000 * int (unat (simulation_contract_ttl_secs (config st)))"
    "sint (late_submission_grace_ms w) = 1000 * int (unat (late_submission_grace_secs (config st)))"
    by (simp_all add: w milliseconds_Ok [OF ms(1)] milliseconds_Ok [OF grace])
qed

text \<open>The release and the data pack of a contract: a verified release of the configured catalog, for which the contract is
  valid, or a data pack of the request where the authority allows that.\<close>

definition release_ok :: "externals \<Rightarrow> 'res AppState \<Rightarrow> CatalogReleaseIdentityV1 option \<Rightarrow> DeterministicRunContractV1 \<Rightarrow> bool" where
  "release_ok ext st release contract \<longleftrightarrow>
     (case release of
        None \<Rightarrow> allow_catalog_free (config st)
      | Some rel \<Rightarrow> (\<exists>catalog. racing_catalog st = Some catalog \<and> verify_release_identity ext (snapshot_manifest catalog) rel = Ok () \<and>
          validate_for_run (snapshot_manifest catalog) contract = Ok ()))"

lemma resolve_data_pack_Ok:
  assumes "resolve_data_pack ext st release pack = Ok (data_pack, resolved)"
  shows "resolved = release" "release = None \<Longrightarrow> allow_catalog_free (config st)"
    "release = Some rel \<Longrightarrow> \<exists>catalog. racing_catalog st = Some catalog \<and> verify_release_identity ext (snapshot_manifest catalog) rel = Ok ()"
  using assms by (auto simp: resolve_data_pack_def result_simps split: option.splits if_splits)

lemma prepare_Ok:
  assumes "prepare_racing_run ext V st seed inp release pack name = Ok p"
  shows "input_hz (prepared_input p) = input_hz inp" "prepared_release p = release"
    "contract_model (prepared_contract p) = racing_model st"
    "random_seed (contract_random (prepared_contract p)) = seed"
    "static_scenario ext name = Ok (contract_scenario (prepared_contract p))"
    "has_supported_contract_semantics (prepared_contract p) (input_hz inp)"
    "canonical_json_digest ext (view_serialize V (prepared_input p)) = Ok (input_digest (contract_input (prepared_contract p)))"
    "release_ok ext st release (prepared_contract p)"
proof -
  let ?hz = "input_hz inp"
  let ?rate = "f64_to_u64 ?hz" and ?divisor = "greatest_common_divisor 1000000 (f64_to_u64 ?hz)"
  have hz: "\<not> (\<not> is_finite64 ?hz \<or> f64_le ?hz F64_ZERO \<or> f64_has_fract ?hz \<or> f64_lt F64_MILLION ?hz)"
    using assms by (auto simp: prepare_racing_run_def Let_def split: if_splits)
  have era: "\<not> input_era inp <s 0" using assms by (auto simp: prepare_racing_run_def Let_def split: if_splits)
  note run = assms [unfolded prepare_racing_run_def Let_def, simplified era hz if_False simp_thms]
  obtain race where race: "normalize_and_validate_race_input_with_policy (view_tuning V) (input_race inp) (input_era inp) = Ok race"
    using run by (auto simp: result_simps)
  obtain digest where digest: "canonical_json_digest ext (view_serialize V (inp\<lparr>input_race := race\<rparr>)) = Ok digest"
    using run by (auto simp: result_simps race)
  obtain data_pack resolved where resolved: "resolve_data_pack ext st release pack = Ok (data_pack, resolved)"
    using run by (auto simp: result_simps)
  obtain scenario where scenario: "static_scenario ext name = Ok scenario"
    using run by (auto simp: result_simps)
  obtain clock where clock: "clock_new 0 (1000000 div ?divisor) (?rate div ?divisor) = Ok clock"
    using run by (auto simp: result_simps)
  let ?contract = "\<lparr>contract_version = ContractV1, contract_scenario = scenario, contract_model = racing_model st,
         contract_data_pack = data_pack, contract_runtime_profile = PortableExactV1,
         contract_random = \<lparr>random_seed = seed, random_algorithm = PitgunSplitMix64V1, stream_derivation = Sha256LabelV1\<rparr>,
         contract_clock = clock, contract_event_ordering = event_ordering_v1,
         contract_input = \<lparr>media_type = ApplicationJson, canonicalization = JcsRfc8785, input_digest = digest\<rparr>\<rparr>"
  have p: "p = \<lparr>prepared_input = inp\<lparr>input_race := race\<rparr>, prepared_contract = ?contract, prepared_release = resolved\<rparr>"
    and checked: "racing_catalog st = Some catalog \<Longrightarrow> resolved = Some rel \<Longrightarrow> validate_for_run (snapshot_manifest catalog) ?contract = Ok ()"
    for catalog rel
    using run by (auto simp: result_simps race digest resolved scenario clock)
  have "expected_clock ?hz = Some clock" using hz clock by (simp add: expected_clock_def Let_def)
  then show "has_supported_contract_semantics (prepared_contract p) ?hz"
    by (simp add: has_supported_contract_semantics_def p)
  show "release_ok ext st release (prepared_contract p)"
    using resolve_data_pack_Ok [OF resolved] checked by (fastforce simp: release_ok_def p split: option.splits)
  show "input_hz (prepared_input p) = ?hz" "prepared_release p = release" "contract_model (prepared_contract p) = racing_model st"
    "random_seed (contract_random (prepared_contract p)) = seed" "static_scenario ext name = Ok (contract_scenario (prepared_contract p))"
    "canonical_json_digest ext (view_serialize V (prepared_input p)) = Ok (input_digest (contract_input (prepared_contract p)))"
    using digest scenario resolve_data_pack_Ok(1) [OF resolved] by (simp_all add: p)
qed

section \<open>What is issued is accepted\<close>

lemma run_authorization_parts:
  assumes "build_signed_racing_run_authorization ext cr V now nonce_bytes st req = Ok r"
  obtains key prepared bs where "signing_key st = Some key"
    "prepare_racing_run ext V st (run_seed req) (run_input req) (run_catalog_release req) (run_data_pack req) ''racing.race'' = Ok prepared"
    "auth_contract (authorization (response_signed r)) = prepared_contract prepared"
    "authorization_validity now st = Ok (validity (authorization (response_signed r)))"
    "audience (authorization (response_signed r)) = config_audience (config st)"
    "signing_key_id (authorization (response_signed r)) = config_signing_key_id (config st)"
    "policy (authorization (response_signed r)) = policy_identity st"
    "auth_signing_bytes ext (authorization (response_signed r)) = Ok bs" "signature (response_signed r) = key_sign cr key bs"
    "response_input r = prepared_input prepared" "response_release r = prepared_release prepared"
  using assms by (auto simp: build_signed_racing_run_authorization_def result_simps Let_def)

lemma static_scenario_Ok:
  "static_scenario ext name = Ok s \<longleftrightarrow>
     identifier_new name = Ok (scenario_id s) \<and> semantic_version_new ext ''1.0.0'' = Ok (scenario_version s)"
  by (cases s) (auto simp: static_scenario_def result_simps)

lemma supported_shape:
  assumes "has_supported_contract_semantics c hz" "static_scenario ext ''racing.race'' = Ok (contract_scenario c)"
  shows "has_supported_contract_shape ext c hz"
  using assms
  by (auto simp: has_supported_contract_semantics_def has_supported_contract_shape_def static_scenario_Ok RACING_SCENARIO_ID_def
      RACING_SCENARIO_VERSION_def split: option.splits)

lemma supported_dynamic_shape:
  assumes "has_supported_contract_semantics c hz" "static_scenario ext ''racing.dynamic-session'' = Ok (contract_scenario c)"
  shows "has_supported_dynamic_contract_shape ext c hz"
  using assms
  by (simp add: has_supported_dynamic_contract_shape_def static_scenario_Ok RACING_DYNAMIC_SCENARIO_ID_def RACING_SCENARIO_VERSION_def)

lemma keyring_inserted: "keyring_get (keyring_insert ring i key) i = Some key"
  by (simp add: keyring_insert_def keyring_get_def)

text \<open>C37: A run that the authority authorizes is admitted by a verifier that holds its key, for the whole configured window and
  the grace after it; its contract has the shape the verifier supports and names the digest of the canonical input that the
  authority returns; and its release is a verified one of the configured catalog, unless the authority allows others.\<close>

theorem issued_run_admitted:
  assumes "hex_roundtrip cr" "build_signed_racing_run_authorization ext cr V now nonce_bytes st req = Ok r"
    "signing_key st = Some key" "sint now \<le> sint t"
    "sint t \<le> sint now + 1000 * (int (unat (simulation_contract_ttl_secs (config st))) + int (unat (late_submission_grace_secs (config st))))"
  shows "verify_submission ext cr (keyring_insert ring (config_signing_key_id (config st)) key) (response_signed r)
      (config_audience (config st)) t = Ok () \<and>
    has_supported_contract_shape ext (auth_contract (authorization (response_signed r))) (input_hz (response_input r)) \<and>
    canonical_json_digest ext (view_serialize V (response_input r)) =
      Ok (input_digest (contract_input (auth_contract (authorization (response_signed r))))) \<and>
    release_ok ext st (response_release r) (auth_contract (authorization (response_signed r)))"
proof -
  obtain prepared bs where
      prepared: "prepare_racing_run ext V st (run_seed req) (run_input req) (run_catalog_release req) (run_data_pack req) ''racing.race'' = Ok prepared"
    and contract: "auth_contract (authorization (response_signed r)) = prepared_contract prepared"
    and window: "authorization_validity now st = Ok (validity (authorization (response_signed r)))"
    and names: "audience (authorization (response_signed r)) = config_audience (config st)"
      "signing_key_id (authorization (response_signed r)) = config_signing_key_id (config st)"
    and bytes: "auth_signing_bytes ext (authorization (response_signed r)) = Ok bs" "signature (response_signed r) = key_sign cr key bs"
    and rest: "response_input r = prepared_input prepared" "response_release r = prepared_release prepared"
    using run_authorization_parts [OF assms(2)] assms(3) by (metis option.inject)
  have "window_ok (validity (authorization (response_signed r)))"
    using bytes(1) by (auto simp: auth_signing_bytes_def result_simps auth_integrity_Ok)
  then have "validity_submission_time (validity (authorization (response_signed r))) t = Ok ()"
    using assms(4,5) authorization_validity_Ok [OF window] by (simp add: submission_window_Ok algebra_simps)
  moreover have "verify_signature_and_audience ext cr (keyring_insert ring (config_signing_key_id (config st)) key)
      (response_signed r) (config_audience (config st)) = Ok ()"
    using bytes sign_verifies [OF assms(1)] by (auto simp: signature_and_audience_Ok names keyring_inserted)
  moreover have "has_supported_contract_shape ext (prepared_contract prepared) (input_hz (response_input r))"
    using prepare_Ok [OF prepared] by (simp add: rest supported_shape)
  ultimately show ?thesis using prepare_Ok [OF prepared] by (simp add: verify_submission_def contract rest)
qed

section \<open>An authority without a catalog\<close>

definition sample_view :: "(unit, unit) racing_view" where
  "sample_view = \<lparr>view_components = (\<lambda>_. []), view_track_profile = (\<lambda>_. None), view_serialize = (\<lambda>_. Inr SUnit),
     view_capabilities = (\<lambda>_. None), view_circuit = (\<lambda>_ _. Ok 3), view_tuning = (\<lambda>_ _ tuning. Ok tuning)\<rparr>"

definition sample_state :: "unit AppState" where
  "sample_state = \<lparr>signing_key = Some (SigningKey [5]), policy_identity = sample_artifact ''policy'' 9,
     racing_model = sample_artifact ''model'' 1, racing_catalog = None,
     config = \<lparr>simulation_contract_ttl_secs = 60, late_submission_grace_secs = 5, allow_catalog_free = True,
       config_signing_key_id = Identifier ''key-1'', config_audience = Identifier ''verifier''\<rparr>\<rparr>"

definition sample_authorization_request :: "unit RacingRunAuthorizationRequestV1" where
  "sample_authorization_request = \<lparr>run_subject = Identifier ''player'', run_seed = Seed 7,
     run_input = \<lparr>input_race = sample_race, input_vehicle_id = Some ''v'', input_pit_strategy = None, input_era = 1,
       input_hz = 0x408F400000000000, input_initial_fuel_mass_kg = None, input_rest = ()\<rparr>,
     run_catalog_release = None, run_data_pack = Some (sample_artifact ''pack'' 2)\<rparr>"

lemma sample_prepared:
  "\<exists>p. prepare_racing_run weak_ext sample_view sample_state (Seed 7) (run_input sample_authorization_request) None
     (Some (sample_artifact ''pack'' 2)) ''racing.race'' = Ok p \<and> run_id weak_ext (prepared_contract p) = Ok (sample_digest 0) \<and>
     profile weak_ext (serialize_run_contract (prepared_contract p))"
proof -
  let ?hz = "0x408F400000000000 :: 64 word"
  let ?clock = "contract_clock race_contract"
  have guard: "\<not> (\<not> is_finite64 ?hz \<or> f64_le ?hz F64_ZERO \<or> f64_has_fract ?hz \<or> f64_lt F64_MILLION ?hz)"
    using race_clock unfolding expected_clock_def by (metis option.distinct(1))
  have clock: "clock_new 0 (1000000 div greatest_common_divisor 1000000 (f64_to_u64 ?hz))
      (f64_to_u64 ?hz div greatest_common_divisor 1000000 (f64_to_u64 ?hz)) = Ok ?clock"
    using race_clock guard by (simp add: expected_clock_def Let_def split: sum.splits)
  have "normalize_competitor (\<lambda>_ _ tuning. Ok tuning) sample_competitor 1 = Ok sample_competitor" by code_simp
  moreover have "trim ''monza'' \<noteq> []" by code_simp
  ultimately have race: "normalize_and_validate_race_input_with_policy (view_tuning sample_view) sample_race 1 = Ok sample_race"
    by (simp add: normalize_and_validate_race_input_with_policy_def sample_view_def sample_race_def)
  have "identifier_new ''racing.race'' = Ok (Identifier ''racing.race'')" by code_simp
  then have scenario: "static_scenario weak_ext ''racing.race'' =
      Ok \<lparr>scenario_id = Identifier ''racing.race'', scenario_version = SemanticVersion ''1.0.0''\<rparr>"
    by (simp add: static_scenario_def semantic_version_new_def weak_ext_def)
  have "safe_signed (clock_epoch ?clock)" "safe_unsigned (tick_numerator_us ?clock)" "safe_unsigned (tick_denominator ?clock)"
    by (simp_all add: race_contract_def safe_signed_def safe_unsigned_def)
  then have profile: "contract_clock c = ?clock \<Longrightarrow> profile weak_ext (serialize_run_contract c)" for c
    by (intro profile_contract) simp_all
  then have run: "contract_clock c = ?clock \<Longrightarrow> run_id weak_ext c = Ok (sample_digest 0)" for c
    by (simp add: run_id_def weak_digest)
  have era: "\<not> (1 :: 32 word) <s 0" by (simp add: word_sless_alt)
  have "validate_governed_component_selections sample_view c inp = Ok ()" for c inp
    by (simp add: validate_governed_component_selections_def sample_view_def)
  moreover have "resolve_data_pack weak_ext sample_state None (Some pack) = Ok (pack, None)" for pack
    by (simp add: resolve_data_pack_def sample_state_def)
  moreover have "view_serialize sample_view inp = Inr SUnit" for inp by (simp add: sample_view_def)
  moreover have "racing_catalog sample_state = None" by (simp add: sample_state_def)
  moreover have "input_race (run_input sample_authorization_request) = sample_race" "input_hz (run_input sample_authorization_request) = ?hz"
    "input_era (run_input sample_authorization_request) = 1"
    by (simp_all add: sample_authorization_request_def)
  ultimately obtain p where "prepare_racing_run weak_ext sample_view sample_state (Seed 7) (run_input sample_authorization_request)
      None (Some (sample_artifact ''pack'' 2)) ''racing.race'' = Ok p" "contract_clock (prepared_contract p) = ?clock"
    by (simp add: prepare_racing_run_def Let_def era guard [simplified] clock race scenario race_digests(3))
  with profile run show ?thesis by blast
qed

lemma sample_issued:
  "\<exists>r. build_signed_racing_run_authorization weak_ext sample_crypto sample_view 1000 [] sample_state sample_authorization_request = Ok r"
proof -
  obtain p where p: "prepare_racing_run weak_ext sample_view sample_state (Seed 7) (run_input sample_authorization_request) None
      (Some (sample_artifact ''pack'' 2)) ''racing.race'' = Ok p" "run_id weak_ext (prepared_contract p) = Ok (sample_digest 0)"
      "profile weak_ext (serialize_run_contract (prepared_contract p))"
    using sample_prepared by blast
  let ?w = "\<lparr>issued_at_ms = 1000, expires_at_ms = 61000, late_submission_grace_ms = 5000\<rparr> :: AuthorizationValidityV1"
  have w: "authorization_validity 1000 sample_state = Ok ?w"
    by (simp add: authorization_validity_def add_seconds_def milliseconds_def sample_state_def)
  let ?a = "\<lparr>authorization_version = RunAuthorizationVersionV1, nonce = sample_digest 0, subject = Identifier ''player'',
     audience = Identifier ''verifier'', auth_contract = prepared_contract p, auth_run_id = sample_digest 0,
     policy = sample_artifact ''policy'' 9, signing_key_id = Identifier ''key-1'', validity = ?w\<rparr>"
  have "profile weak_ext (serialize_validity ?w)"
    by (simp add: serialize_validity_def profile_struct safe_signed_def)
  then have "profile weak_ext (serialize_authorization ?a)"
    using p(3) by (simp add: serialize_authorization_def profile_struct serialize_defs)
  moreover have "auth_validate_integrity weak_ext ?a = Ok ()"
    using p(2) by (simp add: auth_integrity_Ok window_ok_def)
  ultimately obtain bs where "auth_signing_bytes weak_ext ?a = Ok bs"
    by (simp add: auth_signing_bytes_def canonical_json_bytes_def validate_serializable_Ok(1) [THEN iffD2])
  moreover have "from_bytes weak_ext [] = sample_digest 0" by (simp add: from_bytes_def sample_digest_def)
  ultimately show ?thesis
    using p(1,2) w
    by (simp add: build_signed_racing_run_authorization_def sample_authorization_request_def Let_def)
       (simp add: sample_state_def)
qed

theorem issued_run_admitted_witness:
  "\<exists>r. build_signed_racing_run_authorization weak_ext sample_crypto sample_view 1000 [] sample_state sample_authorization_request = Ok r \<and>
     verify_submission weak_ext sample_crypto (keyring_insert keyring_new (Identifier ''key-1'') (SigningKey [5]))
       (response_signed r) (Identifier ''verifier'') 66000 = Ok ()"
proof -
  obtain r where r: "build_signed_racing_run_authorization weak_ext sample_crypto sample_view 1000 [] sample_state
      sample_authorization_request = Ok r"
    using sample_issued by blast
  have "hex_roundtrip sample_crypto" by (simp add: hex_roundtrip_def sample_crypto_def)
  from issued_run_admitted [OF this r, of "SigningKey [5]" 66000 keyring_new] r
  show ?thesis by (simp add: sample_state_def)
qed

text \<open>The same for an attempt, whose decision envelope the issued attempt names and which passes every check of the envelope
  against the instruction profile of the catalog; its competitors are those of the race.\<close>

lemma issued_attempt_admitted:
  assumes "hex_roundtrip cr" "build_signed_racing_run_attempt_authorization ext cr V now nonce_bytes st req = Ok r"
    "signing_key st = Some key" "sint now \<le> sint t"
    "sint t \<le> sint now + 1000 * int (unat (simulation_contract_ttl_secs (config st)))"
  obtains catalog prof prof_identity where "racing_catalog st = Some catalog" "driver_instruction_profile catalog = Some prof"
    "driver_instruction_profile_identity catalog = Some prof_identity"
    "verify_attempt_execution ext cr (keyring_insert ring (config_signing_key_id (config st)) key) (issued_signed r)
       (config_audience (config st)) t = Ok ()"
    "validate_attempt_authorization ext (issued_envelope r) (attempt_authorization (issued_signed r)) prof_identity prof = Ok ()"
    "has_supported_dynamic_contract_shape ext (initial_contract (attempt_authorization (issued_signed r))) (input_hz (issued_input r))"
    "mset (envelope_competitors (issued_envelope r)) = mset (map competitor_spec_id (race_competitors (input_race (issued_input r))))"
    "issued_release r = try_catalog_release req"
    "release_ok ext st (Some (issued_release r)) (initial_contract (attempt_authorization (issued_signed r)))"
proof -
  define a where "a = attempt_authorization (issued_signed r)"
  obtain prepared catalog prof prof_identity identity bs where
      prepared: "prepare_racing_run ext V st (try_seed req) (try_input req) (Some (try_catalog_release req)) None ''racing.dynamic-session'' = Ok prepared"
    and catalog: "racing_catalog st = Some catalog" "driver_instruction_profile catalog = Some prof"
      "driver_instruction_profile_identity catalog = Some prof_identity"
    and envelope: "envelope_validate (issued_envelope r) (prepared_contract prepared) prof_identity prof = Ok ()"
      "artifact_identity ext (issued_envelope r) = Ok identity"
    and a: "initial_contract a = prepared_contract prepared" "decision_envelope a = identity"
      "authorization_validity now st = Ok (attempt_validity a)" "attempt_audience a = config_audience (config st)"
      "attempt_signing_key_id a = config_signing_key_id (config st)"
    and bytes: "attempt_signing_bytes ext a = Ok bs" "attempt_signature (issued_signed r) = key_sign cr key bs"
    and rest: "issued_input r = prepared_input prepared" "prepared_release prepared = Some (issued_release r)"
      "envelope_competitors (issued_envelope r) = sort (map competitor_spec_id (race_competitors (input_race (prepared_input prepared))))"
    using assms(2,3) by (auto simp: build_signed_racing_run_attempt_authorization_def result_simps Let_def a_def)
  note facts = prepare_Ok [OF prepared]
  have integrity: "attempt_validate_integrity ext a = Ok ()" using bytes(1) by (auto simp: attempt_signing_bytes_def result_simps)
  then have "attempt_execution_time ext a t = Ok ()"
    using assms(4,5) authorization_validity_Ok [OF a(3)]
    by (auto simp: attempt_execution_time_def result_simps execution_window_Ok attempt_integrity_Ok)
  then have "verify_attempt_execution ext cr (keyring_insert ring (config_signing_key_id (config st)) key) (issued_signed r)
       (config_audience (config st)) t = Ok ()"
    using bytes sign_verifies [OF assms(1)] a(4,5)
    by (auto simp: verify_attempt_execution_def attempt_signature_and_audience_Ok keyring_inserted a_def result_simps)
  moreover have "validate_attempt_authorization ext (issued_envelope r) a prof_identity prof = Ok ()"
    using integrity envelope a(1,2) by (simp add: validate_attempt_authorization_def)
  ultimately show ?thesis
    using that [OF catalog] facts a(1) rest supported_dynamic_shape [of "prepared_contract prepared" "input_hz (try_input req)" ext]
    by (simp add: a_def)
qed

section \<open>Requests are always answered\<close>

lemma try_each_no_panic:
  "(\<And>x. x \<in> set xs \<Longrightarrow> f x \<noteq> Err e) \<Longrightarrow> try_each f xs \<noteq> Err e"
  by (induction xs) (auto simp: result_simps)

lemma static_names:
  assumes "ext_semver ext ''1.0.0'' = Some ''1.0.0''"
  shows "static_scenario ext ''racing.race'' \<noteq> Err e" "static_scenario ext ''racing.dynamic-session'' \<noteq> Err e"
proof -
  have "is_ok (identifier_new ''racing.race'')" "is_ok (identifier_new ''racing.dynamic-session'')" by code_simp+
  moreover have "semantic_version_new ext ''1.0.0'' = Ok (SemanticVersion ''1.0.0'')"
    using assms by (simp add: semantic_version_new_def)
  ultimately show "static_scenario ext ''racing.race'' \<noteq> Err e" "static_scenario ext ''racing.dynamic-session'' \<noteq> Err e"
    by (auto simp: static_scenario_def is_ok_iff)
qed

lemma components_no_panic: "validate_governed_component_selections V catalog inp \<noteq> Err Panicked"
proof -
  have "validate_governed_component_selection prof competitor s \<noteq> Err Panicked" for prof competitor s
    by (auto simp: validate_governed_component_selection_def intro!: try_each_no_panic split: option.splits if_splits)
  then show ?thesis
    by (auto simp: validate_governed_component_selections_def result_simps try_each_no_panic split: prod.splits)
qed

lemma prepare_no_panic:
  assumes "\<And>e. static_scenario ext name \<noteq> Err e"
  shows "prepare_racing_run ext V st seed inp release pack name \<noteq> Err Panicked"
proof -
  have "resolve_data_pack ext st release pack \<noteq> Err Panicked"
    by (auto simp: resolve_data_pack_def result_simps split: option.splits if_splits)
  then show ?thesis
    using assms components_no_panic
    by (auto simp: prepare_racing_run_def Let_def result_simps split: if_splits option.splits)
qed

lemma validity_no_panic: "authorization_validity now st \<noteq> Err Panicked"
  by (auto simp: authorization_validity_def add_seconds_def milliseconds_def result_simps split: if_splits)

lemma answered:
  assumes "r \<noteq> Err Panicked" "signing_key st = None \<Longrightarrow> r = Err key_unavailable"
  shows "\<exists>status body. (case r of Inr response \<Rightarrow> Some (200, Ok response) | Inl e \<Rightarrow> into_response e) = Some (status, body) \<and>
    (readyz st = 503 \<longrightarrow> status = 503) \<and> (status = 200 \<longleftrightarrow> is_ok r)"
proof (cases r)
  case (Inl e)
  then show ?thesis using assms by (cases e) (auto simp: into_response_def readyz_def key_unavailable_def)
next
  case (Inr response)
  then have "readyz st = 200" using assms(2) by (auto simp: readyz_def)
  with Inr show ?thesis by simp
qed

text \<open>No request makes the authority panic; an authority that reports itself as not ready refuses every request as
  unavailable, and one that is ready answers 200 exactly to the requests it signs.\<close>

theorem authority_answers:
  assumes "ext_semver ext ''1.0.0'' = Some ''1.0.0''"
  shows "\<exists>status body. create_racing_run_authorization ext cr V now nonce_bytes st req = Some (status, body) \<and>
      (readyz st = 503 \<longrightarrow> status = 503) \<and>
      (status = 200 \<longleftrightarrow> is_ok (build_signed_racing_run_authorization ext cr V now nonce_bytes st req))"
    "\<exists>status body. create_racing_run_attempt_authorization ext cr V now nonce_bytes st req' = Some (status, body) \<and>
      (readyz st = 503 \<longrightarrow> status = 503) \<and>
      (status = 200 \<longleftrightarrow> is_ok (build_signed_racing_run_attempt_authorization ext cr V now nonce_bytes st req'))"
  unfolding create_racing_run_authorization_def create_racing_run_attempt_authorization_def
proof (rule_tac [!] answered)
  show "build_signed_racing_run_authorization ext cr V now nonce_bytes st req \<noteq> Err Panicked"
    by (auto simp: build_signed_racing_run_authorization_def Let_def result_simps key_unavailable_def
        prepare_no_panic [OF static_names(1) [OF assms]] validity_no_panic)
  show "build_signed_racing_run_attempt_authorization ext cr V now nonce_bytes st req' \<noteq> Err Panicked"
    by (auto simp: build_signed_racing_run_attempt_authorization_def Let_def result_simps key_unavailable_def
        prepare_no_panic [OF static_names(2) [OF assms]] validity_no_panic resolved_segment_count_def
        dest: prepare_Ok(2) split: if_splits option.splits)
qed (simp_all add: build_signed_racing_run_authorization_def build_signed_racing_run_attempt_authorization_def)

end
