(* ===== verification/Tuning_Expr.thy ===== *)
theory Tuning_Expr
  imports Driver_Instructions Float_Arith
begin

unbundle bit_operations_syntax

text \<open>
  \<open>crates/pitgun-policy/src/tuning/v1/expr.rs\<close>: the expression language of tuning policies, with its tokenizer, its recursive
  descent parser, its static checks and its evaluator.

  Text is its UTF-8 bytes: a quote, a backslash and every other ASCII character is one byte, and no other byte of a character
  is ASCII, so that the loops over characters are loops over bytes; white space is taken as whole characters. The position of
  the parser is the list of the tokens that are left. The fuel of the parser bounds the nesting of
  expressions and the rounds of each loop; that of \<open>parse_expression\<close> is enough for every input (\<open>parse_enough_fuel\<close>). Messages are the values of the two error types.
\<close>

section \<open>Expressions and tokens\<close>

datatype VarPath = Parameter "string list" | Ident string

datatype BinOp = OpAdd | OpSub | OpGt | OpGe | OpLt | OpLe | OpEq | OpNe | OpAnd | OpOr

datatype UnOp = OpNot | OpNeg

datatype Expr =
    ENumber "64 word"
  | EString string
  | EVar VarPath
  | EUnary UnOp Expr
  | EBinary BinOp Expr Expr
  | EIfThen Expr Expr
  | ECall string "Expr list"

datatype Token =
    TIdent string | TNumber "64 word" | TStr string | TLParen | TRParen | TDot | TComma | TPlus | TMinus
  | TGt | TGe | TLt | TLe | TEq | TNe | TAnd | TOr | TNot | TIf | TThen

datatype parse_error =
    InvalidNumber string | NumberNotFinite string | UnterminatedString | ExpectedEquals char | UnexpectedCharacter string
  | TrailingTokens | ExpectedThen | ExpectedParen | ExpectedPath | ExpectedIdentifier "Token option" | UnexpectedToken "Token option"
  | OutOfFuel

section \<open>The tokenizer\<close>

definition ident_char :: "char \<Rightarrow> bool" where
  "ident_char c \<longleftrightarrow> is_ascii_alphanumeric c \<or> c = CHR ''_''"

fun scan_number :: "bool \<Rightarrow> string \<Rightarrow> string \<times> string" where
  "scan_number seen_dot [] = ([], [])"
| "scan_number seen_dot (c # cs) =
     (if is_ascii_digit c then (let (number, rest) = scan_number seen_dot cs in (c # number, rest))
      else if c = CHR ''.'' \<and> \<not> seen_dot then (let (number, rest) = scan_number True cs in (c # number, rest))
      else ([], c # cs))"

text \<open>The characters of a string literal up to its closing quote, and the text after it.\<close>

fun scan_string :: "string \<Rightarrow> (string \<times> string) option" where
  "scan_string [] = None"
| "scan_string (c # cs) =
     (if c = CHR 0x27 then Some ([], cs)
      else if c = CHR 0x5C then (case cs of [] \<Rightarrow> None | e # cs' \<Rightarrow> map_option (\<lambda>(v, rest). (e # v, rest)) (scan_string cs'))
      else map_option (\<lambda>(v, rest). (c # v, rest)) (scan_string cs))"

definition keyword :: "string \<Rightarrow> Token" where
  "keyword ident =
     (if ident = ''and'' then TAnd else if ident = ''or'' then TOr else if ident = ''not'' then TNot
      else if ident = ''if'' then TIf else if ident = ''then'' then TThen else TIdent ident)"

definition punctuation :: "(char \<times> Token) list" where
  "punctuation = [(CHR ''('', TLParen), (CHR '')'', TRParen), (CHR ''.'', TDot), (CHR '','', TComma), (CHR ''+'', TPlus),
     (CHR ''-'', TMinus)]"

text \<open>The branches on the characters \<open>>\<close>, \<open><\<close>, \<open>=\<close> and \<open>!\<close>, with and without an equals sign after them.\<close>

definition comparison_token :: "char \<Rightarrow> bool \<Rightarrow> parse_error + Token" where
  "comparison_token c equals =
     (if c = CHR ''>'' then Ok (if equals then TGe else TGt)
      else if c = CHR ''<'' then Ok (if equals then TLe else TLt)
      else if equals then Ok (if c = CHR ''='' then TEq else TNe)
      else Err (ExpectedEquals c))"

text \<open>The token that starts with the character \<open>c\<close>, which is not white space.\<close>

definition lex_token :: "char \<Rightarrow> string \<Rightarrow> parse_error + Token \<times> string" where
  "lex_token c cs =
     (if is_ascii_digit c \<or> (c = CHR ''.'' \<and> (case cs of [] \<Rightarrow> False | d # _ \<Rightarrow> is_ascii_digit d)) then
        let (number, rest) = scan_number False (c # cs) in
        and_then (ok_or (parse_f64 number) (InvalidNumber number)) (\<lambda>v.
        if \<not> is_finite64 v then Err (NumberNotFinite number) else Ok (TNumber v, rest))
      else if is_ascii_alphabetic c \<or> c = CHR ''_'' then
        Ok (keyword (takeWhile ident_char (c # cs)), dropWhile ident_char (c # cs))
      else if c = CHR 0x27 then
        (case scan_string cs of None \<Rightarrow> Err UnterminatedString | Some (v, rest) \<Rightarrow> Ok (TStr v, rest))
      else (case map_of punctuation c of
          Some t \<Rightarrow> Ok (t, cs)
        | None \<Rightarrow>
            if c \<in> set ''><=!'' then
              let equals = (cs \<noteq> [] \<and> hd cs = CHR ''='') in
              map_ok (\<lambda>t. (t, if equals then tl cs else cs)) (comparison_token c equals)
            else Err (UnexpectedCharacter (c # cs))))"

text \<open>One round of the loop of \<open>tokenize\<close>, on text that is not empty: white space, or one token.\<close>

definition next_token :: "string \<Rightarrow> parse_error + Token option \<times> string" where
  "next_token s =
     (case find (\<lambda>w. w \<noteq> [] \<and> prefix w s) white_space of
        Some w \<Rightarrow> Ok (None, drop (length w) s)
      | None \<Rightarrow> (case s of [] \<Rightarrow> Ok (None, []) | c # cs \<Rightarrow> map_ok (\<lambda>(t, rest). (Some t, rest)) (lex_token c cs)))"

lemma scan_number_length: "length (snd (scan_number seen s)) \<le> length s"
  by (induction seen s rule: scan_number.induct) (auto simp: Let_def split: prod.splits)

lemma scan_number_progress:
  "is_ascii_digit c \<or> c = CHR ''.'' \<Longrightarrow> length (snd (scan_number False (c # cs))) < Suc (length cs)"
  using scan_number_length [of False cs] scan_number_length [of True cs]
  by (auto simp: Let_def less_Suc_eq_le split: prod.splits)

lemma scan_string_length: "scan_string s = Some (v, rest) \<Longrightarrow> length rest < length s"
proof (induction s arbitrary: v rest rule: scan_string.induct)
  case (2 c cs)
  then show ?case by (force split: if_splits list.splits)
qed simp

lemma ident_progress:
  "is_ascii_alphabetic c \<or> c = CHR ''_'' \<Longrightarrow> length (dropWhile ident_char (c # cs)) < Suc (length cs)"
  by (auto simp: ident_char_def is_ascii_alphanumeric_def length_dropWhile_le less_Suc_eq_le)

lemma lex_token_progress:
  assumes "lex_token c cs = Ok (t, rest)"
  shows "length rest \<le> length cs"
proof -
  consider (number) "is_ascii_digit c \<or> (c = CHR ''.'' \<and> (case cs of [] \<Rightarrow> False | d # _ \<Rightarrow> is_ascii_digit d))"
    | (ident) "\<not> (is_ascii_digit c \<or> (c = CHR ''.'' \<and> (case cs of [] \<Rightarrow> False | d # _ \<Rightarrow> is_ascii_digit d)))"
        "is_ascii_alphabetic c \<or> c = CHR ''_''"
    | (other) "\<not> (is_ascii_digit c \<or> (c = CHR ''.'' \<and> (case cs of [] \<Rightarrow> False | d # _ \<Rightarrow> is_ascii_digit d)))"
        "\<not> (is_ascii_alphabetic c \<or> c = CHR ''_'')"
    by blast
  then show ?thesis
  proof cases
    case number
    obtain v r where r: "scan_number False (c # cs) = (v, r)" by fastforce
    have "rest = r"
      using assms unfolding lex_token_def if_P [OF number] r by (auto simp: result_simps split: if_splits)
    then show ?thesis using scan_number_progress [of c cs] number r by (auto simp: less_Suc_eq_le simp del: scan_number.simps)
  next
    case ident
    have "rest = dropWhile ident_char (c # cs)"
      using assms unfolding lex_token_def if_not_P [OF ident(1)] if_P [OF ident(2)] by simp
    then show ?thesis using ident_progress [OF ident(2), of cs] by simp
  next
    case other
    show ?thesis
      using assms scan_string_length [of cs] unfolding lex_token_def if_not_P [OF other(1)] if_not_P [OF other(2)]
      by (fastforce simp: result_simps Let_def split: option.splits if_splits)
  qed
qed

lemma next_token_progress:
  assumes "next_token s = Ok (t, rest)" "s \<noteq> []"
  shows "length rest < length s"
proof (cases "find (\<lambda>w. w \<noteq> [] \<and> prefix w s) white_space")
  case (Some w)
  then have "w \<noteq> []" by (auto simp: find_Some_iff)
  moreover have "rest = drop (length w) s" using assms(1) Some by (simp add: next_token_def)
  ultimately show ?thesis using assms(2) by (cases w) auto
next
  case None
  obtain c cs where s: "s = c # cs" using assms(2) by (cases s) auto
  have "map_ok (\<lambda>(t, rest). (Some t, rest)) (lex_token c cs) = Ok (t, rest)"
    using assms(1) None unfolding next_token_def by (simp add: s)
  then show ?thesis by (auto simp: s map_ok_Ok less_Suc_eq_le dest: lex_token_progress)
qed

function tokenize :: "string \<Rightarrow> parse_error + Token list" where
  "tokenize s =
     (if s = [] then Ok []
      else case next_token s of
          Inl e \<Rightarrow> Err e
        | Inr found \<Rightarrow> map_ok (\<lambda>ts. case fst found of None \<Rightarrow> ts | Some t \<Rightarrow> t # ts) (tokenize (snd found)))"
  by pat_completeness auto
termination
  by (relation "measure length") (use next_token_progress in \<open>auto intro: prod.exhaust\<close>)

declare tokenize.simps [simp del]

section \<open>The parser\<close>

definition consume :: "Token \<Rightarrow> Token list \<Rightarrow> Token list option" where
  "consume expected ts = (case ts of [] \<Rightarrow> None | t # rest \<Rightarrow> if t = expected then Some rest else None)"

definition comparison_op :: "Token list \<Rightarrow> (BinOp \<times> Token list) option" where
  "comparison_op ts =
     (case ts of
        [] \<Rightarrow> None
      | t # rest \<Rightarrow> map_option (\<lambda>op. (op, rest))
          (map_of [(TGt, OpGt), (TGe, OpGe), (TLt, OpLt), (TLe, OpLe), (TEq, OpEq), (TNe, OpNe)] t))"

definition additive_op :: "Token list \<Rightarrow> (BinOp \<times> Token list) option" where
  "additive_op ts =
     (case consume TPlus ts of
        Some rest \<Rightarrow> Some (OpAdd, rest)
      | None \<Rightarrow> map_option (\<lambda>rest. (OpSub, rest)) (consume TMinus ts))"

definition unary_op :: "Token list \<Rightarrow> (UnOp \<times> Token list) option" where
  "unary_op ts =
     (case consume TNot ts of
        Some rest \<Rightarrow> Some (OpNot, rest)
      | None \<Rightarrow> map_option (\<lambda>rest. (OpNeg, rest)) (consume TMinus ts))"

lemma consume_Some [simp]: "consume t ts = Some rest \<longleftrightarrow> ts = t # rest"
  by (auto simp: consume_def split: list.splits)

lemma consume_simps [simp]: "consume t [] = None" "consume t (t' # ts) = (if t' = t then Some ts else None)"
  by (simp_all add: consume_def)

lemma op_length:
  "comparison_op ts = Some (op, rest) \<Longrightarrow> length ts = Suc (length rest)"
  "additive_op ts = Some (op, rest) \<Longrightarrow> length ts = Suc (length rest)"
  "unary_op ts = Some (un, rest) \<Longrightarrow> length ts = Suc (length rest)"
  by (auto simp: comparison_op_def additive_op_def unary_op_def split: list.splits option.splits)

text \<open>The segments of a parameter path, after its first dot.\<close>

function parse_path :: "Token list \<Rightarrow> parse_error + string list \<times> Token list" where
  "parse_path ts =
     (case ts of
        TIdent segment # rest \<Rightarrow>
          (case consume TDot rest of
             None \<Rightarrow> Ok ([segment], rest)
           | Some rest' \<Rightarrow> map_ok (\<lambda>(segments, left). (segment # segments, left)) (parse_path rest'))
      | [] \<Rightarrow> Err (ExpectedIdentifier None)
      | t # _ \<Rightarrow> Err (ExpectedIdentifier (Some t)))"
  by pat_completeness auto
termination
  by (relation "measure length") (auto simp: consume_def split: list.splits if_splits)

declare parse_path.simps [simp del]

text \<open>The functions of the parser call \<open>parse_expr\<close>, the argument \<open>p\<close>, for what is inside parentheses. The loops of
  \<open>parse_or\<close>, \<open>parse_and\<close> and \<open>parse_additive\<close> differ in their operators and operands alone.\<close>

type_synonym parser = "Token list \<Rightarrow> parse_error + Expr \<times> Token list"

fun parse_args :: "parser \<Rightarrow> nat \<Rightarrow> Token list \<Rightarrow> parse_error + Expr list \<times> Token list" where
  "parse_args p 0 ts = Err OutOfFuel"
| "parse_args p (Suc n) ts =
     and_then (p ts) (\<lambda>(arg, ts).
     case consume TComma ts of
       None \<Rightarrow> Ok ([arg], ts)
     | Some ts \<Rightarrow> map_ok (\<lambda>(args, ts). (arg # args, ts)) (parse_args p n ts))"

definition parse_call :: "parser \<Rightarrow> nat \<Rightarrow> string \<Rightarrow> parser" where
  "parse_call p n name ts =
     and_then (if consume TRParen ts \<noteq> None then Ok ([], ts) else parse_args p n ts) (\<lambda>(args, ts).
     and_then (ok_or (consume TRParen ts) ExpectedParen) (\<lambda>ts. Ok (ECall name args, ts)))"

definition parse_primary :: "parser \<Rightarrow> nat \<Rightarrow> parser" where
  "parse_primary p n ts =
     (case ts of
        [] \<Rightarrow> Err (UnexpectedToken None)
      | t # ts \<Rightarrow>
        (case t of
           TNumber v \<Rightarrow> Ok (ENumber v, ts)
         | TStr v \<Rightarrow> Ok (EString v, ts)
         | TIdent name \<Rightarrow>
             (case consume TLParen ts of
                Some ts \<Rightarrow> parse_call p n name ts
              | None \<Rightarrow>
                  if name = ''parameters'' then
                    and_then (ok_or (consume TDot ts) ExpectedPath) (\<lambda>ts.
                    map_ok (\<lambda>(segments, ts). (EVar (Parameter segments), ts)) (parse_path ts))
                  else Ok (EVar (Ident name), ts))
         | TLParen \<Rightarrow>
             and_then (p ts) (\<lambda>(e, ts).
             and_then (ok_or (consume TRParen ts) ExpectedParen) (\<lambda>ts. Ok (e, ts)))
         | _ \<Rightarrow> Err (UnexpectedToken (Some t))))"

function parse_unary :: "parser \<Rightarrow> nat \<Rightarrow> parser" where
  "parse_unary p n ts =
     (case unary_op ts of
        None \<Rightarrow> parse_primary p n ts
      | Some found \<Rightarrow> map_ok (\<lambda>(e, ts). (EUnary (fst found) e, ts)) (parse_unary p n (snd found)))"
  by pat_completeness auto
termination
  by (relation "measure (\<lambda>(p, n, ts). length ts)") (use op_length(3) in \<open>auto intro: prod.exhaust\<close>)

declare parse_unary.simps [simp del]

fun left_loop :: "(Token list \<Rightarrow> (BinOp \<times> Token list) option) \<Rightarrow> parser \<Rightarrow> nat \<Rightarrow> Expr \<Rightarrow> parser" where
  "left_loop operator operand 0 e ts = Err OutOfFuel"
| "left_loop operator operand (Suc n) e ts =
     (case operator ts of
        None \<Rightarrow> Ok (e, ts)
      | Some (op, ts) \<Rightarrow> and_then (operand ts) (\<lambda>(right, ts). left_loop operator operand n (EBinary op e right) ts))"

definition left_chain :: "(Token list \<Rightarrow> (BinOp \<times> Token list) option) \<Rightarrow> parser \<Rightarrow> nat \<Rightarrow> parser" where
  "left_chain operator operand n ts = and_then (operand ts) (\<lambda>(e, ts). left_loop operator operand n e ts)"

definition parse_additive :: "parser \<Rightarrow> nat \<Rightarrow> parser" where
  "parse_additive p n = left_chain additive_op (parse_unary p n) n"

definition parse_comparison :: "parser \<Rightarrow> nat \<Rightarrow> parser" where
  "parse_comparison p n ts =
     and_then (parse_additive p n ts) (\<lambda>(left, ts).
     case comparison_op ts of
       None \<Rightarrow> Ok (left, ts)
     | Some (op, ts) \<Rightarrow> map_ok (\<lambda>(right, ts). (EBinary op left right, ts)) (parse_additive p n ts))"

definition and_op :: "Token list \<Rightarrow> (BinOp \<times> Token list) option" where
  "and_op ts = map_option (\<lambda>rest. (OpAnd, rest)) (consume TAnd ts)"

definition or_op :: "Token list \<Rightarrow> (BinOp \<times> Token list) option" where
  "or_op ts = map_option (\<lambda>rest. (OpOr, rest)) (consume TOr ts)"

definition parse_and :: "parser \<Rightarrow> nat \<Rightarrow> parser" where
  "parse_and p n = left_chain and_op (parse_comparison p n) n"

definition parse_or :: "parser \<Rightarrow> nat \<Rightarrow> parser" where
  "parse_or p n = left_chain or_op (parse_and p n) n"

definition parse_if_then :: "parser \<Rightarrow> nat \<Rightarrow> parser" where
  "parse_if_then p n ts =
     (case consume TIf ts of
        None \<Rightarrow> parse_or p n ts
      | Some ts \<Rightarrow>
          and_then (parse_or p n ts) (\<lambda>(cond, ts).
          and_then (ok_or (consume TThen ts) ExpectedThen) (\<lambda>ts.
          map_ok (\<lambda>(then_expr, ts). (EIfThen cond then_expr, ts)) (parse_or p n ts))))"

fun parse_expr :: "nat \<Rightarrow> parser" where
  "parse_expr 0 ts = Err OutOfFuel"
| "parse_expr (Suc n) ts = parse_if_then (parse_expr n) n ts"

definition parse_tokens :: "Token list \<Rightarrow> parse_error + Expr" where
  "parse_tokens ts =
     and_then (parse_expr (Suc (length ts)) ts) (\<lambda>(e, rest). if rest \<noteq> [] then Err TrailingTokens else Ok e)"

definition parse_expression :: "string \<Rightarrow> parse_error + Expr" where
  "parse_expression s = and_then (tokenize s) parse_tokens"

section \<open>Static checks\<close>

datatype ExprMode = Unlock | Constraint

datatype validation_error =
    ParameterInUnlock | PathTooShort | UnknownReference "string list" | UndefinedIdentifier string | ArgumentCount string
  | AbsInUnlock | UndefinedFunction string

fun join_dots :: "string list \<Rightarrow> string" where
  "join_dots [] = []"
| "join_dots [s] = s"
| "join_dots (s # t # ss) = s @ ''.'' @ join_dots (t # ss)"

definition known_identifier :: "string \<Rightarrow> bool" where
  "known_identifier name \<longleftrightarrow> name = ''era'' \<or> suffix ''_lvl'' name"

fun validate_expression :: "Expr \<Rightarrow> ExprMode \<Rightarrow> string set \<Rightarrow> validation_error + unit" where
  "validate_expression (ENumber v) mode param_paths = Ok ()"
| "validate_expression (EString v) mode param_paths = Ok ()"
| "validate_expression (EVar path) mode param_paths =
     (case path of
        Parameter segments \<Rightarrow>
          if mode = Unlock then Err ParameterInUnlock
          else if length segments < 2 then Err PathTooShort
          else if ''parameters.'' @ join_dots segments \<notin> param_paths then Err (UnknownReference segments)
          else Ok ()
      | Ident name \<Rightarrow> if known_identifier name then Ok () else Err (UndefinedIdentifier name))"
| "validate_expression (EUnary op e) mode param_paths = validate_expression e mode param_paths"
| "validate_expression (EBinary op l r) mode param_paths =
     and_also (validate_expression l mode param_paths) (validate_expression r mode param_paths)"
| "validate_expression (EIfThen cond e) mode param_paths =
     and_also (validate_expression cond mode param_paths) (validate_expression e mode param_paths)"
| "validate_expression (ECall name args) mode param_paths =
     (if name = ''has_upgrade'' then
        (case args of [arg] \<Rightarrow> validate_expression arg mode param_paths | _ \<Rightarrow> Err (ArgumentCount name))
      else if name = ''abs'' then
        (if mode = Unlock then Err AbsInUnlock
         else case args of [arg] \<Rightarrow> validate_expression arg mode param_paths | _ \<Rightarrow> Err (ArgumentCount name))
      else Err (UndefinedFunction name))"

section \<open>Evaluation\<close>

datatype expr_value = VNumber "64 word" | VString string | VBool bool

record EvalContext =
  ctx_era :: u32
  ctx_category_levels :: "string \<Rightarrow> i64 option"
  ctx_owned_upgrades :: "string set"
  ctx_parameters :: "json option"

datatype eval_error =
    NotBoolean | NotExpectsBoolean | NegExpectsNumber | ArithmeticExpectsNumbers | ComparisonExpectsNumbers
  | EqualityExpectsMatchingTypes | UpgradeExpectsString | AbsExpectsNumber | ParameterNotScalar
  | ParametersUnavailable | UnknownParameter "string list" | UnknownIdentifier string | WrongArgumentCount string | UnknownFunction string

definition number_as_f64 :: "json_number \<Rightarrow> 64 word" where
  "number_as_f64 n = (case n of PosInt v \<Rightarrow> f64_from_int (uint v) | NegInt v \<Rightarrow> f64_from_int (sint v) | Float v \<Rightarrow> v)"

definition json_get :: "json \<Rightarrow> string \<Rightarrow> json option" where
  "json_get v key = (case v of JObject members \<Rightarrow> map_of members key | _ \<Rightarrow> None)"

fun json_walk :: "json \<Rightarrow> string list \<Rightarrow> json option" where
  "json_walk v [] = Some v"
| "json_walk v (segment # segments) = Option.bind (json_get v segment) (\<lambda>w. json_walk w segments)"

definition resolve_parameter :: "json \<Rightarrow> string list \<Rightarrow> eval_error + expr_value" where
  "resolve_parameter params segments =
     and_then (ok_or (json_walk params segments) (UnknownParameter segments)) (\<lambda>v.
     case v of
       JNumber n \<Rightarrow> Ok (VNumber (number_as_f64 n))
     | JString s \<Rightarrow> Ok (VString s)
     | _ \<Rightarrow> Err ParameterNotScalar)"

definition as_bool :: "expr_value \<Rightarrow> eval_error + bool" where
  "as_bool v = (case v of VBool b \<Rightarrow> Ok b | _ \<Rightarrow> Err NotBoolean)"

definition as_number :: "eval_error \<Rightarrow> expr_value \<Rightarrow> eval_error + 64 word" where
  "as_number e v = (case v of VNumber x \<Rightarrow> Ok x | _ \<Rightarrow> Err e)"

definition eval_unary :: "UnOp \<Rightarrow> expr_value \<Rightarrow> eval_error + expr_value" where
  "eval_unary op v =
     (case op of
        OpNot \<Rightarrow> (case v of VBool b \<Rightarrow> Ok (VBool (\<not> b)) | _ \<Rightarrow> Err NotExpectsBoolean)
      | OpNeg \<Rightarrow> (case v of VNumber x \<Rightarrow> Ok (VNumber (x XOR 0x8000000000000000)) | _ \<Rightarrow> Err NegExpectsNumber))"

definition equal_values :: "expr_value \<Rightarrow> expr_value \<Rightarrow> eval_error + bool" where
  "equal_values a b =
     (case (a, b) of
        (VNumber x, VNumber y) \<Rightarrow> Ok (f64_eq x y)
      | (VString x, VString y) \<Rightarrow> Ok (x = y)
      | (VBool x, VBool y) \<Rightarrow> Ok (x = y)
      | _ \<Rightarrow> Err EqualityExpectsMatchingTypes)"

text \<open>The operators that evaluate both of their operands.\<close>

definition strict_binary :: "BinOp \<Rightarrow> expr_value \<Rightarrow> expr_value \<Rightarrow> eval_error + expr_value" where
  "strict_binary op a b =
     (if op \<in> {OpAdd, OpSub} then
        and_then (as_number ArithmeticExpectsNumbers a) (\<lambda>x.
        and_then (as_number ArithmeticExpectsNumbers b) (\<lambda>y.
        Ok (VNumber (if op = OpAdd then f64_add x y else f64_sub x y))))
      else if op \<in> {OpEq, OpNe} then
        map_ok (\<lambda>same. VBool (if op = OpNe then \<not> same else same)) (equal_values a b)
      else
        and_then (as_number ComparisonExpectsNumbers a) (\<lambda>x.
        and_then (as_number ComparisonExpectsNumbers b) (\<lambda>y.
        Ok (VBool (if op = OpGt then f64_lt y x else if op = OpGe then f64_le y x
          else if op = OpLt then f64_lt x y else f64_le x y)))))"

fun eval :: "EvalContext \<Rightarrow> Expr \<Rightarrow> eval_error + expr_value" where
  "eval ctx (ENumber v) = Ok (VNumber v)"
| "eval ctx (EString v) = Ok (VString v)"
| "eval ctx (EVar path) =
     (case path of
        Parameter segments \<Rightarrow>
          and_then (ok_or (ctx_parameters ctx) ParametersUnavailable) (\<lambda>params. resolve_parameter params segments)
      | Ident name \<Rightarrow>
          if name = ''era'' then Ok (VNumber (f64_from_int (uint (ctx_era ctx))))
          else if suffix ''_lvl'' name then
            Ok (VNumber (f64_from_int (sint (case ctx_category_levels ctx name of None \<Rightarrow> 0 | Some level \<Rightarrow> level))))
          else Err (UnknownIdentifier name))"
| "eval ctx (EUnary op e) = and_then (eval ctx e) (eval_unary op)"
| "eval ctx (EBinary op l r) =
     (if op = OpAnd then
        and_then (and_then (eval ctx l) as_bool) (\<lambda>left.
        if \<not> left then Ok (VBool False) else map_ok VBool (and_then (eval ctx r) as_bool))
      else if op = OpOr then
        and_then (and_then (eval ctx l) as_bool) (\<lambda>left.
        if left then Ok (VBool True) else map_ok VBool (and_then (eval ctx r) as_bool))
      else and_then (eval ctx l) (\<lambda>a. and_then (eval ctx r) (\<lambda>b. strict_binary op a b)))"
| "eval ctx (EIfThen cond e) =
     and_then (and_then (eval ctx cond) as_bool) (\<lambda>holds.
     if \<not> holds then Ok (VBool True) else map_ok VBool (and_then (eval ctx e) as_bool))"
| "eval ctx (ECall name args) =
     (if name = ''has_upgrade'' then
        (case args of
           [arg] \<Rightarrow> and_then (eval ctx arg) (\<lambda>v.
             case v of VString upgrade \<Rightarrow> Ok (VBool (upgrade \<in> ctx_owned_upgrades ctx)) | _ \<Rightarrow> Err UpgradeExpectsString)
         | _ \<Rightarrow> Err (WrongArgumentCount name))
      else if name = ''abs'' then
        (case args of
           [arg] \<Rightarrow> and_then (eval ctx arg) (\<lambda>v. map_ok (\<lambda>x. VNumber (f64_abs x)) (as_number AbsExpectsNumber v))
         | _ \<Rightarrow> Err (WrongArgumentCount name))
      else Err (UnknownFunction name))"

definition eval_bool :: "Expr \<Rightarrow> EvalContext \<Rightarrow> eval_error + bool" where
  "eval_bool e ctx = and_then (eval ctx e) as_bool"

section \<open>Every input is parsed with the fuel it gets\<close>

text \<open>A result that is not a lack of fuel and, where it succeeds, leaves fewer than \<open>m\<close> tokens.\<close>

definition progress :: "nat \<Rightarrow> parse_error + 'a \<times> Token list \<Rightarrow> bool" where
  "progress m r \<longleftrightarrow> r \<noteq> Err OutOfFuel \<and> (\<forall>x rest. r = Ok (x, rest) \<longrightarrow> length rest < m)"

definition fed :: "nat \<Rightarrow> parser \<Rightarrow> bool" where
  "fed k q \<longleftrightarrow> (\<forall>ts. length ts < k \<longrightarrow> progress (length ts) (q ts))"

lemma progress_simps [simp]:
  "progress m (Ok (x, rest)) \<longleftrightarrow> length rest < m" "progress m (Err e) \<longleftrightarrow> e \<noteq> OutOfFuel"
  by (auto simp: progress_def)

lemma progress_then:
  assumes "progress m r" "\<And>x rest. length rest < m \<Longrightarrow> progress m' (f (x, rest))"
  shows "progress m' (and_then r f)"
  using assms by (cases r) (auto simp: progress_def)

lemma progress_map:
  assumes "progress m r" "\<And>x rest. snd (f (x, rest)) = rest"
  shows "progress m (map_ok f r)"
  using assms by (cases r) (auto simp: progress_def, metis snd_conv)

lemma progress_mono: "progress m r \<Longrightarrow> m \<le> m' \<Longrightarrow> progress m' r"
  by (auto simp: progress_def)

lemma progress_consume:
  assumes "e \<noteq> OutOfFuel" "\<And>rest. ts = t # rest \<Longrightarrow> progress m (f rest)"
  shows "progress m (and_then (ok_or (consume t ts) e) f)"
  using assms by (cases "consume t ts") auto

lemma fedD: "fed k q \<Longrightarrow> length ts < k \<Longrightarrow> length ts \<le> m \<Longrightarrow> progress m (q ts)"
  unfolding fed_def by (blast intro: progress_mono)

lemma path_progress: "progress (length ts) (parse_path ts)"
proof (induction ts rule: parse_path.induct)
  case (1 ts)
  show ?case
  proof (cases ts)
    case (Cons t rest)
    show ?thesis
    proof (cases t)
      case (TIdent segment)
      show ?thesis
      proof (cases "consume TDot rest")
        case (Some left)
        then have "progress (length left) (parse_path left)" using 1 Cons TIdent by auto
        moreover have "length left \<le> length ts" using Some Cons by simp
        ultimately have "progress (length ts) (parse_path left)" by (rule progress_mono)
        then show ?thesis
          by (subst parse_path.simps) (use Some in \<open>auto simp: Cons TIdent intro: progress_map\<close>)
      qed (subst parse_path.simps, simp add: Cons TIdent)
    qed (subst parse_path.simps, simp add: Cons)+
  qed (subst parse_path.simps, simp)
qed

lemma args_progress:
  assumes "fed k p" "length ts < k" "length ts < n"
  shows "progress (length ts) (parse_args p n ts)"
  using assms(2,3)
proof (induction n arbitrary: ts)
  case (Suc n)
  show ?case
    unfolding parse_args.simps
  proof (rule progress_then [OF fedD [OF assms(1) Suc.prems(1) order_refl]])
    fix arg and us :: "Token list"
    assume us: "length us < length ts"
    have "progress (length ts) (parse_args p n left)" if "us = TComma # left" for left
      by (rule progress_mono [OF Suc.IH]) (use that us Suc.prems in auto)
    then show "progress (length ts) (case (arg, us) of (arg, ts) \<Rightarrow>
        (case consume TComma ts of None \<Rightarrow> Ok ([arg], ts)
         | Some ts \<Rightarrow> map_ok (\<lambda>(args, ts). (arg # args, ts)) (parse_args p n ts)))"
      using us by (auto split: option.split intro: progress_map)
  qed
qed simp

lemma call_progress:
  assumes "fed n p" "length ts < n"
  shows "progress (length ts) (parse_call p n name ts)"
proof -
  have "progress (Suc (length ts)) (if consume TRParen ts \<noteq> None then Ok ([], ts) else parse_args p n ts)"
    using progress_mono [OF args_progress [OF assms assms(2)]] by simp
  then show ?thesis unfolding parse_call_def by (rule progress_then) (auto intro!: progress_consume)
qed

lemma primary_fed:
  assumes "fed n p"
  shows "fed (Suc n) (parse_primary p n)"
  unfolding fed_def
proof (intro allI impI)
  fix ts :: "Token list"
  assume len: "length ts < Suc n"
  show "progress (length ts) (parse_primary p n ts)"
  proof (cases ts)
    case (Cons t us)
    then have us: "length us < n" using len by simp
    show ?thesis
    proof (cases t)
      case (TIdent name)
      have "progress (length ts) (map_ok (\<lambda>(segments, ts). (EVar (Parameter segments), ts)) (parse_path (tl us)))"
        by (intro progress_map [OF progress_mono [OF path_progress]]) (auto simp: Cons)
      moreover have "progress (length ts) (parse_call p n name (tl us))"
        by (rule progress_mono [OF call_progress [OF assms]]) (use us Cons in auto)
      ultimately show ?thesis
        by (auto simp: Cons TIdent parse_primary_def split: option.split intro!: progress_consume)
    next
      case TLParen
      then show ?thesis using fedD [OF assms us order_refl]
        by (auto simp: Cons parse_primary_def intro!: progress_then [where m = "length us"] progress_consume)
    qed (simp_all add: Cons parse_primary_def)
  qed (simp add: parse_primary_def)
qed

lemma unary_fed:
  assumes "fed n p"
  shows "fed (Suc n) (parse_unary p n)"
proof -
  have "length ts < Suc n \<Longrightarrow> fed n p \<Longrightarrow> progress (length ts) (parse_unary p n ts)" for ts
  proof (induction p n ts rule: parse_unary.induct)
    case (1 p n ts)
    show ?case
    proof (cases "unary_op ts")
      case None
      then show ?thesis using fedD [OF primary_fed [OF "1.prems"(2)] "1.prems"(1)] by (subst parse_unary.simps) simp
    next
      case (Some o_us)
      obtain op us where us: "o_us = (op, us)" by fastforce
      have len: "length ts = Suc (length us)" using Some us by (simp add: op_length)
      have "progress (length us) (parse_unary p n us)"
        using "1.IH" [OF Some] "1.prems" len us by simp
      then have "progress (length ts) (parse_unary p n us)" by (rule progress_mono) (simp add: len)
      then show ?thesis by (subst parse_unary.simps) (simp add: Some us progress_map)
    qed
  qed
  with assms show ?thesis by (simp add: fed_def)
qed

lemma loop_progress:
  assumes "fed k operand" "\<And>ts op rest. operator ts = Some (op, rest) \<Longrightarrow> length rest < length ts"
    "length ts < k" "length ts < n" "length ts < m"
  shows "progress m (left_loop operator operand n e ts)"
  using assms(3-)
proof (induction n arbitrary: e ts)
  case (Suc n)
  show ?case
  proof (cases "operator ts")
    case (Some o_us)
    obtain op us where us: "o_us = (op, us)" by fastforce
    have len: "length us < length ts" using assms(2) Some us by blast
    have "progress (length us) (operand us)" using fedD [OF assms(1)] len Suc.prems by auto
    then show ?thesis
      using Suc.IH Suc.prems len by (auto simp: Some us intro!: progress_then [where m = "length us"])
  qed (use Suc.prems in auto)
qed simp

lemma chain_fed:
  assumes "fed (Suc n) operand" "\<And>ts op rest. operator ts = Some (op, rest) \<Longrightarrow> length rest < length ts"
  shows "fed (Suc n) (left_chain operator operand n)"
  unfolding fed_def left_chain_def
proof (intro allI impI)
  fix ts :: "Token list"
  assume len: "length ts < Suc n"
  show "progress (length ts) (and_then (operand ts) (\<lambda>(e, ts). left_loop operator operand n e ts))"
    using len assms
    by (auto intro!: progress_then [OF fedD [OF assms(1) len order_refl]] loop_progress [where k = "Suc n"])
qed

lemma logical_op_length:
  "and_op ts = Some (op, rest) \<Longrightarrow> length rest < length ts" "or_op ts = Some (op, rest) \<Longrightarrow> length rest < length ts"
  by (auto simp: and_op_def or_op_def)

lemma comparison_fed:
  assumes "fed (Suc n) (parse_additive p n)"
  shows "fed (Suc n) (parse_comparison p n)"
  unfolding fed_def parse_comparison_def
proof (intro allI impI, rule progress_then, rule fedD [OF assms _ order_refl])
  fix ts us :: "Token list" and left :: Expr
  assume len: "length ts < Suc n" and us: "length us < length ts"
  show "progress (length ts) (case (left, us) of (left, ts) \<Rightarrow>
      (case comparison_op ts of None \<Rightarrow> Ok (left, ts)
       | Some (op, ts) \<Rightarrow> map_ok (\<lambda>(right, ts). (EBinary op left right, ts)) (parse_additive p n ts)))"
    using len us by (auto split: option.split dest!: op_length intro!: progress_map fedD [OF assms])
qed

lemma expr_fed: "fed n (parse_expr n)"
proof (induction n)
  case (Suc n)
  have "fed (Suc n) (parse_additive (parse_expr n) n)"
    unfolding parse_additive_def by (rule chain_fed [OF unary_fed [OF Suc.IH]]) (auto dest: op_length)
  then have "fed (Suc n) (parse_and (parse_expr n) n)"
    unfolding parse_and_def by (intro chain_fed comparison_fed) (auto dest: logical_op_length)
  then have or_fed: "fed (Suc n) (parse_or (parse_expr n) n)"
    unfolding parse_or_def by (intro chain_fed) (auto dest: logical_op_length)
  show ?case
    unfolding fed_def parse_expr.simps parse_if_then_def
    by (auto split: option.split intro!: fedD [OF or_fed] progress_then [OF fedD [OF or_fed _ order_refl]] progress_consume progress_map)
qed (simp add: fed_def)

text \<open>C40: No input exhausts the fuel of the parser: every text has an expression or an error of the grammar.\<close>

theorem parse_enough_fuel: "parse_expression s \<noteq> Err OutOfFuel"
proof -
  have "lex_token c cs \<noteq> Err OutOfFuel" for c cs
    by (auto simp: lex_token_def comparison_token_def result_simps Let_def split: prod.splits option.splits if_splits)
  then have "next_token s \<noteq> Err OutOfFuel" for s
    by (auto simp: next_token_def result_simps split: option.splits list.splits)
  then have "tokenize s \<noteq> Err OutOfFuel" for s
    by (induction s rule: tokenize.induct) (subst tokenize.simps, auto simp: result_simps split: sum.splits)
  moreover have "progress (length ts) (parse_expr (Suc (length ts)) ts)" for ts
    by (rule fedD [OF expr_fed]) simp_all
  ultimately show ?thesis
    by (auto simp: parse_expression_def parse_tokens_def result_simps progress_def split: if_splits)
qed

section \<open>Printed expressions are read back\<close>

text \<open>The tokens of an expression with parentheses around every operator.\<close>

definition binary_token :: "BinOp \<Rightarrow> Token" where
  "binary_token op = (case op of OpAdd \<Rightarrow> TPlus | OpSub \<Rightarrow> TMinus | OpGt \<Rightarrow> TGt | OpGe \<Rightarrow> TGe | OpLt \<Rightarrow> TLt | OpLe \<Rightarrow> TLe
     | OpEq \<Rightarrow> TEq | OpNe \<Rightarrow> TNe | OpAnd \<Rightarrow> TAnd | OpOr \<Rightarrow> TOr)"

definition unary_token :: "UnOp \<Rightarrow> Token" where
  "unary_token op = (case op of OpNot \<Rightarrow> TNot | OpNeg \<Rightarrow> TMinus)"

fun print_path :: "string list \<Rightarrow> Token list" where
  "print_path [] = []"
| "print_path (s # ss) = TDot # TIdent s # print_path ss"

fun commas :: "Token list list \<Rightarrow> Token list" where
  "commas [] = []"
| "commas [ts] = ts"
| "commas (ts # us # rest) = ts @ TComma # commas (us # rest)"

fun print_expr :: "Expr \<Rightarrow> Token list" where
  "print_expr (ENumber v) = [TNumber v]"
| "print_expr (EString v) = [TStr v]"
| "print_expr (EVar path) = (case path of Ident name \<Rightarrow> [TIdent name] | Parameter segments \<Rightarrow> TIdent ''parameters'' # print_path segments)"
| "print_expr (EUnary op e) = TLParen # unary_token op # print_expr e @ [TRParen]"
| "print_expr (EBinary op l r) = TLParen # print_expr l @ binary_token op # print_expr r @ [TRParen]"
| "print_expr (EIfThen cond e) = TLParen # TIf # print_expr cond @ TThen # print_expr e @ [TRParen]"
| "print_expr (ECall name args) = TIdent name # TLParen # commas (map print_expr args) @ [TRParen]"

text \<open>The expressions that have a text: a path has a segment, and no variable has the name that starts a path.\<close>

fun writable :: "Expr \<Rightarrow> bool" where
  "writable (ENumber v) = True"
| "writable (EString v) = True"
| "writable (EVar path) = (case path of Ident name \<Rightarrow> name \<noteq> ''parameters'' | Parameter segments \<Rightarrow> segments \<noteq> [])"
| "writable (EUnary op e) = writable e"
| "writable (EBinary op l r) = (writable l \<and> writable r)"
| "writable (EIfThen cond e) = (writable cond \<and> writable e)"
| "writable (ECall name args) = list_all writable args"

text \<open>The loosest function of the parser that would go on with a token.\<close>

definition level :: "Token \<Rightarrow> nat" where
  "level t = (if t \<in> {TLParen, TDot} then 1 else if t \<in> {TPlus, TMinus} then 2 else if t \<in> {TGt, TGe, TLt, TLe, TEq, TNe} then 3
     else if t = TAnd then 4 else if t = TOr then 5 else 6)"

definition ends :: "nat \<Rightarrow> Token list \<Rightarrow> bool" where
  "ends k rest \<longleftrightarrow> rest = [] \<or> k \<le> level (hd rest)"

lemma ends_weaker:
  "ends 3 rest \<Longrightarrow> ends 2 rest" "ends 4 rest \<Longrightarrow> ends 3 rest" "ends 5 rest \<Longrightarrow> ends 4 rest" "ends 6 rest \<Longrightarrow> ends 5 rest"
  by (auto simp: ends_def)

lemma ends_ops:
  "ends 3 rest \<Longrightarrow> additive_op rest = None" "ends 4 rest \<Longrightarrow> comparison_op rest = None"
  "ends 5 rest \<Longrightarrow> and_op rest = None" "ends 6 rest \<Longrightarrow> or_op rest = None"
  "ends 2 rest \<Longrightarrow> consume TLParen rest = None" "ends 2 rest \<Longrightarrow> consume TDot rest = None"
  by (cases rest; auto simp: ends_def level_def additive_op_def comparison_op_def and_op_def or_op_def split: if_splits)+

lemma print_start:
  "\<exists>t ts. print_expr e = t # ts \<and> t \<notin> {TNot, TMinus, TIf, TRParen}"
  by (cases e) (auto split: VarPath.splits)

text \<open>A function of the parser with fuel \<open>n\<close> reads \<open>e\<close> off the front of its tokens and stops there.\<close>

definition reads :: "(parser \<Rightarrow> nat \<Rightarrow> parser) \<Rightarrow> nat \<Rightarrow> nat \<Rightarrow> Token list \<Rightarrow> Expr \<Rightarrow> bool" where
  "reads f k n ts e \<longleftrightarrow> (\<forall>rest. ends k rest \<longrightarrow> f (parse_expr n) n (ts @ rest) = Ok (e, rest))"

lemma lift_unary: "reads parse_primary 2 n (print_expr e) e \<Longrightarrow> reads parse_unary 2 n (print_expr e) e"
  using print_start [of e] by (auto simp: reads_def parse_unary.simps unary_op_def)

lemma lift_additive: "reads parse_unary 2 n ts e \<Longrightarrow> 0 < n \<Longrightarrow> reads parse_additive 3 n ts e"
  by (cases n) (auto simp: reads_def parse_additive_def left_chain_def ends_ops ends_weaker)

lemma lift_comparison: "reads parse_additive 3 n ts e \<Longrightarrow> reads parse_comparison 4 n ts e"
  by (auto simp: reads_def parse_comparison_def ends_ops ends_weaker)

lemma lift_and: "reads parse_comparison 4 n ts e \<Longrightarrow> 0 < n \<Longrightarrow> reads parse_and 5 n ts e"
  by (cases n) (auto simp: reads_def parse_and_def left_chain_def ends_ops ends_weaker)

lemma lift_or: "reads parse_and 5 n ts e \<Longrightarrow> 0 < n \<Longrightarrow> reads parse_or 6 n ts e"
  by (cases n) (auto simp: reads_def parse_or_def left_chain_def ends_ops ends_weaker)

lemmas lift_rules = lift_unary lift_additive lift_comparison lift_and lift_or

lemma lift_expr:
  assumes "reads parse_or 6 n ts e" "ts \<noteq> []" "hd ts \<noteq> TIf" "ends 6 rest"
  shows "parse_expr (Suc n) (ts @ rest) = Ok (e, rest)"
proof -
  have "consume TIf (ts @ rest) = None" using assms(2,3) by (cases ts) auto
  then show ?thesis using assms(1,4) by (simp add: reads_def parse_if_then_def)
qed

lemma lift_paren:
  assumes "\<And>rest. ends 6 rest \<Longrightarrow> parse_expr n (ts @ rest) = Ok (e, rest)"
  shows "reads parse_primary 2 n (TLParen # ts @ [TRParen]) e"
proof -
  have "ends 6 (TRParen # rest)" for rest by (simp add: ends_def level_def)
  with assms show ?thesis by (simp add: reads_def parse_primary_def)
qed

lemma read_path:
  assumes "segments \<noteq> []" "ends 2 rest"
  shows "parse_path (tl (print_path segments) @ rest) = Ok (segments, rest)"
  using assms(1)
proof (induction segments rule: print_path.induct)
  case (2 s ss)
  show ?case
  proof (cases ss)
    case Nil
    then show ?thesis using ends_ops(6) [OF assms(2)] by (subst parse_path.simps) simp
  next
    case (Cons s' ss')
    then show ?thesis using 2 by (subst parse_path.simps) simp
  qed
qed simp

lemma read_unary_term:
  "reads parse_unary 2 n (print_expr e) e \<Longrightarrow> reads parse_unary 2 n (unary_token op # print_expr e) (EUnary op e)"
  by (cases op) (simp_all add: reads_def parse_unary.simps [of _ _ "_ # _"] unary_op_def unary_token_def)

lemma read_chain:
  assumes "reads f k n ls l" "reads f k n rs r" "1 < n" "operator (t # rs @ rest) = Some (op, rs @ rest)" "operator rest = None"
    "ends k rest" "ends k (t # rs @ rest)"
  shows "left_chain operator (f (parse_expr n) n) n (ls @ t # rs @ rest) = Ok (EBinary op l r, rest)"
proof -
  obtain m where n: "n = Suc (Suc m)" using less_imp_Suc_add [OF assms(3)] by auto
  have "f (parse_expr n) n (ls @ t # rs @ rest) = Ok (l, t # rs @ rest)" "f (parse_expr n) n (rs @ rest) = Ok (r, rest)"
    using assms(1,2,6,7) by (auto simp: reads_def)
  moreover have "left_loop operator operand n e ts = (case operator ts of None \<Rightarrow> Ok (e, ts)
      | Some (op, ts) \<Rightarrow> and_then (operand ts) (\<lambda>(right, ts). left_loop operator operand (Suc m) (EBinary op e right) ts))"
    for operand e ts by (simp add: n)
  ultimately show ?thesis using assms(4,5) by (simp add: left_chain_def)
qed

lemma read_binary_term:
  assumes "reads parse_primary 2 n (print_expr l) l" "reads parse_primary 2 n (print_expr r) r" "1 < n"
  shows "reads parse_or 6 n (print_expr l @ binary_token op # print_expr r) (EBinary op l r)"
proof -
  let ?ts = "print_expr l @ binary_token op # print_expr r"
  have n: "0 < n" using assms(3) by simp
  note unary = assms(1,2) [THEN lift_unary]
  note additive = unary [THEN lift_additive, OF n]
  note comparison = additive [THEN lift_comparison]
  note both = comparison [THEN lift_and, OF n]
  have at: "ends k (binary_token op # rest) \<longleftrightarrow> k \<le> level (binary_token op)" for k rest by (simp add: ends_def)
  consider (add) "op \<in> {OpAdd, OpSub}" | (cmp) "op \<notin> {OpAdd, OpSub, OpAnd, OpOr}" | (conj) "op = OpAnd" | (disj) "op = OpOr"
    by auto
  then show ?thesis
  proof cases
    case add
    then have "additive_op (binary_token op # us) = Some (op, us)" "level (binary_token op) = 2" for us
      by (auto simp: additive_op_def binary_token_def level_def)
    then have "reads parse_additive 3 n ?ts (EBinary op l r)"
      using read_chain [OF unary assms(3)] by (simp add: reads_def parse_additive_def at ends_ops ends_weaker)
    then show ?thesis by (intro lift_or lift_and lift_comparison n)
  next
    case cmp
    then have "comparison_op (binary_token op # rest) = Some (op, rest)" "level (binary_token op) = 3" for rest
      by (cases op; simp add: comparison_op_def binary_token_def level_def)+
    then have "reads parse_comparison 4 n ?ts (EBinary op l r)"
      using additive by (simp add: reads_def parse_comparison_def at ends_weaker)
    then show ?thesis by (intro lift_or lift_and n)
  next
    case conj
    then have "and_op (binary_token op # us) = Some (op, us)" "level (binary_token op) = 4" for us
      by (auto simp: and_op_def binary_token_def level_def)
    then have "reads parse_and 5 n ?ts (EBinary op l r)"
      using read_chain [OF comparison assms(3)] by (simp add: reads_def parse_and_def at ends_ops ends_weaker)
    then show ?thesis by (intro lift_or n)
  next
    case disj
    then have "or_op (binary_token op # us) = Some (op, us)" "level (binary_token op) = 5" for us
      by (auto simp: or_op_def binary_token_def level_def)
    then show ?thesis
      using read_chain [OF both assms(3)] by (simp add: reads_def parse_or_def at ends_ops ends_weaker)
  qed
qed

lemma read_args:
  assumes "\<And>a rest. a \<in> set args \<Longrightarrow> ends 6 rest \<Longrightarrow> p (print_expr a @ rest) = Ok (a, rest)" "args \<noteq> []" "length args \<le> k"
  shows "parse_args p k (commas (map print_expr args) @ TRParen # rest) = Ok (args, TRParen # rest)"
  using assms
proof (induction args arbitrary: k)
  case (Cons a args)
  have sep: "ends 6 (TRParen # ts)" "ends 6 (TComma # ts)" for ts by (simp_all add: ends_def level_def)
  obtain m where k: "k = Suc m" using Cons.prems(3) by (cases k) auto
  show ?case
  proof (cases args)
    case Nil
    then show ?thesis using Cons.prems(1) [of a] sep by (simp add: k)
  next
    case (Cons b bs)
    have "parse_args p m (commas (map print_expr args) @ TRParen # rest) = Ok (args, TRParen # rest)"
      by (rule Cons.IH) (use Cons.prems k Cons in auto)
    then show ?thesis using Cons.prems(1) [of a] sep by (simp add: k Cons)
  qed
qed simp

lemma commas_length: "a \<in> set args \<Longrightarrow> length (f a) \<le> length (commas (map f args))"
proof (induction args)
  case (Cons b args)
  then show ?case by (cases args) auto
qed simp

lemma commas_count: "(\<And>a. f a \<noteq> []) \<Longrightarrow> length args \<le> length (commas (map f args))"
proof (induction args)
  case (Cons b args)
  have "0 < length (f b)" using Cons.prems by simp
  then show ?case using Cons by (cases args) (auto simp: Suc_le_eq)
qed simp

lemma commas_start: "args \<noteq> [] \<Longrightarrow> \<exists>us. commas (map f args) = f (hd args) @ us"
  by (cases args rule: remdups_adj.cases) auto

lemma print_reads:
  "writable e \<Longrightarrow> length (print_expr e) \<le> n \<Longrightarrow> reads parse_primary 2 n (print_expr e) e"
proof (induction e arbitrary: n rule: print_expr.induct)
  case (3 path)
  show ?case
  proof (cases path)
    case (Parameter segments)
    then obtain s ss where "segments = s # ss" using 3 by (cases segments) auto
    then show ?thesis using read_path [of segments] by (simp add: reads_def parse_primary_def Parameter)
  next
    case (Ident name)
    then show ?thesis using 3 by (simp add: reads_def parse_primary_def ends_ops)
  qed
next
  case (4 op e)
  then obtain m where n: "n = Suc m" and m: "length (print_expr e) \<le> m" "0 < m" by (cases n) auto
  have "reads parse_or 6 m (unary_token op # print_expr e) (EUnary op e)"
    using 4 m by (intro lift_or lift_and lift_comparison lift_additive read_unary_term lift_unary) simp_all
  moreover have "unary_token op \<noteq> TIf" by (cases op) (simp_all add: unary_token_def)
  ultimately have "ends 6 rest \<Longrightarrow> parse_expr n ((unary_token op # print_expr e) @ rest) = Ok (EUnary op e, rest)" for rest
    unfolding n by (intro lift_expr) simp_all
  from lift_paren [OF this] show ?case by simp
next
  case (5 op l r)
  then obtain m where n: "n = Suc m" and m: "length (print_expr l) \<le> m" "length (print_expr r) \<le> m" "1 < m" by (cases n) auto
  have "reads parse_or 6 m (print_expr l @ binary_token op # print_expr r) (EBinary op l r)"
    using 5 m by (intro read_binary_term) simp_all
  then have "ends 6 rest \<Longrightarrow> parse_expr n ((print_expr l @ binary_token op # print_expr r) @ rest) = Ok (EBinary op l r, rest)" for rest
    using print_start [of l] unfolding n by (intro lift_expr) auto
  from lift_paren [OF this] show ?case by simp
next
  case (6 cond e)
  then obtain m where n: "n = Suc m" and m: "length (print_expr cond) \<le> m" "length (print_expr e) \<le> m" "0 < m" by (cases n) auto
  have or_reads: "reads parse_or 6 m (print_expr cond) cond" "reads parse_or 6 m (print_expr e) e"
    using 6 m by (intro lift_or lift_and lift_comparison lift_additive lift_unary; simp)+
  have "ends 6 rest \<Longrightarrow> parse_expr n ((TIf # print_expr cond @ TThen # print_expr e) @ rest) = Ok (EIfThen cond e, rest)" for rest
    using or_reads unfolding n by (simp add: reads_def parse_if_then_def ends_def [of _ "TThen # _"] level_def)
  from lift_paren [OF this] show ?case by simp
next
  case (7 name args)
  then obtain m where n: "n = Suc m" and m: "length (commas (map print_expr args)) < m" by (cases n) auto
  have "parse_expr n (print_expr a @ rest) = Ok (a, rest)" if "a \<in> set args" "ends 6 rest" for a rest
  proof -
    have "length (print_expr a) \<le> m" using commas_length [OF that(1), of print_expr] m by simp
    then have "reads parse_primary 2 m (print_expr a) a" using 7 that by (auto simp: list_all_iff)
    then have "reads parse_or 6 m (print_expr a) a"
      using m by (intro lift_or lift_and lift_comparison lift_additive lift_unary) simp_all
    then show ?thesis unfolding n by (intro lift_expr) (use print_start [of a] that in auto)
  qed
  moreover have "length args \<le> n"
    using commas_count [of print_expr args] print_start m n by (metis le_trans less_imp_le_nat le_SucI list.distinct(1))
  ultimately have args: "args \<noteq> [] \<Longrightarrow> parse_args (parse_expr n) n (commas (map print_expr args) @ TRParen # rest) = Ok (args, TRParen # rest)"
    for rest by (intro read_args)
  have "parse_call (parse_expr n) n name (commas (map print_expr args) @ TRParen # rest) = Ok (ECall name args, rest)" for rest
  proof (cases "args = []")
    case False
    then have "consume TRParen (commas (map print_expr args) @ TRParen # rest) = None"
      using commas_start [OF False, of print_expr] print_start [of "hd args"] by auto
    then show ?thesis using args [OF False] by (simp add: parse_call_def del: parse_args.simps parse_expr.simps)
  qed (simp add: parse_call_def)
  then show ?case by (simp add: reads_def parse_primary_def)
qed (simp_all add: reads_def parse_primary_def)

text \<open>C39: The tokens of every expression that can be written are read back as that expression.\<close>

theorem print_parse_roundtrip: "writable e \<Longrightarrow> parse_tokens (print_expr e) = Ok e"
proof -
  assume e: "writable e"
  let ?n = "length (print_expr e)"
  have "0 < ?n" using print_start [of e] by auto
  then have "reads parse_or 6 ?n (print_expr e) e"
    using print_reads [OF e order_refl] by (intro lift_or lift_and lift_comparison lift_additive lift_unary) simp_all
  then have "parse_expr (Suc ?n) (print_expr e @ []) = Ok (e, [])"
    using print_start [of e] by (intro lift_expr) (auto simp: ends_def)
  then show ?thesis by (simp add: parse_tokens_def del: parse_expr.simps)
qed

theorem print_parse_roundtrip_witness:
  "parse_tokens [TLParen, TIf, TLParen, TIdent ''era'', TGe, TNumber F64_ONE, TRParen, TThen, TLParen, TNot, TIdent ''has_upgrade'',
     TLParen, TStr ''turbo'', TRParen, TRParen, TRParen] =
   Ok (EIfThen (EBinary OpGe (EVar (Ident ''era'')) (ENumber F64_ONE)) (EUnary OpNot (ECall ''has_upgrade'' [EString ''turbo''])))"
  using print_parse_roundtrip [of "EIfThen (EBinary OpGe (EVar (Ident ''era'')) (ENumber F64_ONE))
      (EUnary OpNot (ECall ''has_upgrade'' [EString ''turbo'']))"]
  by (simp add: binary_token_def unary_token_def)

section \<open>Validated expressions resolve their names\<close>

definition type_error :: "eval_error \<Rightarrow> bool" where
  "type_error e \<longleftrightarrow> e \<in> {NotBoolean, NotExpectsBoolean, NegExpectsNumber, ArithmeticExpectsNumbers, ComparisonExpectsNumbers,
     EqualityExpectsMatchingTypes, UpgradeExpectsString, AbsExpectsNumber}"

lemma type_error_parts:
  "as_bool v = Err e \<Longrightarrow> type_error e" "eval_unary op v = Err e \<Longrightarrow> type_error e" "strict_binary bin v w = Err e \<Longrightarrow> type_error e"
  "as_number AbsExpectsNumber v = Err e \<Longrightarrow> type_error e"
  "(case v of VString u \<Rightarrow> Ok (F u) | _ \<Rightarrow> Err UpgradeExpectsString) = Err e \<Longrightarrow> type_error e"
  by (auto simp: as_bool_def eval_unary_def strict_binary_def as_number_def equal_values_def result_simps type_error_def
      split: expr_value.splits UnOp.splits if_splits)

text \<open>An expression that passes the static checks fails in evaluation for a type alone, where every checked path leads to a
  number or a string of the parameters.\<close>

theorem validated_resolves:
  assumes "validate_expression e mode param_paths = Ok ()" "eval ctx e = Err err"
    and "mode = Constraint \<Longrightarrow> (\<exists>params. ctx_parameters ctx = Some params \<and>
      (\<forall>segments. 2 \<le> length segments \<longrightarrow> ''parameters.'' @ join_dots segments \<in> param_paths \<longrightarrow> is_ok (resolve_parameter params segments)))"
  shows "type_error err"
  using assms(1,2)
proof (induction e arbitrary: err)
  case (EVar path)
  show ?case
  proof (cases path)
    case (Parameter segments)
    then have "mode = Constraint" "2 \<le> length segments" "''parameters.'' @ join_dots segments \<in> param_paths"
      using EVar by (auto split: if_splits ExprMode.splits intro: ExprMode.exhaust)
    then show ?thesis using assms(3) EVar(2) Parameter by (force simp: is_ok_iff)
  next
    case (Ident name)
    then show ?thesis using EVar by (auto simp: known_identifier_def split: if_splits)
  qed
next
  case (EUnary op e)
  then show ?case by (auto simp: result_simps intro: type_error_parts)
next
  case (EBinary op l r)
  then show ?case by (auto simp: result_simps split: if_splits intro: type_error_parts)
next
  case (EIfThen cond e)
  then show ?case by (auto simp: result_simps split: if_splits intro: type_error_parts)
next
  case (ECall name args)
  then obtain arg where args: "args = [arg]" "validate_expression arg mode param_paths = Ok ()"
    by (auto split: if_splits list.splits)
  then have "eval ctx arg = Err e \<Longrightarrow> type_error e" for e using ECall.IH by simp
  then show ?case using ECall.prems args
    by (auto simp: result_simps split: if_splits intro: type_error_parts)
qed simp_all

end
