(* ===== verification/Tuning_Policy.thy ===== *)
theory Tuning_Policy
  imports Tuning_Expr Race_Start "HOL-Library.AList"
begin

unbundle bit_operations_syntax

text \<open>
  The tuning policies of \<open>crates/pitgun-policy/src/tuning\<close>: the schema, the static checks, the canonical form of a request and
  the derived constraints of \<open>v1\<close>, and the older key-value policy of \<open>mod.rs\<close>; then the tuning of one competitor in
  \<open>crates/pitgun-racing-policy/src/lib.rs\<close>, which is what \<open>normalize_competitor\<close> takes as its argument \<open>tuning\<close>.

  A map is the list of its entries in the order of its keys. The descriptive fields of a policy (units, effects, meanings,
  metadata and telemetry hints) are left out, and the readers of YAML and files too. An error has its path and a value for its
  reason. \<open>PolicyPanic\<close> stands for the panic of \<open>clamp\<close> on a range that is empty or not a number.
\<close>

section \<open>Rounding\<close>

text \<open>\<open>f64::round\<close>, half away from zero, and \<open>f64::floor\<close>; both results are exact.\<close>

definition f64_round :: "64 word \<Rightarrow> 64 word" where
  "f64_round a =
     (if f64_nan a \<or> f64_infinite a then a
      else f64_signed (bit a 63) (f64_encode ((f64_magnitude a + 2 ^ 1073) div 2 ^ 1074 * 2 ^ 1074)))"

definition f64_floor :: "64 word \<Rightarrow> 64 word" where
  "f64_floor a =
     (if f64_nan a \<or> f64_infinite a \<or> f64_magnitude a = 0 then a else f64_from_int (f64_scaled a div 2 ^ 1074))"

section \<open>Policies\<close>

record FloatRange =
  range_low :: "64 word"
  range_high :: "64 word"
  range_step :: "64 word"

datatype ParameterSpecV1 = FloatSpec FloatRange "64 word" "string option" | EnumSpec "string list" string "string option"

record DerivedConstraint =
  constraint_name :: string
  constraint_rule :: string
  constraint_error_msg :: string

type_synonym subsystem_specs = "(string \<times> ParameterSpecV1) list"

record TuningPolicyV1 =
  policy_version :: string
  policy_parameters :: "(string \<times> subsystem_specs) list"
  derived_constraints :: "DerivedConstraint list option"

record TuningEvalContext =
  eval_era :: u32
  eval_category_levels :: "string \<Rightarrow> i64 option"
  eval_owned_upgrades :: "string set"

datatype field_reason =
    MustBeObject | UnknownSubsystem | UnknownParameterKey | MustNotBeEmpty | ExprUnparsed parse_error | ExprInvalid validation_error
  | ExprFailed eval_error | UnlockNotMet string | ExpectedNumber | FloatNotFinite | NumberNotRepresentable | ExpectedString
  | InvalidEnumValue string | ConstraintViolated string | RangeNotFinite | RangeEmpty | StepNotPositive | DefaultNotFinite
  | DefaultOutOfRange | DuplicateEnumValue string | DefaultNotInValues | DuplicateConstraintName

datatype TuningPolicyError =
    UnsupportedVersion string | MissingParameters | UnknownKey string | InvalidValue string | InvalidField string field_reason
  | PolicyPanic

definition TUNING_POLICY_V1_VERSION :: string where "TUNING_POLICY_V1_VERSION = ''tuning.v1''"

text \<open>\<open>load_tuning_v1_from_str\<close>, after the text is read.\<close>

definition load_tuning_v1 :: "TuningPolicyV1 \<Rightarrow> TuningPolicyError + TuningPolicyV1" where
  "load_tuning_v1 pol =
     (if policy_version pol \<noteq> TUNING_POLICY_V1_VERSION then Err (UnsupportedVersion (policy_version pol)) else Ok pol)"

definition parameter_path :: "string \<Rightarrow> string \<Rightarrow> string" where
  "parameter_path subsystem name = ''parameters.'' @ subsystem @ ''.'' @ name"

section \<open>Static checks of a policy\<close>

definition check_unlock :: "string \<Rightarrow> string option \<Rightarrow> string set \<Rightarrow> TuningPolicyError + unit" where
  "check_unlock path unlock param_paths =
     (case unlock of
        None \<Rightarrow> Ok ()
      | Some text \<Rightarrow>
          and_then (map_err (\<lambda>e. InvalidField (path @ ''.unlock'') (ExprUnparsed e)) (parse_expression text)) (\<lambda>parsed.
          map_err (\<lambda>e. InvalidField (path @ ''.unlock'') (ExprInvalid e)) (validate_expression parsed Unlock param_paths)))"

fun duplicate_value :: "string set \<Rightarrow> string list \<Rightarrow> string option" where
  "duplicate_value seen [] = None"
| "duplicate_value seen (v # vs) = (if v \<in> seen then Some v else duplicate_value (insert v seen) vs)"

definition validate_spec :: "string \<Rightarrow> ParameterSpecV1 \<Rightarrow> string set \<Rightarrow> TuningPolicyError + unit" where
  "validate_spec path spec param_paths =
     (case spec of
        FloatSpec r dflt unlock \<Rightarrow>
          if \<not> is_finite64 (range_low r) \<or> \<not> is_finite64 (range_high r) \<or> \<not> is_finite64 (range_step r)
          then Err (InvalidField (path @ ''.range'') RangeNotFinite)
          else if f64_lt (range_high r) (range_low r) then Err (InvalidField (path @ ''.range'') RangeEmpty)
          else if f64_le (range_step r) F64_ZERO then Err (InvalidField (path @ ''.range.step'') StepNotPositive)
          else if \<not> is_finite64 dflt then Err (InvalidField (path @ ''.default'') DefaultNotFinite)
          else if f64_lt dflt (range_low r) \<or> f64_lt (range_high r) dflt
          then Err (InvalidField (path @ ''.default'') DefaultOutOfRange)
          else check_unlock path unlock param_paths
      | EnumSpec vs dflt unlock \<Rightarrow>
          if vs = [] then Err (InvalidField (path @ ''.values'') MustNotBeEmpty)
          else (case duplicate_value {} vs of
              Some v \<Rightarrow> Err (InvalidField (path @ ''.values'') (DuplicateEnumValue v))
            | None \<Rightarrow>
                if dflt \<notin> set vs then Err (InvalidField (path @ ''.default'') DefaultNotInValues)
                else check_unlock path unlock param_paths))"

text \<open>The loops over the parameters collect the paths that constraints may name.\<close>

fun validate_specs :: "string \<Rightarrow> string set \<Rightarrow> subsystem_specs \<Rightarrow> TuningPolicyError + string set" where
  "validate_specs subsystem param_paths [] = Ok param_paths"
| "validate_specs subsystem param_paths ((name, spec) # specs) =
     (let path = parameter_path subsystem name; known = insert path param_paths in
      and_also (validate_spec path spec known) (validate_specs subsystem known specs))"

fun validate_subsystems :: "string set \<Rightarrow> (string \<times> subsystem_specs) list \<Rightarrow> TuningPolicyError + string set" where
  "validate_subsystems param_paths [] = Ok param_paths"
| "validate_subsystems param_paths ((subsystem, specs) # rest) =
     (if specs = [] then Err (InvalidField (''parameters.'' @ subsystem) MustNotBeEmpty)
      else and_then (validate_specs subsystem param_paths specs) (\<lambda>known. validate_subsystems known rest))"

fun validate_derived :: "string set \<Rightarrow> string set \<Rightarrow> DerivedConstraint list \<Rightarrow> TuningPolicyError + unit" where
  "validate_derived seen param_paths [] = Ok ()"
| "validate_derived seen param_paths (c # cs) =
     (if trim (constraint_name c) = [] then Err (InvalidField ''derived_constraints.name'' MustNotBeEmpty)
      else if constraint_name c \<in> seen then Err (InvalidField (''derived_constraints.'' @ constraint_name c) DuplicateConstraintName)
      else let path = ''derived_constraints.'' @ constraint_name c @ ''.rule'' in
        and_then (map_err (\<lambda>e. InvalidField path (ExprUnparsed e)) (parse_expression (constraint_rule c))) (\<lambda>parsed.
        and_also (map_err (\<lambda>e. InvalidField path (ExprInvalid e)) (validate_expression parsed Constraint param_paths))
          (validate_derived (insert (constraint_name c) seen) param_paths cs)))"

definition validate_static :: "TuningPolicyV1 \<Rightarrow> TuningPolicyError + unit" where
  "validate_static pol =
     (if policy_version pol \<noteq> TUNING_POLICY_V1_VERSION then Err (UnsupportedVersion (policy_version pol))
      else if policy_parameters pol = [] then Err MissingParameters
      else and_then (validate_subsystems {} (policy_parameters pol)) (\<lambda>param_paths.
        case derived_constraints pol of None \<Rightarrow> Ok () | Some cs \<Rightarrow> validate_derived {} param_paths cs))"

section \<open>The canonical form of a request\<close>

definition as_object :: "json \<Rightarrow> (string \<times> json) list option" where
  "as_object v = (case v of JObject members \<Rightarrow> Some members | _ \<Rightarrow> None)"

definition quantize_float :: "64 word \<Rightarrow> FloatRange \<Rightarrow> 64 word option" where
  "quantize_float v r =
     Option.bind (f64_clamp v (range_low r) (range_high r)) (\<lambda>clamped.
     if f64_eq (range_step r) F64_ZERO then Some clamped
     else let steps = f64_round (f64_div (f64_sub clamped (range_low r)) (range_step r)) in
       f64_clamp (f64_add (range_low r) (f64_mul steps (range_step r))) (range_low r) (range_high r))"

definition json_float :: "64 word \<Rightarrow> string \<Rightarrow> TuningPolicyError + json" where
  "json_float v path = (if is_finite64 v then Ok (JNumber (Float v)) else Err (InvalidField path NumberNotRepresentable))"

definition quantized_json :: "64 word \<Rightarrow> FloatRange \<Rightarrow> string \<Rightarrow> TuningPolicyError + json" where
  "quantized_json v r path = and_then (ok_or (quantize_float v r) PolicyPanic) (\<lambda>q. json_float q path)"

definition default_value :: "ParameterSpecV1 \<Rightarrow> string \<Rightarrow> TuningPolicyError + json" where
  "default_value spec path =
     (case spec of FloatSpec r dflt _ \<Rightarrow> quantized_json dflt r path | EnumSpec _ dflt _ \<Rightarrow> Ok (JString dflt))"

definition canonicalize_parameter_value :: "ParameterSpecV1 \<Rightarrow> json \<Rightarrow> string \<Rightarrow> TuningPolicyError + json" where
  "canonicalize_parameter_value spec raw path =
     (case spec of
        FloatSpec r _ _ \<Rightarrow>
          (case raw of
             JNumber n \<Rightarrow>
               if \<not> is_finite64 (number_as_f64 n) then Err (InvalidField path FloatNotFinite)
               else quantized_json (number_as_f64 n) r path
           | _ \<Rightarrow> Err (InvalidField path ExpectedNumber))
      | EnumSpec vs _ _ \<Rightarrow>
          (case raw of
             JString v \<Rightarrow> if v \<notin> set vs then Err (InvalidField path (InvalidEnumValue v)) else Ok (JString v)
           | _ \<Rightarrow> Err (InvalidField path ExpectedString)))"

definition unlock_expr :: "ParameterSpecV1 \<Rightarrow> string option" where
  "unlock_expr spec = (case spec of FloatSpec _ _ unlock \<Rightarrow> unlock | EnumSpec _ _ unlock \<Rightarrow> unlock)"

definition eval_context :: "TuningEvalContext \<Rightarrow> json option \<Rightarrow> EvalContext" where
  "eval_context ctx params = \<lparr>ctx_era = eval_era ctx, ctx_category_levels = eval_category_levels ctx,
     ctx_owned_upgrades = eval_owned_upgrades ctx, ctx_parameters = params\<rparr>"

definition check_unlocked :: "TuningEvalContext \<Rightarrow> ParameterSpecV1 \<Rightarrow> string \<Rightarrow> TuningPolicyError + unit" where
  "check_unlocked ctx spec path =
     (case unlock_expr spec of
        None \<Rightarrow> Ok ()
      | Some text \<Rightarrow>
          and_then (map_err (\<lambda>e. InvalidField (path @ ''.unlock'') (ExprUnparsed e)) (parse_expression text)) (\<lambda>parsed.
          and_then (map_err (\<lambda>e. InvalidField (path @ ''.unlock'') (ExprFailed e)) (eval_bool parsed (eval_context ctx None))) (\<lambda>allowed.
          if \<not> allowed then Err (InvalidField path (UnlockNotMet text)) else Ok ())))"

definition canonical_parameter ::
    "TuningEvalContext \<Rightarrow> (string \<times> json) list option \<Rightarrow> string \<Rightarrow> string \<times> ParameterSpecV1 \<Rightarrow> TuningPolicyError + string \<times> json" where
  "canonical_parameter ctx req_sub subsystem entry =
     (case entry of (name, spec) \<Rightarrow>
        let path = parameter_path subsystem name in
        map_ok (\<lambda>v. (name, v))
          (case Option.bind req_sub (\<lambda>members. map_of members name) of
             Some raw \<Rightarrow> and_also (check_unlocked ctx spec path) (canonicalize_parameter_value spec raw path)
           | None \<Rightarrow> default_value spec path))"

definition check_known :: "TuningPolicyV1 \<Rightarrow> string \<times> json \<Rightarrow> TuningPolicyError + unit" where
  "check_known pol entry =
     (case entry of (subsystem, v) \<Rightarrow>
        and_then (ok_or (map_of (policy_parameters pol) subsystem) (InvalidField (''parameters.'' @ subsystem) UnknownSubsystem)) (\<lambda>specs.
        and_then (ok_or (as_object v) (InvalidField (''parameters.'' @ subsystem) MustBeObject)) (\<lambda>members.
        try_each (\<lambda>(key, _).
          if key \<notin> fst ` set specs then Err (InvalidField (parameter_path subsystem key) UnknownParameterKey) else Ok ()) members)))"

definition canonicalize_tuning :: "TuningPolicyV1 \<Rightarrow> TuningEvalContext \<Rightarrow> json \<Rightarrow> TuningPolicyError + json" where
  "canonicalize_tuning pol ctx req =
     and_then (ok_or (as_object req) (InvalidField ''parameters'' MustBeObject)) (\<lambda>req_params.
     and_also (try_each (check_known pol) req_params)
       (map_ok JObject (try_map (\<lambda>(subsystem, specs).
          map_ok (\<lambda>members. (subsystem, JObject members))
            (try_map (canonical_parameter ctx (Option.bind (map_of req_params subsystem) as_object) subsystem) specs))
          (policy_parameters pol))))"

definition check_constraint :: "EvalContext \<Rightarrow> DerivedConstraint \<Rightarrow> TuningPolicyError + unit" where
  "check_constraint ectx c =
     (let path = ''derived_constraints.'' @ constraint_name c in
      and_then (map_err (\<lambda>e. InvalidField (path @ ''.rule'') (ExprUnparsed e)) (parse_expression (constraint_rule c))) (\<lambda>parsed.
      and_then (map_err (\<lambda>e. InvalidField path (ExprFailed e)) (eval_bool parsed ectx)) (\<lambda>ok.
      if \<not> ok then Err (InvalidField path (ConstraintViolated (constraint_error_msg c))) else Ok ())))"

definition validate_constraints :: "TuningPolicyV1 \<Rightarrow> TuningEvalContext \<Rightarrow> json \<Rightarrow> TuningPolicyError + unit" where
  "validate_constraints pol ctx canonical =
     (case derived_constraints pol of
        None \<Rightarrow> Ok ()
      | Some cs \<Rightarrow>
          and_then (ok_or (as_object canonical) (InvalidField ''parameters'' MustBeObject)) (\<lambda>_.
          try_each (check_constraint (eval_context ctx (Some canonical))) cs))"

section \<open>The tuning of a competitor\<close>

datatype tuning_refusal = NoSubsystem | ManySubsystems "string list" | TuningRefused TuningPolicyError | SubsystemMissing | ShapeMismatch

definition tuning_fields :: "(string \<times> (TuningSpec \<Rightarrow> 64 word)) list" where
  "tuning_fields = [(''aero_points'', aero_points), (''chassis_points'', chassis_points), (''cooling_points'', cooling_points),
     (''downforce_slider'', downforce_slider), (''engine_points'', engine_points), (''gear_ratio_slider'', gear_ratio_slider)]"

definition tuning_field_names :: "string set" where
  "tuning_field_names = set (map fst tuning_fields)"

definition resolve_tuning_subsystem :: "TuningPolicyV1 \<Rightarrow> tuning_refusal + string" where
  "resolve_tuning_subsystem pol =
     (let candidates = map fst (filter (\<lambda>(_, specs). tuning_field_names \<subseteq> fst ` set specs) (policy_parameters pol)) in
      case candidates of [] \<Rightarrow> Err NoSubsystem | [name] \<Rightarrow> Ok name | _ \<Rightarrow> Err (ManySubsystems candidates))"

text \<open>\<open>serde_json::to_value\<close> of a tuning, where a float that is not finite becomes null, and \<open>from_value\<close>.\<close>

definition tuning_to_json :: "TuningSpec \<Rightarrow> json" where
  "tuning_to_json t = JObject (map (\<lambda>(name, field). (name, if is_finite64 (field t) then JNumber (Float (field t)) else JNull)) tuning_fields)"

definition json_number_field :: "json \<Rightarrow> string \<Rightarrow> tuning_refusal + 64 word" where
  "json_number_field v name = (case json_get v name of Some (JNumber n) \<Rightarrow> Ok (number_as_f64 n) | _ \<Rightarrow> Err ShapeMismatch)"

definition tuning_from_json :: "json \<Rightarrow> tuning_refusal + TuningSpec" where
  "tuning_from_json v =
     and_then (json_number_field v ''engine_points'') (\<lambda>engine.
     and_then (json_number_field v ''cooling_points'') (\<lambda>cooling.
     and_then (json_number_field v ''aero_points'') (\<lambda>aero.
     and_then (json_number_field v ''chassis_points'') (\<lambda>chassis.
     and_then (json_number_field v ''downforce_slider'') (\<lambda>downforce.
     and_then (json_number_field v ''gear_ratio_slider'') (\<lambda>gear.
     Ok \<lparr>engine_points = engine, cooling_points = cooling, aero_points = aero, chassis_points = chassis,
          downforce_slider = downforce, gear_ratio_slider = gear\<rparr>))))))"

definition budget_context :: "u32 \<Rightarrow> 64 word \<Rightarrow> TuningEvalContext" where
  "budget_context era budget = \<lparr>eval_era = era,
     eval_category_levels = (\<lambda>key. if key = ''budget_lvl'' then Some (f64_as_i64 (f64_floor budget)) else None), eval_owned_upgrades = {}\<rparr>"

text \<open>The part of \<open>normalize_competitor\<close> after the check of the budget.\<close>

definition policy_tuning :: "TuningPolicyV1 \<Rightarrow> u32 \<Rightarrow> 64 word \<Rightarrow> TuningSpec \<Rightarrow> tuning_refusal + TuningSpec" where
  "policy_tuning pol era budget tuning =
     and_then (resolve_tuning_subsystem pol) (\<lambda>subsystem.
     and_then (map_err TuningRefused (canonicalize_tuning pol (budget_context era budget) (JObject [(subsystem, tuning_to_json tuning)]))) (\<lambda>canonical.
     and_also (map_err TuningRefused (validate_constraints pol (budget_context era budget) canonical))
       (and_then (ok_or (json_get canonical subsystem) SubsystemMissing) tuning_from_json)))"

section \<open>The key-value policy\<close>

datatype ParameterSpec = FloatKey "64 word" "64 word" | IntKey i64 i64 | EnumKey "string list"

datatype StrictMode = Strict | Permissive

definition normalize_value :: "string \<Rightarrow> 64 word \<Rightarrow> ParameterSpec \<Rightarrow> TuningPolicyError + 64 word" where
  "normalize_value key v spec =
     (if \<not> is_finite64 v then Err (InvalidValue key)
      else case spec of
          FloatKey low high \<Rightarrow> ok_or (f64_clamp v low high) PolicyPanic
        | IntKey low high \<Rightarrow>
            let rounded = f64_round v; low = f64_from_int (sint low); high = f64_from_int (sint high) in
            if f64_lt rounded low \<or> f64_lt high rounded then ok_or (f64_clamp rounded low high) PolicyPanic else Ok rounded
        | EnumKey entries \<Rightarrow>
            let index_f64 = f64_round v in
            if f64_lt index_f64 F64_ZERO \<or> length entries \<le> unat (f64_as_u64 index_f64) then Err (InvalidValue key)
            else Ok index_f64)"

text \<open>One round of the loop: a key that is blank is skipped, the last value of a key wins.\<close>

definition normalize_entry ::
    "(string \<Rightarrow> ParameterSpec option) \<Rightarrow> StrictMode \<Rightarrow> (string \<times> 64 word) list \<Rightarrow> string \<times> 64 word \<Rightarrow>
       TuningPolicyError + (string \<times> 64 word) list" where
  "normalize_entry specs mode normalized entry =
     (case entry of (raw_key, v) \<Rightarrow>
        let key = trim raw_key in
        if key = [] then Ok normalized
        else case specs key of
            None \<Rightarrow> (case mode of Strict \<Rightarrow> Err (UnknownKey key) | Permissive \<Rightarrow> Ok normalized)
          | Some spec \<Rightarrow> map_ok (\<lambda>w. AList.update key w normalized) (normalize_value key v spec))"

definition normalize_tuning ::
    "(string \<Rightarrow> ParameterSpec option) \<Rightarrow> (string \<times> 64 word) list \<Rightarrow> StrictMode \<Rightarrow> TuningPolicyError + (string \<times> 64 word) list" where
  "normalize_tuning specs entries mode =
     map_ok (sort_key fst) (try_fold (normalize_entry specs mode) [] entries)"

section \<open>What an accepted request satisfies\<close>

lemma clamp_in_range:
  "f64_clamp v low high = Some r \<Longrightarrow> \<not> f64_nan r \<Longrightarrow> f64_le low r \<and> f64_le r high"
  by (auto simp: f64_clamp_def f64_le_def f64_lt_def split: if_splits)

lemma quantized_in_range:
  assumes "quantized_json v r path = Ok w"
  shows "\<exists>x. w = JNumber (Float x) \<and> is_finite64 x \<and> f64_le (range_low r) x \<and> f64_le x (range_high r)"
proof -
  obtain x where x: "quantize_float v r = Some x" "w = JNumber (Float x)" "is_finite64 x"
    using assms by (auto simp: quantized_json_def json_float_def result_simps split: if_splits)
  then have "\<exists>u. f64_clamp u (range_low r) (range_high r) = Some x"
    by (auto simp: quantize_float_def bind_eq_Some_conv Let_def split: if_splits)
  with x(2,3) show ?thesis using clamp_in_range finite_not_nan by blast
qed

text \<open>The values a parameter may have in canonical form.\<close>

definition canonical_value :: "ParameterSpecV1 \<Rightarrow> json \<Rightarrow> bool" where
  "canonical_value spec w \<longleftrightarrow>
     (case spec of
        FloatSpec r _ _ \<Rightarrow> \<exists>x. w = JNumber (Float x) \<and> is_finite64 x \<and> f64_le (range_low r) x \<and> f64_le x (range_high r)
      | EnumSpec vs dflt _ \<Rightarrow> \<exists>s\<in>insert dflt (set vs). w = JString s)"

definition unlocked :: "TuningEvalContext \<Rightarrow> ParameterSpecV1 \<Rightarrow> bool" where
  "unlocked ctx spec \<longleftrightarrow>
     (\<forall>text. unlock_expr spec = Some text \<longrightarrow>
        (\<exists>e. parse_expression text = Ok e \<and> eval_bool e (eval_context ctx None) = Ok True))"

lemma check_unlocked_Ok: "check_unlocked ctx spec path = Ok () \<longleftrightarrow> unlocked ctx spec"
  by (auto simp: check_unlocked_def unlocked_def result_simps split: option.splits)

lemma canonical_parameter_Ok:
  assumes "canonical_parameter ctx req_sub subsystem (name, spec) = Ok (name', w)"
  shows "name' = name" "canonical_value spec w" "Option.bind req_sub (\<lambda>members. map_of members name) \<noteq> None \<Longrightarrow> unlocked ctx spec"
  using assms
  by (auto simp: canonical_parameter_def result_simps Let_def check_unlocked_Ok canonical_value_def default_value_def
      canonicalize_parameter_value_def split: option.splits ParameterSpecV1.splits json.splits if_splits dest!: quantized_in_range)

lemma map_of_list_all2:
  assumes "list_all2 R xs ys" "\<And>k a k' b. R (k, a) (k', b) \<Longrightarrow> k' = k" "map_of xs k = Some a"
  shows "\<exists>b. map_of ys k = Some b \<and> R (k, a) (k, b)"
  using assms(1,3)
proof (induction rule: list_all2_induct)
  case (Cons x xs y ys)
  obtain kx a' ky b' where xy: "x = (kx, a')" "y = (ky, b')" by fastforce
  then have "ky = kx" using assms(2) Cons.hyps(1) by blast
  then show ?case using Cons xy by (auto split: if_splits)
qed simp

text \<open>A canonical request has every subsystem and parameter of the policy and no other, each with a value of its range or
  list; what the request sets is unlocked.\<close>

lemma canonical_sound:
  assumes "canonicalize_tuning pol ctx req = Ok canonical" "map_of (policy_parameters pol) subsystem = Some specs"
  shows "\<exists>members. json_get canonical subsystem = Some (JObject members) \<and> map fst members = map fst specs \<and>
    (\<forall>name spec. map_of specs name = Some spec \<longrightarrow>
      (\<exists>w. map_of members name = Some w \<and> canonical_value spec w) \<and>
      (json_walk req [subsystem, name] \<noteq> None \<longrightarrow> unlocked ctx spec))"
proof -
  obtain req_params outs where req: "req = JObject req_params" and canonical: "canonical = JObject outs"
    and outs: "list_all2 (\<lambda>(subsystem, specs) out. map_ok (\<lambda>members. (subsystem, JObject members))
      (try_map (canonical_parameter ctx (Option.bind (map_of req_params subsystem) as_object) subsystem) specs) = Ok out)
      (policy_parameters pol) outs"
    using assms(1) by (auto simp: canonicalize_tuning_def result_simps as_object_def case_prod_unfold split: json.splits)
  let ?sub = "Option.bind (map_of req_params subsystem) as_object"
  obtain members where got: "map_of outs subsystem = Some (JObject members)"
    and members: "list_all2 (\<lambda>x y. canonical_parameter ctx ?sub subsystem x = Ok y) specs members"
    using map_of_list_all2 [OF outs _ assms(2)] by (auto simp: result_simps)
  have same: "name' = name" if "canonical_parameter ctx ?sub subsystem (name, spec) = Ok (name', w)" for name spec name' w
    using canonical_parameter_Ok(1) [OF that] .
  have "map fst members = map fst specs"
    using members by (induction rule: list_all2_induct) (auto dest: same)
  moreover have "(\<exists>w. map_of members name = Some w \<and> canonical_value spec w) \<and>
      (json_walk req [subsystem, name] \<noteq> None \<longrightarrow> unlocked ctx spec)" if spec: "map_of specs name = Some spec" for name spec
  proof -
    obtain w where w: "map_of members name = Some w" "canonical_parameter ctx ?sub subsystem (name, spec) = Ok (name, w)"
      using map_of_list_all2 [OF members _ spec] same by blast
    have "json_walk req [subsystem, name] = Option.bind ?sub (\<lambda>members. map_of members name)"
      by (auto simp: req json_get_def as_object_def split: json.splits bind_splits)
    then show ?thesis using w canonical_parameter_Ok(2,3) [OF w(2)] by auto
  qed
  ultimately show ?thesis using got by (auto simp: canonical json_get_def)
qed

definition constraint_holds :: "EvalContext \<Rightarrow> DerivedConstraint \<Rightarrow> bool" where
  "constraint_holds ectx c \<longleftrightarrow> (\<exists>e. parse_expression (constraint_rule c) = Ok e \<and> eval_bool e ectx = Ok True)"

lemma check_constraint_Ok: "check_constraint ectx c = Ok () \<longleftrightarrow> constraint_holds ectx c"
proof -
  have "(if \<not> b then Err e else Ok ()) = (Ok () :: TuningPolicyError + unit) \<longleftrightarrow> b" for b e by simp
  then show ?thesis by (auto simp: check_constraint_def constraint_holds_def result_simps Let_def)
qed

lemma validate_constraints_Ok:
  "validate_constraints pol ctx (JObject members) = Ok () \<longleftrightarrow>
     (\<forall>cs. derived_constraints pol = Some cs \<longrightarrow> list_all (constraint_holds (eval_context ctx (Some (JObject members)))) cs)"
  by (auto simp: validate_constraints_def check_constraint_Ok as_object_def result_simps list_all_iff split: option.splits)

text \<open>What a policy makes of the tuning of a competitor: the subsystem that has the fields of a tuning gives each of them a range
  that contains its canonical value, every field is unlocked, and every constraint of the policy holds.\<close>

lemma tuning_field_walk:
  "(name, field) \<in> set tuning_fields \<Longrightarrow> json_walk (JObject [(subsystem, tuning_to_json t)]) [subsystem, name] \<noteq> None"
  by (auto simp: tuning_fields_def tuning_to_json_def json_get_def)

lemma tuning_from_json_Ok:
  assumes "tuning_from_json v = Ok t" "(name, field) \<in> set tuning_fields"
  shows "json_number_field v name = Ok (field t)"
  using assms by (auto simp: tuning_from_json_def tuning_fields_def result_simps)

lemma policy_tuning_sound:
  assumes "policy_tuning pol era budget tuning = Ok canonical_tuning"
  shows "\<exists>subsystem specs members.
    map_of (policy_parameters pol) subsystem = Some specs \<and>
    (\<forall>(name, field)\<in>set tuning_fields. \<exists>r dflt unlock. map_of specs name = Some (FloatSpec r dflt unlock) \<and>
       map_of members name = Some (JNumber (Float (field canonical_tuning))) \<and> is_finite64 (field canonical_tuning) \<and>
       f64_le (range_low r) (field canonical_tuning) \<and> f64_le (field canonical_tuning) (range_high r) \<and>
       unlocked (budget_context era budget) (FloatSpec r dflt unlock)) \<and>
    (\<exists>canonical. json_get canonical subsystem = Some (JObject members) \<and>
       (\<forall>cs. derived_constraints pol = Some cs \<longrightarrow>
          list_all (constraint_holds (eval_context (budget_context era budget) (Some canonical))) cs))"
proof -
  let ?ctx = "budget_context era budget"
  obtain subsystem canonical where sub: "resolve_tuning_subsystem pol = Ok subsystem"
    and can: "canonicalize_tuning pol ?ctx (JObject [(subsystem, tuning_to_json tuning)]) = Ok canonical"
    and con: "validate_constraints pol ?ctx canonical = Ok ()"
    and got: "and_then (ok_or (json_get canonical subsystem) SubsystemMissing) tuning_from_json = Ok canonical_tuning"
    using assms by (auto simp: policy_tuning_def result_simps)
  obtain outs where outs: "canonical = JObject outs" using can by (auto simp: canonicalize_tuning_def result_simps)
  obtain specs where specs: "map_of (policy_parameters pol) subsystem = Some specs"
    using can by (auto simp: canonicalize_tuning_def as_object_def check_known_def result_simps)
  obtain members where members: "json_get canonical subsystem = Some (JObject members)" "map fst members = map fst specs"
    and each: "map_of specs name = Some spec \<Longrightarrow> (\<exists>w. map_of members name = Some w \<and> canonical_value spec w) \<and>
      (json_walk (JObject [(subsystem, tuning_to_json tuning)]) [subsystem, name] \<noteq> None \<longrightarrow> unlocked ?ctx spec)" for name spec
    using canonical_sound [OF can specs] by blast
  have "\<exists>r dflt unlock. map_of specs name = Some (FloatSpec r dflt unlock) \<and>
       map_of members name = Some (JNumber (Float (field canonical_tuning))) \<and> is_finite64 (field canonical_tuning) \<and>
       f64_le (range_low r) (field canonical_tuning) \<and> f64_le (field canonical_tuning) (range_high r) \<and>
       unlocked ?ctx (FloatSpec r dflt unlock)" if field: "(name, field) \<in> set tuning_fields" for name field
  proof -
    have num: "json_number_field (JObject members) name = Ok (field canonical_tuning)"
      by (rule tuning_from_json_Ok [OF _ field]) (use got members(1) in simp)
    then obtain n where n: "map_of members name = Some (JNumber n)" "number_as_f64 n = field canonical_tuning"
      by (auto simp: json_number_field_def json_get_def split: option.splits json.splits)
    then have "name \<in> fst ` set specs" using members(2) by (metis list.set_map map_of_SomeD fst_conv image_eqI)
    then obtain spec where spec: "map_of specs name = Some spec" by (metis map_of_eq_None_iff not_None_eq)
    note has = each [OF spec]
    then show ?thesis
    proof (cases spec)
      case (FloatSpec r dflt unlock)
      then show ?thesis using has n spec tuning_field_walk [OF field]
        by (auto simp: canonical_value_def number_as_f64_def)
    next
      case (EnumSpec vs dflt unlock)
      then show ?thesis using has n by (auto simp: canonical_value_def)
    qed
  qed
  then show ?thesis
    using specs members(1) con [unfolded outs validate_constraints_Ok, folded outs]
    by (intro exI [of _ subsystem] exI [of _ specs] exI [of _ members] conjI exI [of _ canonical]) auto
qed

section \<open>The policy of the game\<close>

text \<open>\<open>policies/gametuning.v1.yaml\<close>, which \<open>crates/pitgun-racing-policy\<close> embeds.\<close>

definition points_spec :: ParameterSpecV1 where
  "points_spec = FloatSpec \<lparr>range_low = 0, range_high = 0x4059000000000000, range_step = 0x3FF0000000000000\<rparr> 0 (Some ''era >= 1'')"

definition slider_spec :: ParameterSpecV1 where
  "slider_spec = FloatSpec \<lparr>range_low = 0, range_high = 0x3FF0000000000000, range_step = 0x3F847AE147AE147B\<rparr> 0x3FE0000000000000
     (Some ''era >= 1'')"

definition game_rule :: string where
  "game_rule = ''parameters.gameplay.aero_points + parameters.gameplay.chassis_points + parameters.gameplay.cooling_points + parameters.gameplay.engine_points <= budget_lvl''"

definition game_policy :: TuningPolicyV1 where
  "game_policy = \<lparr>policy_version = ''tuning.v1'',
     policy_parameters = [(''gameplay'', [(''aero_points'', points_spec), (''chassis_points'', points_spec), (''cooling_points'', points_spec),
       (''downforce_slider'', slider_spec), (''engine_points'', points_spec), (''gear_ratio_slider'', slider_spec)])],
     derived_constraints = Some [\<lparr>constraint_name = ''gameplay_budget_cap'', constraint_rule = game_rule,
       constraint_error_msg = ''Gameplay setup exceeds available budget.''\<rparr>]\<rparr>"

definition rule_path :: "string \<Rightarrow> Token list" where
  "rule_path name = [TIdent ''parameters'', TDot, TIdent ''gameplay'', TDot, TIdent name]"

lemma white_space_literal:
  "white_space = [[CHR 0x09], [CHR 0x0A], [CHR 0x0B], [CHR 0x0C], [CHR 0x0D], [CHR 0x20], [CHR 0xC2, CHR 0x85], [CHR 0xC2, CHR 0xA0],
     [CHR 0xE1, CHR 0x9A, CHR 0x80], [CHR 0xE2, CHR 0x80, CHR 0x80], [CHR 0xE2, CHR 0x80, CHR 0x81], [CHR 0xE2, CHR 0x80, CHR 0x82],
     [CHR 0xE2, CHR 0x80, CHR 0x83], [CHR 0xE2, CHR 0x80, CHR 0x84], [CHR 0xE2, CHR 0x80, CHR 0x85], [CHR 0xE2, CHR 0x80, CHR 0x86],
     [CHR 0xE2, CHR 0x80, CHR 0x87], [CHR 0xE2, CHR 0x80, CHR 0x88], [CHR 0xE2, CHR 0x80, CHR 0x89], [CHR 0xE2, CHR 0x80, CHR 0x8A],
     [CHR 0xE2, CHR 0x80, CHR 0xA8], [CHR 0xE2, CHR 0x80, CHR 0xA9], [CHR 0xE2, CHR 0x80, CHR 0xAF], [CHR 0xE2, CHR 0x81, CHR 0x9F],
     [CHR 0xE3, CHR 0x80, CHR 0x80]]"
  by code_simp
lemmas char_defs = is_ascii_digit_def is_ascii_alphabetic_def is_ascii_alphanumeric_def is_ascii_lowercase_def is_ascii_uppercase_def ident_char_def

lemmas lex_defs = next_token_def white_space_literal lex_token_def char_defs keyword_def punctuation_def comparison_token_def

lemmas parser_defs = parse_tokens_def parse_if_then_def parse_or_def parse_and_def left_chain_def parse_comparison_def
  parse_additive_def parse_unary.simps [of _ _ "_ # _"] unary_op_def parse_primary_def comparison_op_def additive_op_def
  and_op_def or_op_def parse_path.simps [of "_ # _"]

lemma tokenize_Nil: "tokenize [] = Ok []"
  by (simp add: tokenize.simps)

lemma parse_one: "parse_f64 ''1'' = Some 0x3FF0000000000000"
proof -
  have l: "bit_length (2 ^ 1074) = 1075" by (rule bit_length_unique [of 1074, simplified]) simp_all
  have "round_ratio (2 ^ 1074) 1 = 2 ^ 1074" by (simp add: round_ratio_def round_to_def l [simplified] Let_def)
  then have "f64_of_decimal 1 0 = 0x3FF0000000000000" by (simp add: f64_of_decimal_def f64_encode_def l [simplified])
  then show ?thesis by (simp add: parse_f64_def take_sign_def ascii_lower_def is_ascii_digit_def parse_exponent_def f64_signed_def dec_value_def)
qed

lemma era_rule_parsed: "parse_expression ''era >= 1'' = Ok (EBinary OpGe (EVar (Ident ''era'')) (ENumber F64_ONE))"
proof -
  have "tokenize ''era >= 1'' = Ok [TIdent ''era'', TGe, TNumber F64_ONE]"
    using parse_one by (simp add: tokenize.simps [of "_ # _"] tokenize_Nil lex_defs is_finite64_def F64_ONE_def)
  then show ?thesis by (simp add: parse_expression_def parser_defs)
qed

lemma game_rule_parsed:
  "parse_expression game_rule = Ok (EBinary OpLe
     (EBinary OpAdd (EBinary OpAdd (EBinary OpAdd (EVar (Parameter [''gameplay'', ''aero_points'']))
        (EVar (Parameter [''gameplay'', ''chassis_points'']))) (EVar (Parameter [''gameplay'', ''cooling_points''])))
        (EVar (Parameter [''gameplay'', ''engine_points'']))) (EVar (Ident ''budget_lvl'')))"
proof -
  have "tokenize game_rule = Ok (rule_path ''aero_points'' @ TPlus # rule_path ''chassis_points'' @ TPlus #
      rule_path ''cooling_points'' @ TPlus # rule_path ''engine_points'' @ [TLe, TIdent ''budget_lvl''])"
    by (simp add: game_rule_def tokenize.simps [of "_ # _"] tokenize_Nil lex_defs rule_path_def)
  then show ?thesis by (simp add: parse_expression_def rule_path_def parser_defs)
qed

lemma era_unlocked:
  assumes "unlocked (budget_context era budget) spec" "unlock_expr spec = Some ''era >= 1''"
  shows "era \<noteq> 0"
proof
  assume "era = 0"
  then have "f64_le F64_ONE (f64_from_int 0)"
    using assms
    by (auto simp: unlocked_def era_rule_parsed eval_bool_def strict_binary_def as_number_def as_bool_def eval_context_def budget_context_def)
  moreover have "f64_from_int 0 = F64_ZERO"
    by (simp add: f64_from_int_def f64_signed_def f64_encode_def round53_def bit_length.simps [of 0] Let_def F64_ZERO_def)
  ultimately show False by (simp add: f64_le_def f64_constant_values)
qed

definition budget_level :: "64 word \<Rightarrow> 64 word" where
  "budget_level budget = f64_from_int (sint (f64_as_i64 (f64_floor budget)))"

definition setup_cost :: "TuningSpec \<Rightarrow> 64 word" where
  "setup_cost t = f64_add (f64_add (f64_add (aero_points t) (chassis_points t)) (cooling_points t)) (engine_points t)"

lemma game_rule_holds:
  assumes "constraint_holds (eval_context (budget_context era budget) (Some canonical))
      \<lparr>constraint_name = n, constraint_rule = game_rule, constraint_error_msg = msg\<rparr>"
    "json_get canonical ''gameplay'' = Some (JObject members)"
    "\<And>name field. (name, field) \<in> set tuning_fields \<Longrightarrow> map_of members name = Some (JNumber (Float (field t)))"
  shows "f64_le (setup_cost t) (budget_level budget)"
proof -
  have "resolve_parameter canonical [''gameplay'', name] = Ok (VNumber (field t))" if "(name, field) \<in> set tuning_fields" for name field
    using assms(2) assms(3) [OF that] by (simp add: resolve_parameter_def json_get_def number_as_f64_def)
  then have "resolve_parameter canonical [''gameplay'', ''aero_points''] = Ok (VNumber (aero_points t))"
    "resolve_parameter canonical [''gameplay'', ''chassis_points''] = Ok (VNumber (chassis_points t))"
    "resolve_parameter canonical [''gameplay'', ''cooling_points''] = Ok (VNumber (cooling_points t))"
    "resolve_parameter canonical [''gameplay'', ''engine_points''] = Ok (VNumber (engine_points t))"
    by (simp_all add: tuning_fields_def)
  moreover have "suffix ''_lvl'' ''budget_lvl''" by (simp add: suffix_def)
  ultimately show ?thesis using assms(1)
    by (simp add: constraint_holds_def game_rule_parsed eval_bool_def strict_binary_def as_number_def as_bool_def eval_context_def
        budget_context_def setup_cost_def budget_level_def)
qed

text \<open>The tunings the game accepts: points between 0 and 100, sliders between 0 and 1, and points that cost at most the whole
  part of the budget, from the first era on.\<close>

definition game_tuning :: "u32 \<Rightarrow> 64 word \<Rightarrow> TuningSpec \<Rightarrow> bool" where
  "game_tuning era budget t \<longleftrightarrow> era \<noteq> 0 \<and>
     (\<forall>x\<in>{aero_points t, chassis_points t, cooling_points t, engine_points t}. is_finite64 x \<and> f64_le 0 x \<and> f64_le x 0x4059000000000000) \<and>
     (\<forall>x\<in>{downforce_slider t, gear_ratio_slider t}. is_finite64 x \<and> f64_le 0 x \<and> f64_le x F64_ONE) \<and>
     f64_le (setup_cost t) (budget_level budget)"

lemma game_policy_sound:
  assumes "policy_tuning game_policy era budget tuning = Ok t"
  shows "game_tuning era budget t"
proof -
  obtain subsystem specs members canonical where sub: "map_of (policy_parameters game_policy) subsystem = Some specs"
    and each: "\<forall>(name, field)\<in>set tuning_fields. \<exists>r dflt unlock. map_of specs name = Some (FloatSpec r dflt unlock) \<and>
       map_of members name = Some (JNumber (Float (field t))) \<and> is_finite64 (field t) \<and>
       f64_le (range_low r) (field t) \<and> f64_le (field t) (range_high r) \<and> unlocked (budget_context era budget) (FloatSpec r dflt unlock)"
    and got: "json_get canonical subsystem = Some (JObject members)"
    and cs: "list_all (constraint_holds (eval_context (budget_context era budget) (Some canonical)))
       (the (derived_constraints game_policy))"
    using policy_tuning_sound [OF assms] by (auto simp: game_policy_def)
  have gameplay: "subsystem = ''gameplay''" and specs: "specs = snd (hd (policy_parameters game_policy))"
    using sub by (auto simp: game_policy_def split: if_splits)
  have "f64_le (setup_cost t) (budget_level budget)"
    by (rule game_rule_holds) (use cs got each gameplay in \<open>auto simp: game_policy_def\<close>)
  moreover have "era \<noteq> 0"
    by (rule era_unlocked [where spec = points_spec and budget = budget])
      (use each in \<open>auto simp: specs game_policy_def tuning_fields_def points_spec_def unlock_expr_def\<close>)
  ultimately show ?thesis
    using each by (auto simp: game_tuning_def specs game_policy_def tuning_fields_def points_spec_def slider_spec_def F64_ONE_def)
qed

text \<open>The embedded policy passes its own static checks.\<close>

lemma game_policy_valid: "validate_static game_policy = Ok ()"
proof -
  have "trim ''gameplay_budget_cap'' \<noteq> []" by code_simp
  moreover have "suffix ''_lvl'' ''budget_lvl''" by (simp add: suffix_def)
  moreover have "is_finite64 0x4059000000000000" "is_finite64 0x3FF0000000000000" "is_finite64 0x3F847AE147AE147B" "is_finite64 0"
    "is_finite64 0x3FE0000000000000"
    by (simp_all add: is_finite64_def)
  moreover have "f64_scaled 0x4059000000000000 = 100 * 2 ^ 1074" "f64_scaled 0x3FF0000000000000 = 2 ^ 1074" "0 < f64_scaled 0x3F847AE147AE147B"
    "f64_scaled 0x3FE0000000000000 = 2 ^ 1073" "f64_scaled 0 = 0"
    by (simp_all add: f64_scaled_def f64_magnitude_def f64_exponent_def f64_fraction_def)
  ultimately show ?thesis
    by (simp add: validate_static_def game_policy_def TUNING_POLICY_V1_VERSION_def points_spec_def slider_spec_def validate_spec_def
        check_unlock_def era_rule_parsed game_rule_parsed known_identifier_def parameter_path_def finite_not_nan f64_lt_def f64_le_def
        F64_ZERO_def Let_def)
qed

section \<open>Accepted races\<close>

text \<open>\<open>normalize_and_validate_race_input\<close> with the policy it is given; \<open>describe\<close> is the text of a refusal.\<close>

definition normalize_race_with_policy ::
    "(tuning_refusal \<Rightarrow> string) \<Rightarrow> TuningPolicyV1 \<Rightarrow> RaceInput \<Rightarrow> u32 \<Rightarrow> PolicyError + RaceInput" where
  "normalize_race_with_policy describe pol race era =
     normalize_and_validate_race_input_with_policy (\<lambda>era budget tuning. map_err describe (policy_tuning pol era budget tuning)) race era"

text \<open>C38: Every competitor of a race that the embedded policy accepts has a setup within its ranges and its budget, whatever the
  input was, and the competitors are those of the input in their order.\<close>

theorem accepted_race_in_budget:
  assumes "normalize_race_with_policy describe game_policy race era = Ok normalized"
  shows "map competitor_spec_id (race_competitors normalized) = map competitor_spec_id (race_competitors race) \<and>
    (\<forall>c\<in>set (race_competitors normalized). game_tuning era (competitor_budget_cap c) (competitor_tuning c))"
proof -
  obtain specs where normalized: "normalized = race\<lparr>race_competitors := specs\<rparr>"
    and specs: "list_all2 (\<lambda>spec out. map_err (CompetitorError (competitor_spec_id spec)) (normalize_competitor
      (\<lambda>era budget tuning. map_err describe (policy_tuning game_policy era budget tuning)) spec era) = Ok out) (race_competitors race) specs"
    using assms
    by (auto simp: normalize_race_with_policy_def normalize_and_validate_race_input_with_policy_def result_simps split: if_splits)
  have each: "competitor_spec_id out = competitor_spec_id spec \<and> game_tuning era (competitor_budget_cap out) (competitor_tuning out)"
    if "normalize_competitor (\<lambda>era budget tuning. map_err describe (policy_tuning game_policy era budget tuning)) spec era = Ok out" for spec out
    using that by (auto simp: normalize_competitor_def result_simps game_policy_sound split: if_splits)
  show ?thesis
    using specs unfolding normalized by (induction rule: list_all2_induct) (auto simp: result_simps dest!: each)
qed

lemma zero_parts: "f64_magnitude 0 = 0" "f64_scaled 0 = 0" "\<not> f64_nan 0" "\<not> f64_infinite 0" "is_finite64 0"
  by (simp_all add: f64_magnitude_def f64_scaled_def f64_nan_def f64_infinite_def f64_exponent_def f64_fraction_def is_finite64_def)

lemma encode_zero: "f64_encode 0 = 0" "round_ratio 0 d = 0" "round53 0 = 0"
  by (simp_all add: f64_encode_def round_ratio_def round_to_def round53_def bit_length.simps [of 0] Let_def)

lemma quantize_zero:
  assumes "range_low r = 0" "f64_le 0 (range_high r)" "is_finite64 (range_step r)" "0 < f64_scaled (range_step r)"
  shows "quantize_float 0 r = Some 0"
proof -
  have step: "\<not> f64_nan (range_step r)" "\<not> f64_infinite (range_step r)" "f64_magnitude (range_step r) \<noteq> 0" "\<not> bit (range_step r) 63"
    using assms(3,4) by (auto simp: finite_not_nan is_finite64_exponent f64_infinite_def f64_scaled_def split: if_splits)
  have "f64_clamp 0 0 (range_high r) = Some 0"
    using assms(2) by (auto simp: f64_clamp_def f64_lt_def f64_le_def)
  moreover have "f64_sub 0 0 = 0"
  proof -
    have "0 XOR (0x8000000000000000 :: 64 word) = 0x8000000000000000" by simp
    moreover have "f64_scaled 0x8000000000000000 = 0" "\<not> f64_nan 0x8000000000000000" "\<not> f64_infinite 0x8000000000000000"
      by (simp_all add: f64_scaled_def f64_magnitude_def f64_nan_def f64_infinite_def f64_exponent_def f64_fraction_def)
    ultimately show ?thesis by (simp add: f64_sub_def f64_add_def zero_parts)
  qed
  moreover have "f64_div 0 (range_step r) = 0" "f64_mul 0 (range_step r) = 0" "f64_round 0 = 0" "f64_add 0 0 = 0"
    using step by (simp_all add: f64_div_def f64_mul_def f64_round_def f64_add_def zero_parts encode_zero f64_signed_def)
  moreover have "\<not> f64_eq (range_step r) F64_ZERO" using assms(4) by (simp add: f64_eq_def F64_ZERO_def zero_parts)
  ultimately show ?thesis by (simp add: quantize_float_def assms(1) Let_def)
qed

lemma zero_parameter:
  assumes "spec = points_spec \<or> spec = slider_spec" "map_of members name = Some (JNumber (Float 0))"
  shows "canonical_parameter (budget_context 1 budget) (Some members) subsystem (name, spec) = Ok (name, JNumber (Float 0))"
proof -
  have one: "f64_from_int 1 = F64_ONE"
  proof -
    have l: "bit_length (2 ^ 1074) = 1075" by (rule bit_length_unique [of 1074, simplified]) simp_all
    then have "round53 (2 ^ 1074) = 2 ^ 1074" by (simp add: round53_def Let_def l [simplified])
    then show ?thesis by (simp add: f64_from_int_def f64_signed_def f64_encode_def l [simplified] F64_ONE_def)
  qed
  have "unlocked (budget_context 1 budget) spec"
    using assms(1) f64_order(2) [OF f64_constants_not_nan(3)]
    by (auto simp: unlocked_def unlock_expr_def points_spec_def slider_spec_def era_rule_parsed eval_bool_def strict_binary_def
        as_number_def as_bool_def eval_context_def budget_context_def one)
  moreover have "is_finite64 0x3FF0000000000000" "is_finite64 0x3F847AE147AE147B"
    by (simp_all add: is_finite64_def)
  moreover have "f64_scaled 0x4059000000000000 = 100 * 2 ^ 1074" "f64_scaled 0x3FF0000000000000 = 2 ^ 1074" "0 < f64_scaled 0x3F847AE147AE147B"
    "\<not> f64_nan 0x4059000000000000" "\<not> f64_nan 0x3FF0000000000000"
    by (simp_all add: f64_scaled_def f64_magnitude_def f64_exponent_def f64_fraction_def f64_nan_def)
  ultimately have "canonicalize_parameter_value spec (JNumber (Float 0)) path = Ok (JNumber (Float 0))" for path
    using assms(1)
    by (auto simp: canonicalize_parameter_value_def points_spec_def slider_spec_def number_as_f64_def zero_parts quantized_json_def json_float_def
        quantize_zero f64_le_def)
  with \<open>unlocked (budget_context 1 budget) spec\<close> show ?thesis
    using assms(2) by (simp add: canonical_parameter_def check_unlocked_Ok [THEN iffD2])
qed

lemma zero_tuning_accepted:
  "policy_tuning game_policy 1 0 (competitor_tuning sample_competitor) = Ok (competitor_tuning sample_competitor)"
proof -
  define members where "members = map (\<lambda>(name, field :: TuningSpec \<Rightarrow> 64 word). (name, JNumber (Float 0))) tuning_fields"
  have json: "tuning_to_json (competitor_tuning sample_competitor) = JObject members"
    by (simp add: tuning_to_json_def tuning_fields_def members_def sample_competitor_def zero_parts)
  have sub: "resolve_tuning_subsystem game_policy = Ok ''gameplay''"
    by (simp add: resolve_tuning_subsystem_def game_policy_def tuning_field_names_def tuning_fields_def)
  have "canonicalize_tuning game_policy (budget_context 1 0) (JObject [(''gameplay'', JObject members)]) =
      Ok (JObject [(''gameplay'', JObject members)])"
    by (simp add: canonicalize_tuning_def as_object_def check_known_def game_policy_def zero_parameter members_def tuning_fields_def)
  moreover have "validate_constraints game_policy (budget_context 1 0) (JObject [(''gameplay'', JObject members)]) = Ok ()"
  proof -
    have "f64_add 0 0 = 0" "f64_le 0 0" by (simp_all add: f64_add_def f64_le_def zero_parts)
    moreover have "f64_from_int (sint (f64_as_i64 (f64_floor 0))) = 0"
      by (simp add: f64_floor_def f64_as_i64_def zero_parts f64_from_int_def f64_signed_def encode_zero)
    moreover have "suffix ''_lvl'' ''budget_lvl''" by (simp add: suffix_def)
    ultimately show ?thesis
      by (simp add: validate_constraints_Ok game_policy_def constraint_holds_def game_rule_parsed eval_bool_def strict_binary_def
          as_number_def as_bool_def eval_context_def budget_context_def resolve_parameter_def json_get_def members_def
          tuning_fields_def number_as_f64_def)
  qed
  ultimately show ?thesis
    by (simp add: policy_tuning_def sub json json_get_def)
       (simp add: tuning_from_json_def json_number_field_def json_get_def members_def tuning_fields_def number_as_f64_def sample_competitor_def)
qed

theorem accepted_race_in_budget_witness:
  "normalize_race_with_policy (\<lambda>_. ''refused'') game_policy sample_race 1 = Ok sample_race \<and>
     game_tuning 1 (competitor_budget_cap sample_competitor) (competitor_tuning sample_competitor)"
proof -
  have "trim ''monza'' \<noteq> []" by code_simp
  moreover have budget: "competitor_budget_cap sample_competitor = 0" by (simp add: sample_competitor_def)
  moreover have "\<not> f64_lt 0 F64_ZERO" by (simp add: f64_lt_def F64_ZERO_def)
  ultimately have ok: "normalize_race_with_policy (\<lambda>_. ''refused'') game_policy sample_race 1 = Ok sample_race"
    by (simp add: normalize_race_with_policy_def normalize_and_validate_race_input_with_policy_def sample_race_def
        normalize_competitor_def zero_parts zero_tuning_accepted)
  with accepted_race_in_budget [OF ok] show ?thesis by (simp add: sample_race_def)
qed

section \<open>Validated policies do not panic\<close>

lemma valid_range_clamps:
  assumes "validate_spec path (FloatSpec r dflt unlock) known = Ok ()"
  shows "quantize_float v r \<noteq> None"
proof -
  have "f64_le (range_low r) (range_high r)"
    using assms by (auto simp: validate_spec_def f64_le_def f64_lt_def finite_not_nan split: if_splits)
  then show ?thesis by (auto simp: quantize_float_def f64_clamp_def Let_def)
qed

lemma valid_spec_no_panic:
  assumes "validate_spec path spec known = Ok ()"
  shows "default_value spec p \<noteq> Err PolicyPanic" "canonicalize_parameter_value spec raw p \<noteq> Err PolicyPanic"
  using assms valid_range_clamps
  by (cases spec; auto simp: default_value_def canonicalize_parameter_value_def quantized_json_def json_float_def result_simps
      split: json.splits if_splits)+

lemma validate_specs_each:
  "validate_specs subsystem known specs = Ok out \<Longrightarrow> (name, spec) \<in> set specs \<Longrightarrow> \<exists>path k. validate_spec path spec k = Ok ()"
  by (induction subsystem known specs rule: validate_specs.induct) (auto simp: Let_def result_simps)

lemma validate_subsystems_each:
  "validate_subsystems known subs = Ok out \<Longrightarrow> (subsystem, specs) \<in> set subs \<Longrightarrow> \<exists>k out. validate_specs subsystem k specs = Ok out"
  by (induction known subs rule: validate_subsystems.induct) (auto simp: result_simps split: if_splits)

lemma try_map_no_error: "(\<And>x. x \<in> set xs \<Longrightarrow> f x \<noteq> Err e) \<Longrightarrow> try_map f xs \<noteq> Err e"
  by (induction xs) (auto simp: result_simps)

lemma try_each_no_error: "(\<And>x. x \<in> set xs \<Longrightarrow> f x \<noteq> Err e) \<Longrightarrow> try_each f xs \<noteq> Err e"
  by (induction xs) (auto simp: result_simps)

text \<open>Under a policy that passes the static checks no request makes the engine panic.\<close>

theorem validated_policy_no_panic:
  assumes "validate_static pol = Ok ()"
  shows "canonicalize_tuning pol ctx req \<noteq> Err PolicyPanic"
proof -
  obtain known where "validate_subsystems {} (policy_parameters pol) = Ok known"
    using assms by (auto simp: validate_static_def result_simps split: if_splits)
  then have valid: "\<exists>path k. validate_spec path spec k = Ok ()"
    if "(subsystem, specs) \<in> set (policy_parameters pol)" "(name, spec) \<in> set specs" for subsystem specs name spec
    using that validate_subsystems_each validate_specs_each by blast
  have "check_unlocked ctx spec path \<noteq> Err PolicyPanic" for spec path
    by (auto simp: check_unlocked_def result_simps split: option.splits)
  then have "canonical_parameter ctx req_sub subsystem (name, spec) \<noteq> Err PolicyPanic"
    if "(subsystem, specs) \<in> set (policy_parameters pol)" "(name, spec) \<in> set specs" for req_sub subsystem specs name spec
    using valid [OF that] valid_spec_no_panic by (auto simp: canonical_parameter_def Let_def result_simps split: option.splits)
  then have "try_map (canonical_parameter ctx req_sub subsystem) specs \<noteq> Err PolicyPanic"
    if "(subsystem, specs) \<in> set (policy_parameters pol)" for req_sub subsystem specs
    using that by (intro try_map_no_error) auto
  then have "(case x of (subsystem, specs) \<Rightarrow> map_ok (\<lambda>members. (subsystem, JObject members))
      (try_map (canonical_parameter ctx (Option.bind (map_of req_params subsystem) as_object) subsystem) specs)) \<noteq> Err PolicyPanic"
    if "x \<in> set (policy_parameters pol)" for x req_params
    using that by (cases x) (auto simp: result_simps)
  moreover have "check_known pol x \<noteq> Err PolicyPanic" for x
    by (auto simp: check_known_def result_simps intro!: try_each_no_error split: prod.splits if_splits)
  ultimately show ?thesis
    by (auto simp: canonicalize_tuning_def result_simps try_map_no_error try_each_no_error)
qed

end
