(* ===== verification/Spec2Isabelle.thy ===== *)
theory Spec2Isabelle
  imports Runtime_Rng Access Segment Codec_F1 Registry Authority Tuning_Policy
begin

text \<open>
  A verification development for Pitgun, a platform of deterministic racing simulations whose results can be checked by replay.

  \<^bold>\<open>The program.\<close> An authority (\<open>services/pitgun-authority\<close>) normalizes a race with a tuning policy, writes a run contract, and
  signs it with a window of validity. A client executes the contract (\<open>crates/pitgun-runtime\<close>, \<open>crates/pitgun-racing-simulator\<close>
  over \<open>crates/pitgun-racing-solver\<close>), for a dynamic attempt lap by lap through a stream of batches, and submits the evidence with a
  receipt. A verifier (\<open>services/pitgun-verifier\<close>) checks the signature, the contract, the catalog and the receipt, replays the
  race and issues a verdict. Identities are digests of canonical JSON (\<open>crates/pitgun-contract\<close>). Beside this path stand the
  telemetry codecs and processors (\<open>crates/pitgun-codec-udp\<close>, \<open>crates/pitgun-core\<close>) and access control (\<open>crates/pitgun-policy\<close>).

  \<^bold>\<open>Shared theories.\<close>
  \<^item> \<open>Pitgun_Prelude\<close>: results as sums with \<open>and_then\<close>, \<open>and_also\<close>, \<open>try_map\<close> and the collection \<open>result_simps\<close>; text as UTF-8
    bytes; decimal numbers; the locales of text codecs, byte codecs and guarded machines.
  \<^item> \<open>Float64\<close>, \<open>Float_Arith\<close>: \<open>f64\<close> as its 64 bits, with exact order and correctly rounded arithmetic.
  \<^item> \<open>Serde_Model\<close>: how derived serializers lay out values, and that they are injective;
    the locale of content-addressed values.

  \<^bold>\<open>Contracts and identities.\<close>
  \<^item> \<open>Determinism\<close> (\<open>contract/determinism.rs\<close>): digests, the strict reader, the canonical profile; both validators agree.
  \<^item> \<open>Frame\<close> (\<open>frame.rs\<close>), \<open>Run_Contract\<close> (\<open>run.rs\<close>): a run id binds its contract; a telemetry summary is exact.
  \<^item> \<open>Execution_Stream\<close> (\<open>execution_stream.rs\<close>): the cursor accepts exactly the well-numbered streams, and a rejected batch leaves
    it unchanged.
  \<^item> \<open>Authorization\<close>, \<open>Signing\<close>, \<open>Verdict\<close>, \<open>Bundle\<close>, \<open>Catalog\<close>: windows, signatures, verdict shapes, bundle layout, releases.
  \<^item> \<open>Runtime_Rng\<close> (\<open>runtime/rng.rs\<close>): the period of the generator and the separation of its streams.
  \<^item> \<open>Runtime_Exec\<close> (\<open>runtime/workload.rs\<close>, \<open>verification.rs\<close>): linked execution and offline bundle verification; a manifest
    fixes the artifacts, the contract and the scenario of a verified bundle up to a collision.

  \<^bold>\<open>Racing.\<close>
  \<^item> \<open>Driver_Instructions\<close>, \<open>Stint_Plan\<close>, \<open>Experiment_Profile\<close>, \<open>Racing_Models\<close>: instruction envelopes, stint plans and parameter groups.
  \<^item> \<open>Solver_Session\<close> (\<open>racing-solver\<close>), \<open>Incremental_Session\<close> (\<open>racing-simulator/lib.rs\<close>): the lap loop and the lockstep of the field;
    a pull session computes what the one-shot run computes, and its stream is accepted by the cursor.
  \<^item> \<open>Tuning_Expr\<close>, \<open>Tuning_Policy\<close> (\<open>policy/tuning\<close>, \<open>racing-policy\<close>): the expression language and the policies; a printed
    expression is read back, and an accepted race keeps every setup in its ranges and its budget.
  \<^item> \<open>Race_Start\<close>, \<open>Dynamic_Session\<close>, \<open>Session_Table\<close> (\<open>local_stream.rs\<close>, \<open>evidence.rs\<close>): the conditions under which a
    published race starts and what its output then keeps, authorized sessions and their handles, which do not interfere, with the locale of pull protocols.
  \<^item> \<open>Racing_Workload\<close>, \<open>Verifier\<close>, \<open>Verifier_Attempt\<close>, \<open>Authority\<close>: the services. A verdict is \<open>Verified\<close> exactly when every check
    and the replay agree; an honest run is verified; what the authority signs the verifier admits.

  \<^bold>\<open>Telemetry and access.\<close>
  \<^item> \<open>Codec_Udp\<close>, \<open>Codec_F1\<close> (\<open>codec-udp\<close>): the packet formats; the ECUBridge checksum detects every change of one byte, and
    a decoded F1 packet depends on one car alone and is read inside its bounds, every index of the code being a partial read.
  \<^item> \<open>Segment\<close>, \<open>Registry\<close> (\<open>core/segment.rs\<close>, \<open>converter.rs\<close>, \<open>telemetry_aggregate.rs\<close>, \<open>contract/registry.rs\<close>).
  \<^item> \<open>Access\<close> (\<open>policy/access.rs\<close>): decisions, the audit log, and the answers of the rate limiter in
    every window.

  \<^bold>\<open>Parameters.\<close> Code outside the repository, and numeric code of the platform, is an argument: \<open>externals\<close> (SHA-256, NFC, the
  RFC 8785 serializer, semver, uuid), \<open>crypto\<close> (HMAC, hex), \<open>lap_solver\<close>, \<open>race_engine\<close>, \<open>race_setup\<close>, \<open>race_host\<close>,
  \<open>racing_simulator\<close> and \<open>racing_view\<close> (the physics of a lap and the resolution of catalog resources), the logarithm and the YAML
  reader of the registry. What a theorem needs of one is a named hypothesis, and its witness instantiates it. Clocks and random
  bytes are arguments.

  \<^bold>\<open>Bounds and termination.\<close> Integers keep their width. Loops are structural or have a measure. The loops that drive a session to its end
  (\<open>run_session\<close>, \<open>race_collect\<close>, \<open>drive\<close>) are partial functions whose results are proved to exist. The parser of \<open>Tuning_Expr\<close> has fuel one above the number of its
  tokens, which is proved to be enough for every text. A panic is a value (\<open>None\<close> or an error of its own) and is excluded where
  the code excludes it.

  \<^bold>\<open>Not modelled.\<close> The physics of a lap and the numeric resolution of catalogs are floating-point formulas over transcendental
  functions. The simulation contracts of the authority, the earlier simulator (\<open>crates/pitgun-simulator\<close>), the formula processor
  and the JSON codec are left out. The telemetry sources, the pipeline, the gateway, the command line and the HTTP shells are input
  and output over asynchronous runtimes; \<open>generated\<close> holds generated tables. Error messages are represented by their causes.
\<close>

end
